(* ===== verification/Go_Prelude.thy ===== *)
theory Go_Prelude
  imports Main "HOL-Library.Sublist"
begin

text \<open>
  The fragment of Go's run-time model that every component shares: errors as values, 64-bit
  signed arithmetic, wall-clock times and durations, request contexts, and the collections of
  facts (\<open>go_arith\<close>, \<open>go_err\<close>, \<open>validate_defs\<close>) that the component proofs draw on.
\<close>

named_theorems go_arith "facts on 64-bit arithmetic, times and durations"
named_theorems go_err "facts on error values and fallible calls"
named_theorems validate_defs "definitions of the Validate methods"

section \<open>Errors\<close>

text \<open>
  A Go \<^verbatim>\<open>error\<close> is a value with a message and possibly a wrapped cause. \<open>ErrorString\<close> is
  \<^verbatim>\<open>errors.New\<close> (or \<^verbatim>\<open>fmt.Errorf\<close> with no \<^verbatim>\<open>%w\<close>), \<open>WrapError m e\<close> is \<^verbatim>\<open>fmt.Errorf\<close> with a \<^verbatim>\<open>%w\<close>
  verb: \<open>m\<close> is the complete text and \<open>e\<close> the wrapped error. \<open>DeadlineExceeded\<close> and \<open>Canceled\<close>
  are the two errors of package \<^verbatim>\<open>context\<close>. \<open>ProviderError\<close> is the struct of that name in
  \<^verbatim>\<open>internal/contracts/contracts.go\<close>.
\<close>

datatype provider_category =
    ProviderErrValidation
  | ProviderErrUnavailable
  | ProviderErrTimeout
  | ProviderErrUnauthorized
  | ProviderErrInternal

datatype error =
    ErrorString string
  | WrapError string error
  | DeadlineExceeded
  | Canceled
  | ProviderError provider_category string string "error option"

type_synonym 'a result = "error + 'a"

fun category_string :: "provider_category \<Rightarrow> string" where
  "category_string ProviderErrValidation = ''validation''"
| "category_string ProviderErrUnavailable = ''unavailable''"
| "category_string ProviderErrTimeout = ''timeout''"
| "category_string ProviderErrUnauthorized = ''unauthorized''"
| "category_string ProviderErrInternal = ''internal''"

text \<open>The \<^verbatim>\<open>Error()\<close> method, and \<^verbatim>\<open>errors.Is(err, context.DeadlineExceeded)\<close>, which follows the
  \<^verbatim>\<open>Unwrap\<close> chain.\<close>

fun error_text :: "error \<Rightarrow> string" where
  "error_text (ErrorString m) = m"
| "error_text (WrapError m e) = m"
| "error_text DeadlineExceeded = ''context deadline exceeded''"
| "error_text Canceled = ''context canceled''"
| "error_text (ProviderError c p op (Some e)) =
     p @ '' provider error ('' @ category_string c @ '') on '' @ op @ '': '' @ error_text e"
| "error_text (ProviderError c p op None) =
     p @ '' provider error ('' @ category_string c @ ''): '' @ op"

fun error_unwrap :: "error \<Rightarrow> error option" where
  "error_unwrap (WrapError m e) = Some e"
| "error_unwrap (ProviderError c p op e) = e"
| "error_unwrap _ = None"

fun is_deadline :: "error \<Rightarrow> bool" where
  "is_deadline DeadlineExceeded = True"
| "is_deadline (WrapError m e) = is_deadline e"
| "is_deadline (ProviderError c p op (Some e)) = is_deadline e"
| "is_deadline _ = False"

text \<open>A fallible call followed by the code's \<^verbatim>\<open>if err != nil { return ..., err }\<close>.\<close>

fun bind_result :: "'a result \<Rightarrow> ('a \<Rightarrow> 'b result) \<Rightarrow> 'b result" where
  "bind_result (Inl e) f = Inl e"
| "bind_result (Inr a) f = f a"

lemma bind_result_Inr [go_err]:
  "bind_result r f = Inr b \<longleftrightarrow> (\<exists>a. r = Inr a \<and> f a = Inr b)"
  by (cases r) auto

text \<open>The two shapes of \<^verbatim>\<open>if err := check(); err != nil { return ... }\<close>.\<close>

lemma check_None [simp]:
  "(case v of None \<Rightarrow> x | Some e \<Rightarrow> Some (g e)) = None \<longleftrightarrow> v = None \<and> x = None"
  by (cases v) auto

lemma check_Inr [simp]:
  "(case v of None \<Rightarrow> x | Some e \<Rightarrow> Inl (g e)) = Inr y \<longleftrightarrow> v = None \<and> x = Inr y"
  by (cases v) auto

lemma call_Inr [simp]:
  "(case r of Inl e \<Rightarrow> Inl (g e) | Inr a \<Rightarrow> f a) = Inr y \<longleftrightarrow> (\<exists>a. r = Inr a \<and> f a = Inr y)"
  by (cases r) auto

lemma call_None [simp]:
  "(case r of Inl e \<Rightarrow> Some (g e) | Inr a \<Rightarrow> f a) = None \<longleftrightarrow> (\<exists>a. r = Inr a \<and> f a = None)"
  by (cases r) auto

lemma is_deadline_unwrap:
  "is_deadline e \<longleftrightarrow> e = DeadlineExceeded \<or> (\<exists>e'. error_unwrap e = Some e' \<and> is_deadline e')"
  by (cases e rule: is_deadline.cases) auto

section \<open>64-bit integers\<close>

text \<open>
  Go's \<^verbatim>\<open>int\<close> and \<^verbatim>\<open>int64\<close> are two's complement with 64 bits on every platform the service is built
  for. Values are \<open>int\<close>; \<open>wrap64\<close> is the value an arithmetic operation leaves behind.
\<close>

definition wrap64 :: "int \<Rightarrow> int" where
  "wrap64 i = (i + 2 ^ 63) mod 2 ^ 64 - 2 ^ 63"

definition is_int64 :: "int \<Rightarrow> bool" where
  "is_int64 i \<longleftrightarrow> - (2 ^ 63) \<le> i \<and> i < 2 ^ 63"

lemma wrap64_id [go_arith]: "is_int64 i \<Longrightarrow> wrap64 i = i"
  by (simp add: wrap64_def is_int64_def)

lemma wrap64_range: "is_int64 (wrap64 i)"
  by (simp add: wrap64_def is_int64_def)

lemma wrap64_wrap64 [simp]: "wrap64 (wrap64 i) = wrap64 i"
  by (rule wrap64_id) (rule wrap64_range)

lemma wrap64_max: "wrap64 (2 ^ 63) = - (2 ^ 63)"
  by (simp add: wrap64_def)

text \<open>\<^verbatim>\<open>counter++\<close> on an \<^verbatim>\<open>int\<close>.\<close>

definition inc64 :: "int \<Rightarrow> int" where
  "inc64 i = wrap64 (i + 1)"

lemma inc64_eq [go_arith]: "is_int64 i \<Longrightarrow> i \<noteq> 2 ^ 63 - 1 \<Longrightarrow> inc64 i = i + 1"
  unfolding inc64_def by (rule wrap64_id) (auto simp: is_int64_def)

lemma inc64_small [go_arith]: "0 \<le> i \<Longrightarrow> i < b \<Longrightarrow> is_int64 b \<Longrightarrow> inc64 i = i + 1"
  unfolding inc64_def by (rule wrap64_id) (auto simp: is_int64_def)

text \<open>Division truncates towards zero.\<close>

definition go_quot :: "int \<Rightarrow> int \<Rightarrow> int" where
  "go_quot a b = (if (0 \<le> a) = (0 \<le> b) then \<bar>a\<bar> div \<bar>b\<bar> else - (\<bar>a\<bar> div \<bar>b\<bar>))"

section \<open>Times and durations\<close>

text \<open>
  A \<^verbatim>\<open>time.Time\<close> is the number of nanoseconds since the zero time (0001-01-01 UTC), so
  \<^verbatim>\<open>IsZero\<close> is equality with \<open>0\<close>; a \<^verbatim>\<open>time.Duration\<close> is a signed 64-bit number of nanoseconds.
  \<^verbatim>\<open>Sub\<close> saturates at the ends of the duration range.
\<close>

type_synonym time = int
type_synonym duration = int

definition nanos_per_second :: int where
  "nanos_per_second = 1000000000"

definition time_IsZero :: "time \<Rightarrow> bool" where
  "time_IsZero t \<longleftrightarrow> t = 0"

definition time_Unix :: "time \<Rightarrow> int" where
  "time_Unix t = t div nanos_per_second - 62135596800"

definition time_UnixNano :: "time \<Rightarrow> int" where
  "time_UnixNano t = wrap64 (t - 62135596800 * nanos_per_second)"

definition time_Sub :: "time \<Rightarrow> time \<Rightarrow> duration" where
  "time_Sub t u = max (- (2 ^ 63)) (min (2 ^ 63 - 1) (t - u))"

definition time_Add :: "time \<Rightarrow> duration \<Rightarrow> time" where
  "time_Add t d = t + d"

definition dur_Milliseconds :: "duration \<Rightarrow> int" where
  "dur_Milliseconds d = go_quot d 1000000"

lemma time_Sub_int64: "is_int64 (time_Sub t u)"
  by (simp add: time_Sub_def is_int64_def)

lemma time_Sub_ge [go_arith]:
  "d < 2 ^ 63 \<Longrightarrow> - (2 ^ 63) < d \<Longrightarrow> d \<le> time_Sub t u \<longleftrightarrow> d \<le> t - u"
  by (auto simp: time_Sub_def)

section \<open>Frames\<close>

text \<open>An operation that leaves a view of the state alone.\<close>

definition keeps :: "('w \<Rightarrow> 'b) \<Rightarrow> ('w \<Rightarrow> 'r \<times> 'w) \<Rightarrow> bool" where
  "keeps f act \<longleftrightarrow> (\<forall>w. f (snd (act w)) = f w)"

lemma keepsD: "keeps f act \<Longrightarrow> act w = (r, w') \<Longrightarrow> f w' = f w"
  unfolding keeps_def by (metis snd_conv)

end
