(* ===== verification/Go_Strings.thy ===== *)
theory Go_Strings
  imports Go_Prelude
begin

text \<open>
  Package \<^verbatim>\<open>strings\<close> and the parts of \<^verbatim>\<open>unicode/utf8\<close> it rests on. A Go string is a sequence of
  bytes; so is Isabelle's \<open>string\<close> (a \<open>char\<close> is one byte), and \<^verbatim>\<open>len(s)\<close> is \<open>length s\<close>. White space is
  Unicode white space: the six ASCII characters and the seventeen code points above them, matched
  on their UTF-8 encodings. An encoding starts with a byte outside \<open>0x80..0xBF\<close>, so a match can
  start only where a rune starts, also in a string that is not valid UTF-8.
\<close>

section \<open>White space\<close>

definition byte :: "char \<Rightarrow> nat" where
  "byte c = of_char c"

definition ascii_space :: "char \<Rightarrow> bool" where
  "ascii_space c \<longleftrightarrow> byte c = 32 \<or> (9 \<le> byte c \<and> byte c \<le> 13)"

definition is_cont :: "char \<Rightarrow> bool" where
  "is_cont c \<longleftrightarrow> 128 \<le> byte c \<and> byte c \<le> 191"

definition space2 :: "char \<Rightarrow> char \<Rightarrow> bool" where
  "space2 c d \<longleftrightarrow> byte c = 194 \<and> (byte d = 133 \<or> byte d = 160)"

definition space3 :: "char \<Rightarrow> char \<Rightarrow> char \<Rightarrow> bool" where
  "space3 c d e \<longleftrightarrow>
     byte c = 225 \<and> byte d = 154 \<and> byte e = 128 \<or>
     byte c = 226 \<and> byte d = 128 \<and>
       (128 \<le> byte e \<and> byte e \<le> 138 \<or> byte e = 168 \<or> byte e = 169 \<or> byte e = 175) \<or>
     byte c = 226 \<and> byte d = 129 \<and> byte e = 159 \<or>
     byte c = 227 \<and> byte d = 128 \<and> byte e = 128"

text \<open>The width in bytes of the white-space rune a string starts with, \<open>0\<close> if there is none.\<close>

fun space_len :: "string \<Rightarrow> nat" where
  "space_len [] = 0"
| "space_len [c] = (if ascii_space c then 1 else 0)"
| "space_len [c, d] = (if ascii_space c then 1 else if space2 c d then 2 else 0)"
| "space_len (c # d # e # s) =
     (if ascii_space c then 1 else if space2 c d then 2 else if space3 c d e then 3 else 0)"

text \<open>The width of the white-space rune a string ends with (\<^verbatim>\<open>DecodeLastRuneInString\<close>).\<close>

definition tail_space :: "string \<Rightarrow> nat" where
  "tail_space s =
     (if 1 \<le> length s \<and> space_len (drop (length s - 1) s) = 1 then 1
      else if 2 \<le> length s \<and> space_len (drop (length s - 2) s) = 2 then 2
      else if 3 \<le> length s \<and> space_len (drop (length s - 3) s) = 3 then 3
      else 0)"

lemma space_len_le: "space_len s \<le> length s"
  by (cases s rule: space_len.cases) auto

lemma space_len_pos: "space_len s \<noteq> 0 \<Longrightarrow> s \<noteq> []"
  by auto

lemma tail_space_le: "tail_space s \<le> length s"
  by (simp add: tail_space_def)

function trim_left :: "string \<Rightarrow> string" where
  "trim_left s = (if space_len s = 0 then s else trim_left (drop (space_len s) s))"
  by pat_completeness auto
termination
proof (relation "measure length")
  fix s assume "space_len s \<noteq> 0"
  moreover from this have "s \<noteq> []" by (rule space_len_pos)
  ultimately show "(drop (space_len s) s, s) \<in> measure length" by simp
qed simp

function trim_right :: "string \<Rightarrow> string" where
  "trim_right s = (if tail_space s = 0 then s else trim_right (take (length s - tail_space s) s))"
  by pat_completeness auto
termination
proof (relation "measure length")
  fix s assume "tail_space s \<noteq> 0"
  then show "(take (length s - tail_space s) s, s) \<in> measure length"
    using tail_space_le [of s] by auto
qed simp

declare trim_left.simps [simp del] trim_right.simps [simp del]

definition TrimSpace :: "string \<Rightarrow> string" where
  "TrimSpace s = trim_right (trim_left s)"

text \<open>\<^verbatim>\<open>strings.Fields\<close>: the maximal runs of bytes outside white space.\<close>

definition flush :: "string \<Rightarrow> string list" where
  "flush cur = (if cur = [] then [] else [cur])"

fun fields_from :: "string \<Rightarrow> string \<Rightarrow> string list" where
  "fields_from cur [] = flush cur"
| "fields_from cur (c # s) =
     (case space_len (c # s) of
        0 \<Rightarrow> fields_from (cur @ [c]) s
      | Suc n \<Rightarrow> flush cur @ fields_from [] (drop n s))"

definition Fields :: "string \<Rightarrow> string list" where
  "Fields s = fields_from [] s"

fun Join :: "string list \<Rightarrow> string \<Rightarrow> string" where
  "Join [] sep = []"
| "Join [a] sep = a"
| "Join (a # b # xs) sep = a @ sep @ Join (b # xs) sep"

section \<open>Searching and cutting\<close>

definition HasPrefix :: "string \<Rightarrow> string \<Rightarrow> bool" where
  "HasPrefix s p \<longleftrightarrow> take (length p) s = p"

definition HasSuffix :: "string \<Rightarrow> string \<Rightarrow> bool" where
  "HasSuffix s p \<longleftrightarrow> length p \<le> length s \<and> drop (length s - length p) s = p"

definition TrimPrefix :: "string \<Rightarrow> string \<Rightarrow> string" where
  "TrimPrefix s p = (if HasPrefix s p then drop (length p) s else s)"

definition TrimSuffix :: "string \<Rightarrow> string \<Rightarrow> string" where
  "TrimSuffix s p = (if HasSuffix s p then take (length s - length p) s else s)"

text \<open>\<^verbatim>\<open>strings.Index\<close>, with \<open>None\<close> for \<open>-1\<close>, and \<^verbatim>\<open>strings.Contains\<close>.\<close>

fun Index :: "string \<Rightarrow> string \<Rightarrow> nat option" where
  "Index [] p = (if p = [] then Some 0 else None)"
| "Index (c # s) p = (if HasPrefix (c # s) p then Some 0 else map_option Suc (Index s p))"

definition Contains :: "string \<Rightarrow> string \<Rightarrow> bool" where
  "Contains s p \<longleftrightarrow> Index s p \<noteq> None"

text \<open>\<^verbatim>\<open>strings.LastIndex\<close> for a separator of one byte.\<close>

fun LastIndexByte :: "string \<Rightarrow> char \<Rightarrow> nat option" where
  "LastIndexByte [] x = None"
| "LastIndexByte (c # s) x =
     (case LastIndexByte s x of
        Some i \<Rightarrow> Some (Suc i)
      | None \<Rightarrow> if c = x then Some 0 else None)"

text \<open>\<^verbatim>\<open>strings.Split\<close> by one byte and \<^verbatim>\<open>strings.NewReplacer\<close> over one-byte keys.\<close>

fun split_from :: "string \<Rightarrow> string \<Rightarrow> char \<Rightarrow> string list" where
  "split_from cur [] x = [cur]"
| "split_from cur (c # s) x =
     (if c = x then cur # split_from [] s x else split_from (cur @ [c]) s x)"

definition Split :: "string \<Rightarrow> char \<Rightarrow> string list" where
  "Split s x = split_from [] s x"

definition replace_bytes :: "(char \<times> string) list \<Rightarrow> string \<Rightarrow> string" where
  "replace_bytes tab s =
     concat (map (\<lambda>c. case map_of tab c of Some r \<Rightarrow> r | None \<Rightarrow> [c]) s)"

definition Count_byte :: "string \<Rightarrow> char \<Rightarrow> nat" where
  "Count_byte s x = length (filter (\<lambda>c. c = x) s)"

section \<open>Facts on white space\<close>

text \<open>A string that can follow another without completing a white-space rune of it.\<close>

definition rune_start :: "string \<Rightarrow> bool" where
  "rune_start t \<longleftrightarrow> t = [] \<or> \<not> is_cont (hd t)"

lemma space2_cont: "space2 c d \<Longrightarrow> is_cont d"
  by (auto simp: space2_def is_cont_def)

lemma space3_cont: "space3 c d e \<Longrightarrow> is_cont d \<and> is_cont e"
  by (auto simp: space3_def is_cont_def)

lemma space_len_append: "space_len s \<noteq> 0 \<Longrightarrow> space_len (s @ t) = space_len s"
  by (cases s rule: space_len.cases; cases t rule: space_len.cases) (auto split: if_splits)

lemma space_len_prefix: "space_len (s @ t) = 0 \<Longrightarrow> space_len s = 0"
  using space_len_append by fastforce

lemma space_len_rune_start:
  assumes "s \<noteq> []" and "rune_start t"
  shows "space_len (s @ t) = space_len s"
  using assms
  by (cases s rule: space_len.cases; cases t rule: space_len.cases)
    (auto simp: rune_start_def dest: space2_cont space3_cont)

text \<open>A white-space rune starts with a byte that is no continuation byte.\<close>

lemma space_rune_start: "space_len s \<noteq> 0 \<Longrightarrow> rune_start s"
  by (cases s rule: space_len.cases)
    (auto simp: rune_start_def is_cont_def ascii_space_def space2_def space3_def split: if_splits)

lemma space_rune_tl:
  "space_len r = length r \<Longrightarrow> c \<in> set (tl r) \<Longrightarrow> is_cont c"
  by (cases r rule: space_len.cases)
    (auto dest: space2_cont space3_cont split: if_splits)

text \<open>Words: non-empty byte sequences with no white space inside.\<close>

fun no_space :: "string \<Rightarrow> bool" where
  "no_space [] = True"
| "no_space (c # s) = (space_len (c # s) = 0 \<and> no_space s)"

definition is_word :: "string \<Rightarrow> bool" where
  "is_word w \<longleftrightarrow> w \<noteq> [] \<and> no_space w"

fun free_of_space :: "string \<Rightarrow> string \<Rightarrow> bool" where
  "free_of_space [] s = True"
| "free_of_space (c # cur) s = (space_len (c # cur @ s) = 0 \<and> free_of_space cur s)"

lemma free_of_space_no_space: "free_of_space cur s \<Longrightarrow> no_space cur"
  using space_len_prefix [of "_ # _"] by (induction cur) fastforce+

lemma free_of_space_snoc:
  "free_of_space cur (c # s) \<Longrightarrow> space_len (c # s) = 0 \<Longrightarrow> free_of_space (cur @ [c]) s"
  by (induction cur) auto

lemma flush_words: "free_of_space cur s \<Longrightarrow> w \<in> set (flush cur) \<Longrightarrow> is_word w"
  by (auto simp: flush_def is_word_def dest: free_of_space_no_space split: if_splits)

lemma fields_from_words:
  "free_of_space cur s \<Longrightarrow> w \<in> set (fields_from cur s) \<Longrightarrow> is_word w"
proof (induction cur s rule: fields_from.induct)
  case (1 cur)
  then show ?case by (auto dest: flush_words)
next
  case (2 cur c s)
  show ?case
  proof (cases "space_len (c # s)")
    case 0
    with 2 show ?thesis by (auto intro: free_of_space_snoc)
  next
    case (Suc n)
    with 2 show ?thesis by (auto dest: flush_words)
  qed
qed

lemma Fields_words: "w \<in> set (Fields s) \<Longrightarrow> is_word w"
  unfolding Fields_def by (rule fields_from_words [of "[]" s]) simp_all

lemma fields_from_word:
  "no_space w \<Longrightarrow> rune_start t \<Longrightarrow> fields_from cur (w @ t) = fields_from (cur @ w) t"
proof (induction w arbitrary: cur)
  case (Cons c w)
  then have "space_len ((c # w) @ t) = 0"
    by (subst space_len_rune_start) auto
  with Cons show ?case by simp
qed simp

lemma fields_from_space:
  "space_len s \<noteq> 0 \<Longrightarrow> fields_from cur s = flush cur @ fields_from [] (drop (space_len s) s)"
  by (cases s) (auto split: nat.splits)

lemma rune_start_space [simp]: "rune_start (CHR '' '' # s)"
  by (simp add: rune_start_def is_cont_def byte_def)

lemma space_len_blank [simp]: "space_len (CHR '' '' # s) = Suc 0"
  by (cases s rule: space_len.cases; cases "tl s") (auto simp: ascii_space_def byte_def)

lemma Fields_word_blank: "is_word w \<Longrightarrow> Fields (w @ CHR '' '' # s) = w # Fields s"
  by (simp add: Fields_def is_word_def fields_from_word flush_def)

lemma Fields_single: "is_word w \<Longrightarrow> Fields w = [w]"
  using fields_from_word [of w "[]" "[]"]
  by (simp add: Fields_def is_word_def flush_def rune_start_def)

lemma Fields_Nil [simp]: "Fields [] = []"
  by (simp add: Fields_def flush_def)

lemma Fields_Join: "\<forall>w \<in> set ws. is_word w \<Longrightarrow> Fields (Join ws '' '') = ws"
  by (induction ws "'' ''" rule: Join.induct) (auto simp: Fields_single Fields_word_blank)

text \<open>Trimming removes nothing a word is made of.\<close>

lemma fields_from_drop_left: "space_len s \<noteq> 0 \<Longrightarrow> Fields (drop (space_len s) s) = Fields s"
  by (simp add: Fields_def fields_from_space flush_def)

lemma Fields_trim_left [simp]: "Fields (trim_left s) = Fields s"
proof (induction s rule: trim_left.induct)
  case (1 s)
  then show ?case
    by (cases "space_len s = 0") (simp_all add: trim_left.simps [of s] fields_from_drop_left)
qed

lemma space_len_trim_left [simp]: "space_len (trim_left s) = 0"
proof (induction s rule: trim_left.induct)
  case (1 s)
  then show ?case by (cases "space_len s = 0") (simp_all add: trim_left.simps [of s])
qed

lemma fields_from_rune_end:
  assumes "space_len r = length r" and "r \<noteq> []"
  shows "fields_from cur (p @ r) = fields_from cur p"
proof (induction cur p rule: fields_from.induct)
  case (1 cur)
  from assms show ?case by (simp add: fields_from_space flush_def)
next
  case (2 cur c s)
  from assms have rs: "rune_start r" by (intro space_rune_start) simp
  have eq: "space_len (c # s @ r) = space_len (c # s)"
    using space_len_rune_start [of "c # s" r] rs by simp
  show ?case
  proof (cases "space_len (c # s)")
    case 0
    with 2 eq show ?thesis by simp
  next
    case (Suc n)
    with space_len_le [of "c # s"] have "n \<le> length s" by simp
    with 2 eq Suc show ?thesis by simp
  qed
qed

lemma tail_space_split:
  assumes "tail_space s \<noteq> 0"
  obtains p r where "s = p @ r" and "space_len r = length r" and "r \<noteq> []"
    and "length r = tail_space s" and "take (length s - tail_space s) s = p"
proof
  let ?n = "tail_space s"
  show "s = take (length s - ?n) s @ drop (length s - ?n) s" by simp
  show "length (drop (length s - ?n) s) = ?n" using tail_space_le [of s] by simp
  show "space_len (drop (length s - ?n) s) = length (drop (length s - ?n) s)"
    using assms by (auto simp: tail_space_def split: if_splits)
  show "drop (length s - ?n) s \<noteq> []"
    using assms tail_space_le [of s] by auto
qed simp

lemma Fields_trim_right [simp]: "Fields (trim_right s) = Fields s"
proof (induction s rule: trim_right.induct)
  case (1 s)
  show ?case
  proof (cases "tail_space s = 0")
    case True
    then show ?thesis by (simp add: trim_right.simps [of s])
  next
    case False
    then obtain p r where s: "s = p @ r" and r: "space_len r = length r" "r \<noteq> []"
      and p: "take (length s - tail_space s) s = p"
      by (rule tail_space_split)
    from 1 False p have "Fields (trim_right p) = Fields p" by simp
    also have "\<dots> = Fields s" using r by (simp add: s Fields_def fields_from_rune_end)
    finally show ?thesis using False p by (simp add: trim_right.simps [of s])
  qed
qed

lemma Fields_TrimSpace [simp]: "Fields (TrimSpace s) = Fields s"
  by (simp add: TrimSpace_def)

lemma fields_from_cur_nonempty: "cur \<noteq> [] \<Longrightarrow> fields_from cur s \<noteq> []"
  by (induction cur s rule: fields_from.induct) (auto simp: flush_def split: nat.splits)

lemma Fields_Nil_iff: "Fields s = [] \<longleftrightarrow> trim_left s = []"
proof
  assume *: "Fields s = []"
  show "trim_left s = []"
  proof (rule ccontr)
    assume "trim_left s \<noteq> []"
    then obtain c t where ct: "trim_left s = c # t" by (cases "trim_left s") auto
    then have "space_len (c # t) = 0" using space_len_trim_left [of s] by simp
    then have "Fields (c # t) = fields_from [c] t" by (simp add: Fields_def)
    with ct * Fields_trim_left [of s] fields_from_cur_nonempty [of "[c]" t] show False by simp
  qed
next
  assume "trim_left s = []"
  then show "Fields s = []" using Fields_trim_left [of s] by simp
qed

lemma trim_right_Nil [simp]: "trim_right [] = []"
  by (simp add: trim_right.simps tail_space_def)

theorem TrimSpace_Nil_iff: "TrimSpace s = [] \<longleftrightarrow> Fields s = []"
proof
  assume "TrimSpace s = []"
  then show "Fields s = []" using Fields_TrimSpace [of s] by simp
next
  assume "Fields s = []"
  then show "TrimSpace s = []" by (simp add: Fields_Nil_iff TrimSpace_def)
qed

lemma TrimSpace_Nil [simp]: "TrimSpace [] = []"
  by (simp add: TrimSpace_Nil_iff)

lemma trim_right_prefix: "\<exists>t. s = trim_right s @ t"
proof (induction s rule: trim_right.induct)
  case (1 s)
  show ?case
  proof (cases "tail_space s = 0")
    case True
    then show ?thesis by (simp add: trim_right.simps [of s])
  next
    case False
    with 1 obtain t where "take (length s - tail_space s) s = trim_right s @ t"
      by (auto simp: trim_right.simps [of s])
    then have "s = trim_right s @ t @ drop (length s - tail_space s) s"
      by (metis append_assoc append_take_drop_id)
    then show ?thesis by blast
  qed
qed

lemma tail_space_trim_right [simp]: "tail_space (trim_right s) = 0"
proof (induction s rule: trim_right.induct)
  case (1 s)
  then show ?case by (cases "tail_space s = 0") (simp_all add: trim_right.simps [of s])
qed

theorem TrimSpace_idem [simp]: "TrimSpace (TrimSpace s) = TrimSpace s"
proof -
  obtain t where "trim_left s = TrimSpace s @ t"
    using trim_right_prefix [of "trim_left s"] by (auto simp: TrimSpace_def)
  then have "space_len (TrimSpace s) = 0"
    by (metis space_len_prefix space_len_trim_left)
  then have "trim_left (TrimSpace s) = TrimSpace s" by (simp add: trim_left.simps)
  then show ?thesis
    by (simp add: TrimSpace_def trim_right.simps [of "trim_right _"])
qed

lemma length_trim_left: "length (trim_left s) \<le> length s"
proof (induction s rule: trim_left.induct)
  case (1 s)
  then show ?case by (cases "space_len s = 0") (auto simp: trim_left.simps [of s])
qed

lemma length_trim_right: "length (trim_right s) \<le> length s"
  using trim_right_prefix [of s] by (metis length_append le_add1)

lemma length_TrimSpace: "length (TrimSpace s) \<le> length s"
  unfolding TrimSpace_def by (rule le_trans [OF length_trim_right length_trim_left])

section \<open>Facts on searching\<close>

lemma HasPrefix_iff: "HasPrefix s p \<longleftrightarrow> prefix p s"
  by (metis HasPrefix_def append_eq_conv_conj append_take_drop_id prefix_def)

lemma Contains_Cons: "Contains (c # s) p \<longleftrightarrow> HasPrefix (c # s) p \<or> Contains s p"
  by (simp add: Contains_def)

theorem Contains_iff: "Contains s p \<longleftrightarrow> (\<exists>a b. s = a @ p @ b)"
proof (induction s)
  case Nil
  then show ?case by (simp add: Contains_def)
next
  case (Cons c s)
  have "(\<exists>a b. c # s = a @ p @ b) \<longleftrightarrow> prefix p (c # s) \<or> (\<exists>a b. s = a @ p @ b)"
    unfolding prefix_def by (metis append_Cons append_Nil list.exhaust list.inject)
  with Cons show ?case by (simp add: Contains_Cons HasPrefix_iff)
qed

lemma Index_Some: "Index s p = Some i \<Longrightarrow> i + length p \<le> length s \<and> take (length p) (drop i s) = p"
proof (induction s arbitrary: i)
  case (Cons c s)
  show ?case
  proof (cases "HasPrefix (c # s) p")
    case True
    then have "length p \<le> length (c # s)" by (auto simp: HasPrefix_iff dest: prefix_length_le)
    with True Cons.prems show ?thesis by (simp add: HasPrefix_def)
  next
    case False
    with Cons show ?thesis by auto
  qed
qed (auto split: if_splits)

text \<open>Evaluation of the scanners on literal strings.\<close>

lemmas string_eval =
  TrimSpace_def trim_left.simps trim_right.simps tail_space_def Fields_def flush_def
  ascii_space_def byte_def space2_def space3_def Contains_def HasPrefix_def HasSuffix_def

end
