(* ===== verification/Go_Unicode.thy ===== *)
theory Go_Unicode
  imports Go_Strings
begin

text \<open>
  UTF-8 decoding as Go's \<^verbatim>\<open>range\<close> over a string does it, and the case mapping of \<^verbatim>\<open>strings.ToLower\<close>
  and \<^verbatim>\<open>strings.ToUpper\<close>. Below \<open>0x80\<close> the mapping is written out; the tables of package \<^verbatim>\<open>unicode\<close>
  for the runes above are a parameter (\<open>unicode_tables\<close>) of every definition that consults them.
\<close>

record unicode_tables =
  tab_lower :: "nat \<Rightarrow> nat"
  tab_upper :: "nat \<Rightarrow> nat"
  tab_letter :: "nat \<Rightarrow> bool"
  tab_digit :: "nat \<Rightarrow> bool"
  tab_print :: "nat \<Rightarrow> bool"

text \<open>Tables that leave every rune above ASCII alone.\<close>

definition ascii_tables :: unicode_tables where
  "ascii_tables =
     \<lparr>tab_lower = (\<lambda>r. r), tab_upper = (\<lambda>r. r), tab_letter = (\<lambda>r. False),
      tab_digit = (\<lambda>r. False), tab_print = (\<lambda>r. False)\<rparr>"

section \<open>UTF-8\<close>

definition rune_error :: nat where
  "rune_error = 65533"

definition cont :: "nat \<Rightarrow> bool" where
  "cont b \<longleftrightarrow> 128 \<le> b \<and> b \<le> 191"

text \<open>\<^verbatim>\<open>utf8.DecodeRuneInString\<close>: the first rune and its width. Bytes that start no valid encoding
  decode to \<^verbatim>\<open>utf8.RuneError\<close> with width one.\<close>

definition second_ok :: "nat \<Rightarrow> nat \<Rightarrow> bool" where
  "second_ok b0 b1 \<longleftrightarrow>
     (if b0 = 224 then 160 \<le> b1 \<and> b1 \<le> 191
      else if b0 = 237 then 128 \<le> b1 \<and> b1 \<le> 159
      else if b0 = 240 then 144 \<le> b1 \<and> b1 \<le> 191
      else if b0 = 244 then 128 \<le> b1 \<and> b1 \<le> 143
      else cont b1)"

definition decode_rune :: "string \<Rightarrow> nat \<times> nat" where
  "decode_rune s =
     (case map byte (take 4 s) of
        [] \<Rightarrow> (rune_error, 0)
      | b0 # bs \<Rightarrow>
          if b0 < 128 then (b0, 1)
          else if 194 \<le> b0 \<and> b0 \<le> 223 then
            (case bs of
               b1 # _ \<Rightarrow> if cont b1 then ((b0 - 192) * 64 + (b1 - 128), 2) else (rune_error, 1)
             | [] \<Rightarrow> (rune_error, 1))
          else if 224 \<le> b0 \<and> b0 \<le> 239 then
            (case bs of
               b1 # b2 # _ \<Rightarrow>
                 if second_ok b0 b1 \<and> cont b2
                 then ((b0 - 224) * 4096 + (b1 - 128) * 64 + (b2 - 128), 3) else (rune_error, 1)
             | _ \<Rightarrow> (rune_error, 1))
          else if 240 \<le> b0 \<and> b0 \<le> 244 then
            (case bs of
               b1 # b2 # b3 # _ \<Rightarrow>
                 if second_ok b0 b1 \<and> cont b2 \<and> cont b3
                 then ((b0 - 240) * 262144 + (b1 - 128) * 4096 + (b2 - 128) * 64 + (b3 - 128), 4)
                 else (rune_error, 1)
             | _ \<Rightarrow> (rune_error, 1))
          else (rune_error, 1))"

lemma decode_rune_width: "s \<noteq> [] \<Longrightarrow> 0 < snd (decode_rune s)"
  by (cases s) (auto simp: decode_rune_def split: list.splits)

text \<open>The runes \<^verbatim>\<open>for _, r := range s\<close> visits.\<close>

function runes :: "string \<Rightarrow> nat list" where
  "runes s = (if s = [] then [] else fst (decode_rune s) # runes (drop (snd (decode_rune s)) s))"
  by pat_completeness auto
termination
  by (relation "measure length") (simp_all add: decode_rune_width)

declare runes.simps [simp del]

definition encode_rune :: "nat \<Rightarrow> string" where
  "encode_rune r0 =
     (let r = (if 55296 \<le> r0 \<and> r0 \<le> 57343 \<or> 1114111 < r0 then rune_error else r0)
      in map char_of
          (if r < 128 then [r]
           else if r < 2048 then [192 + r div 64, 128 + r mod 64]
           else if r < 65536 then [224 + r div 4096, 128 + r div 64 mod 64, 128 + r mod 64]
           else [240 + r div 262144, 128 + r div 4096 mod 64, 128 + r div 64 mod 64, 128 + r mod 64]))"

text \<open>For evaluation: the ASCII case first.\<close>

lemma encode_rune_code [code]:
  "encode_rune r0 =
     (if r0 < 128 then [char_of r0]
      else let r = (if 55296 \<le> r0 \<and> r0 \<le> 57343 \<or> 1114111 < r0 then rune_error else r0)
      in map char_of
          (if r < 2048 then [192 + r div 64, 128 + r mod 64]
           else if r < 65536 then [224 + r div 4096, 128 + r div 64 mod 64, 128 + r mod 64]
           else [240 + r div 262144, 128 + r div 4096 mod 64, 128 + r div 64 mod 64, 128 + r mod 64]))"
  by (simp add: encode_rune_def Let_def rune_error_def)

section \<open>Case mapping and rune classes\<close>

definition rune_ToLower :: "unicode_tables \<Rightarrow> nat \<Rightarrow> nat" where
  "rune_ToLower U r =
     (if r < 128 then (if 65 \<le> r \<and> r \<le> 90 then r + 32 else r) else tab_lower U r)"

definition rune_ToUpper :: "unicode_tables \<Rightarrow> nat \<Rightarrow> nat" where
  "rune_ToUpper U r =
     (if r < 128 then (if 97 \<le> r \<and> r \<le> 122 then r - 32 else r) else tab_upper U r)"

definition rune_IsLetter :: "unicode_tables \<Rightarrow> nat \<Rightarrow> bool" where
  "rune_IsLetter U r =
     (if r < 128 then 65 \<le> r \<and> r \<le> 90 \<or> 97 \<le> r \<and> r \<le> 122 else tab_letter U r)"

definition rune_IsDigit :: "unicode_tables \<Rightarrow> nat \<Rightarrow> bool" where
  "rune_IsDigit U r = (if r < 128 then 48 \<le> r \<and> r \<le> 57 else tab_digit U r)"

definition rune_IsSpace :: "nat \<Rightarrow> bool" where
  "rune_IsSpace r \<longleftrightarrow>
     9 \<le> r \<and> r \<le> 13 \<or>
     r \<in> {32, 133, 160, 5760, 8232, 8233, 8239, 8287, 12288} \<or>
     8192 \<le> r \<and> r \<le> 8202"

definition ToLower :: "unicode_tables \<Rightarrow> string \<Rightarrow> string" where
  "ToLower U s = concat (map (encode_rune \<circ> rune_ToLower U) (runes s))"

definition ToUpper :: "unicode_tables \<Rightarrow> string \<Rightarrow> string" where
  "ToUpper U s = concat (map (encode_rune \<circ> rune_ToUpper U) (runes s))"

text \<open>\<^verbatim>\<open>strings.EqualFold(s, t)\<close> for an ASCII literal \<open>t\<close>: the only runes above ASCII that fold to an
  ASCII letter are U+017F (to \<^verbatim>\<open>s\<close>) and U+212A (to \<^verbatim>\<open>k\<close>).\<close>

definition fold_ascii :: "nat \<Rightarrow> nat" where
  "fold_ascii r =
     (if 65 \<le> r \<and> r \<le> 90 then r + 32 else if r = 383 then 115 else if r = 8490 then 107 else r)"

definition EqualFold_ascii :: "string \<Rightarrow> string \<Rightarrow> bool" where
  "EqualFold_ascii s t \<longleftrightarrow> map fold_ascii (runes s) = map fold_ascii (runes t)"

definition rune_IsPrint :: "unicode_tables \<Rightarrow> nat \<Rightarrow> bool" where
  "rune_IsPrint U r = (if r < 128 then 32 \<le> r \<and> r \<le> 126 else tab_print U r)"

definition ascii_lower :: "char \<Rightarrow> char" where
  "ascii_lower c = (if 65 \<le> byte c \<and> byte c \<le> 90 then char_of (byte c + 32) else c)"

definition is_ascii :: "string \<Rightarrow> bool" where
  "is_ascii s \<longleftrightarrow> (\<forall>c \<in> set s. byte c < 128)"

section \<open>Facts on ASCII strings\<close>

lemma runes_Nil [simp]: "runes [] = []"
  by (simp add: runes.simps)

lemma runes_ascii_Cons: "byte c < 128 \<Longrightarrow> runes (c # s) = byte c # runes s"
  by (simp add: runes.simps [of "c # s"] decode_rune_def)

lemma runes_ascii: "is_ascii s \<Longrightarrow> runes s = map byte s"
  by (induction s) (auto simp: is_ascii_def runes_ascii_Cons)

lemma encode_rune_ascii: "r < 128 \<Longrightarrow> encode_rune r = [char_of r]"
  by (simp add: encode_rune_def)

lemma char_of_byte [simp]: "char_of (byte c) = c"
  by (simp add: byte_def)

lemma byte_char_of: "n < 256 \<Longrightarrow> byte (char_of n) = n"
  by (simp add: byte_def)

lemma encode_lower_byte: "byte c < 128 \<Longrightarrow> encode_rune (rune_ToLower U (byte c)) = [ascii_lower c]"
  by (simp add: rune_ToLower_def ascii_lower_def encode_rune_ascii)

text \<open>On an ASCII string \<^verbatim>\<open>ToLower\<close> works byte by byte and does not consult the tables.\<close>

theorem ToLower_ascii: "is_ascii s \<Longrightarrow> ToLower U s = map ascii_lower s"
  by (induction s)
    (auto simp: ToLower_def runes_ascii is_ascii_def runes_ascii_Cons encode_lower_byte)

lemma ascii_lower_idem [simp]: "ascii_lower (ascii_lower c) = ascii_lower c"
  by (simp add: ascii_lower_def byte_char_of)

lemma ascii_lower_ascii: "byte c < 128 \<Longrightarrow> byte (ascii_lower c) < 128"
  by (simp add: ascii_lower_def byte_char_of)

lemma ToLower_ascii_idem: "is_ascii s \<Longrightarrow> ToLower U (ToLower U s) = ToLower U s"
  by (subst (1 2 3) ToLower_ascii) (auto simp: is_ascii_def ascii_lower_ascii)

lemma length_ToLower_ascii: "is_ascii s \<Longrightarrow> length (ToLower U s) = length s"
  by (simp add: ToLower_ascii)

text \<open>Evaluation of the case mapping on literal ASCII strings.\<close>

lemmas ascii_eval = ToLower_ascii is_ascii_def ascii_lower_def byte_def char_of_def bit_0

end
