(* ===== verification/Go_Format.thy ===== *)
theory Go_Format
  imports Go_Unicode "HOL-Library.Word"
begin

text \<open>
  The formatting and hashing of the standard library that the sources use: decimal and hexadecimal
  numbers (\<^verbatim>\<open>%d\<close>, \<^verbatim>\<open>%x\<close>, \<^verbatim>\<open>hex.EncodeToString\<close>), \<^verbatim>\<open>Time.Format(time.RFC3339Nano)\<close> in UTC,
  \<^verbatim>\<open>crypto/sha256\<close> and \<^verbatim>\<open>hash/fnv\<close>.
\<close>

unbundle bit_operations_syntax

section \<open>Numbers\<close>

definition digit_char :: "int \<Rightarrow> char" where
  "digit_char d = char_of (if d < 10 then 48 + d else 87 + d)"

fun digits :: "int \<Rightarrow> nat \<Rightarrow> int \<Rightarrow> string" where
  "digits b 0 n = []"
| "digits b (Suc k) n = digits b k (n div b) @ [digit_char (n mod b)]"

text \<open>The shortest decimal numeral of a natural number, and \<^verbatim>\<open>strconv.Itoa\<close> (\<^verbatim>\<open>%d\<close>).\<close>

function decimal :: "int \<Rightarrow> string" where
  "decimal n = (if n < 10 then [digit_char n] else decimal (n div 10) @ [digit_char (n mod 10)])"
  by auto
termination by (relation "measure nat") auto

declare decimal.simps [simp del]

definition Itoa :: "int \<Rightarrow> string" where
  "Itoa i = (if i < 0 then ''-'' @ decimal (- i) else decimal i)"

definition EncodeToString :: "string \<Rightarrow> string" where
  "EncodeToString s = concat (map (\<lambda>c. digits 16 2 (of_char c)) s)"

lemma length_digits [simp]: "length (digits b k n) = k"
  by (induction k arbitrary: n) auto

lemma set_digits_hex: "set (digits 16 k n) \<subseteq> set ''0123456789abcdef''"
proof (induction k arbitrary: n)
  case (Suc k)
  have "list_all (\<lambda>d. digit_char d \<in> set ''0123456789abcdef'') [0..15]" by code_simp
  moreover have "n mod 16 \<in> set [0..15]" by simp
  ultimately have "digit_char (n mod 16) \<in> set ''0123456789abcdef''"
    unfolding list_all_iff by blast
  with Suc show ?case by simp
qed simp

lemma length_EncodeToString [simp]: "length (EncodeToString s) = 2 * length s"
  by (induction s) (simp_all add: EncodeToString_def)

lemma decimal_not_Nil [simp]: "decimal n \<noteq> []"
  by (subst decimal.simps) simp

lemma digit_char_10 [simp]: "0 \<le> d \<Longrightarrow> d < 10 \<Longrightarrow> of_char (digit_char d) = (48 + d :: int)"
  by (simp add: digit_char_def)

text \<open>Numerals are read back as the numbers they were printed from.\<close>

definition decimal_value :: "string \<Rightarrow> int" where
  "decimal_value s = foldl (\<lambda>n c. 10 * n + (of_char c - 48)) 0 s"

lemma decimal_value_decimal: "0 \<le> n \<Longrightarrow> decimal_value (decimal n) = n"
proof (induction n rule: decimal.induct)
  case (1 n)
  then show ?case by (cases "n < 10") (simp_all add: decimal.simps [of n] decimal_value_def)
qed

lemma decimal_inj: "0 \<le> m \<Longrightarrow> 0 \<le> n \<Longrightarrow> decimal m = decimal n \<longleftrightarrow> m = n"
  by (metis decimal_value_decimal)

lemma decimal_digits:
  "0 \<le> n \<Longrightarrow> c \<in> set (decimal n) \<Longrightarrow> 48 \<le> (of_char c :: int) \<and> (of_char c :: int) \<le> 57"
proof (induction n rule: decimal.induct)
  case (1 n)
  then show ?case by (cases "n < 10") (auto simp: decimal.simps [of n])
qed

lemma Itoa_inj: "Itoa i = Itoa j \<longleftrightarrow> i = j"
proof -
  have "CHR ''-'' # s \<noteq> decimal n" if "0 \<le> n" for s n
  proof
    assume "CHR ''-'' # s = decimal n"
    then have "CHR ''-'' \<in> set (decimal n)" by (metis list.set_intros(1))
    from decimal_digits [OF that this] show False by simp
  qed
  from this this [symmetric] show ?thesis by (auto simp: Itoa_def decimal_inj)
qed

section \<open>Quoted strings\<close>

text \<open>\<^verbatim>\<open>%q\<close> (\<^verbatim>\<open>strconv.Quote\<close>).\<close>

definition quote_rune :: "unicode_tables \<Rightarrow> nat \<Rightarrow> nat \<Rightarrow> char \<Rightarrow> string" where
  "quote_rune U r width b =
     (if width = 1 \<and> r = rune_error then [CHR 0x5C] @ ''x'' @ digits 16 2 (of_char b)
      else if r = 34 \<or> r = 92 then [CHR 0x5C, char_of r]
      else if rune_IsPrint U r then encode_rune r
      else if 7 \<le> r \<and> r \<le> 13 then [CHR 0x5C, ''abtnvfr'' ! (r - 7)]
      else if r < 32 \<or> r = 127 then [CHR 0x5C] @ ''x'' @ digits 16 2 (int r)
      else if r < 65536 then [CHR 0x5C] @ ''u'' @ digits 16 4 (int r)
      else [CHR 0x5C] @ ''U'' @ digits 16 8 (int r))"

function quote_body :: "unicode_tables \<Rightarrow> string \<Rightarrow> string" where
  "quote_body U s =
     (if s = [] then []
      else quote_rune U (fst (decode_rune s)) (snd (decode_rune s)) (hd s) @
           quote_body U (drop (snd (decode_rune s)) s))"
  by auto
termination by (relation "measure (length \<circ> snd)") (simp_all add: decode_rune_width)

declare quote_body.simps [simp del]

definition Quote :: "unicode_tables \<Rightarrow> string \<Rightarrow> string" where
  "Quote U s = [CHR 0x22] @ quote_body U s @ [CHR 0x22]"

section \<open>RFC 3339 times\<close>

text \<open>The civil date of a day number (days since 0001-01-01), by 400-year cycles counted from
  March.\<close>

definition civil :: "int \<Rightarrow> int \<times> int \<times> int" where
  "civil days =
     (let z = days + 306;
          era = z div 146097;
          doe = z mod 146097;
          yoe = (doe - doe div 1460 + doe div 36524 - doe div 146096) div 365;
          doy = doe - (365 * yoe + yoe div 4 - yoe div 100);
          mp = (5 * doy + 2) div 153;
          d = doy - (153 * mp + 2) div 5 + 1;
          m = (if mp < 10 then mp + 3 else mp - 9);
          y = yoe + era * 400 + (if m \<le> 2 then 1 else 0)
      in (y, m, d))"

definition pad :: "nat \<Rightarrow> int \<Rightarrow> string" where
  "pad k i = digits 10 k i"

fun drop_zeros :: "string \<Rightarrow> string" where
  "drop_zeros s = rev (dropWhile (\<lambda>c. c = CHR ''0'') (rev s))"

definition FormatRFC3339Nano :: "int \<Rightarrow> string" where
  "FormatRFC3339Nano t =
     (let secs = t div 1000000000;
          frac = drop_zeros (pad 9 (t mod 1000000000));
          (y, m, d) = civil (secs div 86400);
          s = secs mod 86400
      in pad 4 y @ ''-'' @ pad 2 m @ ''-'' @ pad 2 d @ ''T'' @
         pad 2 (s div 3600) @ '':'' @ pad 2 (s div 60 mod 60) @ '':'' @ pad 2 (s mod 60) @
         (if frac = [] then [] else ''.'' @ frac) @ ''Z'')"

section \<open>SHA-256\<close>

type_synonym w32 = "32 word"

text \<open>The constant tables hold the first 32 bits of the fractional parts of the square roots of the first
  8 primes and of the cube roots of the first 64 primes; they are computed here from that rule.\<close>

definition small_primes :: "int list" where
  "small_primes = filter (\<lambda>n. list_all (\<lambda>d. n mod d \<noteq> 0) [2..n - 1]) [2..311]"

text \<open>The integer \<open>e\<close>-th root, bit by bit.\<close>

fun int_root :: "nat \<Rightarrow> nat \<Rightarrow> int \<Rightarrow> int \<Rightarrow> int" where
  "int_root e 0 x r = r"
| "int_root e (Suc k) x r = int_root e k x (if (r + 2 ^ k) ^ e \<le> x then r + 2 ^ k else r)"

definition frac_root :: "nat \<Rightarrow> int \<Rightarrow> w32" where
  "frac_root e p = word_of_int (int_root e 40 (p * 2 ^ (32 * e)) 0)"

definition sha_K :: "w32 list" where
  "sha_K = map (frac_root 3) small_primes"

definition sha_H0 :: "w32 list" where
  "sha_H0 = map (frac_root 2) (take 8 small_primes)"

definition rotr :: "nat \<Rightarrow> w32 \<Rightarrow> w32" where
  "rotr n x = drop_bit n x OR push_bit (32 - n) x"

definition small_sigma0 :: "w32 \<Rightarrow> w32" where
  "small_sigma0 x = rotr 7 x XOR rotr 18 x XOR drop_bit 3 x"

definition small_sigma1 :: "w32 \<Rightarrow> w32" where
  "small_sigma1 x = rotr 17 x XOR rotr 19 x XOR drop_bit 10 x"

definition big_sigma0 :: "w32 \<Rightarrow> w32" where
  "big_sigma0 x = rotr 2 x XOR rotr 13 x XOR rotr 22 x"

definition big_sigma1 :: "w32 \<Rightarrow> w32" where
  "big_sigma1 x = rotr 6 x XOR rotr 11 x XOR rotr 25 x"

definition be_word :: "string \<Rightarrow> w32" where
  "be_word cs = foldl (\<lambda>w c. push_bit 8 w OR word_of_int (of_char c)) 0 cs"

definition be_bytes :: "w32 \<Rightarrow> string" where
  "be_bytes w = map (\<lambda>k. char_of (uint (take_bit 8 (drop_bit k w)))) [24, 16, 8, 0]"

fun sha_split :: "nat \<Rightarrow> nat \<Rightarrow> 'a list \<Rightarrow> 'a list list" where
  "sha_split 0 n xs = []"
| "sha_split (Suc k) n xs = take n xs # sha_split k n (drop n xs)"

definition sha_pad :: "string \<Rightarrow> string" where
  "sha_pad m =
     (let l = length m;
          z = (119 - l mod 64) mod 64;
          bits = 8 * int l
      in m @ [CHR 0x80] @ replicate z (CHR 0x00) @
         map (\<lambda>k. char_of (bits div 256 ^ k mod 256)) [7, 6, 5, 4, 3, 2, 1, 0])"

text \<open>The message schedule, extended one word at a time.\<close>

fun schedule :: "nat \<Rightarrow> w32 list \<Rightarrow> w32 list" where
  "schedule 0 w = w"
| "schedule (Suc k) w =
     (let n = length w
      in schedule k (w @ [small_sigma1 (w ! (n - 2)) + w ! (n - 7) +
                          small_sigma0 (w ! (n - 15)) + w ! (n - 16)]))"

fun sha_round :: "w32 list \<Rightarrow> w32 \<times> w32 \<Rightarrow> w32 list" where
  "sha_round [a, b, c, d, e, f, g, h] (k, w) =
     (let t1 = h + big_sigma1 e + ((e AND f) XOR (NOT e AND g)) + k + w;
          t2 = big_sigma0 a + ((a AND b) XOR (a AND c) XOR (b AND c))
      in [t1 + t2, a, b, c, d + t1, e, f, g])"
| "sha_round s _ = s"

definition sha_block :: "w32 list \<Rightarrow> string \<Rightarrow> w32 list" where
  "sha_block st blk =
     map2 (+) st (foldl sha_round st (zip sha_K (schedule 48 (map be_word (sha_split 16 4 blk)))))"

definition Sum256 :: "string \<Rightarrow> string" where
  "Sum256 m =
     (let p = sha_pad m
      in concat (map be_bytes (foldl sha_block sha_H0 (sha_split (length p div 64) 64 p))))"

lemma length_sha_round [simp]: "length (sha_round st kw) = length st"
  by (induction st kw rule: sha_round.induct) (simp_all add: Let_def)

lemma length_foldl_sha_round [simp]: "length (foldl sha_round st kws) = length st"
  by (induction kws arbitrary: st) simp_all

lemma length_foldl_sha_block [simp]: "length (foldl sha_block st bs) = length st"
  by (induction bs arbitrary: st) (simp_all add: sha_block_def)

lemma length_Sum256 [simp]: "length (Sum256 m) = 32"
proof -
  have "length (concat (map be_bytes ws)) = 4 * length ws" for ws
    by (induction ws) (simp_all add: be_bytes_def)
  moreover have "length sha_H0 = 8"
  proof -
    let ?P = "\<lambda>n::int. list_all (\<lambda>d. n mod d \<noteq> 0) [2..n - 1]"
    have first: "length (filter ?P [2..19]) = 8" by code_simp
    have split: "[2..311::int] = [2..19] @ [19 + 1..311]" by (rule upto_split2) simp_all
    have "length (filter P xs) = 8 \<Longrightarrow> length (take 8 (filter P (xs @ ys))) = 8"
      for P :: "int \<Rightarrow> bool" and xs ys by simp
    from this [OF first] show ?thesis
      unfolding sha_H0_def small_primes_def split length_map .
  qed
  ultimately show ?thesis by (simp add: Sum256_def Let_def)
qed

section \<open>FNV-1a\<close>

definition fnv32a :: "string \<Rightarrow> w32" where
  "fnv32a s = foldl (\<lambda>h c. (h XOR word_of_int (of_char c)) * 16777619) 2166136261 s"

end
