(* ===== verification/Go_Float.thy ===== *)
theory Go_Float
  imports Complex_Main "HOL-Library.Log_Nat"
begin

text \<open>
  Finite \<^verbatim>\<open>float64\<close> values are rationals; every arithmetic operation is the exact one followed by
  \<open>fl\<close>, IEEE 754 rounding to the nearest double with ties to even (53 bits of precision, least
  exponent \<open>-1074\<close>). Infinities and NaN are outside the model: the program's scores come from JSON
  numbers, ratios of counts and sums of small counts, which are finite.
\<close>

type_synonym float64 = rat

section \<open>Rounding to nearest, ties to even\<close>

definition round_even :: "rat \<Rightarrow> int" where
  "round_even x =
     (let f = \<lfloor>x\<rfloor>; r = x - of_int f
      in if r < 1 / 2 then f else if 1 / 2 < r then f + 1 else if even f then f else f + 1)"

definition log2_floor :: "rat \<Rightarrow> int" where
  "log2_floor x =
     (let (p, q) = quotient_of x; d = bitlen p - bitlen q
      in if 2 powi d \<le> x then d else d - 1)"

text \<open>The exponent of the last place of the double nearest to a positive \<open>x\<close>.\<close>

definition ulp_exp :: "rat \<Rightarrow> int" where
  "ulp_exp x = max (log2_floor x - 52) (- 1074)"

definition fl_pos :: "rat \<Rightarrow> float64" where
  "fl_pos x = of_int (round_even (x / 2 powi ulp_exp x)) * 2 powi ulp_exp x"

definition fl :: "rat \<Rightarrow> float64" where
  "fl x = (if x = 0 then 0 else if 0 < x then fl_pos x else - fl_pos (- x))"

section \<open>The laws rounding obeys\<close>

lemma round_even_bounds: "\<lfloor>x\<rfloor> \<le> round_even x \<and> round_even x \<le> \<lfloor>x\<rfloor> + 1"
  by (simp add: round_even_def Let_def)

lemma round_even_int [simp]: "round_even (of_int i) = i"
  by (simp add: round_even_def)

lemma round_even_mono:
  assumes "x \<le> y"
  shows "round_even x \<le> round_even y"
proof (cases "\<lfloor>x\<rfloor> = \<lfloor>y\<rfloor>")
  case True
  with assms show ?thesis by (auto simp: round_even_def Let_def)
next
  case False
  with floor_mono [OF assms] have "\<lfloor>x\<rfloor> + 1 \<le> \<lfloor>y\<rfloor>" by simp
  with round_even_bounds [of x] round_even_bounds [of y] show ?thesis by linarith
qed

lemma round_even_le: "x \<le> of_int i \<Longrightarrow> round_even x \<le> i"
  using round_even_mono [of x "of_int i"] by simp

lemma round_even_ge: "of_int i \<le> x \<Longrightarrow> i \<le> round_even x"
  using round_even_mono [of "of_int i" x] by simp

lemma bitlen_powi:
  assumes "0 < p"
  shows "2 powi (bitlen p - 1) \<le> (of_int p :: rat)" and "(of_int p :: rat) < 2 powi bitlen p"
proof -
  have b: "0 < bitlen p" using assms bitlen_nonneg [of p] bitlen_eq_zero_iff [of p] by linarith
  have "2 ^ nat (bitlen p - 1) \<le> p \<and> p < 2 ^ nat (bitlen p)"
    using bitlen_bounds [OF assms] .
  then have "(2::rat) ^ nat (bitlen p - 1) \<le> of_int p" and "of_int p < (2::rat) ^ nat (bitlen p)"
    by (metis of_int_le_iff of_int_numeral of_int_power,
        metis of_int_less_iff of_int_numeral of_int_power)
  with b show "2 powi (bitlen p - 1) \<le> (of_int p :: rat)" and "(of_int p :: rat) < 2 powi bitlen p"
    by (simp_all add: power_int_def)
qed

lemma log2_floor_bounds:
  assumes "0 < x"
  shows "2 powi log2_floor x \<le> x" and "x < 2 powi (log2_floor x + 1)"
proof -
  obtain p q where pq: "quotient_of x = (p, q)" by (cases "quotient_of x")
  from pq have q: "0 < q" by (rule quotient_of_denom_pos)
  from pq have x: "x = of_int p / of_int q" by (rule quotient_of_div)
  with assms q have p: "0 < p" by (simp add: zero_less_divide_iff)
  let ?d = "bitlen p - bitlen q"
  have "x < 2 powi bitlen p / 2 powi (bitlen q - 1)"
    unfolding x using bitlen_powi(2) [OF p] bitlen_powi(1) [OF q] p q
    by (intro frac_less) simp_all
  also have "\<dots> = 2 powi (?d + 1)"
    by (simp add: power_int_diff [symmetric] algebra_simps)
  finally have hi: "x < 2 powi (?d + 1)" .
  have "2 powi (?d - 1) = 2 powi (bitlen p - 1) / (2 :: rat) powi bitlen q"
    by (simp add: power_int_diff [symmetric] algebra_simps)
  also have "\<dots> \<le> x"
    unfolding x using bitlen_powi(1) [OF p] bitlen_powi(2) [OF q] p q
    by (intro frac_le) simp_all
  finally have lo: "2 powi (?d - 1) \<le> x" .
  from hi lo show "2 powi log2_floor x \<le> x" and "x < 2 powi (log2_floor x + 1)"
    by (auto simp: log2_floor_def pq Let_def)
qed

lemma powi_less_iff: "(2::rat) powi a < 2 powi b \<longleftrightarrow> a < b"
  using power_int_strict_increasing [of a b "2::rat"] power_int_increasing [of b a "2::rat"]
  by (cases "a < b") simp_all

lemma powi_le_iff: "(2::rat) powi a \<le> 2 powi b \<longleftrightarrow> a \<le> b"
  using powi_less_iff [of b a] by (simp add: not_less [symmetric])

lemma log2_floor_mono:
  assumes "0 < x" and "x \<le> y"
  shows "log2_floor x \<le> log2_floor y"
proof -
  have "2 powi log2_floor x < (2::rat) powi (log2_floor y + 1)"
    using log2_floor_bounds(1) [of x] log2_floor_bounds(2) [of y] assms by linarith
  then show ?thesis by (simp add: powi_less_iff)
qed

lemma ulp_exp_mono: "0 < x \<Longrightarrow> x \<le> y \<Longrightarrow> ulp_exp x \<le> ulp_exp y"
  using log2_floor_mono [of x y] by (auto simp: ulp_exp_def)

lemma powi_pos [simp]: "0 < (2::rat) powi e"
  by simp

lemma fl_pos_nonneg: "0 < x \<Longrightarrow> 0 \<le> fl_pos x"
  unfolding fl_pos_def by (intro mult_nonneg_nonneg) (simp_all add: round_even_ge)

lemma fl_pos_mono:
  assumes "0 < x" and "x \<le> y"
  shows "fl_pos x \<le> fl_pos y"
proof (cases "ulp_exp x = ulp_exp y")
  case True
  have "round_even (x / 2 powi ulp_exp y) \<le> round_even (y / 2 powi ulp_exp y)"
    using assms by (intro round_even_mono divide_right_mono) simp_all
  with True show ?thesis by (simp add: fl_pos_def)
next
  case False
  let ?ex = "ulp_exp x" and ?ey = "ulp_exp y"
  from False ulp_exp_mono [OF assms] have e: "?ex + 1 \<le> ?ey" by simp
  have ly: "?ey = log2_floor y - 52" using e by (auto simp: ulp_exp_def)
  have "log2_floor x + 1 \<le> ?ex + 53" by (simp add: ulp_exp_def)
  then have "x < 2 powi (?ex + 53)"
    using log2_floor_bounds(2) [OF assms(1)] powi_le_iff [of "log2_floor x + 1" "?ex + 53"]
    by linarith
  then have "x / 2 powi ?ex \<le> of_int (2 ^ 53)"
    by (simp add: divide_le_eq power_int_add)
  then have "round_even (x / 2 powi ?ex) \<le> 2 ^ 53" by (rule round_even_le)
  then have "(of_int (round_even (x / 2 powi ?ex)) :: rat) \<le> 2 ^ 53"
    by (metis of_int_le_iff of_int_numeral of_int_power)
  then have "fl_pos x \<le> 2 ^ 53 * 2 powi ?ex"
    unfolding fl_pos_def by (intro mult_right_mono) simp_all
  also have "\<dots> = 2 ^ 52 * 2 powi (?ex + 1)" by (simp add: power_int_add)
  also have "\<dots> \<le> 2 ^ 52 * 2 powi ?ey" using e powi_le_iff by simp
  also have "\<dots> \<le> fl_pos y"
  proof -
    have "2 powi (?ey + 52) \<le> y"
      using log2_floor_bounds(1) [of y] assms ly by simp
    then have "of_int (2 ^ 52) \<le> y / 2 powi ?ey"
      by (simp add: le_divide_eq power_int_add mult.commute)
    then have "2 ^ 52 \<le> round_even (y / 2 powi ?ey)" by (rule round_even_ge)
    then have "(2 ^ 52 :: rat) \<le> of_int (round_even (y / 2 powi ?ey))"
      by (metis of_int_le_iff of_int_numeral of_int_power)
    then show ?thesis unfolding fl_pos_def by (intro mult_right_mono) simp_all
  qed
  finally show ?thesis .
qed

theorem fl_mono: "x \<le> y \<Longrightarrow> fl x \<le> fl y"
  using fl_pos_mono [of x y] fl_pos_mono [of "- y" "- x"] fl_pos_nonneg [of y]
    fl_pos_nonneg [of "- x"]
  by (auto simp: fl_def)

text \<open>A number with at most 53 significant bits, none below the least exponent, is a double.\<close>

lemma fl_pos_exact:
  assumes "0 < m" and "m < 2 ^ 53" and "- 1074 \<le> k"
  shows "fl_pos (of_int m * 2 powi k) = of_int m * 2 powi k"
proof -
  let ?x = "of_int m * (2::rat) powi k"
  have pos: "0 < ?x" using assms(1) by simp
  have "(of_int m :: rat) < 2 ^ 53"
    using assms(2) by (metis of_int_less_iff of_int_numeral of_int_power)
  then have "?x < 2 powi (k + 53)"
    by (simp add: power_int_add mult.commute)
  then have "2 powi log2_floor ?x < (2::rat) powi (k + 53)"
    using log2_floor_bounds(1) [OF pos] by linarith
  then have e: "ulp_exp ?x \<le> k" using assms(3) by (simp add: powi_less_iff ulp_exp_def)
  define j where "j = nat (k - ulp_exp ?x)"
  have "?x / 2 powi ulp_exp ?x = of_int m * 2 powi (k - ulp_exp ?x)"
    by (simp add: power_int_diff)
  also have "\<dots> = of_int (m * 2 ^ j)" using e by (simp add: j_def power_int_def)
  finally have q: "?x / 2 powi ulp_exp ?x = of_int (m * 2 ^ j)" .
  then have "fl_pos ?x = of_int (m * 2 ^ j) * 2 powi ulp_exp ?x"
    unfolding fl_pos_def by (simp only: round_even_int)
  also have "\<dots> = ?x" by (simp only: q [symmetric]) simp
  finally show ?thesis .
qed

theorem fl_exact:
  assumes "\<bar>m\<bar> < 2 ^ 53" and "- 1074 \<le> k"
  shows "fl (of_int m * 2 powi k) = of_int m * 2 powi k"
proof (cases m "0::int" rule: linorder_cases)
  case less
  then have "\<not> 0 < (of_int m * 2 powi k :: rat)"
    by (simp add: zero_less_mult_iff not_less)
  with less assms fl_pos_exact [of "- m" k] show ?thesis by (simp add: fl_def)
next
  case greater
  with assms fl_pos_exact [of m k] show ?thesis by (simp add: fl_def)
qed (simp add: fl_def)

corollary fl_of_int: "\<bar>m\<bar> < 2 ^ 53 \<Longrightarrow> fl (of_int m) = of_int m"
  using fl_exact [of m 0] by simp

corollary fl_half: "\<bar>m\<bar> < 2 ^ 53 \<Longrightarrow> fl (of_int m / 2) = of_int m / 2"
  using fl_exact [of m "- 1"] by (simp add: power_int_minus)

section \<open>Rounding as an interface\<close>

text \<open>
  What the ranking code relies on: rounding keeps order, and half-integers of moderate size are
  doubles. From these two laws alone, numbers one unit apart stay apart after rounding.
\<close>

locale float_rounding =
  fixes rnd :: "rat \<Rightarrow> rat"
  assumes rnd_mono: "x \<le> y \<Longrightarrow> rnd x \<le> rnd y"
    and rnd_half: "\<bar>m\<bar> < 2 ^ 53 \<Longrightarrow> rnd (of_int m / 2) = of_int m / 2"
begin

lemma rnd_unit_apart:
  assumes "x + 1 \<le> y" and "\<bar>x\<bar> < 2 ^ 50"
  shows "rnd x < rnd y"
proof -
  let ?m = "\<lceil>2 * x\<rceil>"
  have up: "2 * x \<le> of_int ?m" and dn: "of_int ?m < 2 * x + 1" by linarith+
  have "\<bar>(of_int ?m :: rat)\<bar> < 2 ^ 52" using up dn assms(2) by (auto simp: abs_less_iff simp del: le_of_int_ceiling)
  then have m: "\<bar>?m\<bar> < 2 ^ 52"
    by (metis of_int_abs of_int_less_iff of_int_numeral of_int_power)
  have "rnd x \<le> rnd (of_int ?m / 2)" using up by (intro rnd_mono) linarith
  also have "\<dots> = of_int ?m / 2" using m by (intro rnd_half) simp
  also have "\<dots> < of_int (?m + 1) / 2" by simp
  also have "\<dots> = rnd (of_int (?m + 1) / 2)" using m by (intro rnd_half [symmetric]) simp
  also have "\<dots> \<le> rnd y" using dn assms(1) by (intro rnd_mono) (simp add: field_simps)
  finally show ?thesis .
qed

end

interpretation fl64: float_rounding fl
  by unfold_locales (rule fl_mono, assumption, rule fl_half, assumption)

end
