(* ===== verification/Go_Json.thy ===== *)
theory Go_Json
  imports Go_Format Go_Float
begin

text \<open>
  Values of \<^verbatim>\<open>encoding/json\<close> decoded into \<^verbatim>\<open>any\<close>, type assertions on them, and the time formats and string
  functions the HTTP handlers use. An object is an association list without duplicate keys (the decoder
  fills a map), a number a \<^verbatim>\<open>float64\<close>.
\<close>

section \<open>JSON values\<close>

datatype json =
    JNull
  | JBool bool
  | JNumber float64
  | JString string
  | JArray "json list"
  | JObject "(string \<times> json) list"

type_synonym json_object = "(string \<times> json) list"

text \<open>\<^verbatim>\<open>payload[key]\<close>: an absent key gives the nil interface, as \<^verbatim>\<open>null\<close> does.\<close>

definition json_field :: "json_object \<Rightarrow> string \<Rightarrow> json" where
  "json_field obj key = (case map_of obj key of Some v \<Rightarrow> v | None \<Rightarrow> JNull)"

text \<open>\<^verbatim>\<open>s, _ := v.(string)\<close> and \<^verbatim>\<open>v.([]any)\<close>.\<close>

fun json_string :: "json \<Rightarrow> string" where
  "json_string (JString s) = s"
| "json_string _ = []"

fun json_array :: "json \<Rightarrow> json list option" where
  "json_array (JArray xs) = Some xs"
| "json_array _ = None"

section \<open>Time formats\<close>

text \<open>\<^verbatim>\<open>t.Format("20060102")\<close> and \<^verbatim>\<open>t.Format(time.RFC3339)\<close> on UTC times.\<close>

definition FormatDate :: "int \<Rightarrow> string" where
  "FormatDate t = (let (y, m, d) = civil (t div 86400000000000) in pad 4 y @ pad 2 m @ pad 2 d)"

definition FormatRFC3339 :: "int \<Rightarrow> string" where
  "FormatRFC3339 t =
     (let secs = t div 1000000000;
          (y, m, d) = civil (secs div 86400);
          s = secs mod 86400
      in pad 4 y @ ''-'' @ pad 2 m @ ''-'' @ pad 2 d @ ''T'' @
         pad 2 (s div 3600) @ '':'' @ pad 2 (s div 60 mod 60) @ '':'' @ pad 2 (s mod 60) @ ''Z'')"

text \<open>\<^verbatim>\<open>int(d.Seconds())\<close>: whole seconds and the rest are added as floats and truncated.\<close>

definition float_trunc :: "float64 \<Rightarrow> int" where
  "float_trunc q = (if 0 \<le> q then \<lfloor>q\<rfloor> else \<lceil>q\<rceil>)"

definition dur_whole_seconds :: "duration \<Rightarrow> int" where
  "dur_whole_seconds d =
     (let sec = go_quot d 1000000000; nsec = d - sec * 1000000000
      in float_trunc (fl (of_int sec + fl (of_int nsec / 1000000000))))"

section \<open>Strings\<close>

text \<open>\<^verbatim>\<open>strings.TrimRight(s, "/")\<close>.\<close>

definition trim_right_slash :: "string \<Rightarrow> string" where
  "trim_right_slash s = rev (dropWhile (\<lambda>c. c = CHR ''/'') (rev s))"

text \<open>\<^verbatim>\<open>strings.LastIndex(s, sep)\<close> for a one-byte separator is \<open>LastIndexByte\<close>; the part after it.\<close>

definition after_last :: "char \<Rightarrow> string \<Rightarrow> string" where
  "after_last c s =
     (case LastIndexByte s c of
        Some idx \<Rightarrow> if idx + 1 < length s then drop (idx + 1) s else s
      | None \<Rightarrow> s)"

text \<open>No rune of white space contains an ASCII byte that is not white space itself.\<close>

lemma space_len_bytes: "c \<in> set (take (space_len s) s) \<Longrightarrow> ascii_space c \<or> 128 \<le> byte c"
  by (cases s rule: space_len.cases)
     (auto simp: space2_def space3_def split: if_splits)

lemma trim_left_bytes: "c \<in> set s \<Longrightarrow> c \<notin> set (trim_left s) \<Longrightarrow> ascii_space c \<or> 128 \<le> byte c"
proof (induction s rule: trim_left.induct)
  case (1 s)
  show ?case
  proof (cases "space_len s = 0")
    case False
    have "c \<in> set (take (space_len s) s) \<or> c \<in> set (drop (space_len s) s)"
      using 1(2) by (metis Un_iff append_take_drop_id set_append)
    moreover have "trim_left s = trim_left (drop (space_len s) s)"
      using False by (subst trim_left.simps) simp
    ultimately show ?thesis using 1 False space_len_bytes by metis
  qed (use 1 in \<open>simp add: trim_left.simps [of s]\<close>)
qed

lemma TrimSpace_Nil_bytes:
  "TrimSpace s = [] \<Longrightarrow> c \<in> set s \<Longrightarrow> ascii_space c \<or> 128 \<le> byte c"
  using trim_left_bytes [of c s] by (auto simp: TrimSpace_Nil_iff Fields_Nil_iff)

end
