(* ===== verification/Go_Sort.thy ===== *)
theory Go_Sort
  imports Go_Prelude "HOL-Library.Multiset" "HOL-Library.Product_Lexorder"
begin

text \<open>
  \<^verbatim>\<open>sort.SliceStable\<close>. The definition is the insertion sort Go runs on blocks of up to twenty
  elements; longer slices are merged from such blocks. Wherever the comparison is
  \<open>key x < key y\<close> for some key in a linear order (every comparison of this program is), the
  result is the only stable arrangement in key order (\<open>SliceStable_unique\<close>), so both phases give
  the same list.
\<close>

text \<open>One round of \<^verbatim>\<open>insertionSort\<close>: \<open>x\<close> moves left past the elements it is less than; the sorted
  part is kept reversed, so its last element comes first.\<close>

fun slide_left :: "('a \<Rightarrow> 'a \<Rightarrow> bool) \<Rightarrow> 'a \<Rightarrow> 'a list \<Rightarrow> 'a list" where
  "slide_left lt x [] = [x]"
| "slide_left lt x (y # rs) = (if lt x y then y # slide_left lt x rs else x # y # rs)"

definition SliceStable :: "('a \<Rightarrow> 'a \<Rightarrow> bool) \<Rightarrow> 'a list \<Rightarrow> 'a list" where
  "SliceStable lt xs = rev (foldl (\<lambda>rs x. slide_left lt x rs) [] xs)"

section \<open>Permutation, order and stability\<close>

lemma mset_slide_left [simp]: "mset (slide_left lt x rs) = add_mset x (mset rs)"
  by (induction rs) auto

lemma mset_foldl_slide:
  "mset (foldl (\<lambda>rs x. slide_left lt x rs) rs xs) = mset rs + mset xs"
  by (induction xs arbitrary: rs) auto

theorem mset_SliceStable [simp]: "mset (SliceStable lt xs) = mset xs"
  by (simp add: SliceStable_def mset_foldl_slide)

lemma set_SliceStable [simp]: "set (SliceStable lt xs) = set xs"
  by (rule mset_eq_setD) simp

lemma length_SliceStable [simp]: "length (SliceStable lt xs) = length xs"
  by (rule mset_eq_length) simp

abbreviation by_key :: "('a \<Rightarrow> 'k::linorder) \<Rightarrow> 'a \<Rightarrow> 'a \<Rightarrow> bool" where
  "by_key key x y \<equiv> key x < key y"

lemma set_slide_left [simp]: "set (slide_left lt x rs) = insert x (set rs)"
  by (induction rs) auto

lemma sorted_slide_left:
  "sorted_wrt (\<lambda>x y. key y \<le> key x) rs \<Longrightarrow>
   sorted_wrt (\<lambda>x y. key y \<le> (key x :: 'k::linorder)) (slide_left (by_key key) x rs)"
  by (induction rs) auto

lemma sorted_foldl_slide:
  "sorted_wrt (\<lambda>x y. key y \<le> key x) rs \<Longrightarrow>
   sorted_wrt (\<lambda>x y. key y \<le> (key x :: 'k::linorder))
     (foldl (\<lambda>rs x. slide_left (by_key key) x rs) rs xs)"
  by (induction xs arbitrary: rs) (auto intro: sorted_slide_left)

theorem sorted_SliceStable:
  fixes key :: "'a \<Rightarrow> 'k::linorder"
  shows "sorted (map key (SliceStable (by_key key) xs))"
  using sorted_foldl_slide [of key "[]" xs]
  by (simp add: SliceStable_def sorted_wrt_rev sorted_map)

lemma filter_slide_left:
  fixes key :: "'a \<Rightarrow> 'k::linorder"
  assumes "sorted_wrt (\<lambda>x y. key y \<le> key x) rs"
  shows "filter (\<lambda>y. key y = k) (slide_left (by_key key) x rs) =
    (if key x = k then x # filter (\<lambda>y. key y = k) rs else filter (\<lambda>y. key y = k) rs)"
  using assms by (induction rs) auto

lemma filter_foldl_slide:
  fixes key :: "'a \<Rightarrow> 'k::linorder"
  shows "sorted_wrt (\<lambda>x y. key y \<le> key x) rs \<Longrightarrow>
   filter (\<lambda>y. key y = k) (foldl (\<lambda>rs x. slide_left (by_key key) x rs) rs xs) =
   rev (filter (\<lambda>y. key y = k) xs) @ filter (\<lambda>y. key y = k) rs"
  by (induction xs arbitrary: rs) (simp_all add: filter_slide_left sorted_slide_left)

theorem stable_SliceStable:
  fixes key :: "'a \<Rightarrow> 'k::linorder"
  shows "filter (\<lambda>y. key y = k) (SliceStable (by_key key) xs) = filter (\<lambda>y. key y = k) xs"
  using filter_foldl_slide [of key "[]" k xs] by (simp add: SliceStable_def rev_filter [symmetric])

lemma stable_SliceStable_sym:
  fixes key :: "'a \<Rightarrow> 'k::linorder"
  shows "filter (\<lambda>y. k = key y) (SliceStable (by_key key) xs) = filter (\<lambda>y. k = key y) xs"
  using stable_SliceStable [of key k xs] by (simp add: eq_commute)

text \<open>Uniqueness: any list in key order that keeps the order within each key is this one; in
  particular it is the library's \<open>sort_key\<close>.\<close>

theorem SliceStable_unique:
  fixes key :: "'a \<Rightarrow> 'k::linorder"
  assumes "mset ys = mset xs" and "sorted (map key ys)"
    and "\<And>k. filter (\<lambda>y. key y = k) ys = filter (\<lambda>y. key y = k) xs"
  shows "ys = SliceStable (by_key key) xs"
proof -
  have "sort_key key xs = ys"
    using assms by (intro properties_for_sort_key) (simp_all add: eq_commute)
  moreover have "sort_key key xs = SliceStable (by_key key) xs"
    by (intro properties_for_sort_key) (simp_all add: sorted_SliceStable stable_SliceStable_sym)
  ultimately show ?thesis by simp
qed

lemma SliceStable_sort_key:
  fixes key :: "'a \<Rightarrow> 'k::linorder"
  shows "SliceStable (by_key key) xs = sort_key key xs"
  by (intro properties_for_sort_key [symmetric]) (simp_all add: sorted_SliceStable stable_SliceStable_sym)

text \<open>A slice that is in order already is left as it is.\<close>

lemma SliceStable_sorted:
  fixes key :: "'a \<Rightarrow> 'k::linorder"
  shows "sorted (map key xs) \<Longrightarrow> SliceStable (by_key key) xs = xs"
  by (rule SliceStable_unique [symmetric]) auto

lemma SliceStable_idem:
  fixes key :: "'a \<Rightarrow> 'k::linorder"
  shows "SliceStable (by_key key) (SliceStable (by_key key) xs) = SliceStable (by_key key) xs"
  by (rule SliceStable_sorted) (rule sorted_SliceStable)

end
