(* ===== verification/Contracts.thy ===== *)
theory Contracts
  imports Go_Unicode Go_Sort Go_Float
begin

text \<open>
  \<^verbatim>\<open>internal/contracts/contracts.go\<close>: the data every layer exchanges, with its \<^verbatim>\<open>Validate\<close> methods, and
  the tenant and actor values carried by a request context. A struct is a record whose fields keep
  the Go name behind a short prefix (record fields are global names). \<^verbatim>\<open>Validate\<close> returns
  \<open>error option\<close>: \<open>None\<close> is \<^verbatim>\<open>nil\<close>. A \<^verbatim>\<open>map[string]string\<close> is an association list in some iteration
  order. The string-valued enumerations stay strings, since a decoded message can carry any.
\<close>

type_synonym TenantID = string
type_synonym strmap = "(string \<times> string) list"

section \<open>Tenants and request contexts\<close>

definition TenantID_Validate :: "TenantID \<Rightarrow> error option" where
  "TenantID_Validate t = (if t = [] then Some (ErrorString ''tenant_id is required'') else None)"

record TenantContext =
  tc_TenantID :: TenantID
  tc_RequestID :: string

definition ErrTenantContextMissing :: error where
  "ErrTenantContextMissing = ErrorString ''tenant context missing''"

definition ErrTenantContextMalformed :: error where
  "ErrTenantContextMalformed = ErrorString ''tenant context malformed''"

definition ErrTenantScopeRequired :: error where
  "ErrTenantScopeRequired = ErrorString ''tenant scope is required''"

definition ErrTenantScopeMismatch :: error where
  "ErrTenantScopeMismatch = ErrorString ''tenant scope mismatch''"

definition TenantContext_Validate :: "TenantContext \<Rightarrow> error option" where
  "TenantContext_Validate c =
     (case TenantID_Validate (tc_TenantID c) of
        Some e \<Rightarrow> Some e
      | None \<Rightarrow>
          if tc_RequestID c = [] then Some (ErrorString ''request_id is required'') else None)"

text \<open>
  A \<^verbatim>\<open>context.Context\<close> is the map from its keys to the values stored under them; a \<^verbatim>\<open>nil\<close> context is
  \<open>None\<close>. The keys of package \<^verbatim>\<open>contracts\<close> have private types; the last two belong to
  \<^verbatim>\<open>backend/util/apiutil\<close>.
\<close>

datatype ctx_key = TenantContextKey | ActorContextKey | UserIDKey | RequestIDKey

datatype ctx_value = CtxTenant TenantContext | CtxString string | CtxInt int

type_synonym Context = "ctx_key \<Rightarrow> ctx_value option"

definition Background :: Context where
  "Background = (\<lambda>_. None)"

definition WithValue :: "Context \<Rightarrow> ctx_key \<Rightarrow> ctx_value \<Rightarrow> Context" where
  "WithValue ctx k v = ctx(k := Some v)"

definition or_background :: "Context option \<Rightarrow> Context" where
  "or_background ctx = (case ctx of None \<Rightarrow> Background | Some c \<Rightarrow> c)"

definition malformed_error :: "error \<Rightarrow> error" where
  "malformed_error e = ErrorString (error_text ErrTenantContextMalformed @ '': '' @ error_text e)"

definition WithTenantContext :: "Context option \<Rightarrow> TenantContext \<Rightarrow> Context result" where
  "WithTenantContext ctx tc =
     (case TenantContext_Validate tc of
        Some e \<Rightarrow> Inl (malformed_error e)
      | None \<Rightarrow> Inr (WithValue (or_background ctx) TenantContextKey (CtxTenant tc)))"

definition TenantContextFromContext :: "Context option \<Rightarrow> TenantContext result" where
  "TenantContextFromContext ctx =
     (case ctx of
        None \<Rightarrow> Inl ErrTenantContextMissing
      | Some c \<Rightarrow>
          (case c TenantContextKey of
             None \<Rightarrow> Inl ErrTenantContextMissing
           | Some (CtxTenant tc) \<Rightarrow>
               (case TenantContext_Validate tc of
                  Some e \<Rightarrow> Inl (malformed_error e)
                | None \<Rightarrow> Inr tc)
           | Some _ \<Rightarrow> Inl ErrTenantContextMalformed))"

definition RequireTenantScope :: "Context option \<Rightarrow> TenantContext result" where
  "RequireTenantScope ctx =
     (case TenantContextFromContext ctx of
        Inl e \<Rightarrow> Inl (ErrorString (error_text ErrTenantScopeRequired @ '': '' @ error_text e))
      | Inr tc \<Rightarrow> Inr tc)"

definition EnsureTenantMatch :: "Context option \<Rightarrow> TenantID \<Rightarrow> error option" where
  "EnsureTenantMatch ctx t =
     (case RequireTenantScope ctx of
        Inl e \<Rightarrow> Some e
      | Inr tc \<Rightarrow>
          (case TenantID_Validate t of
             Some e \<Rightarrow> Some e
           | None \<Rightarrow>
               if tc_TenantID tc \<noteq> t
               then Some (ErrorString (error_text ErrTenantScopeMismatch @ '': scope='' @
                      tc_TenantID tc @ '' target='' @ t))
               else None))"

definition WithActorID :: "Context option \<Rightarrow> string \<Rightarrow> Context" where
  "WithActorID ctx actorID =
     (let c = or_background ctx; trimmed = TrimSpace actorID
      in if trimmed = [] then c else WithValue c ActorContextKey (CtxString trimmed))"

text \<open>The pair \<^verbatim>\<open>(value, ok)\<close> is an option.\<close>

definition ActorIDFromContext :: "Context option \<Rightarrow> string option" where
  "ActorIDFromContext ctx =
     (case ctx of
        None \<Rightarrow> None
      | Some c \<Rightarrow>
          (case c ActorContextKey of
             Some (CtxString a) \<Rightarrow>
               (let actorID = TrimSpace a in if actorID = [] then None else Some actorID)
           | _ \<Rightarrow> None))"

definition normalizeProviderUserPart :: "string \<Rightarrow> string" where
  "normalizeProviderUserPart value =
     (let trimmed = TrimSpace value
      in if trimmed = [] then []
         else let parts = Fields trimmed
              in if parts = [] then [] else Join parts ''_'')"

definition ProviderUserIDFromContext :: "Context option \<Rightarrow> string option" where
  "ProviderUserIDFromContext ctx =
     (case ActorIDFromContext ctx of
        None \<Rightarrow> None
      | Some actorID \<Rightarrow>
          (case TenantContextFromContext ctx of
             Inl _ \<Rightarrow> Some (normalizeProviderUserPart actorID)
           | Inr tc \<Rightarrow>
               if TrimSpace (tc_TenantID tc) = [] then Some (normalizeProviderUserPart actorID)
               else let actorPart = normalizeProviderUserPart actorID;
                        tenantPart = normalizeProviderUserPart (tc_TenantID tc)
                    in if actorPart = [] then (if tenantPart = [] then None else Some tenantPart)
                       else if tenantPart = [] then Some actorPart
                       else Some (actorPart @ ''_'' @ tenantPart)))"

section \<open>Requests, jobs and queue messages\<close>

record AuthClaims =
  ac_TenantID :: TenantID
  ac_Subject :: string
  ac_APIKeyID :: string
  ac_Scopes :: "string list"
  ac_IssuedAt :: time

definition AuthClaims_Validate :: "AuthClaims \<Rightarrow> error option" where
  "AuthClaims_Validate c =
     (case TenantID_Validate (ac_TenantID c) of
        Some e \<Rightarrow> Some e
      | None \<Rightarrow>
          if ac_Subject c = [] then Some (ErrorString ''subject is required'')
          else if ac_APIKeyID c = [] then Some (ErrorString ''api_key_id is required'')
          else if time_IsZero (ac_IssuedAt c) then Some (ErrorString ''issued_at is required'')
          else None)"

record RequestMetadata =
  rm_TenantID :: TenantID
  rm_RequestID :: string
  rm_SourceIP :: string
  rm_UserAgent :: string

definition RequestMetadata_Validate :: "RequestMetadata \<Rightarrow> error option" where
  "RequestMetadata_Validate m =
     (case TenantID_Validate (rm_TenantID m) of
        Some e \<Rightarrow> Some e
      | None \<Rightarrow>
          if rm_RequestID m = [] then Some (ErrorString ''request_id is required'') else None)"

type_synonym IngestionStatus = string

abbreviation IngestionStatusApproved :: IngestionStatus where
  "IngestionStatusApproved \<equiv> ''approved''"
abbreviation IngestionStatusQuarantine :: IngestionStatus where
  "IngestionStatusQuarantine \<equiv> ''quarantine''"
abbreviation IngestionStatusRejected :: IngestionStatus where
  "IngestionStatusRejected \<equiv> ''rejected''"

record IngestionJob =
  job_JobID :: string
  job_TenantID :: TenantID
  job_SourceURI :: string
  job_Checksum :: string
  job_PolicyDecision :: IngestionStatus
  job_CreatedAt :: time

definition IngestionJob_Validate :: "IngestionJob \<Rightarrow> error option" where
  "IngestionJob_Validate j =
     (case TenantID_Validate (job_TenantID j) of
        Some e \<Rightarrow> Some e
      | None \<Rightarrow>
          if job_JobID j = [] then Some (ErrorString ''job_id is required'')
          else if job_SourceURI j = [] then Some (ErrorString ''source_uri is required'')
          else if time_IsZero (job_CreatedAt j) then Some (ErrorString ''created_at is required'')
          else None)"

record QueueMessage =
  qm_MessageID :: string
  qm_Job :: IngestionJob
  qm_IdempotencyKey :: string
  qm_Attempt :: int
  qm_EnqueuedAt :: time

definition QueueMessage_Validate :: "QueueMessage \<Rightarrow> error option" where
  "QueueMessage_Validate m =
     (if qm_MessageID m = [] then Some (ErrorString ''message_id is required'')
      else case IngestionJob_Validate (qm_Job m) of
          Some e \<Rightarrow> Some (ErrorString (''job invalid: '' @ error_text e))
        | None \<Rightarrow>
            if qm_Attempt m < 0 then Some (ErrorString ''attempt must be >= 0'')
            else if time_IsZero (qm_EnqueuedAt m)
            then Some (ErrorString ''enqueued_at is required'')
            else None)"

section \<open>Vector records, retention, profiles\<close>

type_synonym embedding = "rat list"

record VectorRecord =
  vr_RecordID :: string
  vr_TenantID :: TenantID
  vr_JobID :: string
  vr_ChunkText :: string
  vr_Embedding :: embedding
  vr_Metadata :: strmap
  vr_IndexedAt :: time
  vr_SourceURI :: string
  vr_ObjectKey :: string
  vr_Checksum :: string
  vr_RetryCount :: int

definition VectorRecord_Validate :: "VectorRecord \<Rightarrow> error option" where
  "VectorRecord_Validate r =
     (if vr_RecordID r = [] then Some (ErrorString ''record_id is required'')
      else case TenantID_Validate (vr_TenantID r) of
          Some e \<Rightarrow> Some e
        | None \<Rightarrow>
            if vr_JobID r = [] then Some (ErrorString ''job_id is required'')
            else if TrimSpace (vr_ChunkText r) = [] then Some (ErrorString ''chunk_text is required'')
            else if vr_Embedding r = [] then Some (ErrorString ''embedding is required'')
            else if time_IsZero (vr_IndexedAt r) then Some (ErrorString ''indexed_at is required'')
            else if vr_SourceURI r = [] then Some (ErrorString ''source_uri is required'')
            else if vr_Checksum r = [] then Some (ErrorString ''checksum is required'')
            else if vr_RetryCount r < 0 then Some (ErrorString ''retry_count must be >= 0'')
            else None)"

type_synonym RetentionClass = string

abbreviation RetentionClassRawBlob :: RetentionClass where
  "RetentionClassRawBlob \<equiv> ''raw_blob''"
abbreviation RetentionClassChunk :: RetentionClass where
  "RetentionClassChunk \<equiv> ''chunk''"
abbreviation RetentionClassAuditEvent :: RetentionClass where
  "RetentionClassAuditEvent \<equiv> ''audit_event''"

record RetentionRecord =
  rr_TenantID :: TenantID
  rr_JobID :: string
  rr_Class :: RetentionClass
  rr_Resource :: string
  rr_RetentionUntil :: time

definition RetentionRecord_Validate :: "RetentionRecord \<Rightarrow> error option" where
  "RetentionRecord_Validate r =
     (case TenantID_Validate (rr_TenantID r) of
        Some e \<Rightarrow> Some e
      | None \<Rightarrow>
          if rr_JobID r = [] then Some (ErrorString ''job_id is required'')
          else if rr_Class r = [] then Some (ErrorString ''retention class is required'')
          else if TrimSpace (rr_Resource r) = [] then Some (ErrorString ''resource is required'')
          else if time_IsZero (rr_RetentionUntil r)
          then Some (ErrorString ''retention_until is required'')
          else None)"

type_synonym PayloadClassification = string

abbreviation PayloadClassValid :: PayloadClassification where
  "PayloadClassValid \<equiv> ''valid''"
abbreviation PayloadClassInvalidPayload :: PayloadClassification where
  "PayloadClassInvalidPayload \<equiv> ''invalid_payload''"
abbreviation PayloadClassInvalidTenant :: PayloadClassification where
  "PayloadClassInvalidTenant \<equiv> ''invalid_tenant''"
abbreviation PayloadClassInvalidSource :: PayloadClassification where
  "PayloadClassInvalidSource \<equiv> ''invalid_source''"

record IngestionMetadata =
  im_TenantID :: TenantID
  im_ChecksumSHA256 :: string
  im_SourceURI :: string
  im_LifecycleClass :: string
  im_CapturedAt :: time

record TenantRecord =
  tr_TenantID :: TenantID
  tr_DisplayName :: string
  tr_PlanTier :: string
  tr_Active :: bool
  tr_UpdatedAt :: time

definition TenantRecord_Validate :: "TenantRecord \<Rightarrow> error option" where
  "TenantRecord_Validate t =
     (case TenantID_Validate (tr_TenantID t) of
        Some e \<Rightarrow> Some e
      | None \<Rightarrow>
          if TrimSpace (tr_DisplayName t) = [] then Some (ErrorString ''display_name is required'')
          else if TrimSpace (tr_PlanTier t) = [] then Some (ErrorString ''plan_tier is required'')
          else if time_IsZero (tr_UpdatedAt t) then Some (ErrorString ''updated_at is required'')
          else None)"

definition IngestionMetadata_Validate :: "IngestionMetadata \<Rightarrow> error option" where
  "IngestionMetadata_Validate m =
     (case TenantID_Validate (im_TenantID m) of
        Some e \<Rightarrow> Some e
      | None \<Rightarrow>
          if im_ChecksumSHA256 m = [] then Some (ErrorString ''checksum_sha256 is required'')
          else if im_SourceURI m = [] then Some (ErrorString ''source_uri is required'')
          else if im_LifecycleClass m = [] then Some (ErrorString ''lifecycle_class is required'')
          else if time_IsZero (im_CapturedAt m) then Some (ErrorString ''captured_at is required'')
          else None)"

record IngestionProfile =
  ip_Metadata :: IngestionMetadata
  ip_PayloadBytes :: int
  ip_ContentType :: string
  ip_LineCount :: int
  ip_WordCount :: int
  ip_Classification :: PayloadClassification
  ip_ErrorReason :: string

definition IngestionProfile_Validate :: "IngestionProfile \<Rightarrow> error option" where
  "IngestionProfile_Validate p =
     (case IngestionMetadata_Validate (ip_Metadata p) of
        Some e \<Rightarrow> Some e
      | None \<Rightarrow>
          if ip_PayloadBytes p < 0 then Some (ErrorString ''payload_bytes must be >= 0'')
          else if ip_Classification p = [] then Some (ErrorString ''classification is required'')
          else if ip_Classification p \<noteq> PayloadClassValid \<and> ip_ErrorReason p = []
          then Some (ErrorString ''error_reason is required for invalid classifications'')
          else None)"

record PolicyEngineInput =
  pe_TenantID :: TenantID
  pe_ChecksumSHA256 :: string
  pe_SourceURI :: string
  pe_LifecycleClass :: string
  pe_Classification :: PayloadClassification
  pe_ErrorReason :: string

definition ToPolicyEngineInput :: "IngestionProfile \<Rightarrow> PolicyEngineInput" where
  "ToPolicyEngineInput p =
     \<lparr>pe_TenantID = im_TenantID (ip_Metadata p),
      pe_ChecksumSHA256 = im_ChecksumSHA256 (ip_Metadata p),
      pe_SourceURI = im_SourceURI (ip_Metadata p),
      pe_LifecycleClass = im_LifecycleClass (ip_Metadata p),
      pe_Classification = ip_Classification p,
      pe_ErrorReason = ip_ErrorReason p\<rparr>"

section \<open>Retrieval and reranking\<close>

record RetrievalQuery =
  rq_TenantID :: TenantID
  rq_RequestID :: string
  rq_Text :: string
  rq_TopK :: int

record MetadataFilters =
  mf_Category :: string
  mf_DateRange :: string
  mf_Priority :: "int option"

record StructuredQuery =
  sq_ExpandedQueries :: "string list"
  sq_MetadataFilters :: MetadataFilters

definition RetrievalQuery_Validate :: "RetrievalQuery \<Rightarrow> error option" where
  "RetrievalQuery_Validate q =
     (case TenantID_Validate (rq_TenantID q) of
        Some e \<Rightarrow> Some e
      | None \<Rightarrow>
          if rq_RequestID q = [] then Some (ErrorString ''request_id is required'')
          else if rq_Text q = [] then Some (ErrorString ''query text is required'')
          else if rq_TopK q \<le> 0 then Some (ErrorString ''top_k must be > 0'')
          else None)"

record RetrievalDocument =
  doc_DocumentID :: string
  doc_TenantID :: TenantID
  doc_Content :: string
  doc_Score :: float64
  doc_SourceURI :: string
  doc_Metadata :: strmap

record RetrievalTrace =
  rt_TenantFilterApplied :: bool
  rt_CandidateCount :: int
  rt_RerankApplied :: bool
  rt_FallbackReason :: string
  rt_DurationMillis :: int
  rt_VectorProvider :: string
  rt_VectorStatus :: string
  rt_VectorLatencyMillis :: int
  rt_GatewayProvider :: string
  rt_GatewayStatus :: string
  rt_GatewayModel :: string
  rt_GatewayLatencyMillis :: int
  rt_GatewayTokenInput :: int
  rt_GatewayTokenOutput :: int
  rt_GatewayTokenTotal :: int

record RetrievalResult =
  res_TenantID :: TenantID
  res_RequestID :: string
  res_Documents :: "RetrievalDocument list"
  res_Citations :: "string list"
  res_Trace :: RetrievalTrace

fun validate_documents :: "TenantID \<Rightarrow> RetrievalDocument list \<Rightarrow> error option" where
  "validate_documents t [] = None"
| "validate_documents t (d # ds) =
     (if doc_DocumentID d = [] then Some (ErrorString ''document_id is required'')
      else case TenantID_Validate (doc_TenantID d) of
          Some e \<Rightarrow> Some e
        | None \<Rightarrow>
            if doc_TenantID d \<noteq> t then Some (ErrorString ''document tenant mismatch'')
            else validate_documents t ds)"

definition RetrievalResult_Validate :: "RetrievalResult \<Rightarrow> error option" where
  "RetrievalResult_Validate r =
     (case TenantID_Validate (res_TenantID r) of
        Some e \<Rightarrow> Some e
      | None \<Rightarrow>
          if res_RequestID r = [] then Some (ErrorString ''request_id is required'')
          else validate_documents (res_TenantID r) (res_Documents r))"

record RerankCandidate =
  rc_DocumentID :: string
  rc_Text :: string
  rc_Score :: float64

record RerankRequest =
  rk_TenantID :: TenantID
  rk_RequestID :: string
  rk_QueryText :: string
  rk_Candidates :: "RerankCandidate list"
  rk_TopN :: int

definition TopCandidates :: "RerankRequest \<Rightarrow> RerankCandidate list" where
  "TopCandidates r =
     (let copyCandidates = SliceStable (\<lambda>x y. rc_Score x > rc_Score y) (rk_Candidates r)
      in if rk_TopN r \<le> 0 \<or> rk_TopN r \<ge> int (length copyCandidates) then copyCandidates
         else take (nat (rk_TopN r)) copyCandidates)"

definition RerankRequest_Validate :: "RerankRequest \<Rightarrow> error option" where
  "RerankRequest_Validate r =
     (case TenantID_Validate (rk_TenantID r) of
        Some e \<Rightarrow> Some e
      | None \<Rightarrow>
          if rk_RequestID r = [] then Some (ErrorString ''request_id is required'')
          else if rk_QueryText r = [] then Some (ErrorString ''query_text is required'')
          else if rk_Candidates r = []
          then Some (ErrorString ''at least one candidate is required'')
          else if rk_TopN r \<le> 0 then Some (ErrorString ''top_n must be > 0'')
          else None)"

section \<open>Audit events, rate-limit decisions, call traces\<close>

type_synonym AuditOutcome = string

abbreviation AuditOutcomeAllowed :: AuditOutcome where
  "AuditOutcomeAllowed \<equiv> ''allowed''"
abbreviation AuditOutcomeDenied :: AuditOutcome where
  "AuditOutcomeDenied \<equiv> ''denied''"
abbreviation AuditOutcomeError :: AuditOutcome where
  "AuditOutcomeError \<equiv> ''error''"

record AuditEvent =
  ae_EventID :: string
  ae_TenantID :: TenantID
  ae_EventType :: string
  ae_Resource :: string
  ae_Actor :: string
  ae_Outcome :: AuditOutcome
  ae_OccurredAt :: time
  ae_Attributes :: strmap

definition AuditEvent_Validate :: "AuditEvent \<Rightarrow> error option" where
  "AuditEvent_Validate a =
     (case TenantID_Validate (ae_TenantID a) of
        Some e \<Rightarrow> Some e
      | None \<Rightarrow>
          if ae_EventID a = [] then Some (ErrorString ''event_id is required'')
          else if ae_EventType a = [] then Some (ErrorString ''event_type is required'')
          else if time_IsZero (ae_OccurredAt a) then Some (ErrorString ''occurred_at is required'')
          else None)"

text \<open>\<^verbatim>\<open>AuditSink\<close>: a sink that writes an event to its state \<open>'w\<close>.\<close>

type_synonym 'w audit_sink = "Context option \<Rightarrow> AuditEvent \<Rightarrow> 'w \<Rightarrow> error option \<times> 'w"

record RateLimitDecision =
  rl_Allowed :: bool
  rl_Reason :: string
  rl_Remaining :: int
  rl_RetryAfter :: duration

definition RateLimitDecision_Validate :: "RateLimitDecision \<Rightarrow> error option" where
  "RateLimitDecision_Validate d =
     (if rl_Allowed d then None
      else if rl_Reason d = []
      then Some (ErrorString ''reason is required when request is denied'') else None)"

record VectorCallTrace =
  vt_Provider :: string
  vt_Status :: string
  vt_LatencyMillis :: int

record GatewayCallTrace =
  gt_Provider :: string
  gt_Model :: string
  gt_LatencyMillis :: int
  gt_TokenInput :: int
  gt_TokenOutput :: int
  gt_TokenTotal :: int
  gt_Status :: string
  gt_FallbackReason :: string

definition WrapValidationErr :: "string \<Rightarrow> error option \<Rightarrow> error option" where
  "WrapValidationErr contract err =
     (case err of
        None \<Rightarrow> None
      | Some e \<Rightarrow> Some (ErrorString (contract @ '' contract validation failed: '' @ error_text e)))"

text \<open>The wrapped error at the call sites, where \<^verbatim>\<open>err\<close> is not \<^verbatim>\<open>nil\<close>.\<close>

definition validation_error :: "string \<Rightarrow> error \<Rightarrow> error" where
  "validation_error contract e =
     ErrorString (contract @ '' contract validation failed: '' @ error_text e)"

section \<open>What validation establishes\<close>

lemma TenantID_Validate_None [simp]: "TenantID_Validate t = None \<longleftrightarrow> t \<noteq> []"
  by (simp add: TenantID_Validate_def)

lemma TenantContext_Validate_None [simp]:
  "TenantContext_Validate c = None \<longleftrightarrow> tc_TenantID c \<noteq> [] \<and> tc_RequestID c \<noteq> []"
  by (auto simp: TenantContext_Validate_def)

lemma AuthClaims_Validate_None [simp]:
  "AuthClaims_Validate c = None \<longleftrightarrow>
     ac_TenantID c \<noteq> [] \<and> ac_Subject c \<noteq> [] \<and> ac_APIKeyID c \<noteq> [] \<and> ac_IssuedAt c \<noteq> 0"
  by (auto simp: AuthClaims_Validate_def time_IsZero_def)

lemma RequestMetadata_Validate_None [simp]:
  "RequestMetadata_Validate m = None \<longleftrightarrow> rm_TenantID m \<noteq> [] \<and> rm_RequestID m \<noteq> []"
  by (auto simp: RequestMetadata_Validate_def)

lemma IngestionJob_Validate_None [simp]:
  "IngestionJob_Validate j = None \<longleftrightarrow>
     job_TenantID j \<noteq> [] \<and> job_JobID j \<noteq> [] \<and> job_SourceURI j \<noteq> [] \<and> job_CreatedAt j \<noteq> 0"
  by (auto simp: IngestionJob_Validate_def time_IsZero_def)

lemma QueueMessage_Validate_None [simp]:
  "QueueMessage_Validate m = None \<longleftrightarrow>
     qm_MessageID m \<noteq> [] \<and> IngestionJob_Validate (qm_Job m) = None \<and>
     0 \<le> qm_Attempt m \<and> qm_EnqueuedAt m \<noteq> 0"
  by (auto simp: QueueMessage_Validate_def time_IsZero_def)

lemma VectorRecord_Validate_None:
  "VectorRecord_Validate r = None \<longleftrightarrow>
     vr_RecordID r \<noteq> [] \<and> vr_TenantID r \<noteq> [] \<and> vr_JobID r \<noteq> [] \<and>
     TrimSpace (vr_ChunkText r) \<noteq> [] \<and> vr_Embedding r \<noteq> [] \<and> vr_IndexedAt r \<noteq> 0 \<and>
     vr_SourceURI r \<noteq> [] \<and> vr_Checksum r \<noteq> [] \<and> 0 \<le> vr_RetryCount r"
  by (auto simp: VectorRecord_Validate_def time_IsZero_def)

lemma RetentionRecord_Validate_None:
  "RetentionRecord_Validate r = None \<longleftrightarrow>
     rr_TenantID r \<noteq> [] \<and> rr_JobID r \<noteq> [] \<and> rr_Class r \<noteq> [] \<and>
     TrimSpace (rr_Resource r) \<noteq> [] \<and> rr_RetentionUntil r \<noteq> 0"
  by (auto simp: RetentionRecord_Validate_def time_IsZero_def)

lemma RetrievalQuery_Validate_None [simp]:
  "RetrievalQuery_Validate q = None \<longleftrightarrow>
     rq_TenantID q \<noteq> [] \<and> rq_RequestID q \<noteq> [] \<and> rq_Text q \<noteq> [] \<and> 0 < rq_TopK q"
  by (auto simp: RetrievalQuery_Validate_def)

lemma validate_documents_None:
  "validate_documents t ds = None \<longleftrightarrow>
     (\<forall>d \<in> set ds. doc_DocumentID d \<noteq> [] \<and> doc_TenantID d \<noteq> [] \<and> doc_TenantID d = t)"
  by (induction ds) (auto)

lemma RetrievalResult_Validate_None:
  "RetrievalResult_Validate r = None \<longleftrightarrow>
     res_TenantID r \<noteq> [] \<and> res_RequestID r \<noteq> [] \<and>
     (\<forall>d \<in> set (res_Documents r).
        doc_DocumentID d \<noteq> [] \<and> doc_TenantID d = res_TenantID r)"
  by (auto simp: RetrievalResult_Validate_def validate_documents_None)

lemma RerankRequest_Validate_None [simp]:
  "RerankRequest_Validate r = None \<longleftrightarrow>
     rk_TenantID r \<noteq> [] \<and> rk_RequestID r \<noteq> [] \<and> rk_QueryText r \<noteq> [] \<and>
     rk_Candidates r \<noteq> [] \<and> 0 < rk_TopN r"
  by (auto simp: RerankRequest_Validate_def)

lemma AuditEvent_Validate_None [simp]:
  "AuditEvent_Validate a = None \<longleftrightarrow>
     ae_TenantID a \<noteq> [] \<and> ae_EventID a \<noteq> [] \<and> ae_EventType a \<noteq> [] \<and> ae_OccurredAt a \<noteq> 0"
  by (auto simp: AuditEvent_Validate_def time_IsZero_def)

lemma TenantRecord_Validate_None [simp]:
  "TenantRecord_Validate t = None \<longleftrightarrow>
     tr_TenantID t \<noteq> [] \<and> TrimSpace (tr_DisplayName t) \<noteq> [] \<and>
     TrimSpace (tr_PlanTier t) \<noteq> [] \<and> tr_UpdatedAt t \<noteq> 0"
  by (auto simp: TenantRecord_Validate_def time_IsZero_def)

lemma IngestionMetadata_Validate_None [simp]:
  "IngestionMetadata_Validate m = None \<longleftrightarrow>
     im_TenantID m \<noteq> [] \<and> im_ChecksumSHA256 m \<noteq> [] \<and> im_SourceURI m \<noteq> [] \<and>
     im_LifecycleClass m \<noteq> [] \<and> im_CapturedAt m \<noteq> 0"
  by (auto simp: IngestionMetadata_Validate_def time_IsZero_def)

lemma IngestionProfile_Validate_None [simp]:
  "IngestionProfile_Validate p = None \<longleftrightarrow>
     IngestionMetadata_Validate (ip_Metadata p) = None \<and> 0 \<le> ip_PayloadBytes p \<and>
     ip_Classification p \<noteq> [] \<and>
     (ip_Classification p = PayloadClassValid \<or> ip_ErrorReason p \<noteq> [])"
  by (auto simp: IngestionProfile_Validate_def)

lemma WrapValidationErr_Some:
  "WrapValidationErr c (Some e) = Some (validation_error c e)"
  by (simp add: WrapValidationErr_def validation_error_def)

section \<open>The tenant scope of a context\<close>

lemma TenantContextFromContext_Inr:
  "TenantContextFromContext ctx = Inr tc \<longleftrightarrow>
     (\<exists>c. ctx = Some c \<and> c TenantContextKey = Some (CtxTenant tc) \<and>
          tc_TenantID tc \<noteq> [] \<and> tc_RequestID tc \<noteq> [])"
  by (cases ctx) (auto simp: TenantContextFromContext_def split: option.splits ctx_value.splits)

lemma RequireTenantScope_Inr:
  "RequireTenantScope ctx = Inr tc \<longleftrightarrow> TenantContextFromContext ctx = Inr tc"
  by (simp add: RequireTenantScope_def)

lemma WithTenantContext_Inr:
  "WithTenantContext ctx tc = Inr c \<longleftrightarrow>
     tc_TenantID tc \<noteq> [] \<and> tc_RequestID tc \<noteq> [] \<and>
     c = (or_background ctx)(TenantContextKey \<mapsto> CtxTenant tc)"
  by (auto simp: WithTenantContext_def WithValue_def)

lemma EnsureTenantMatch_None:
  "EnsureTenantMatch ctx t = None \<longleftrightarrow>
     t \<noteq> [] \<and> (\<exists>tc. TenantContextFromContext ctx = Inr tc \<and> tc_TenantID tc = t)"
  by (auto simp: EnsureTenantMatch_def RequireTenantScope_Inr)

section \<open>Top candidates\<close>

lemma TopCandidates_sort:
  "SliceStable (\<lambda>x y. rc_Score x > rc_Score y) cs = SliceStable (by_key (\<lambda>c. - rc_Score c)) cs"
  by simp

lemma set_TopCandidates_subset: "set (TopCandidates r) \<subseteq> set (rk_Candidates r)"
  by (auto simp: TopCandidates_def Let_def dest: in_set_takeD)

lemma TopCandidates_all:
  "rk_TopN r = int (length (rk_Candidates r)) \<Longrightarrow>
   TopCandidates r = SliceStable (by_key (\<lambda>c. - rc_Score c)) (rk_Candidates r)"
  by (simp add: TopCandidates_def)

end
