(* ===== verification/Go_Crypto.thy ===== *)
theory Go_Crypto
  imports Go_Format
begin

unbundle bit_operations_syntax

text \<open>
  \<^verbatim>\<open>base64.RawURLEncoding\<close> and HMAC-SHA256 (\<^verbatim>\<open>crypto/hmac\<close>). The decoder skips line breaks, reports the
  offset of the first byte outside the alphabet, rejects a rest of one digit, and ignores the unused
  bits of the last digit, as the non-strict Go decoder does.
\<close>

section \<open>Base64 without padding, URL alphabet\<close>

definition b64_alphabet :: string where
  "b64_alphabet = ''ABCDEFGHIJKLMNOPQRSTUVWXYZabcdefghijklmnopqrstuvwxyz0123456789-_''"

definition b64_char :: "nat \<Rightarrow> char" where
  "b64_char n = b64_alphabet ! n"

definition b64_value :: "char \<Rightarrow> nat option" where
  "b64_value c = map_of (zip b64_alphabet [0..<64]) c"

fun sextets :: "string \<Rightarrow> nat list" where
  "sextets [] = []"
| "sextets [a] = [byte a div 4, byte a mod 4 * 16]"
| "sextets [a, b] = [byte a div 4, byte a mod 4 * 16 + byte b div 16, byte b mod 16 * 4]"
| "sextets (a # b # c # s) =
     byte a div 4 # (byte a mod 4 * 16 + byte b div 16) # (byte b mod 16 * 4 + byte c div 64) #
     byte c mod 64 # sextets s"

definition RawURL_EncodeToString :: "string \<Rightarrow> string" where
  "RawURL_EncodeToString s = map b64_char (sextets s)"

fun sextet_bytes :: "nat list \<Rightarrow> string" where
  "sextet_bytes [] = []"
| "sextet_bytes [x] = []"
| "sextet_bytes [x, y] = [char_of (x * 4 + y div 16)]"
| "sextet_bytes [x, y, z] = [char_of (x * 4 + y div 16), char_of (y mod 16 * 16 + z div 4)]"
| "sextet_bytes (x # y # z # v # r) =
     char_of (x * 4 + y div 16) # char_of (y mod 16 * 16 + z div 4) # char_of (z mod 4 * 64 + v) #
     sextet_bytes r"

definition corrupt_input :: "nat \<Rightarrow> error" where
  "corrupt_input i = ErrorString (''illegal base64 data at input byte '' @ Itoa (int i))"

definition b64_skip :: "char \<Rightarrow> bool" where
  "b64_skip c \<longleftrightarrow> byte c = 10 \<or> byte c = 13"

definition RawURL_DecodeString :: "string \<Rightarrow> string result" where
  "RawURL_DecodeString s =
     (let good = length (takeWhile (\<lambda>c. b64_skip c \<or> b64_value c \<noteq> None) s)
      in if good < length s then Inl (corrupt_input good)
         else let ds = List.map_filter b64_value s
              in if length ds mod 4 = 1 then Inl (corrupt_input (length s - 1))
                 else Inr (sextet_bytes ds))"

lemma byte_less: "byte c < 256"
  by (simp add: byte_def)

lemma sextets_less: "x \<in> set (sextets s) \<Longrightarrow> x < 64"
proof (induction s rule: sextets.induct)
  case (2 a)
  then show ?case using byte_less [of a] by auto
next
  case (3 a b)
  then show ?case using byte_less [of a] byte_less [of b] by auto
next
  case (4 a b c s)
  then show ?case using byte_less [of a] byte_less [of b] byte_less [of c] by auto
qed simp

lemma b64_digits: "list_all (\<lambda>n. b64_value (b64_char n) = Some n \<and> b64_char n \<noteq> CHR ''.'') [0..<64]"
  by code_simp

lemma b64_value_char [simp]: "n < 64 \<Longrightarrow> b64_value (b64_char n) = Some n"
  using b64_digits by (simp add: list_all_iff)

lemma b64_char_dot: "n < 64 \<Longrightarrow> b64_char n \<noteq> CHR ''.''"
  using b64_digits by (simp add: list_all_iff)

lemma length_sextets: "length (sextets s) mod 4 \<noteq> 1"
  by (induction s rule: sextets.induct) simp_all

lemma sextet_bytes_sextets: "sextet_bytes (sextets s) = s"
proof (induction s rule: sextets.induct)
  case (2 a)
  show ?case by simp
next
  case (3 a b)
  show ?case using byte_less [of b] by simp
next
  case (4 a b c s)
  then show ?case using byte_less [of b] byte_less [of c] by simp
qed simp

theorem RawURL_roundtrip: "RawURL_DecodeString (RawURL_EncodeToString s) = Inr s"
proof -
  have all: "\<forall>x \<in> set (sextets s). x < 64" using sextets_less by blast
  then have "takeWhile (\<lambda>c. b64_skip c \<or> b64_value c \<noteq> None) (map b64_char (sextets s)) =
      map b64_char (sextets s)"
    by (intro takeWhile_eq_all_conv [THEN iffD2]) auto
  moreover have "List.map_filter b64_value (map b64_char (sextets s)) = sextets s"
    using all by (induction "sextets s" arbitrary: s) (auto simp: List.map_filter_def o_def intro: map_idI)
  ultimately show ?thesis
    unfolding RawURL_DecodeString_def RawURL_EncodeToString_def Let_def
    by (simp only: length_sextets sextet_bytes_sextets if_False less_irrefl)
qed

lemma RawURL_no_dot: "CHR ''.'' \<notin> set (RawURL_EncodeToString s)"
  using sextets_less b64_char_dot by (auto simp: RawURL_EncodeToString_def) metis

section \<open>HMAC\<close>

definition xor_byte :: "nat \<Rightarrow> char \<Rightarrow> char" where
  "xor_byte n c = char_of (byte c XOR n)"

definition hmac_key :: "string \<Rightarrow> string" where
  "hmac_key secret =
     (let k = (if length secret > 64 then Sum256 secret else secret)
      in k @ replicate (64 - length k) (char_of (0 :: nat)))"

definition hmacSHA256 :: "string \<Rightarrow> string \<Rightarrow> string" where
  "hmacSHA256 secret data =
     (let k = hmac_key secret
      in Sum256 (map (xor_byte 92) k @ Sum256 (map (xor_byte 54) k @ data)))"

lemma length_hmacSHA256 [simp]: "length (hmacSHA256 secret data) = 32"
  by (simp add: hmacSHA256_def Let_def)

section \<open>Splitting at a byte\<close>

lemma split_from_no_sep: "x \<notin> set s \<Longrightarrow> split_from cur s x = [cur @ s]"
  by (induction s arbitrary: cur) auto

lemma split_from_sep: "x \<notin> set s \<Longrightarrow> split_from cur (s @ x # t) x = (cur @ s) # split_from [] t x"
  by (induction s arbitrary: cur) auto

lemma split_from_Join: "Join (split_from cur s x) [x] = cur @ s"
proof (induction s arbitrary: cur)
  case (Cons c s)
  have "split_from d t x \<noteq> []" for d t by (induction t arbitrary: d) auto
  then obtain a as where "split_from [] s x = a # as" by (meson neq_Nil_conv)
  with Cons.IH [of "[]"] Cons.IH [of "cur @ [c]"] show ?case by auto
qed simp

lemma Split_Join: "Join (Split s x) [x] = s"
  by (simp add: Split_def split_from_Join)

end
