(* ===== verification/Session_Auth.thy ===== *)
theory Session_Auth
  imports Contracts Go_Crypto
begin

text \<open>
  Logins and session tokens: \<^verbatim>\<open>SignJWT\<close>, \<^verbatim>\<open>VerifyJWT\<close>, \<^verbatim>\<open>HashSecret\<close> and \<^verbatim>\<open>VerifySecret\<close> of
  \<^verbatim>\<open>backend/util/apiutil/util.go\<close>, and the login handler of \<^verbatim>\<open>backend/managers/auth.go\<close>. The JSON form of
  the claims is the pair of functions \<open>marshal\<close> and \<open>unmarshal\<close>; the user table is a lookup.
\<close>

section \<open>Secrets and tokens\<close>

record session_claims =
  sc_Sub :: string
  sc_UID :: int
  sc_Iat :: int
  sc_Exp :: int

definition HashSecret :: "string \<Rightarrow> string" where
  "HashSecret raw = ''sha256$'' @ EncodeToString (Sum256 raw)"

definition VerifySecret :: "string \<Rightarrow> string \<Rightarrow> bool" where
  "VerifySecret raw stored =
     (if TrimSpace stored = [] then False
      else if HasPrefix stored ''sha256$'' then HashSecret raw = stored
      else raw = stored)"

definition jwt_header :: string where
  "jwt_header =
     (let q = [char_of (34 :: nat)]
      in ''{'' @ q @ ''alg'' @ q @ '':'' @ q @ ''HS256'' @ q @ '','' @ q @ ''typ'' @ q @ '':'' @ q @ ''JWT'' @ q @ ''}'')"

definition SignJWT :: "(session_claims \<Rightarrow> string) \<Rightarrow> session_claims \<Rightarrow> string \<Rightarrow> string" where
  "SignJWT marshal claims secret =
     (let left = RawURL_EncodeToString jwt_header @ ''.'' @ RawURL_EncodeToString (marshal claims);
          sig = hmacSHA256 secret left
      in left @ ''.'' @ RawURL_EncodeToString sig)"

definition VerifyJWT ::
  "(string \<Rightarrow> session_claims result) \<Rightarrow> time \<Rightarrow> string \<Rightarrow> string \<Rightarrow> session_claims result" where
  "VerifyJWT unmarshal now token secret =
     (case Split token (CHR ''.'') of
        [p0, p1, p2] \<Rightarrow>
          let left = p0 @ ''.'' @ p1;
              want = hmacSHA256 secret left
          in (case RawURL_DecodeString p2 of
                Inl e \<Rightarrow> Inl e
              | Inr got \<Rightarrow>
                  if want \<noteq> got then Inl (ErrorString ''signature mismatch'')
                  else (case RawURL_DecodeString p1 of
                          Inl e \<Rightarrow> Inl e
                        | Inr payload \<Rightarrow>
                            (case unmarshal payload of
                               Inl e \<Rightarrow> Inl e
                             | Inr claims \<Rightarrow>
                                 if sc_Exp claims \<le> time_Unix now then Inl (ErrorString ''expired'')
                                 else Inr claims)))
      | _ \<Rightarrow> Inl (ErrorString ''invalid token''))"

section \<open>Replies\<close>

text \<open>What a handler writes: \<^verbatim>\<open>WriteError\<close> with its status, code and message, or a value as JSON.\<close>

datatype 'a http_reply = HttpError int string string | HttpOK 'a

section \<open>Login\<close>

record AuthManager =
  am_Secret :: string
  am_TokenTTL :: duration

record dbUser =
  du_ID :: int
  du_Username :: string
  du_PasswordHash :: string
  du_APIKeyHash :: string
  du_Active :: bool

record login_request =
  lr_Username :: string
  lr_Password :: string
  lr_APIKey :: string

definition invalid_credentials :: "string http_reply" where
  "invalid_credentials = HttpError 401 ''invalid_credentials'' ''invalid credentials''"

definition credentials_ok :: "login_request \<Rightarrow> dbUser \<Rightarrow> bool" where
  "credentials_ok req user =
     (let ok = (if TrimSpace (lr_Password req) \<noteq> [] then VerifySecret (lr_Password req) (du_PasswordHash user)
                else False)
      in if \<not> ok \<and> TrimSpace (lr_APIKey req) \<noteq> [] then VerifySecret (lr_APIKey req) (du_APIKeyHash user)
         else ok)"

definition user_claims :: "AuthManager \<Rightarrow> time \<Rightarrow> dbUser \<Rightarrow> session_claims" where
  "user_claims m now user =
     \<lparr>sc_Sub = du_Username user, sc_UID = du_ID user, sc_Iat = time_Unix now,
      sc_Exp = time_Unix (time_Add now (am_TokenTTL m))\<rparr>"

definition HandleLogin ::
  "(session_claims \<Rightarrow> string) \<Rightarrow> AuthManager \<Rightarrow> (string \<Rightarrow> dbUser result) \<Rightarrow> time \<Rightarrow> login_request result \<Rightarrow>
   string http_reply" where
  "HandleLogin marshal m fetchUserByUsername now body =
     (case body of
        Inl e \<Rightarrow> HttpError 400 ''invalid_json'' (error_text e)
      | Inr req \<Rightarrow>
          let username = TrimSpace (lr_Username req)
          in if username = [] then HttpError 400 ''username_required'' ''username is required''
             else (case fetchUserByUsername username of
                 Inl e \<Rightarrow> invalid_credentials
               | Inr user \<Rightarrow>
                   if \<not> du_Active user then invalid_credentials
                   else if \<not> credentials_ok req user then invalid_credentials
                   else HttpOK (SignJWT marshal (user_claims m now user) (am_Secret m))))"

section \<open>Lemmas\<close>

lemma Split_three:
  assumes "x \<notin> set p" and "x \<notin> set q" and "x \<notin> set r"
  shows "Split (p @ x # q @ x # r) x = [p, q, r]"
  using assms by (simp add: Split_def split_from_sep split_from_no_sep)

lemma VerifyJWT_SignJWT:
  assumes "unmarshal (marshal claims) = Inr claims"
  shows "VerifyJWT unmarshal now (SignJWT marshal claims secret) secret =
    (if time_Unix now < sc_Exp claims then Inr claims else Inl (ErrorString ''expired''))"
proof -
  let ?h = "RawURL_EncodeToString jwt_header" and ?c = "RawURL_EncodeToString (marshal claims)"
  let ?s = "RawURL_EncodeToString (hmacSHA256 secret (?h @ ''.'' @ ?c))"
  have "Split (SignJWT marshal claims secret) (CHR ''.'') = [?h, ?c, ?s]"
    using Split_three [OF RawURL_no_dot RawURL_no_dot RawURL_no_dot] by (simp add: SignJWT_def Let_def)
  then show ?thesis using assms by (simp add: VerifyJWT_def RawURL_roundtrip)
qed

lemma VerifyJWT_Inr:
  assumes "VerifyJWT unmarshal now token secret = Inr claims"
  shows "\<exists>p q r. token = p @ ''.'' @ q @ ''.'' @ r \<and>
    RawURL_DecodeString r = Inr (hmacSHA256 secret (p @ ''.'' @ q)) \<and>
    (\<exists>payload. RawURL_DecodeString q = Inr payload \<and> unmarshal payload = Inr claims) \<and>
    time_Unix now < sc_Exp claims"
proof -
  obtain p q r where parts: "Split token (CHR ''.'') = [p, q, r]"
    using assms by (auto simp: VerifyJWT_def split: list.splits)
  then have "token = p @ ''.'' @ q @ ''.'' @ r" using Split_Join [of token "CHR ''.''"] by simp
  moreover have "RawURL_DecodeString r = Inr (hmacSHA256 secret (p @ ''.'' @ q)) \<and>
      (\<exists>payload. RawURL_DecodeString q = Inr payload \<and> unmarshal payload = Inr claims) \<and>
      time_Unix now < sc_Exp claims"
    using assms parts by (auto simp: VerifyJWT_def Let_def split: if_splits sum.splits)
  ultimately show ?thesis by blast
qed

section \<open>Properties\<close>

text \<open>C15: tokens. A token verifies only if its third part is the HMAC of the first two under the secret and
  its claims have not expired; a signed token verifies, with the same secret and until its expiry, to
  the claims that were signed, when the JSON decoder inverts the encoder.\<close>

theorem jwt_sound_and_complete:
  "(VerifyJWT unmarshal now token secret = Inr claims \<longrightarrow>
     (\<exists>p q r. token = p @ ''.'' @ q @ ''.'' @ r \<and>
        RawURL_DecodeString r = Inr (hmacSHA256 secret (p @ ''.'' @ q)) \<and>
        (\<exists>payload. RawURL_DecodeString q = Inr payload \<and> unmarshal payload = Inr claims)) \<and>
     time_Unix now < sc_Exp claims) \<and>
   (unmarshal (marshal c) = Inr c \<longrightarrow>
     VerifyJWT unmarshal now (SignJWT marshal c secret) secret =
       (if time_Unix now < sc_Exp c then Inr c else Inl (ErrorString ''expired'')))"
  using VerifyJWT_Inr [of unmarshal now token secret claims] VerifyJWT_SignJWT [of unmarshal marshal c now secret]
  by blast

text \<open>Login. A token is issued exactly for a request with a user name that names an active user and a
  password or API key that matches the stored secret; it then verifies as that user until the token's
  lifetime is over, and every refusal after the user name is the same answer, so it does not tell
  whether the user exists.\<close>

theorem login_issues_valid_token:
  assumes "\<forall>c. unmarshal (marshal c) = Inr c"
  shows "(\<forall>token. HandleLogin marshal m fetch now (Inr req) = HttpOK token \<longrightarrow>
      (\<exists>user. fetch (TrimSpace (lr_Username req)) = Inr user \<and> du_Active user \<and> credentials_ok req user \<and>
        (\<forall>t. time_Unix t < time_Unix (now + am_TokenTTL m) \<longrightarrow>
          VerifyJWT unmarshal t token (am_Secret m) = Inr (user_claims m now user)))) \<and>
    ((\<exists>token. HandleLogin marshal m fetch now (Inr req) = HttpOK token) \<longleftrightarrow>
      TrimSpace (lr_Username req) \<noteq> [] \<and>
      (\<exists>user. fetch (TrimSpace (lr_Username req)) = Inr user \<and> du_Active user \<and> credentials_ok req user)) \<and>
    (TrimSpace (lr_Username req) \<noteq> [] \<and> (\<nexists>token. HandleLogin marshal m fetch now (Inr req) = HttpOK token) \<longrightarrow>
      HandleLogin marshal m fetch now (Inr req) = invalid_credentials)"
proof -
  have ok: "HandleLogin marshal m fetch now (Inr req) = HttpOK token \<longleftrightarrow>
      TrimSpace (lr_Username req) \<noteq> [] \<and>
      (\<exists>user. fetch (TrimSpace (lr_Username req)) = Inr user \<and> du_Active user \<and> credentials_ok req user \<and>
        token = SignJWT marshal (user_claims m now user) (am_Secret m))" for token
    by (auto simp: HandleLogin_def Let_def invalid_credentials_def split: sum.split)
  moreover have "VerifyJWT unmarshal t (SignJWT marshal (user_claims m now user) (am_Secret m)) (am_Secret m) =
      Inr (user_claims m now user)" if "time_Unix t < time_Unix (now + am_TokenTTL m)" for t user
    using VerifyJWT_SignJWT assms that by (simp add: user_claims_def time_Add_def)
  moreover have "HandleLogin marshal m fetch now (Inr req) = invalid_credentials"
    if "TrimSpace (lr_Username req) \<noteq> []" "\<nexists>token. HandleLogin marshal m fetch now (Inr req) = HttpOK token"
    using that by (auto simp: HandleLogin_def Let_def split: sum.splits if_splits)
  ultimately show ?thesis by simp blast
qed

section \<open>Witnesses\<close>

definition demo_manager :: AuthManager where
  "demo_manager = \<lparr>am_Secret = ''key'', am_TokenTTL = nanos_per_second\<rparr>"

definition demo_user :: dbUser where
  "demo_user = \<lparr>du_ID = 7, du_Username = ''ann'', du_PasswordHash = ''pw'', du_APIKeyHash = [], du_Active = True\<rparr>"

text \<open>A text form of claims for the witnesses: the integers in decimal and the subject, separated by bars.\<close>

definition demo_marshal :: "session_claims \<Rightarrow> string" where
  "demo_marshal c = Itoa (sc_UID c) @ ''|'' @ Itoa (sc_Iat c) @ ''|'' @ Itoa (sc_Exp c) @ ''|'' @ sc_Sub c"

definition demo_atoi :: "string \<Rightarrow> int" where
  "demo_atoi s = (if HasPrefix s ''-'' then - decimal_value (tl s) else decimal_value s)"

definition demo_unmarshal :: "string \<Rightarrow> session_claims result" where
  "demo_unmarshal s =
     (case Split s (CHR ''|'') of
        a # b # c # rest \<Rightarrow>
          Inr \<lparr>sc_Sub = Join rest ''|'', sc_UID = demo_atoi a, sc_Iat = demo_atoi b, sc_Exp = demo_atoi c\<rparr>
      | _ \<Rightarrow> Inl (ErrorString ''syntax''))"

lemma decimal_char: "0 \<le> n \<Longrightarrow> c \<in> set (decimal n) \<Longrightarrow> c \<noteq> CHR ''|'' \<and> c \<noteq> CHR ''-''"
  using decimal_digits [of n c] by auto

lemma Itoa_no_bar: "CHR ''|'' \<notin> set (Itoa n)"
  using decimal_char [of "\<bar>n\<bar>" "CHR ''|''"] by (auto simp: Itoa_def)

lemma demo_atoi_Itoa: "demo_atoi (Itoa n) = n"
proof -
  have "\<not> HasPrefix (decimal n) ''-''" if "0 \<le> n"
    using decimal_char [OF that, of "hd (decimal n)"] by (cases "decimal n") (auto simp: HasPrefix_def)
  then show ?thesis by (simp add: demo_atoi_def Itoa_def decimal_value_decimal HasPrefix_def)
qed

lemma demo_json: "demo_unmarshal (demo_marshal c) = Inr c"
proof -
  have "Split (demo_marshal c) (CHR ''|'') =
      Itoa (sc_UID c) # Itoa (sc_Iat c) # Itoa (sc_Exp c) # Split (sc_Sub c) (CHR ''|'')"
    by (simp add: demo_marshal_def Split_def split_from_sep Itoa_no_bar)
  then show ?thesis by (simp add: demo_unmarshal_def demo_atoi_Itoa Split_Join)
qed

theorem jwt_sound_and_complete_witness:
  "VerifyJWT demo_unmarshal 0 (SignJWT demo_marshal \<lparr>sc_Sub = ''ann'', sc_UID = 7, sc_Iat = 0, sc_Exp = 5\<rparr> ''key'') ''key'' =
     Inr \<lparr>sc_Sub = ''ann'', sc_UID = 7, sc_Iat = 0, sc_Exp = 5\<rparr>"
  using jwt_sound_and_complete [of demo_unmarshal 0 _ "''key''" _ demo_marshal
      "\<lparr>sc_Sub = ''ann'', sc_UID = 7, sc_Iat = 0, sc_Exp = 5\<rparr>"]
  by (simp add: demo_json time_Unix_def nanos_per_second_def)

theorem login_issues_valid_token_witness:
  "\<exists>token. HandleLogin demo_marshal demo_manager (\<lambda>u. Inr demo_user) 0
      (Inr \<lparr>lr_Username = ''ann'', lr_Password = ''pw'', lr_APIKey = []\<rparr>) = HttpOK token \<and>
    VerifyJWT demo_unmarshal 0 token ''key'' = Inr (user_claims demo_manager 0 demo_user)"
proof -
  let ?req = "\<lparr>lr_Username = ''ann'', lr_Password = ''pw'', lr_APIKey = []\<rparr>"
  have j: "\<forall>c. demo_unmarshal (demo_marshal c) = Inr c" by (simp add: demo_json)
  note login = login_issues_valid_token [OF j, of demo_manager "\<lambda>u. Inr demo_user" 0 ?req]
  have t: "TrimSpace ''ann'' = ''ann''" "TrimSpace ''pw'' = ''pw''" by code_simp+
  have "credentials_ok ?req demo_user" "du_Active demo_user"
    by (simp_all add: credentials_ok_def VerifySecret_def demo_user_def t HasPrefix_def)
  with login obtain token where token: "HandleLogin demo_marshal demo_manager (\<lambda>u. Inr demo_user) 0 (Inr ?req) = HttpOK token"
    by (auto simp: t)
  have "time_Unix 0 < time_Unix (0 + am_TokenTTL demo_manager)" "am_Secret demo_manager = ''key''"
    by (simp_all add: demo_manager_def time_Unix_def nanos_per_second_def)
  with login token show ?thesis by auto
qed


end
