(* ===== verification/Tenant_Scope.thy ===== *)
theory Tenant_Scope
  imports Contracts Go_Format
begin

text \<open>
  Where the tenant scope enters and where it is enforced: \<^verbatim>\<open>internal/middleware/tenant_context.go\<close>
  puts the authenticated tenant into the request context, \<^verbatim>\<open>internal/repository/tenant_guard.go\<close>
  compares it with the tenant of the data an operation touches.
\<close>

section \<open>Repository guards\<close>

definition ErrUnscopedRepositoryAccess :: error where
  "ErrUnscopedRepositoryAccess = ErrorString ''repository access requires tenant scope''"

definition unscoped_error :: "error \<Rightarrow> error" where
  "unscoped_error e =
     WrapError (error_text ErrUnscopedRepositoryAccess @ '': '' @ error_text e)
       ErrUnscopedRepositoryAccess"

definition GuardReadScope :: "Context option \<Rightarrow> TenantID \<Rightarrow> error option" where
  "GuardReadScope ctx targetTenant =
     (case EnsureTenantMatch ctx targetTenant of
        Some e \<Rightarrow> Some (unscoped_error e)
      | None \<Rightarrow> None)"

definition GuardWriteScope :: "Context option \<Rightarrow> TenantID \<Rightarrow> error option" where
  "GuardWriteScope ctx targetTenant =
     (case EnsureTenantMatch ctx targetTenant of
        Some e \<Rightarrow> Some (unscoped_error e)
      | None \<Rightarrow> None)"

section \<open>The middleware\<close>

text \<open>A request gives \<^verbatim>\<open>Header.Get\<close> (the empty string for an absent header) and its context.\<close>

record http_request =
  req_header :: "string \<Rightarrow> string"
  req_context :: Context

record TenantContextRejection =
  rej_status :: int
  rej_code :: string
  rej_message :: string

record TenantObservabilityMetadata =
  tom_RequestID :: string
  tom_TenantLabel :: string

abbreviation AuthenticatedTenantIDHeader :: string where
  "AuthenticatedTenantIDHeader \<equiv> ''X-Authenticated-Tenant-ID''"

abbreviation RequestIDHeader :: string where
  "RequestIDHeader \<equiv> ''X-Request-ID''"

definition writeTenantContextRejection :: "int \<Rightarrow> string \<Rightarrow> string \<Rightarrow> TenantContextRejection" where
  "writeTenantContextRejection status code message =
     \<lparr>rej_status = status, rej_code = code, rej_message = message\<rparr>"

text \<open>The handler writes a rejection or calls \<^verbatim>\<open>next\<close> with the extended context; a \<^verbatim>\<open>nil\<close> handler is
  replaced by one that does nothing.\<close>

definition TenantContextMiddleware ::
  "(Context \<Rightarrow> 'a) option \<Rightarrow> http_request \<Rightarrow> TenantContextRejection + 'a option" where
  "TenantContextMiddleware handler r =
     (let tenantRaw = TrimSpace (req_header r AuthenticatedTenantIDHeader)
      in if tenantRaw = []
         then Inl (writeTenantContextRejection 401 ''tenant_context_missing''
                     ''authenticated tenant context is required'')
         else let requestID = TrimSpace (req_header r RequestIDHeader)
              in if requestID = []
                 then Inl (writeTenantContextRejection 400 ''request_id_missing''
                             ''request id is required'')
                 else case WithTenantContext (Some (req_context r))
                             \<lparr>tc_TenantID = tenantRaw, tc_RequestID = requestID\<rparr> of
                     Inl e \<Rightarrow> Inl (writeTenantContextRejection 400 ''tenant_context_malformed''
                                     ''tenant context is malformed'')
                   | Inr ctx \<Rightarrow> Inr (map_option (\<lambda>h. h ctx) handler))"

definition tenantLabel :: "TenantID \<Rightarrow> string" where
  "tenantLabel tenantID = ''tenant_'' @ digits 16 8 (uint (fnv32a tenantID))"

definition ObservabilityMetadataFromContext ::
  "Context option \<Rightarrow> TenantObservabilityMetadata result" where
  "ObservabilityMetadataFromContext ctx =
     (case TenantContextFromContext ctx of
        Inl e \<Rightarrow> Inl e
      | Inr tc \<Rightarrow> Inr \<lparr>tom_RequestID = tc_RequestID tc, tom_TenantLabel = tenantLabel (tc_TenantID tc)\<rparr>)"

section \<open>Lemmas\<close>

lemma GuardReadScope_None:
  "GuardReadScope ctx t = None \<longleftrightarrow>
     t \<noteq> [] \<and> (\<exists>tc. TenantContextFromContext ctx = Inr tc \<and> tc_TenantID tc = t)"
  by (simp add: GuardReadScope_def EnsureTenantMatch_None)

lemma GuardWriteScope_None:
  "GuardWriteScope ctx t = None \<longleftrightarrow>
     t \<noteq> [] \<and> (\<exists>tc. TenantContextFromContext ctx = Inr tc \<and> tc_TenantID tc = t)"
  by (simp add: GuardWriteScope_def EnsureTenantMatch_None)

lemma middleware_served:
  "TenantContextMiddleware (Some h) r = Inr a \<longleftrightarrow>
     TrimSpace (req_header r AuthenticatedTenantIDHeader) \<noteq> [] \<and>
     TrimSpace (req_header r RequestIDHeader) \<noteq> [] \<and>
     a = Some (h ((req_context r)(TenantContextKey \<mapsto> CtxTenant
           \<lparr>tc_TenantID = TrimSpace (req_header r AuthenticatedTenantIDHeader),
            tc_RequestID = TrimSpace (req_header r RequestIDHeader)\<rparr>)))"
  by (auto simp: TenantContextMiddleware_def Let_def WithTenantContext_Inr or_background_def)

section \<open>Properties\<close>

text \<open>The scope the middleware establishes is the one the repository guards enforce. A request is
  served exactly when both headers hold more than white space, and the context its handler gets then
  passes the read and write guards for the tenant named by the header and for no other.\<close>

theorem middleware_scope_enforced:
  "(TenantContextMiddleware (Some h) r = Inl rej \<longrightarrow>
      rej_status rej = (if TrimSpace (req_header r AuthenticatedTenantIDHeader) = [] then 401 else 400)) \<and>
   (TenantContextMiddleware (Some id) r = Inr (Some ctx) \<longrightarrow>
      (\<forall>t. GuardReadScope (Some ctx) t = None \<longleftrightarrow>
             t = TrimSpace (req_header r AuthenticatedTenantIDHeader)) \<and>
      (\<forall>t. GuardWriteScope (Some ctx) t = None \<longleftrightarrow>
             t = TrimSpace (req_header r AuthenticatedTenantIDHeader))) \<and>
   ((\<exists>a. TenantContextMiddleware (Some h) r = Inr a) \<longleftrightarrow>
      TrimSpace (req_header r AuthenticatedTenantIDHeader) \<noteq> [] \<and>
      TrimSpace (req_header r RequestIDHeader) \<noteq> [])"
proof (intro conjI impI)
  assume "TenantContextMiddleware (Some h) r = Inl rej"
  then show "rej_status rej =
      (if TrimSpace (req_header r AuthenticatedTenantIDHeader) = [] then 401 else 400)"
    by (auto simp: TenantContextMiddleware_def Let_def writeTenantContextRejection_def
        split: if_splits sum.splits)
next
  assume *: "TenantContextMiddleware (Some id) r = Inr (Some ctx)"
  show "\<forall>t. GuardReadScope (Some ctx) t = None \<longleftrightarrow>
      t = TrimSpace (req_header r AuthenticatedTenantIDHeader)"
    using * by (auto simp: middleware_served GuardReadScope_None TenantContextFromContext_Inr)
  show "\<forall>t. GuardWriteScope (Some ctx) t = None \<longleftrightarrow>
      t = TrimSpace (req_header r AuthenticatedTenantIDHeader)"
    using * by (auto simp: middleware_served GuardWriteScope_None TenantContextFromContext_Inr)
qed (simp add: middleware_served)

definition sample_request :: http_request where
  "sample_request =
     \<lparr>req_header = (\<lambda>k. if k = AuthenticatedTenantIDHeader then '' acme '' else ''r1''),
      req_context = Background\<rparr>"

theorem middleware_scope_enforced_witness:
  "\<exists>ctx. TenantContextMiddleware (Some id) sample_request = Inr (Some ctx) \<and>
     GuardReadScope (Some ctx) ''acme'' = None \<and> GuardReadScope (Some ctx) ''evil'' \<noteq> None"
proof -
  have trim: "TrimSpace '' acme '' = ''acme''" "TrimSpace ''r1'' = ''r1''"
    by (simp_all add: string_eval)
  obtain ctx where ctx: "TenantContextMiddleware (Some id) sample_request = Inr (Some ctx)"
    using trim by (simp add: middleware_served sample_request_def)
  then have "\<forall>t. GuardReadScope (Some ctx) t = None \<longleftrightarrow> t = ''acme''"
    using middleware_scope_enforced [of id sample_request _ ctx] trim(1)
    by (simp add: sample_request_def)
  then have "GuardReadScope (Some ctx) ''acme'' = None" "GuardReadScope (Some ctx) ''evil'' \<noteq> None"
    by simp_all
  with ctx show ?thesis by blast
qed

text \<open>The tenant label of logs and metrics has a fixed shape, the prefix and eight hexadecimal
  digits, whatever bytes the tenant identifier holds, and a context yields it exactly when it carries
  a tenant scope.\<close>

theorem observability_label_shape:
  "length (tenantLabel t) = 15 \<and> HasPrefix (tenantLabel t) ''tenant_'' \<and>
   set (drop 7 (tenantLabel t)) \<subseteq> set ''0123456789abcdef'' \<and>
   (ObservabilityMetadataFromContext ctx = Inr m \<longleftrightarrow>
      (\<exists>tc. TenantContextFromContext ctx = Inr tc \<and> tom_RequestID m = tc_RequestID tc \<and>
            tom_TenantLabel m = tenantLabel (tc_TenantID tc)))"
proof (intro conjI)
  show "set (drop 7 (tenantLabel t)) \<subseteq> set ''0123456789abcdef''"
    using set_digits_hex by (simp add: tenantLabel_def del: set_simps)
qed (auto simp: tenantLabel_def HasPrefix_def ObservabilityMetadataFromContext_def)

end
