(* ===== verification/Repository.thy ===== *)
theory Repository
  imports Tenant_Scope
begin

text \<open>
  \<^verbatim>\<open>internal/repository/postgres_adapter.go\<close>: the tenant registry, ingestion metadata and audit event
  repositories over PostgreSQL. The database is outside: a record of the statements the repositories
  execute, each an operation on the database state \<open>'w\<close> whose outcome (a driver error, a timeout, the
  rows) the environment decides. \<^verbatim>\<open>encoding/json\<close> on string maps is the pair \<open>marshal\<close> and \<open>unmarshal\<close>.
\<close>

definition ErrRecordNotFound :: error where
  "ErrRecordNotFound = ErrorString ''record not found''"

record PostgresConfig =
  pg_QueryTimeout :: duration

definition withDefaults :: "PostgresConfig \<Rightarrow> PostgresConfig" where
  "withDefaults c =
     (if pg_QueryTimeout c \<le> 0 then c\<lparr>pg_QueryTimeout := 3 * nanos_per_second\<rparr> else c)"

text \<open>A row of \<^verbatim>\<open>audit_events\<close> as \<^verbatim>\<open>Scan\<close> reads it.\<close>

record audit_row =
  row_EventID :: string
  row_TenantID :: string
  row_EventType :: string
  row_Resource :: string
  row_Actor :: string
  row_Outcome :: string
  row_OccurredAt :: time
  row_AttributesJSON :: string

text \<open>
  The statements: the three \<^verbatim>\<open>INSERT ... ON CONFLICT\<close>, the two single-row \<^verbatim>\<open>SELECT\<close> (\<open>None\<close> is
  \<^verbatim>\<open>sql.ErrNoRows\<close>) and the \<^verbatim>\<open>SELECT\<close> of events, which gives for each step of the cursor a row or a
  scan error, and the error the cursor ends with.
\<close>

record 'w sql_db =
  exec_tenant_upsert :: "duration \<Rightarrow> TenantRecord \<Rightarrow> 'w \<Rightarrow> error option \<times> 'w"
  query_tenant :: "duration \<Rightarrow> string \<Rightarrow> 'w \<Rightarrow> TenantRecord option result \<times> 'w"
  exec_metadata_upsert :: "duration \<Rightarrow> IngestionMetadata \<Rightarrow> 'w \<Rightarrow> error option \<times> 'w"
  query_metadata :: "duration \<Rightarrow> string \<Rightarrow> string \<Rightarrow> 'w \<Rightarrow> IngestionMetadata option result \<times> 'w"
  exec_audit_insert :: "duration \<Rightarrow> audit_row \<Rightarrow> 'w \<Rightarrow> error option \<times> 'w"
  query_audit ::
    "duration \<Rightarrow> string \<Rightarrow> int \<Rightarrow> 'w \<Rightarrow> (audit_row result list \<times> error option) result \<times> 'w"

type_synonym json_marshal = "strmap \<Rightarrow> string result"
type_synonym json_unmarshal = "string \<Rightarrow> strmap result"

record 'w postgres_repository =
  pr_db :: "'w sql_db option"
  pr_cfg :: PostgresConfig

definition NewPostgresRepository :: "'w sql_db option \<Rightarrow> PostgresConfig \<Rightarrow> 'w postgres_repository" where
  "NewPostgresRepository db cfg = \<lparr>pr_db = db, pr_cfg = withDefaults cfg\<rparr>"

definition no_db :: error where
  "no_db = ErrorString ''postgres db is required''"

section \<open>Tenant registry\<close>

definition TenantRegistry_Upsert ::
  "'w postgres_repository \<Rightarrow> Context option \<Rightarrow> TenantRecord \<Rightarrow> 'w \<Rightarrow> error option \<times> 'w" where
  "TenantRegistry_Upsert r ctx tenant w =
     (case TenantRecord_Validate tenant of
        Some e \<Rightarrow> (Some (validation_error ''tenant_record'' e), w)
      | None \<Rightarrow>
     (case GuardWriteScope ctx (tr_TenantID tenant) of
        Some e \<Rightarrow> (Some e, w)
      | None \<Rightarrow>
     (case pr_db r of
        None \<Rightarrow> (Some no_db, w)
      | Some db \<Rightarrow> exec_tenant_upsert db (pg_QueryTimeout (pr_cfg r)) tenant w)))"

definition TenantRegistry_GetByTenantID ::
  "'w postgres_repository \<Rightarrow> Context option \<Rightarrow> TenantID \<Rightarrow> 'w \<Rightarrow> TenantRecord result \<times> 'w" where
  "TenantRegistry_GetByTenantID r ctx tenantID w =
     (case TenantID_Validate tenantID of
        Some e \<Rightarrow> (Inl (validation_error ''tenant_id'' e), w)
      | None \<Rightarrow>
     (case GuardReadScope ctx tenantID of
        Some e \<Rightarrow> (Inl e, w)
      | None \<Rightarrow>
     (case pr_db r of
        None \<Rightarrow> (Inl no_db, w)
      | Some db \<Rightarrow>
          (case query_tenant db (pg_QueryTimeout (pr_cfg r)) tenantID w of
             (Inl e, w1) \<Rightarrow> (Inl e, w1)
           | (Inr None, w1) \<Rightarrow> (Inl ErrRecordNotFound, w1)
           | (Inr (Some row), w1) \<Rightarrow> (Inr row, w1)))))"

section \<open>Ingestion metadata\<close>

definition IngestionMetadata_Save ::
  "'w postgres_repository \<Rightarrow> Context option \<Rightarrow> IngestionMetadata \<Rightarrow> 'w \<Rightarrow> error option \<times> 'w" where
  "IngestionMetadata_Save r ctx metadata w =
     (case IngestionMetadata_Validate metadata of
        Some e \<Rightarrow> (Some (validation_error ''ingestion_metadata'' e), w)
      | None \<Rightarrow>
     (case GuardWriteScope ctx (im_TenantID metadata) of
        Some e \<Rightarrow> (Some e, w)
      | None \<Rightarrow>
     (case pr_db r of
        None \<Rightarrow> (Some no_db, w)
      | Some db \<Rightarrow> exec_metadata_upsert db (pg_QueryTimeout (pr_cfg r)) metadata w)))"

definition IngestionMetadata_GetByChecksum ::
  "'w postgres_repository \<Rightarrow> Context option \<Rightarrow> TenantID \<Rightarrow> string \<Rightarrow> 'w \<Rightarrow>
   IngestionMetadata result \<times> 'w" where
  "IngestionMetadata_GetByChecksum r ctx tenantID checksumSHA256 w =
     (case TenantID_Validate tenantID of
        Some e \<Rightarrow> (Inl (validation_error ''tenant_id'' e), w)
      | None \<Rightarrow>
          if checksumSHA256 = [] then (Inl (ErrorString ''checksum_sha256 is required''), w)
          else (case GuardReadScope ctx tenantID of
             Some e \<Rightarrow> (Inl e, w)
           | None \<Rightarrow>
          (case pr_db r of
             None \<Rightarrow> (Inl no_db, w)
           | Some db \<Rightarrow>
               (case query_metadata db (pg_QueryTimeout (pr_cfg r)) tenantID checksumSHA256 w of
                  (Inl e, w1) \<Rightarrow> (Inl e, w1)
                | (Inr None, w1) \<Rightarrow> (Inl ErrRecordNotFound, w1)
                | (Inr (Some row), w1) \<Rightarrow> (Inr row, w1)))))"

section \<open>Audit events\<close>

definition event_row :: "AuditEvent \<Rightarrow> string \<Rightarrow> audit_row" where
  "event_row event attrs =
     \<lparr>row_EventID = ae_EventID event, row_TenantID = ae_TenantID event,
      row_EventType = ae_EventType event, row_Resource = ae_Resource event,
      row_Actor = ae_Actor event, row_Outcome = ae_Outcome event,
      row_OccurredAt = ae_OccurredAt event, row_AttributesJSON = attrs\<rparr>"

definition AuditEvent_Save ::
  "json_marshal \<Rightarrow> 'w postgres_repository \<Rightarrow> Context option \<Rightarrow> AuditEvent \<Rightarrow> 'w \<Rightarrow> error option \<times> 'w" where
  "AuditEvent_Save marshal r ctx event w =
     (case AuditEvent_Validate event of
        Some e \<Rightarrow> (Some (validation_error ''audit_event'' e), w)
      | None \<Rightarrow>
     (case GuardWriteScope ctx (ae_TenantID event) of
        Some e \<Rightarrow> (Some e, w)
      | None \<Rightarrow>
     (case pr_db r of
        None \<Rightarrow> (Some no_db, w)
      | Some db \<Rightarrow>
          (case marshal (ae_Attributes event) of
             Inl e \<Rightarrow> (Some (WrapError (''marshal audit attributes: '' @ error_text e) e), w)
           | Inr attrs \<Rightarrow>
               exec_audit_insert db (pg_QueryTimeout (pr_cfg r)) (event_row event attrs) w))))"

text \<open>The loop over the rows; an error in a row ends it. An empty attribute text leaves the attributes
  \<^verbatim>\<open>nil\<close>, which reads as the empty map.\<close>

definition row_event :: "audit_row \<Rightarrow> strmap \<Rightarrow> AuditEvent" where
  "row_event row attrs =
     \<lparr>ae_EventID = row_EventID row, ae_TenantID = row_TenantID row,
      ae_EventType = row_EventType row, ae_Resource = row_Resource row, ae_Actor = row_Actor row,
      ae_Outcome = row_Outcome row, ae_OccurredAt = row_OccurredAt row, ae_Attributes = attrs\<rparr>"

fun scan_rows ::
  "json_unmarshal \<Rightarrow> AuditEvent list \<Rightarrow> audit_row result list \<Rightarrow> AuditEvent list result" where
  "scan_rows unmarshal acc [] = Inr acc"
| "scan_rows unmarshal acc (Inl e # rows) = Inl e"
| "scan_rows unmarshal acc (Inr row # rows) =
     (if row_AttributesJSON row \<noteq> []
      then case unmarshal (row_AttributesJSON row) of
             Inl e \<Rightarrow> Inl (WrapError (''unmarshal audit attributes: '' @ error_text e) e)
           | Inr attrs \<Rightarrow> scan_rows unmarshal (acc @ [row_event row attrs]) rows
      else scan_rows unmarshal (acc @ [row_event row []]) rows)"

definition AuditEvent_ListByTenant ::
  "json_unmarshal \<Rightarrow> 'w postgres_repository \<Rightarrow> Context option \<Rightarrow> TenantID \<Rightarrow> int \<Rightarrow> 'w \<Rightarrow>
   AuditEvent list result \<times> 'w" where
  "AuditEvent_ListByTenant unmarshal r ctx tenantID limit w =
     (case TenantID_Validate tenantID of
        Some e \<Rightarrow> (Inl (validation_error ''tenant_id'' e), w)
      | None \<Rightarrow>
     (case GuardReadScope ctx tenantID of
        Some e \<Rightarrow> (Inl e, w)
      | None \<Rightarrow>
     (case pr_db r of
        None \<Rightarrow> (Inl no_db, w)
      | Some db \<Rightarrow>
          let n = (if limit \<le> 0 then 50 else limit)
          in case query_audit db (pg_QueryTimeout (pr_cfg r)) tenantID n w of
               (Inl e, w1) \<Rightarrow> (Inl e, w1)
             | (Inr (rows, cursor_error), w1) \<Rightarrow>
                 (case scan_rows unmarshal [] rows of
                    Inl e \<Rightarrow> (Inl e, w1)
                  | Inr events \<Rightarrow>
                      (case cursor_error of Some e \<Rightarrow> (Inl e, w1) | None \<Rightarrow> (Inr events, w1))))))"

definition PostgresAuditSink_Write :: "'w audit_sink option \<Rightarrow> 'w audit_sink" where
  "PostgresAuditSink_Write repo ctx event w =
     (case repo of None \<Rightarrow> (None, w) | Some save \<Rightarrow> save ctx event w)"

section \<open>Lemmas\<close>

text \<open>Every operation refuses, before the database, a tenant other than the context's.\<close>

definition in_scope :: "Context option \<Rightarrow> TenantID \<Rightarrow> bool" where
  "in_scope ctx t \<longleftrightarrow> t \<noteq> [] \<and> (\<exists>tc. TenantContextFromContext ctx = Inr tc \<and> tc_TenantID tc = t)"

lemma out_of_scope:
  "\<not> in_scope ctx t \<Longrightarrow> (\<exists>e. GuardWriteScope ctx t = Some e) \<and> (\<exists>e. GuardReadScope ctx t = Some e)"
  by (simp add: in_scope_def GuardWriteScope_None GuardReadScope_None flip: not_None_eq)

lemma scan_rows_Inr:
  "scan_rows unmarshal acc rows = Inr events \<Longrightarrow>
   \<exists>es. events = acc @ es \<and>
     list_all2 (\<lambda>row e. \<exists>r attrs. row = Inr r \<and> e = row_event r attrs) rows es"
proof (induction unmarshal acc rows arbitrary: events rule: scan_rows.induct)
  case (3 unmarshal acc row rows)
  then obtain attrs es where "events = (acc @ [row_event row attrs]) @ es"
    and "list_all2 (\<lambda>row e. \<exists>r attrs. row = Inr r \<and> e = row_event r attrs) rows es"
    by (fastforce split: if_splits)
  then show ?case by (intro exI [of _ "row_event row attrs # es"]) auto
qed auto

lemma AuditEvent_Save_stored:
  assumes "AuditEvent_Save marshal r ctx event w = (None, w')"
  shows "in_scope ctx (ae_TenantID event) \<and>
    (\<exists>db attrs. pr_db r = Some db \<and> marshal (ae_Attributes event) = Inr attrs \<and>
       exec_audit_insert db (pg_QueryTimeout (pr_cfg r)) (event_row event attrs) w = (None, w'))"
proof (cases "in_scope ctx (ae_TenantID event)")
  case False
  with out_of_scope [OF False] assms show ?thesis
    by (auto simp: AuditEvent_Save_def split: option.splits)
next
  case True
  with assms show ?thesis
    by (auto simp: AuditEvent_Save_def split: option.splits sum.splits)
qed

text \<open>What the repositories rely on in the \<^verbatim>\<open>SELECT\<close> statements: the rows satisfy the \<^verbatim>\<open>WHERE\<close> clause and
  are no more than the \<^verbatim>\<open>LIMIT\<close>.\<close>

definition selects_filter :: "'w sql_db \<Rightarrow> bool" where
  "selects_filter db \<longleftrightarrow>
     (\<forall>d t w row w'. query_tenant db d t w = (Inr (Some row), w') \<longrightarrow> tr_TenantID row = t) \<and>
     (\<forall>d t c w row w'. query_metadata db d t c w = (Inr (Some row), w') \<longrightarrow>
        im_TenantID row = t \<and> im_ChecksumSHA256 row = c) \<and>
     (\<forall>d t n w rows err w'. query_audit db d t n w = (Inr (rows, err), w') \<and> 0 < n \<longrightarrow>
        int (length rows) \<le> n \<and> (\<forall>row. Inr row \<in> set rows \<longrightarrow> row_TenantID row = t))"

lemma selects_filterD:
  "selects_filter db \<Longrightarrow> query_tenant db d t w = (Inr (Some tenant), w') \<Longrightarrow> tr_TenantID tenant = t"
  "selects_filter db \<Longrightarrow> query_metadata db d t c w = (Inr (Some meta), w') \<Longrightarrow>
     im_TenantID meta = t \<and> im_ChecksumSHA256 meta = c"
  "selects_filter db \<Longrightarrow> query_audit db d t n w = (Inr (rows, err), w') \<Longrightarrow> 0 < n \<Longrightarrow>
     int (length rows) \<le> n \<and> (\<forall>row. Inr row \<in> set rows \<longrightarrow> row_TenantID row = t)"
  unfolding selects_filter_def by blast+

lemma GetByTenantID_Inr:
  assumes "TenantRegistry_GetByTenantID r ctx t w = (Inr row, w')"
  shows "in_scope ctx t \<and>
    (\<exists>db. pr_db r = Some db \<and> query_tenant db (pg_QueryTimeout (pr_cfg r)) t w = (Inr (Some row), w'))"
proof -
  have "in_scope ctx t"
    using assms out_of_scope [of ctx t] by (auto simp: TenantRegistry_GetByTenantID_def split: option.splits)
  with assms show ?thesis
    by (auto simp: TenantRegistry_GetByTenantID_def split: option.splits sum.splits prod.splits)
qed

lemma GetByChecksum_Inr:
  assumes "IngestionMetadata_GetByChecksum r ctx t c w = (Inr row, w')"
  shows "in_scope ctx t \<and>
    (\<exists>db. pr_db r = Some db \<and> query_metadata db (pg_QueryTimeout (pr_cfg r)) t c w = (Inr (Some row), w'))"
proof -
  have "in_scope ctx t"
    using assms out_of_scope [of ctx t]
    by (auto simp: IngestionMetadata_GetByChecksum_def split: option.splits if_splits)
  with assms show ?thesis
    by (auto simp: IngestionMetadata_GetByChecksum_def split: option.splits sum.splits prod.splits if_splits)
qed

lemma ListByTenant_Inr:
  assumes "AuditEvent_ListByTenant unmarshal r ctx t limit w = (Inr events, w')"
  shows "in_scope ctx t \<and>
    (\<exists>db rows. pr_db r = Some db \<and> scan_rows unmarshal [] rows = Inr events \<and>
       query_audit db (pg_QueryTimeout (pr_cfg r)) t (if limit \<le> 0 then 50 else limit) w = (Inr (rows, None), w'))"
proof -
  have "in_scope ctx t"
    using assms out_of_scope [of ctx t] by (auto simp: AuditEvent_ListByTenant_def split: option.splits)
  with assms show ?thesis
    by (auto simp: AuditEvent_ListByTenant_def Let_def split: option.splits sum.splits prod.splits)
qed

section \<open>Properties\<close>

text \<open>C13: the repositories are closed outside the tenant scope. Whatever the database does, an operation on a
  tenant other than the one in the request context fails before the database is reached, for all six
  operations; the same holds for a context without a valid tenant.\<close>

theorem repository_scope_enforced:
  assumes "\<not> in_scope ctx t"
  shows "(tr_TenantID tenant = t \<longrightarrow> (\<exists>e. TenantRegistry_Upsert r ctx tenant w = (Some e, w))) \<and>
    (\<exists>e. TenantRegistry_GetByTenantID r ctx t w = (Inl e, w)) \<and>
    (im_TenantID metadata = t \<longrightarrow> (\<exists>e. IngestionMetadata_Save r ctx metadata w = (Some e, w))) \<and>
    (\<exists>e. IngestionMetadata_GetByChecksum r ctx t c w = (Inl e, w)) \<and>
    (ae_TenantID event = t \<longrightarrow> (\<exists>e. AuditEvent_Save marshal r ctx event w = (Some e, w))) \<and>
    (\<exists>e. AuditEvent_ListByTenant unmarshal r ctx t limit w = (Inl e, w))"
proof -
  obtain ew er where g: "GuardWriteScope ctx t = Some ew" "GuardReadScope ctx t = Some er"
    using out_of_scope [OF assms] by blast
  show ?thesis
    by (intro conjI impI)
      (simp_all add: g TenantRegistry_Upsert_def TenantRegistry_GetByTenantID_def IngestionMetadata_Save_def
        IngestionMetadata_GetByChecksum_def AuditEvent_Save_def AuditEvent_ListByTenant_def
        split: option.split)
qed

text \<open>C19: reads stay in the tenant. When the \<^verbatim>\<open>SELECT\<close> statements honour their \<^verbatim>\<open>WHERE\<close> and \<^verbatim>\<open>LIMIT\<close> clauses,
  every record a repository returns belongs to the tenant of the request context; a metadata record
  has the checksum asked for, and a list of audit events has at most the limit, 50 by default.\<close>

theorem repository_reads_own_tenant:
  assumes "\<forall>db. pr_db r = Some db \<longrightarrow> selects_filter db"
    and "TenantContextFromContext ctx = Inr tc"
  shows "(TenantRegistry_GetByTenantID r ctx t w = (Inr row, w1) \<longrightarrow> tr_TenantID row = tc_TenantID tc) \<and>
    (IngestionMetadata_GetByChecksum r ctx t c w = (Inr meta, w2) \<longrightarrow>
       im_TenantID meta = tc_TenantID tc \<and> im_ChecksumSHA256 meta = c) \<and>
    (AuditEvent_ListByTenant unmarshal r ctx t limit w = (Inr events, w3) \<longrightarrow>
       int (length events) \<le> (if limit \<le> 0 then 50 else limit) \<and>
       (\<forall>e \<in> set events. ae_TenantID e = tc_TenantID tc))"
proof (intro conjI impI)
  assume "TenantRegistry_GetByTenantID r ctx t w = (Inr row, w1)"
  from GetByTenantID_Inr [OF this] assms show "tr_TenantID row = tc_TenantID tc"
    by (auto simp: in_scope_def dest: selects_filterD(1))
next
  assume "IngestionMetadata_GetByChecksum r ctx t c w = (Inr meta, w2)"
  from GetByChecksum_Inr [OF this] assms
  show "im_TenantID meta = tc_TenantID tc" and "im_ChecksumSHA256 meta = c"
    by (auto simp: in_scope_def dest: selects_filterD(2))
next
  assume "AuditEvent_ListByTenant unmarshal r ctx t limit w = (Inr events, w3)"
  from ListByTenant_Inr [OF this] obtain db rows where t: "in_scope ctx t" and db: "pr_db r = Some db"
    and scan: "scan_rows unmarshal [] rows = Inr events"
    and q: "query_audit db (pg_QueryTimeout (pr_cfg r)) t (if limit \<le> 0 then 50 else limit) w = (Inr (rows, None), w3)"
    by blast
  have rows: "list_all2 (\<lambda>row e. \<exists>r attrs. row = Inr r \<and> e = row_event r attrs) rows events"
    using scan_rows_Inr [OF scan] by simp
  have sel: "int (length rows) \<le> (if limit \<le> 0 then 50 else limit)" "Inr rw \<in> set rows \<Longrightarrow> row_TenantID rw = t" for rw
    using selects_filterD(3) [OF _ q] assms(1) db by auto
  show "int (length events) \<le> (if limit \<le> 0 then 50 else limit)"
    using sel(1) list_all2_lengthD [OF rows] by simp
  show "\<forall>e \<in> set events. ae_TenantID e = tc_TenantID tc"
  proof
    fix e assume "e \<in> set events"
    then obtain rw attrs where "Inr rw \<in> set rows" "e = row_event rw attrs"
      using rows by (auto simp: list_all2_conv_all_nth in_set_conv_nth) (metis nth_mem)
    with sel(2) t assms(2) show "ae_TenantID e = tc_TenantID tc" by (simp add: row_event_def in_scope_def)
  qed
qed

section \<open>Witnesses\<close>

text \<open>A database of one table of audit rows.\<close>

definition demo_db :: "audit_row list sql_db" where
  "demo_db =
     \<lparr>exec_tenant_upsert = (\<lambda>d t w. (None, w)), query_tenant = (\<lambda>d t w. (Inr None, w)),
      exec_metadata_upsert = (\<lambda>d m w. (None, w)), query_metadata = (\<lambda>d t c w. (Inr None, w)),
      exec_audit_insert = (\<lambda>d row w. (None, w @ [row])),
      query_audit = (\<lambda>d t n w. (Inr (map Inr (take (nat n) (filter (\<lambda>row. row_TenantID row = t) w)), None), w))\<rparr>"

definition demo_row :: "string \<Rightarrow> audit_row" where
  "demo_row t =
     \<lparr>row_EventID = ''e'', row_TenantID = t, row_EventType = ''x'', row_Resource = [], row_Actor = [],
      row_Outcome = AuditOutcomeAllowed, row_OccurredAt = 1, row_AttributesJSON = []\<rparr>"

definition demo_ctx :: Context where
  "demo_ctx = Map.empty(TenantContextKey \<mapsto> CtxTenant \<lparr>tc_TenantID = ''acme'', tc_RequestID = ''r''\<rparr>)"

theorem repository_scope_enforced_witness:
  "\<exists>e. AuditEvent_ListByTenant (\<lambda>_. Inr []) (NewPostgresRepository (Some demo_db) \<lparr>pg_QueryTimeout = 0\<rparr>)
     (Some demo_ctx) ''evil'' 10 [demo_row ''evil''] = (Inl e, [demo_row ''evil''])"
proof -
  have "\<not> in_scope (Some demo_ctx) ''evil''"
    by (simp add: in_scope_def demo_ctx_def TenantContextFromContext_Inr)
  from repository_scope_enforced [OF this, of _ "NewPostgresRepository (Some demo_db) \<lparr>pg_QueryTimeout = 0\<rparr>"
      "[demo_row ''evil'']" _ _ _ _ "\<lambda>_. Inr []" 10] show ?thesis by blast
qed

lemma demo_db_selects: "selects_filter demo_db"
  by (auto simp: selects_filter_def demo_db_def dest: in_set_takeD)

theorem repository_reads_own_tenant_witness:
  "\<exists>events w. AuditEvent_ListByTenant (\<lambda>_. Inr []) (NewPostgresRepository (Some demo_db) \<lparr>pg_QueryTimeout = 0\<rparr>)
     (Some demo_ctx) ''acme'' 10 [demo_row ''evil'', demo_row ''acme''] = (Inr events, w) \<and>
     events \<noteq> [] \<and> (\<forall>e \<in> set events. ae_TenantID e = ''acme'')"
proof -
  let ?r = "NewPostgresRepository (Some demo_db) \<lparr>pg_QueryTimeout = 0\<rparr>"
  let ?tc = "\<lparr>tc_TenantID = ''acme'', tc_RequestID = ''r''\<rparr>" and ?w = "[demo_row ''evil'', demo_row ''acme'']"
  have db: "\<forall>db. pr_db ?r = Some db \<longrightarrow> selects_filter db"
    by (simp add: NewPostgresRepository_def demo_db_selects)
  have tc: "TenantContextFromContext (Some demo_ctx) = Inr ?tc"
    by (simp add: demo_ctx_def TenantContextFromContext_Inr)
  then have "GuardReadScope (Some demo_ctx) ''acme'' = None" by (simp add: GuardReadScope_None)
  then have run: "AuditEvent_ListByTenant (\<lambda>_. Inr []) ?r (Some demo_ctx) ''acme'' 10 ?w =
      (Inr [row_event (demo_row ''acme'') []], ?w)"
    by (simp add: AuditEvent_ListByTenant_def NewPostgresRepository_def demo_db_def demo_row_def TenantID_Validate_def)
  with repository_reads_own_tenant [OF db tc, of "''acme''" ?w _ _ _ _ _ "\<lambda>_. Inr []" 10] show ?thesis by auto
qed

end
