(* ===== verification/Rate_Limit.thy ===== *)
theory Rate_Limit
  imports Contracts
begin

text \<open>
  The two limiters: \<^verbatim>\<open>internal/ratelimit/limiter.go\<close> (a counter per tenant and a global one, both over
  the wall-clock second) and the \<^verbatim>\<open>WindowLimiter\<close> of \<^verbatim>\<open>backend/util/serverUtil.go\<close> (a counter per key
  over a window that opens with the key's first request). The mutex makes each call atomic, so a
  history of calls is a list of requests. The clock is read once per call and is an argument.
\<close>

section \<open>Tenant and global limits per second\<close>

record windowCounter =
  wc_windowEpochSecond :: int
  wc_count :: int

record Limiter =
  lim_TenantSteadyRPS :: int
  lim_TenantBurstRPS :: int
  lim_GlobalBurstRPS :: int
  lim_tenant :: "TenantID \<rightharpoonup> windowCounter"
  lim_global :: windowCounter

definition zero_counter :: windowCounter where
  "zero_counter = \<lparr>wc_windowEpochSecond = 0, wc_count = 0\<rparr>"

definition NewLimiter :: Limiter where
  "NewLimiter =
     \<lparr>lim_TenantSteadyRPS = 2, lim_TenantBurstRPS = 4, lim_GlobalBurstRPS = 600,
      lim_tenant = Map.empty, lim_global = zero_counter\<rparr>"

definition nextWindow :: "windowCounter \<Rightarrow> int \<Rightarrow> windowCounter" where
  "nextWindow counter nowSec =
     (if wc_windowEpochSecond counter \<noteq> nowSec
      then \<lparr>wc_windowEpochSecond = nowSec, wc_count = 0\<rparr> else counter)"

definition tenant_counter :: "Limiter \<Rightarrow> TenantID \<Rightarrow> windowCounter" where
  "tenant_counter l t = (case lim_tenant l t of None \<Rightarrow> zero_counter | Some c \<Rightarrow> c)"

definition zero_decision :: RateLimitDecision where
  "zero_decision = \<lparr>rl_Allowed = False, rl_Reason = [], rl_Remaining = 0, rl_RetryAfter = 0\<rparr>"

definition deny :: "string \<Rightarrow> RateLimitDecision" where
  "deny reason =
     \<lparr>rl_Allowed = False, rl_Reason = reason, rl_Remaining = 0, rl_RetryAfter = nanos_per_second\<rparr>"

text \<open>\<^verbatim>\<open>Limiter.Allow\<close>: the decision, the error, and the limiter afterwards. A \<^verbatim>\<open>nil\<close> limiter is
  \<open>None\<close>.\<close>

definition Allow ::
  "Limiter option \<Rightarrow> time \<Rightarrow> TenantID \<Rightarrow> (RateLimitDecision \<times> error option) \<times> Limiter option" where
  "Allow lo now t =
     (case lo of
        None \<Rightarrow> ((zero_decision, Some (ErrorString ''rate limiter is required'')), None)
      | Some l \<Rightarrow>
          (case TenantID_Validate t of
             Some e \<Rightarrow> ((zero_decision, Some e), Some l)
           | None \<Rightarrow>
               let nowSec = time_Unix now;
                   g = nextWindow (lim_global l) nowSec;
                   l1 = l\<lparr>lim_global := g\<rparr>
               in if wc_count g \<ge> lim_GlobalBurstRPS l then
                    let decision = deny ''global_burst_limit_exceeded''
                    in ((decision, RateLimitDecision_Validate decision), Some l1)
                  else
                    let c = nextWindow (tenant_counter l1 t) nowSec
                    in if wc_count c \<ge> lim_TenantBurstRPS l then
                         let decision = deny (''tenant_burst_limit_exceeded:'' @ t)
                         in ((decision, RateLimitDecision_Validate decision), Some l1)
                       else
                         let c' = c\<lparr>wc_count := inc64 (wc_count c)\<rparr>;
                             l2 = l1\<lparr>lim_tenant := (lim_tenant l1)(t \<mapsto> c'),
                                     lim_global := g\<lparr>wc_count := inc64 (wc_count g)\<rparr>\<rparr>;
                             remaining = wrap64 (lim_TenantBurstRPS l - wc_count c')
                         in ((\<lparr>rl_Allowed = True, rl_Reason = [], rl_Remaining = remaining,
                               rl_RetryAfter = 0\<rparr>, None), Some l2)))"

section \<open>Requests per key and window\<close>

record windowState =
  ws_start :: time
  ws_count :: int

record WindowLimiter =
  wl_limit :: int
  wl_window :: duration
  wl_state :: "string \<rightharpoonup> windowState"

definition NewWindowLimiter :: "int \<Rightarrow> WindowLimiter" where
  "NewWindowLimiter limit =
     \<lparr>wl_limit = (if limit \<le> 0 then 120 else limit), wl_window = 60 * nanos_per_second,
      wl_state = Map.empty\<rparr>"

definition window_state :: "WindowLimiter \<Rightarrow> string \<Rightarrow> windowState" where
  "window_state l key =
     (case wl_state l key of None \<Rightarrow> \<lparr>ws_start = 0, ws_count = 0\<rparr> | Some c \<Rightarrow> c)"

definition WindowLimiter_Allow :: "WindowLimiter \<Rightarrow> time \<Rightarrow> string \<Rightarrow> bool \<times> WindowLimiter" where
  "WindowLimiter_Allow l now key =
     (let cur = window_state l key
      in if time_IsZero (ws_start cur) \<or> time_Sub now (ws_start cur) \<ge> wl_window l then
           (True, l\<lparr>wl_state := (wl_state l)(key \<mapsto> \<lparr>ws_start = now, ws_count = 1\<rparr>)\<rparr>)
         else if ws_count cur \<ge> wl_limit l then (False, l)
         else (True, l\<lparr>wl_state := (wl_state l)
                         (key \<mapsto> cur\<lparr>ws_count := inc64 (ws_count cur)\<rparr>)\<rparr>))"

section \<open>Histories of calls\<close>

text \<open>A sequence of calls, with the answers in order.\<close>

fun run_calls :: "('s \<Rightarrow> 'r \<Rightarrow> bool \<times> 's) \<Rightarrow> 's \<Rightarrow> 'r list \<Rightarrow> bool list \<times> 's" where
  "run_calls step s [] = ([], s)"
| "run_calls step s (r # rs) =
     (let (b, s') = step s r; (bs, s'') = run_calls step s' rs in (b # bs, s''))"

text \<open>The requests that were admitted, in order.\<close>

definition admitted :: "'r list \<Rightarrow> bool list \<Rightarrow> 'r list" where
  "admitted rs bs = map fst (filter snd (zip rs bs))"

definition allow_call :: "Limiter \<Rightarrow> time \<times> TenantID \<Rightarrow> bool \<times> Limiter" where
  "allow_call l r =
     (let ((d, e), l') = Allow (Some l) (fst r) (snd r) in (rl_Allowed d, the l'))"

definition window_call :: "WindowLimiter \<Rightarrow> time \<times> string \<Rightarrow> bool \<times> WindowLimiter" where
  "window_call l r = WindowLimiter_Allow l (fst r) (snd r)"

section \<open>Specification by history\<close>

text \<open>
  What a limiter promises, said without counters: a predicate on the admitted requests so far (most
  recent first) and the next request. A limiter that simulates such a predicate gives, on every
  sequence of calls, exactly the specified answers.
\<close>

fun spec_run :: "('r list \<Rightarrow> 'r \<Rightarrow> bool) \<Rightarrow> 'r list \<Rightarrow> 'r list \<Rightarrow> bool list" where
  "spec_run allows h [] = []"
| "spec_run allows h (r # rs) =
     allows h r # spec_run allows (if allows h r then r # h else h) rs"

locale history_limiter =
  fixes step :: "'s \<Rightarrow> 'r \<Rightarrow> bool \<times> 's"
    and allows :: "'s \<Rightarrow> 'r list \<Rightarrow> 'r \<Rightarrow> bool"
    and sim :: "'s \<Rightarrow> 'r list \<Rightarrow> 'r \<Rightarrow> bool"
    and ord :: "'r \<Rightarrow> 'r \<Rightarrow> bool"
  assumes step_allows: "sim s h r \<Longrightarrow> fst (step s r) = allows s h r"
    and step_sim: "sim s h r \<Longrightarrow> ord r r' \<Longrightarrow>
      sim (snd (step s r)) (if allows s h r then r # h else h) r'"
    and step_config: "allows (snd (step s r)) = allows s"
begin

lemma run_spec:
  "sorted_wrt ord rs \<Longrightarrow> (\<forall>r rs'. rs = r # rs' \<longrightarrow> sim s h r) \<Longrightarrow>
   fst (run_calls step s rs) = spec_run (allows s) h rs"
proof (induction rs arbitrary: s h)
  case (Cons r rs)
  let ?s' = "snd (step s r)" and ?h' = "if allows s h r then r # h else h"
  from Cons.prems have sim: "sim s h r" by simp
  have "\<forall>r' rs'. rs = r' # rs' \<longrightarrow> sim ?s' ?h' r'"
    using Cons.prems(1) step_sim [OF sim] by auto
  with Cons.prems(1) have "fst (run_calls step ?s' rs) = spec_run (allows ?s') ?h' rs"
    by (intro Cons.IH) simp_all
  then show ?case
    by (simp add: case_prod_beta Let_def step_allows [OF sim] step_config)
qed simp

end

text \<open>Every answer \<open>True\<close> of a specified run keeps a bound that \<open>allows\<close> checks.\<close>

lemma spec_run_bound:
  assumes "\<And>h r. allows h r \<Longrightarrow> P r \<Longrightarrow> length (filter P h) < n"
    and "length (filter P h) \<le> n"
  shows "length (filter P h) + length (filter P (admitted rs (spec_run allows h rs))) \<le> n"
  using assms(2)
proof (induction rs arbitrary: h)
  case (Cons r rs)
  show ?case
  proof (cases "allows h r")
    case True
    show ?thesis
      using Cons.IH [of "r # h"] Cons.prems assms(1) [OF True] True
      by (cases "P r") (auto simp: admitted_def)
  next
    case False
    with Cons show ?thesis by (auto simp: admitted_def)
  qed
qed (simp add: admitted_def)

section \<open>The per-second limiter implements its specification\<close>

abbreviation sec_of :: "time \<times> TenantID \<Rightarrow> int" where
  "sec_of r \<equiv> time_Unix (fst r)"

definition global_count :: "(time \<times> TenantID) list \<Rightarrow> int \<Rightarrow> nat" where
  "global_count h s = length (filter (\<lambda>q. sec_of q = s) h)"

definition tenant_count :: "(time \<times> TenantID) list \<Rightarrow> int \<Rightarrow> TenantID \<Rightarrow> nat" where
  "tenant_count h s t = length (filter (\<lambda>q. sec_of q = s \<and> snd q = t) h)"

text \<open>A request is admitted when it names a tenant and both counts of requests admitted in its
  second are below their limits.\<close>

definition second_spec :: "Limiter \<Rightarrow> (time \<times> TenantID) list \<Rightarrow> time \<times> TenantID \<Rightarrow> bool" where
  "second_spec l h r \<longleftrightarrow>
     snd r \<noteq> [] \<and> int (global_count h (sec_of r)) < lim_GlobalBurstRPS l \<and>
     int (tenant_count h (sec_of r) (snd r)) < lim_TenantBurstRPS l"

definition counter_ok :: "windowCounter \<Rightarrow> (int \<Rightarrow> nat) \<Rightarrow> int list \<Rightarrow> int \<Rightarrow> bool" where
  "counter_ok c count_at secs now \<longleftrightarrow>
     wc_count c = int (count_at (wc_windowEpochSecond c)) \<and>
     (\<forall>s \<in> set secs. s \<le> wc_windowEpochSecond c) \<and>
     (secs \<noteq> [] \<longrightarrow> wc_windowEpochSecond c \<le> now)"

definition limiter_sim :: "Limiter \<Rightarrow> (time \<times> TenantID) list \<Rightarrow> time \<times> TenantID \<Rightarrow> bool" where
  "limiter_sim l h r \<longleftrightarrow>
     is_int64 (lim_GlobalBurstRPS l) \<and> is_int64 (lim_TenantBurstRPS l) \<and>
     counter_ok (lim_global l) (global_count h) (map sec_of h) (sec_of r) \<and>
     (\<forall>t. counter_ok (tenant_counter l t) (\<lambda>s. tenant_count h s t)
            (map sec_of (filter (\<lambda>q. snd q = t) h)) (sec_of r))"

lemma global_count_Cons [simp]:
  "global_count (q # h) s = (if sec_of q = s then Suc (global_count h s) else global_count h s)"
  by (simp add: global_count_def)

lemma tenant_count_Cons [simp]:
  "tenant_count (q # h) s t =
     (if sec_of q = s \<and> snd q = t then Suc (tenant_count h s t) else tenant_count h s t)"
  by (simp add: tenant_count_def)

lemma global_count_0: "(\<forall>q \<in> set h. sec_of q \<noteq> s) \<Longrightarrow> global_count h s = 0"
  by (simp add: global_count_def filter_empty_conv)

lemma tenant_count_0: "(\<forall>q \<in> set h. snd q = t \<longrightarrow> sec_of q \<noteq> s) \<Longrightarrow> tenant_count h s t = 0"
  by (auto simp: tenant_count_def filter_empty_conv)

text \<open>After \<^verbatim>\<open>nextWindow\<close> the counter holds the number of requests admitted in the current second.\<close>

lemma nextWindow_second [simp]: "wc_windowEpochSecond (nextWindow c now) = now"
  by (simp add: nextWindow_def)

lemma nextWindow_count:
  assumes "counter_ok c count_at secs now"
    and "\<And>s. s \<notin> set secs \<Longrightarrow> count_at s = 0"
  shows "wc_count (nextWindow c now) = int (count_at now)"
proof (cases "wc_windowEpochSecond c = now")
  case True
  with assms show ?thesis by (simp add: nextWindow_def counter_ok_def)
next
  case False
  with assms(1) have "now \<notin> set secs" by (cases secs) (auto simp: counter_ok_def)
  with False assms(2) show ?thesis by (simp add: nextWindow_def)
qed

lemma nextWindow_ok:
  assumes "counter_ok c count_at secs now"
    and "\<And>s. s \<notin> set secs \<Longrightarrow> count_at s = 0" and "now \<le> now'"
  shows "counter_ok (nextWindow c now) count_at secs now'"
  using assms nextWindow_count [OF assms(1,2)]
  by (cases secs) (auto simp: counter_ok_def intro: order_trans)

lemma counter_ok_later: "counter_ok c count_at secs now \<Longrightarrow> now \<le> now' \<Longrightarrow> counter_ok c count_at secs now'"
  by (auto simp: counter_ok_def)

lemma sim_global_count:
  "limiter_sim l h r \<Longrightarrow> wc_count (nextWindow (lim_global l) (sec_of r)) = int (global_count h (sec_of r))"
  by (rule nextWindow_count [where secs = "map sec_of h"])
    (auto simp: limiter_sim_def intro!: global_count_0)

lemma sim_tenant_count:
  "limiter_sim l h r \<Longrightarrow>
   wc_count (nextWindow (tenant_counter l t) (sec_of r)) = int (tenant_count h (sec_of r) t)"
  by (rule nextWindow_count [where secs = "map sec_of (filter (\<lambda>q. snd q = t) h)"])
    (auto simp: limiter_sim_def intro!: tenant_count_0)

lemma tenant_counter_global [simp]: "tenant_counter (l\<lparr>lim_global := g\<rparr>) t = tenant_counter l t"
  by (simp add: tenant_counter_def)

text \<open>One call, by whether the specification admits it.\<close>

definition admit :: "Limiter \<Rightarrow> time \<times> TenantID \<Rightarrow> Limiter" where
  "admit l r =
     (let g = nextWindow (lim_global l) (sec_of r);
          c = nextWindow (tenant_counter l (snd r)) (sec_of r)
      in l\<lparr>lim_tenant := (lim_tenant l)(snd r \<mapsto> c\<lparr>wc_count := wc_count c + 1\<rparr>),
           lim_global := g\<lparr>wc_count := wc_count g + 1\<rparr>\<rparr>)"

lemma allow_call_admitted:
  assumes sim: "limiter_sim l h r" and spec: "second_spec l h r"
  shows "allow_call l r = (True, admit l r)"
proof -
  from sim spec have
    "inc64 (int (global_count h (sec_of r))) = int (global_count h (sec_of r)) + 1"
    "inc64 (int (tenant_count h (sec_of r) (snd r))) = int (tenant_count h (sec_of r) (snd r)) + 1"
    by (auto simp: second_spec_def limiter_sim_def intro!: inc64_small)
  then show ?thesis
    using spec sim_global_count [OF sim] sim_tenant_count [OF sim, of "snd r"]
    by (simp add: allow_call_def Allow_def admit_def second_spec_def Let_def TenantID_Validate_def)
qed

lemma allow_call_denied:
  assumes sim: "limiter_sim l h r" and spec: "\<not> second_spec l h r"
  shows "fst (allow_call l r) = False"
    and "snd (allow_call l r) = l \<or>
         snd (allow_call l r) = l\<lparr>lim_global := nextWindow (lim_global l) (sec_of r)\<rparr>"
  using spec sim_global_count [OF sim] sim_tenant_count [OF sim, of "snd r"]
  by (auto simp: allow_call_def Allow_def second_spec_def Let_def deny_def zero_decision_def
      TenantID_Validate_def not_less)

lemma sim_later: "limiter_sim l h r \<Longrightarrow> sec_of r \<le> sec_of r' \<Longrightarrow> limiter_sim l h r'"
  by (auto simp: limiter_sim_def intro: counter_ok_later)

lemma sim_next_global:
  assumes "limiter_sim l h r" and "sec_of r \<le> sec_of r'"
  shows "limiter_sim (l\<lparr>lim_global := nextWindow (lim_global l) (sec_of r)\<rparr>) h r'"
proof -
  have "counter_ok (nextWindow (lim_global l) (sec_of r)) (global_count h) (map sec_of h) (sec_of r')"
    by (rule nextWindow_ok)
      (use assms in \<open>auto simp: limiter_sim_def intro!: global_count_0\<close>)
  with sim_later [OF assms] show ?thesis by (simp add: limiter_sim_def)
qed

lemma counter_ok_inc:
  assumes "counter_ok c count_at secs now" and "wc_windowEpochSecond c = s" and "s \<le> now"
    and "count_at' s = Suc (count_at s)"
  shows "counter_ok (c\<lparr>wc_count := wc_count c + 1\<rparr>) count_at' (s # secs) now"
  using assms by (auto simp: counter_ok_def)

lemma sim_admit:
  assumes sim: "limiter_sim l h r" and le: "sec_of r \<le> sec_of r'"
  shows "limiter_sim (admit l r) (r # h) r'"
proof -
  let ?now = "sec_of r"
  have g: "counter_ok (nextWindow (lim_global l) ?now) (global_count h) (map sec_of h) (sec_of r')"
    by (rule nextWindow_ok) (use sim le in \<open>auto simp: limiter_sim_def intro!: global_count_0\<close>)
  have c: "counter_ok (nextWindow (tenant_counter l (snd r)) ?now) (\<lambda>s. tenant_count h s (snd r))
      (map sec_of (filter (\<lambda>q. snd q = snd r) h)) (sec_of r')"
    by (rule nextWindow_ok) (use sim le in \<open>auto simp: limiter_sim_def intro!: tenant_count_0\<close>)
  have "counter_ok (lim_global (admit l r)) (global_count (r # h)) (map sec_of (r # h)) (sec_of r')"
    using counter_ok_inc [OF g] le by (simp add: admit_def Let_def)
  moreover have "counter_ok (tenant_counter (admit l r) t) (\<lambda>s. tenant_count (r # h) s t)
      (map sec_of (filter (\<lambda>q. snd q = t) (r # h))) (sec_of r')" for t
  proof (cases "t = snd r")
    case True
    then show ?thesis
      using counter_ok_inc [OF c] le by (simp add: admit_def Let_def tenant_counter_def)
  next
    case False
    then have "tenant_counter (admit l r) t = tenant_counter l t"
      by (simp add: admit_def Let_def tenant_counter_def)
    moreover have "(\<lambda>s. tenant_count (r # h) s t) = (\<lambda>s. tenant_count h s t)"
      using False by auto
    ultimately show ?thesis
      using sim_later [OF sim le] False by (simp add: limiter_sim_def)
  qed
  ultimately show ?thesis
    using sim by (simp add: limiter_sim_def) (simp add: admit_def Let_def)
qed

lemma allow_call_config:
  "lim_GlobalBurstRPS (snd (allow_call l r)) = lim_GlobalBurstRPS l \<and>
   lim_TenantBurstRPS (snd (allow_call l r)) = lim_TenantBurstRPS l"
  by (simp add: allow_call_def Allow_def Let_def split: option.split)

interpretation per_second: history_limiter allow_call second_spec limiter_sim
  "\<lambda>r r'. sec_of r \<le> sec_of r'"
proof (unfold_locales, goal_cases)
  case (1 l h r)
  then show ?case by (cases "second_spec l h r") (simp_all add: allow_call_admitted allow_call_denied)
next
  case (2 l h r r')
  show ?case
  proof (cases "second_spec l h r")
    case True
    with 2 show ?thesis by (simp add: allow_call_admitted sim_admit)
  next
    case False
    with 2 allow_call_denied(2) [OF 2(1) False] show ?thesis
      by (auto simp: sim_later sim_next_global)
  qed
next
  case (3 l r)
  show ?case using allow_call_config [of l r] by (intro ext) (simp add: second_spec_def)
qed

lemma limiter_sim_initial:
  assumes "lim_tenant l = Map.empty" and "lim_global l = zero_counter"
    and "is_int64 (lim_GlobalBurstRPS l)" and "is_int64 (lim_TenantBurstRPS l)"
  shows "limiter_sim l [] r"
  using assms
  by (simp add: limiter_sim_def counter_ok_def tenant_counter_def zero_counter_def
      global_count_def tenant_count_def)

lemma run_calls_second_spec:
  assumes "lim_tenant l = Map.empty" and "lim_global l = zero_counter"
    and "is_int64 (lim_GlobalBurstRPS l)" and "is_int64 (lim_TenantBurstRPS l)"
    and "sorted (map sec_of rs)"
  shows "fst (run_calls allow_call l rs) = spec_run (second_spec l) [] rs"
  using per_second.run_spec [of rs l "[]"] limiter_sim_initial [OF assms(1-4)] assms(5)
  by (simp add: sorted_map)

section \<open>Runs with an invariant on the admitted history\<close>

text \<open>An invariant of the state and the admitted requests (newest first), kept by each call made no
  earlier than the admitted ones, holds after a run.\<close>

lemma run_calls_invariant:
  assumes step: "\<And>s h r. I s h \<Longrightarrow> P r \<Longrightarrow> \<forall>q \<in> set h. ord q r \<Longrightarrow>
      I (snd (step s r)) (if fst (step s r) then r # h else h)"
    and "I s h" and "sorted_wrt ord rs" and "\<forall>q \<in> set h. \<forall>r \<in> set rs. ord q r"
    and "\<forall>r \<in> set rs. P r"
  shows "I (snd (run_calls step s rs)) (rev (admitted rs (fst (run_calls step s rs))) @ h)"
  using assms(2-5)
proof (induction rs arbitrary: s h)
  case (Cons r rs)
  let ?h = "if fst (step s r) then r # h else h"
  have "I (snd (step s r)) ?h" by (rule step) (use Cons.prems in auto)
  then have "I (snd (run_calls step (snd (step s r)) rs))
      (rev (admitted rs (fst (run_calls step (snd (step s r)) rs))) @ ?h)"
    by (rule Cons.IH) (use Cons.prems in auto)
  then show ?case by (simp add: case_prod_beta Let_def admitted_def split: if_splits)
qed (simp add: admitted_def)

lemma length_filter_le: "(\<And>x. x \<in> set xs \<Longrightarrow> P x \<Longrightarrow> Q x) \<Longrightarrow> length (filter P xs) \<le> length (filter Q xs)"
  by (induction xs) (auto intro: le_SucI)

lemma length_filter_disj:
  "length (filter (\<lambda>x. P x \<or> Q x) xs) \<le> length (filter P xs) + length (filter Q xs)"
  by (induction xs) auto

section \<open>The bound of the window limiter\<close>

definition key_times :: "(time \<times> string) list \<Rightarrow> string \<Rightarrow> time list" where
  "key_times h key = map fst (filter (\<lambda>q. snd q = key) h)"

lemma key_times_Cons [simp]:
  "key_times (q # h) key = (if snd q = key then fst q # key_times h key else key_times h key)"
  by (simp add: key_times_def)

lemma key_times_filter:
  "length (filter P (key_times (rev h) key)) = length (filter (\<lambda>q. snd q = key \<and> P (fst q)) h)"
  by (induction h) (auto simp: key_times_def)

text \<open>
  The invariant of one key. \<open>ts\<close> are the times of its admitted requests: the current window holds
  exactly the counted ones, at most \<open>n\<close>; the part of the earlier windows that can share an interval
  of length \<open>w\<close> with the current one holds at most \<open>n\<close>.
\<close>

definition key_inv :: "int \<Rightarrow> duration \<Rightarrow> windowState option \<Rightarrow> time list \<Rightarrow> bool" where
  "key_inv n w st ts \<longleftrightarrow>
     (case st of
        None \<Rightarrow> ts = []
      | Some c \<Rightarrow>
          0 < ws_start c \<and> 1 \<le> ws_count c \<and> ws_count c \<le> n \<and>
          (\<forall>t \<in> set ts. t < ws_start c + w) \<and>
          int (length (filter (\<lambda>t. ws_start c \<le> t) ts)) = ws_count c \<and>
          int (length (filter (\<lambda>t. ws_start c - w < t \<and> t < ws_start c) ts)) \<le> n) \<and>
     (\<forall>a. int (length (filter (\<lambda>t. a \<le> t \<and> t < a + w) ts)) \<le> 2 * n)"

lemma key_inv_new_window:
  assumes "key_inv n w (Some c) ts" and "1 \<le> n" and "0 < w" and "w \<le> now - ws_start c"
  shows "key_inv n w (Some \<lparr>ws_start = now, ws_count = 1\<rparr>) (now # ts)"
proof -
  from assms(1) have cur: "int (length (filter (\<lambda>t. ws_start c \<le> t) ts)) \<le> n"
    and old: "\<forall>t \<in> set ts. t < now" and pos: "0 < ws_start c"
    and all: "\<And>a. int (length (filter (\<lambda>t. a \<le> t \<and> t < a + w) ts)) \<le> 2 * n"
    using assms(4) by (auto simp: key_inv_def)
  have "length (filter (\<lambda>t. now - w < t \<and> t < now) ts) \<le> length (filter (\<lambda>t. ws_start c \<le> t) ts)"
    by (rule length_filter_le) (use assms(4) in auto)
  with cur have prev: "int (length (filter (\<lambda>t. now - w < t \<and> t < now) ts)) \<le> n" by simp
  have "int (length (filter (\<lambda>t. a \<le> t \<and> t < a + w) (now # ts))) \<le> 2 * n" for a
  proof (cases "a \<le> now \<and> now < a + w")
    case True
    have "length (filter (\<lambda>t. a \<le> t \<and> t < a + w) ts)
        \<le> length (filter (\<lambda>t. now - w < t \<and> t < now) ts)"
      by (rule length_filter_le) (use True old in auto)
    with prev assms(2) True show ?thesis by simp
  next
    case False
    with all [of a] show ?thesis by auto
  qed
  moreover have "filter (\<lambda>t. now \<le> t) ts = []" using old by (auto simp: filter_empty_conv)
  ultimately show ?thesis
    using prev old pos assms(2-4) by (force simp: key_inv_def)
qed

lemma key_inv_same_window:
  assumes "key_inv n w (Some c) ts" and "ws_start c \<le> now" and "now - ws_start c < w"
    and "ws_count c < n"
  shows "key_inv n w (Some (c\<lparr>ws_count := ws_count c + 1\<rparr>)) (now # ts)"
proof -
  from assms(1) have cur: "int (length (filter (\<lambda>t. ws_start c \<le> t) ts)) = ws_count c"
    and prev: "int (length (filter (\<lambda>t. ws_start c - w < t \<and> t < ws_start c) ts)) \<le> n"
    and all: "\<And>a. int (length (filter (\<lambda>t. a \<le> t \<and> t < a + w) ts)) \<le> 2 * n"
    by (auto simp: key_inv_def)
  have "int (length (filter (\<lambda>t. a \<le> t \<and> t < a + w) (now # ts))) \<le> 2 * n" for a
  proof (cases "a \<le> now \<and> now < a + w")
    case True
    have "length (filter (\<lambda>t. a \<le> t \<and> t < a + w) ts)
        \<le> length (filter (\<lambda>t. (ws_start c - w < t \<and> t < ws_start c) \<or> ws_start c \<le> t) ts)"
      by (rule length_filter_le) (use True assms(2) in auto)
    also have "\<dots> \<le> length (filter (\<lambda>t. ws_start c - w < t \<and> t < ws_start c) ts)
        + length (filter (\<lambda>t. ws_start c \<le> t) ts)"
      by (rule length_filter_disj)
    finally show ?thesis using cur prev assms(4) True by simp
  next
    case False
    with all [of a] show ?thesis by auto
  qed
  then show ?thesis using assms by (auto simp: key_inv_def)
qed

definition window_inv :: "int \<Rightarrow> WindowLimiter \<Rightarrow> (time \<times> string) list \<Rightarrow> bool" where
  "window_inv n l h \<longleftrightarrow>
     wl_limit l = n \<and> wl_window l = 60 * nanos_per_second \<and>
     (\<forall>key. key_inv n (wl_window l) (wl_state l key) (key_times h key)) \<and>
     (\<forall>key c. wl_state l key = Some c \<longrightarrow> ws_start c \<in> set (key_times h key))"

lemma window_inv_step:
  assumes inv: "window_inv n l h" and n: "1 \<le> n" "is_int64 n"
    and later: "\<forall>q \<in> set h. fst q \<le> fst r" and pos: "0 < fst r"
  shows "window_inv n (snd (window_call l r)) (if fst (window_call l r) then r # h else h)"
proof -
  obtain now key where r: "r = (now, key)" by (cases r)
  have w: "wl_window l = 60000000000" "wl_limit l = n"
    using inv by (simp_all add: window_inv_def nanos_per_second_def)
  have key: "key_inv n (wl_window l) (wl_state l key) (key_times h key)"
    using inv unfolding window_inv_def by blast
  show ?thesis
  proof (cases "wl_state l key")
    case None
    then have "window_call l r =
        (True, l\<lparr>wl_state := (wl_state l)(key \<mapsto> \<lparr>ws_start = now, ws_count = 1\<rparr>)\<rparr>)"
      by (simp add: r window_call_def WindowLimiter_Allow_def window_state_def time_IsZero_def)
    moreover have "key_inv n (wl_window l) (Some \<lparr>ws_start = now, ws_count = 1\<rparr>) (now # key_times h key)"
      using key None n pos r w by (auto simp: key_inv_def)
    ultimately show ?thesis using inv by (auto simp: window_inv_def r)
  next
    case (Some c)
    have c: "0 < ws_start c" "1 \<le> ws_count c" "ws_count c \<le> n" using key Some by (auto simp: key_inv_def)
    have "ws_start c \<in> set (key_times h key)" using inv Some by (simp add: window_inv_def)
    then have le: "ws_start c \<le> now" using later by (auto simp: key_times_def r)
    have ge: "60000000000 \<le> time_Sub now (ws_start c) \<longleftrightarrow> 60000000000 \<le> now - ws_start c"
      by (rule time_Sub_ge) simp_all
    consider (new) "60000000000 \<le> now - ws_start c"
      | (full) "now - ws_start c < 60000000000" "n \<le> ws_count c"
      | (same) "now - ws_start c < 60000000000" "ws_count c < n" by linarith
    then show ?thesis
    proof cases
      case new
      with key_inv_new_window [of n "wl_window l" c _ now] key Some n(1) w ge c inv show ?thesis
        by (auto simp: r window_call_def WindowLimiter_Allow_def window_state_def window_inv_def)
    next
      case full
      with inv Some w ge c show ?thesis
        by (simp add: r window_call_def WindowLimiter_Allow_def window_state_def time_IsZero_def)
    next
      case same
      with c n have "inc64 (ws_count c) = ws_count c + 1" by (intro inc64_small) auto
      with same key_inv_same_window [of n "wl_window l" c _ now] key Some w ge c le inv show ?thesis
        by (auto simp: r window_call_def WindowLimiter_Allow_def window_state_def window_inv_def
            time_IsZero_def)
    qed
  qed
qed

text \<open>A denial has a reason: the key's last window is full.\<close>

lemma window_denied:
  assumes "window_inv n l h" and "\<not> fst (window_call l r)" and "\<forall>q \<in> set h. fst q \<le> fst r"
  shows "n \<le> int (length (filter (\<lambda>t. fst r - wl_window l < t) (key_times h (snd r))))"
proof -
  obtain now key where r: "r = (now, key)" by (cases r)
  have w: "wl_window l = 60000000000" "wl_limit l = n"
    using assms(1) by (simp_all add: window_inv_def nanos_per_second_def)
  from assms(2) obtain c where c: "wl_state l key = Some c"
    by (cases "wl_state l key")
      (auto simp: r window_call_def WindowLimiter_Allow_def window_state_def time_IsZero_def)
  have ge: "60000000000 \<le> time_Sub now (ws_start c) \<longleftrightarrow> 60000000000 \<le> now - ws_start c"
    by (rule time_Sub_ge) simp_all
  from assms(2) c w ge have full: "now - ws_start c < 60000000000" "n \<le> ws_count c"
    by (auto simp: r window_call_def WindowLimiter_Allow_def window_state_def Let_def split: if_splits)
  have "key_inv n (wl_window l) (Some c) (key_times h key)"
    using assms(1) c by (auto simp: window_inv_def dest: spec [of _ key])
  then have "int (length (filter (\<lambda>t. ws_start c \<le> t) (key_times h key))) = ws_count c"
    by (simp add: key_inv_def)
  moreover have "length (filter (\<lambda>t. ws_start c \<le> t) (key_times h key))
      \<le> length (filter (\<lambda>t. now - wl_window l < t) (key_times h key))"
    by (rule length_filter_le) (use full w in auto)
  ultimately show ?thesis using full(2) by (simp add: r)
qed

lemma window_inv_bound:
  assumes "window_inv n l h"
  shows "int (length (filter (\<lambda>t. a \<le> t \<and> t < a + 60 * nanos_per_second) (key_times h key))) \<le> 2 * n"
proof -
  have "key_inv n (60 * nanos_per_second) (wl_state l key) (key_times h key)"
    using assms by (auto simp: window_inv_def)
  then show ?thesis unfolding key_inv_def by blast
qed

lemma window_inv_initial:
  "1 \<le> n \<Longrightarrow> window_inv n \<lparr>wl_limit = n, wl_window = 60 * nanos_per_second, wl_state = Map.empty\<rparr> []"
  by (simp add: window_inv_def key_inv_def key_times_def)

abbreviation effective_limit :: "int \<Rightarrow> int" where
  "effective_limit limit \<equiv> (if limit \<le> 0 then 120 else limit)"

lemma window_run_inv:
  assumes "is_int64 limit" and "sorted (map fst rs)" and "\<forall>r \<in> set rs. 0 < fst r"
  shows "window_inv (effective_limit limit) (snd (run_calls window_call (NewWindowLimiter limit) rs))
    (rev (admitted rs (fst (run_calls window_call (NewWindowLimiter limit) rs))))"
proof -
  let ?n = "effective_limit limit"
  have "window_inv ?n (snd (run_calls window_call (NewWindowLimiter limit) rs))
    (rev (admitted rs (fst (run_calls window_call (NewWindowLimiter limit) rs))) @ [])"
  proof (rule run_calls_invariant [where ord = "\<lambda>q r. fst q \<le> fst r" and P = "\<lambda>r. 0 < fst r"])
    show "window_inv ?n (snd (window_call l r)) (if fst (window_call l r) then r # h else h)"
      if "window_inv ?n l h" "0 < fst r" "\<forall>q \<in> set h. fst q \<le> fst r" for l h r
      by (rule window_inv_step) (use that assms(1) in \<open>auto simp: is_int64_def\<close>)
  qed (use assms in \<open>auto simp: sorted_map window_inv_initial NewWindowLimiter_def\<close>)
  then show ?thesis by simp
qed

section \<open>Properties of the limiters\<close>

text \<open>C21: with a clock that does not go back, \<^verbatim>\<open>Limiter.Allow\<close> gives on every sequence of calls, over
  any number of tenants, the answers of the specification by history: a request is admitted exactly
  when it names a tenant, fewer than 600 requests were admitted in its second, and fewer than 4 of
  its tenant's.\<close>

theorem limiter_refines_history:
  assumes "sorted (map sec_of rs)"
  shows "fst (run_calls allow_call NewLimiter rs) = spec_run (second_spec NewLimiter) [] rs"
  by (rule run_calls_second_spec) (use assms in \<open>simp_all add: NewLimiter_def is_int64_def\<close>)

theorem limiter_refines_history_witness:
  "fst (run_calls allow_call NewLimiter
     [(62135596800000000000, ''a''), (62135596800000000001, ''a''), (62135596800000000002, ''a''),
      (62135596800000000003, ''a''), (62135596800000000004, ''a''), (62135596800000000005, ''b''),
      (62135596800000000006, []), (62135596801000000000, ''a'')])
   = [True, True, True, True, False, True, False, True]"
  by (subst limiter_refines_history) code_simp+

text \<open>In no second does \<^verbatim>\<open>Limiter.Allow\<close> admit more than 4 requests of one tenant or more than 600
  in all, whatever the sequence of calls (with a clock that does not go back).\<close>

theorem limiter_per_second_bounds:
  assumes "sorted (map sec_of rs)"
  shows "tenant_count (admitted rs (fst (run_calls allow_call NewLimiter rs))) s t \<le> 4 \<and>
    global_count (admitted rs (fst (run_calls allow_call NewLimiter rs))) s \<le> 600"
proof -
  have run: "fst (run_calls allow_call NewLimiter rs) = spec_run (second_spec NewLimiter) [] rs"
    by (rule run_calls_second_spec) (use assms in \<open>simp_all add: NewLimiter_def is_int64_def\<close>)
  have "tenant_count (admitted rs (spec_run (second_spec NewLimiter) [] rs)) s t \<le> 4"
    using spec_run_bound [of "second_spec NewLimiter" "\<lambda>q. sec_of q = s \<and> snd q = t" 4 "[]"]
    by (auto simp: second_spec_def NewLimiter_def tenant_count_def)
  moreover have "global_count (admitted rs (spec_run (second_spec NewLimiter) [] rs)) s \<le> 600"
    using spec_run_bound [of "second_spec NewLimiter" "\<lambda>q. sec_of q = s" 600 "[]"]
    by (auto simp: second_spec_def NewLimiter_def global_count_def)
  ultimately show ?thesis by (simp add: run)
qed

theorem limiter_per_second_bounds_witness:
  "tenant_count (admitted [(5, ''a''), (6, ''a'')]
     (fst (run_calls allow_call NewLimiter [(5, ''a''), (6, ''a'')]))) (-62135596800) ''a'' \<le> 4"
  using limiter_per_second_bounds [of "[(5, ''a''), (6, ''a'')]" "-62135596800" "''a''"]
  by (simp add: time_Unix_def nanos_per_second_def)

text \<open>In no interval of one minute does the HTTP \<^verbatim>\<open>WindowLimiter\<close> admit more than twice its limit
  for a key, whatever the sequence of calls and keys (with a clock that does not go back). The windows
  open with a request, so an interval can meet two of them.\<close>

theorem window_limiter_bound:
  assumes "is_int64 limit" and "sorted (map fst rs)" and "\<forall>r \<in> set rs. 0 < fst r"
  shows "int (length (filter (\<lambda>q. snd q = key \<and> a \<le> fst q \<and> fst q < a + 60 * nanos_per_second)
      (admitted rs (fst (run_calls window_call (NewWindowLimiter limit) rs)))))
    \<le> 2 * (if limit \<le> 0 then 120 else limit)"
proof -
  let ?adm = "admitted rs (fst (run_calls window_call (NewWindowLimiter limit) rs))"
  let ?in = "\<lambda>t. a \<le> t \<and> t < a + 60 * nanos_per_second"
  have "int (length (filter ?in (key_times (rev ?adm) key))) \<le> 2 * effective_limit limit"
    by (rule window_inv_bound) (rule window_run_inv [OF assms])
  then show ?thesis by (simp add: key_times_filter)
qed

theorem window_limiter_bound_witness:
  "int (length (filter (\<lambda>q. snd q = ''k'' \<and> 7 \<le> fst q \<and> fst q < 7 + 60 * nanos_per_second)
      (admitted [(7, ''k''), (8, ''k''), (9, ''k'')]
        (fst (run_calls window_call (NewWindowLimiter 1) [(7, ''k''), (8, ''k''), (9, ''k'')])))))
    \<le> 2"
  using window_limiter_bound [of 1 "[(7, ''k''), (8, ''k''), (9, ''k'')]" "''k''" 7]
  by (simp add: is_int64_def)

text \<open>The \<^verbatim>\<open>WindowLimiter\<close> refuses a request only when at least the limit of the same key's requests
  were admitted in the minute before it: no key is starved by the others.\<close>

theorem window_limiter_denial:
  assumes "is_int64 limit" and "sorted (map fst (rs @ [r]))" and "\<forall>q \<in> set (rs @ [r]). 0 < fst q"
    and "run_calls window_call (NewWindowLimiter limit) rs = (bs, l)"
    and "fst (window_call l r) = False"
  shows "(if limit \<le> 0 then 120 else limit)
    \<le> int (length (filter (\<lambda>q. snd q = snd r \<and> fst r - 60 * nanos_per_second < fst q)
          (admitted rs bs)))"
proof -
  have inv: "window_inv (effective_limit limit) l (rev (admitted rs bs))"
    using window_run_inv [of limit rs] assms(1-4) by (simp add: sorted_append)
  moreover have "\<forall>q \<in> set (rev (admitted rs bs)). fst q \<le> fst r"
    using assms(2) by (fastforce simp: admitted_def sorted_append dest: set_zip_leftD)
  ultimately have "effective_limit limit
      \<le> int (length (filter (\<lambda>t. fst r - wl_window l < t) (key_times (rev (admitted rs bs)) (snd r))))"
    using window_denied assms(5) by blast
  moreover have "wl_window l = 60 * nanos_per_second" using inv by (simp add: window_inv_def)
  ultimately show ?thesis by (simp add: key_times_filter)
qed

theorem window_limiter_denial_witness:
  "1 \<le> int (length (filter (\<lambda>q. snd q = ''k'' \<and> 8 - 60 * nanos_per_second < fst q)
          (admitted [(7, ''k'')] [True])))"
  using window_limiter_denial [of 1 "[(7, ''k'')]" "(8, ''k'')" "[True]"
      "\<lparr>wl_limit = 1, wl_window = 60 * nanos_per_second,
        wl_state = [''k'' \<mapsto> \<lparr>ws_start = 7, ws_count = 1\<rparr>]\<rparr>"]
  by (simp add: is_int64_def window_call_def WindowLimiter_Allow_def NewWindowLimiter_def
      window_state_def time_IsZero_def time_Sub_def nanos_per_second_def)

end
