(* ===== verification/Http_Pipeline.thy ===== *)
theory Http_Pipeline
  imports Session_Auth Repository Rate_Limit
begin

text \<open>
  The request pipeline of \<^verbatim>\<open>backend/util/serverUtil.go\<close>: \<^verbatim>\<open>WithRequestID\<close>, \<^verbatim>\<open>WithCORS\<close>, \<^verbatim>\<open>WithAuth\<close> and
  \<^verbatim>\<open>WithTenant\<close>, which stand before every tenant route. A handler is a function of the request and the
  server's state: the window limiter and the outside world \<open>'w\<close>, in which the clock, the random source
  of request identifiers and the \<^verbatim>\<open>user_tenants\<close> table live.
\<close>

record server_request = http_request +
  req_method :: string
  req_path :: string

record 'w server_state =
  srv_limiter :: WindowLimiter
  srv_world :: 'w

type_synonym ('w, 'a) handler = "server_request \<Rightarrow> 'w server_state \<Rightarrow> 'a http_reply \<times> 'w server_state"

text \<open>What the pipeline reads of the server: the secret, the allowed origins, the decoder of claims, the
  clock, the source of identifiers and \<^verbatim>\<open>SELECT COUNT(*) FROM user_tenants\<close>.\<close>

record 'w Server =
  sv_JWTSecret :: string
  sv_origins :: "string list"
  sv_unmarshal :: "string \<Rightarrow> session_claims result"
  sv_now :: "'w \<Rightarrow> time \<times> 'w"
  sv_randomID :: "'w \<Rightarrow> string \<times> 'w"
  sv_countUserTenants :: "Context \<Rightarrow> int \<Rightarrow> string \<Rightarrow> 'w \<Rightarrow> int result \<times> 'w"

section \<open>Values of the request context\<close>

definition UserIDFromContext :: "Context \<Rightarrow> int option" where
  "UserIDFromContext ctx = (case ctx UserIDKey of Some (CtxInt uid) \<Rightarrow> Some uid | _ \<Rightarrow> None)"

definition RequestIDFromContext :: "Context \<Rightarrow> string" where
  "RequestIDFromContext ctx = TrimSpace (case ctx RequestIDKey of Some (CtxString v) \<Rightarrow> v | _ \<Rightarrow> [])"

section \<open>The middlewares\<close>

text \<open>\<^verbatim>\<open>Header.Get\<close> canonicalises the name, so \<^verbatim>\<open>X-Request-Id\<close> and \<^verbatim>\<open>X-Request-ID\<close> name one header.\<close>

definition WithRequestID :: "'w Server \<Rightarrow> ('w, 'a) handler \<Rightarrow> ('w, 'a) handler" where
  "WithRequestID s next_handler r st =
     (let given = TrimSpace (req_header r ''X-Request-Id'');
          (requestID, w1) = (if given = [] then sv_randomID s (srv_world st) else (given, srv_world st))
      in next_handler (r\<lparr>req_context := WithValue (req_context r) RequestIDKey (CtxString requestID)\<rparr>)
           (st\<lparr>srv_world := w1\<rparr>))"

text \<open>The headers \<^verbatim>\<open>WithCORS\<close> sets, and its answer to a preflight: status 204 and no body.\<close>

definition cors_headers :: "'w Server \<Rightarrow> server_request \<Rightarrow> strmap" where
  "cors_headers s r =
     (let origin = TrimSpace (req_header r ''Origin'')
      in if origin \<noteq> [] \<and> origin \<in> set (sv_origins s)
         then [(''Access-Control-Allow-Origin'', origin), (''Vary'', ''Origin''),
               (''Access-Control-Allow-Headers'', ''Authorization, Content-Type, X-Request-ID, X-Tenant-ID''),
               (''Access-Control-Allow-Methods'', ''GET, POST, OPTIONS'')]
         else [])"

definition WithCORS ::
  "'w Server \<Rightarrow> ('w, 'a) handler \<Rightarrow> server_request \<Rightarrow> 'w server_state \<Rightarrow>
   (strmap \<times> 'a http_reply option) \<times> 'w server_state" where
  "WithCORS s next_handler r st =
     (if req_method r = ''OPTIONS'' then ((cors_headers s r, None), st)
      else case next_handler r st of (reply, st1) \<Rightarrow> ((cors_headers s r, Some reply), st1))"

text \<open>Seven is the length of the prefix \<^verbatim>\<open>Bearer\<close> with its space.\<close>

definition WithAuth :: "unicode_tables \<Rightarrow> 'w Server \<Rightarrow> ('w, 'a) handler \<Rightarrow> ('w, 'a) handler" where
  "WithAuth U s next_handler r st =
     (let authz = TrimSpace (req_header r ''Authorization'')
      in if \<not> HasPrefix (ToLower U authz) ''bearer ''
         then (HttpError 401 ''auth_required'' ''bearer token is required'', st)
         else let token = TrimSpace (drop 7 authz);
                  (now, w1) = sv_now s (srv_world st);
                  st1 = st\<lparr>srv_world := w1\<rparr>
              in case VerifyJWT (sv_unmarshal s) now token (sv_JWTSecret s) of
                   Inl e \<Rightarrow> (HttpError 401 ''auth_invalid'' ''invalid or expired token'', st1)
                 | Inr claims \<Rightarrow>
                     next_handler
                       (r\<lparr>req_context := WithActorID
                            (Some (WithValue (req_context r) UserIDKey (CtxInt (sc_UID claims)))) (sc_Sub claims)\<rparr>)
                       st1)"

definition userHasTenant :: "'w Server \<Rightarrow> Context \<Rightarrow> int \<Rightarrow> string \<Rightarrow> 'w \<Rightarrow> bool result \<times> 'w" where
  "userHasTenant s ctx userID tenantID w =
     (case sv_countUserTenants s ctx userID tenantID w of
        (Inl e, w1) \<Rightarrow> (Inl e, w1)
      | (Inr n, w1) \<Rightarrow> (Inr (n > 0), w1))"

definition limiter_admits :: "'w Server \<Rightarrow> string \<Rightarrow> 'w server_state \<Rightarrow> bool \<times> 'w server_state" where
  "limiter_admits s key st =
     (let (now, w1) = sv_now s (srv_world st);
          (ok, l) = WindowLimiter_Allow (srv_limiter st) now key
      in (ok, st\<lparr>srv_limiter := l, srv_world := w1\<rparr>))"

definition WithTenant :: "'w Server \<Rightarrow> ('w, 'a) handler \<Rightarrow> ('w, 'a) handler" where
  "WithTenant s next_handler r st =
     (let tenantID = TrimSpace (req_header r ''X-Tenant-ID'')
      in if tenantID = [] then (HttpError 400 ''tenant_required'' ''X-Tenant-ID is required'', st)
         else case UserIDFromContext (req_context r) of
             None \<Rightarrow> (HttpError 401 ''auth_required'' ''missing user context'', st)
           | Some uid \<Rightarrow>
               (case userHasTenant s (req_context r) uid tenantID (srv_world st) of
                  (Inl e, w1) \<Rightarrow> (HttpError 500 ''tenant_check_failed'' (error_text e), st\<lparr>srv_world := w1\<rparr>)
                | (Inr False, w1) \<Rightarrow>
                    (HttpError 403 ''tenant_forbidden'' ''tenant not assigned'', st\<lparr>srv_world := w1\<rparr>)
                | (Inr True, w1) \<Rightarrow>
                    (case limiter_admits s (tenantID @ '':'' @ req_path r) (st\<lparr>srv_world := w1\<rparr>) of
                       (False, st2) \<Rightarrow> (HttpError 429 ''rate_limited'' ''rate limit exceeded'', st2)
                     | (True, st2) \<Rightarrow>
                         (case WithTenantContext (Some (req_context r))
                                 \<lparr>tc_TenantID = tenantID, tc_RequestID = RequestIDFromContext (req_context r)\<rparr> of
                            Inl e \<Rightarrow> (HttpError 500 ''tenant_context_failed'' (error_text e), st2)
                          | Inr tenantCtx \<Rightarrow> next_handler (r\<lparr>req_context := tenantCtx\<rparr>) st2))))"

text \<open>The chain in front of a tenant route.\<close>

definition tenant_route :: "unicode_tables \<Rightarrow> 'w Server \<Rightarrow> ('w, 'a) handler \<Rightarrow> ('w, 'a) handler" where
  "tenant_route U s h = WithRequestID s (WithAuth U s (WithTenant s h))"

section \<open>Lemmas\<close>

text \<open>A middleware either answers by itself, whatever the handler behind it is, or hands one request on.\<close>

definition refuses :: "(('w, 'a) handler \<Rightarrow> ('w, 'a) handler) \<Rightarrow> server_request \<Rightarrow> 'w server_state \<Rightarrow> bool" where
  "refuses mw r st \<longleftrightarrow>
     (\<exists>status code msg st'. 400 \<le> status \<and> (\<forall>h. mw h r st = (HttpError status code msg, st')))"

definition passes ::
  "(('w, 'a) handler \<Rightarrow> ('w, 'a) handler) \<Rightarrow> server_request \<Rightarrow> 'w server_state \<Rightarrow>
   server_request \<Rightarrow> 'w server_state \<Rightarrow> bool" where
  "passes mw r st r' st' \<longleftrightarrow> (\<forall>h. mw h r st = h r' st')"

lemma WithAuth_gate:
  "refuses (WithAuth U s :: ('w, 'a) handler \<Rightarrow> ('w, 'a) handler) r st \<or>
   (\<exists>now w1 claims.
      VerifyJWT (sv_unmarshal s) now (TrimSpace (drop 7 (TrimSpace (req_header r ''Authorization''))))
        (sv_JWTSecret s) = Inr claims \<and>
      sv_now s (srv_world st) = (now, w1) \<and>
      passes (WithAuth U s :: ('w, 'a) handler \<Rightarrow> ('w, 'a) handler) r st
        (r\<lparr>req_context := WithActorID
             (Some (WithValue (req_context r) UserIDKey (CtxInt (sc_UID claims)))) (sc_Sub claims)\<rparr>)
        (st\<lparr>srv_world := w1\<rparr>))"
proof -
  obtain now w1 where now: "sv_now s (srv_world st) = (now, w1)" by (cases "sv_now s (srv_world st)")
  let ?token = "TrimSpace (drop 7 (TrimSpace (req_header r ''Authorization'')))"
  show ?thesis
  proof (cases "HasPrefix (ToLower U (TrimSpace (req_header r ''Authorization''))) ''bearer ''")
    case False
    then have "refuses (WithAuth U s :: ('w, 'a) handler \<Rightarrow> ('w, 'a) handler) r st"
      unfolding refuses_def by (intro exI [of _ 401]) (simp add: WithAuth_def)
    then show ?thesis ..
  next
    case True
    show ?thesis
    proof (cases "VerifyJWT (sv_unmarshal s) now ?token (sv_JWTSecret s)")
      case (Inl e)
      then have "refuses (WithAuth U s :: ('w, 'a) handler \<Rightarrow> ('w, 'a) handler) r st"
        unfolding refuses_def using True now by (intro exI [of _ 401]) (simp add: WithAuth_def)
      then show ?thesis ..
    next
      case (Inr claims)
      then have "passes (WithAuth U s :: ('w, 'a) handler \<Rightarrow> ('w, 'a) handler) r st
          (r\<lparr>req_context := WithActorID
             (Some (WithValue (req_context r) UserIDKey (CtxInt (sc_UID claims)))) (sc_Sub claims)\<rparr>)
          (st\<lparr>srv_world := w1\<rparr>)"
        using True now by (simp add: passes_def WithAuth_def)
      with Inr now show ?thesis by blast
    qed
  qed
qed

lemma WithTenant_gate:
  "refuses (WithTenant s :: ('w, 'a) handler \<Rightarrow> ('w, 'a) handler) r st \<or>
   (\<exists>uid n w1 st2 ctx.
      TrimSpace (req_header r ''X-Tenant-ID'') \<noteq> [] \<and> UserIDFromContext (req_context r) = Some uid \<and>
      sv_countUserTenants s (req_context r) uid (TrimSpace (req_header r ''X-Tenant-ID'')) (srv_world st) = (Inr n, w1) \<and>
      0 < n \<and>
      limiter_admits s (TrimSpace (req_header r ''X-Tenant-ID'') @ '':'' @ req_path r) (st\<lparr>srv_world := w1\<rparr>) = (True, st2) \<and>
      WithTenantContext (Some (req_context r))
        \<lparr>tc_TenantID = TrimSpace (req_header r ''X-Tenant-ID''), tc_RequestID = RequestIDFromContext (req_context r)\<rparr> = Inr ctx \<and>
      passes (WithTenant s :: ('w, 'a) handler \<Rightarrow> ('w, 'a) handler) r st (r\<lparr>req_context := ctx\<rparr>) st2)"
  (is "?R \<or> ?P")
proof (rule disjCI [THEN disj_commute [THEN iffD1]])
  assume no: "\<not> ?R"
  let ?t = "TrimSpace (req_header r ''X-Tenant-ID'')"
  have refused: "P" if "\<And>h :: ('w, 'a) handler. WithTenant s h r st = (HttpError status code msg, st')" "400 \<le> status"
    for P status code msg st'
    using no that unfolding refuses_def by blast
  have t: "?t \<noteq> []" by (rule classical) (rule refused [of 400]; simp add: WithTenant_def)
  obtain uid where uid: "UserIDFromContext (req_context r) = Some uid"
    by (cases "UserIDFromContext (req_context r)") (use t in \<open>auto intro: refused [of 401] simp: WithTenant_def\<close>)
  obtain cnt w1 where cnt: "sv_countUserTenants s (req_context r) uid ?t (srv_world st) = (cnt, w1)"
    by (cases "sv_countUserTenants s (req_context r) uid ?t (srv_world st)")
  obtain n where n: "cnt = Inr n"
    by (cases cnt) (use t uid cnt in \<open>auto intro: refused [of 500] simp: WithTenant_def userHasTenant_def\<close>)
  have pos: "0 < n"
    by (rule classical) (rule refused [of 403]; use t uid cnt n in \<open>simp add: WithTenant_def userHasTenant_def\<close>)
  obtain ok st2 where ad: "limiter_admits s (?t @ '':'' @ req_path r) (st\<lparr>srv_world := w1\<rparr>) = (ok, st2)"
    by (cases "limiter_admits s (?t @ '':'' @ req_path r) (st\<lparr>srv_world := w1\<rparr>)")
  have ok: "ok"
    by (rule classical) (rule refused [of 429]; use t uid cnt n pos ad in \<open>simp add: WithTenant_def userHasTenant_def\<close>)
  let ?c = "WithTenantContext (Some (req_context r)) \<lparr>tc_TenantID = ?t, tc_RequestID = RequestIDFromContext (req_context r)\<rparr>"
  obtain ctx where ctx: "?c = Inr ctx"
    by (cases ?c) (use t uid cnt n pos ad ok in \<open>auto intro: refused [of 500] simp: WithTenant_def userHasTenant_def\<close>)
  have "passes (WithTenant s :: ('w, 'a) handler \<Rightarrow> ('w, 'a) handler) r st (r\<lparr>req_context := ctx\<rparr>) st2"
    using t uid cnt n pos ad ok ctx by (simp add: passes_def WithTenant_def userHasTenant_def)
  moreover have "limiter_admits s (?t @ '':'' @ req_path r) (st\<lparr>srv_world := w1\<rparr>) = (True, st2)"
    using ad ok by simp
  ultimately show ?P using t uid cnt [unfolded n] pos ctx by blast
qed

lemma WithAuth_passes:
  assumes "TrimSpace (req_header r ''Authorization'') = a" and "HasPrefix (ToLower U a) ''bearer ''"
    and "TrimSpace (drop 7 a) = token" and "sv_now s (srv_world st) = (now, w1)"
    and "VerifyJWT (sv_unmarshal s) now token (sv_JWTSecret s) = Inr claims"
  shows "passes (WithAuth U s :: ('w, 'a) handler \<Rightarrow> ('w, 'a) handler) r st
    (r\<lparr>req_context := WithActorID
       (Some (WithValue (req_context r) UserIDKey (CtxInt (sc_UID claims)))) (sc_Sub claims)\<rparr>)
    (st\<lparr>srv_world := w1\<rparr>)"
  using assms by (simp add: passes_def WithAuth_def)

lemma UserIDFromContext_actor [simp]:
  "UserIDFromContext (WithActorID (Some (WithValue c UserIDKey (CtxInt uid))) a) = Some uid"
  by (simp add: UserIDFromContext_def WithActorID_def WithValue_def or_background_def Let_def)

lemma in_scope_WithTenantContext:
  assumes "WithTenantContext (Some c) \<lparr>tc_TenantID = t, tc_RequestID = i\<rparr> = Inr ctx"
  shows "in_scope (Some ctx) t' \<longleftrightarrow> t' = t"
  using assms by (auto simp: in_scope_def WithTenantContext_Inr TenantContextFromContext_Inr or_background_def)

lemma passes_refuses: "passes f r st r1 st1 \<Longrightarrow> refuses g r1 st1 \<Longrightarrow> refuses (\<lambda>h. f (g h)) r st"
  by (auto simp: passes_def refuses_def)

lemma passes_passes: "passes f r st r1 st1 \<Longrightarrow> passes g r1 st1 r2 st2 \<Longrightarrow> passes (\<lambda>h. f (g h)) r st r2 st2"
  by (simp add: passes_def)

lemma refuses_outer: "refuses f r st \<Longrightarrow> refuses (\<lambda>h. f (g h)) r st"
  by (auto simp: refuses_def)

lemma WithRequestID_passes:
  "\<exists>c w1. passes (WithRequestID s :: ('w, 'a) handler \<Rightarrow> ('w, 'a) handler) r st
     (r\<lparr>req_context := c\<rparr>) (st\<lparr>srv_world := w1\<rparr>)"
proof -
  obtain i w1 where "(if TrimSpace (req_header r ''X-Request-Id'') = [] then sv_randomID s (srv_world st)
      else (TrimSpace (req_header r ''X-Request-Id''), srv_world st)) = (i, w1)"
    by (cases "if TrimSpace (req_header r ''X-Request-Id'') = [] then sv_randomID s (srv_world st)
      else (TrimSpace (req_header r ''X-Request-Id''), srv_world st)")
  then show ?thesis by (auto simp: passes_def WithRequestID_def Let_def)
qed

text \<open>A bearer header made of a signed token survives the trimming and the test of its prefix.\<close>

definition graphic :: "char \<Rightarrow> bool" where
  "graphic c \<longleftrightarrow> 33 \<le> byte c \<and> byte c \<le> 126"

lemma space_len_graphic: "graphic c \<Longrightarrow> space_len (c # s) = 0"
  by (cases s rule: space_len.cases; cases "tl s")
    (auto simp: graphic_def ascii_space_def space2_def space3_def neq_Nil_conv)

lemma tail_space_graphic: "graphic c \<Longrightarrow> tail_space (s @ [c]) = 0"
  by (cases s rule: rev_cases; cases "butlast s" rule: rev_cases)
    (auto simp: tail_space_def graphic_def ascii_space_def space2_def space3_def)

lemma TrimSpace_graphic:
  assumes "s \<noteq> []" and "graphic (hd s)" and "graphic (last s)"
  shows "TrimSpace s = s"
proof -
  have "space_len s = 0" using assms space_len_graphic by (cases s) auto
  moreover have "tail_space s = 0" using assms tail_space_graphic [of "last s" "butlast s"] by simp
  ultimately show ?thesis by (simp add: TrimSpace_def trim_left.simps trim_right.simps)
qed

lemma b64_graphic: "list_all (\<lambda>n. graphic (b64_char n)) [0..<64]"
  by code_simp

lemma SignJWT_graphic: "c \<in> set (SignJWT marshal claims secret) \<Longrightarrow> graphic c"
proof -
  have dot: "graphic (CHR ''.'')" by code_simp
  have "c \<in> set (RawURL_EncodeToString x) \<Longrightarrow> graphic c" for x
    using b64_graphic sextets_less by (fastforce simp: RawURL_EncodeToString_def list_all_iff)
  then show "c \<in> set (SignJWT marshal claims secret) \<Longrightarrow> graphic c"
    using dot by (auto simp: SignJWT_def Let_def)
qed

lemma bearer_header:
  assumes "token = SignJWT marshal claims secret"
  shows "TrimSpace (''Bearer '' @ token) = ''Bearer '' @ token"
    and "TrimSpace (drop 7 (''Bearer '' @ token)) = token"
    and "HasPrefix (ToLower U (''Bearer '' @ token)) ''bearer ''"
proof -
  have ne: "token \<noteq> []" by (simp add: assms SignJWT_def Let_def)
  have g: "c \<in> set token \<Longrightarrow> graphic c" for c using SignJWT_graphic assms by blast
  have B: "graphic (CHR ''B'')" by code_simp
  show "TrimSpace (''Bearer '' @ token) = ''Bearer '' @ token"
    by (rule TrimSpace_graphic) (use ne g B in auto)
  show "TrimSpace (drop 7 (''Bearer '' @ token)) = token"
    using TrimSpace_graphic [of token] ne g by simp
  have "is_ascii token" using g by (fastforce simp: is_ascii_def graphic_def)
  then have "is_ascii (''Bearer '' @ token)" by (simp add: is_ascii_def byte_def)
  then show "HasPrefix (ToLower U (''Bearer '' @ token)) ''bearer ''"
    by (simp add: ToLower_ascii HasPrefix_def ascii_lower_def byte_def char_of_def bit_0)
qed

section \<open>Properties\<close>

text \<open>The gate in front of the tenant routes. For every request, either the pipeline answers with an
  error whatever handler is behind it, or the handler gets one request, and then: the bearer token
  verifies under the server's secret to claims that have not expired; the \<^verbatim>\<open>user_tenants\<close> table counts an
  assignment of the token's user to the tenant the request names; the user in the handler's context is
  the token's; and that context passes the repository guards for the named tenant and for no other.\<close>

theorem tenant_route_gate:
  "refuses (tenant_route U s :: ('w, 'a) handler \<Rightarrow> ('w, 'a) handler) r st \<or>
   (\<exists>r' st' claims now ctx w n w'.
      passes (tenant_route U s :: ('w, 'a) handler \<Rightarrow> ('w, 'a) handler) r st r' st' \<and>
      VerifyJWT (sv_unmarshal s) now (TrimSpace (drop 7 (TrimSpace (req_header r ''Authorization''))))
        (sv_JWTSecret s) = Inr claims \<and> time_Unix now < sc_Exp claims \<and>
      sv_countUserTenants s ctx (sc_UID claims) (TrimSpace (req_header r ''X-Tenant-ID'')) w = (Inr n, w') \<and> 0 < n \<and>
      UserIDFromContext (req_context r') = Some (sc_UID claims) \<and>
      (\<forall>t. in_scope (Some (req_context r')) t \<longleftrightarrow> t = TrimSpace (req_header r ''X-Tenant-ID'')))"
proof (cases "refuses (tenant_route U s :: ('w, 'a) handler \<Rightarrow> ('w, 'a) handler) r st")
  case False
  let ?mw = "\<lambda>h :: ('w, 'a) handler. WithRequestID s (WithAuth U s (WithTenant s h))"
  have mw: "?mw = tenant_route U s" by (simp add: tenant_route_def fun_eq_iff)
  obtain c w1 where p1: "passes (WithRequestID s :: ('w, 'a) handler \<Rightarrow> ('w, 'a) handler) r st
      (r\<lparr>req_context := c\<rparr>) (st\<lparr>srv_world := w1\<rparr>)" using WithRequestID_passes [where 'a = 'a and s = s and r = r and st = st] by blast
  let ?r1 = "r\<lparr>req_context := c\<rparr>" and ?st1 = "st\<lparr>srv_world := w1\<rparr>"
  have "\<not> refuses (\<lambda>h :: ('w, 'a) handler. WithAuth U s (WithTenant s h)) ?r1 ?st1"
    using False passes_refuses [OF p1] mw by metis
  then obtain now w2 claims r2 where
    jwt: "VerifyJWT (sv_unmarshal s) now (TrimSpace (drop 7 (TrimSpace (req_header r ''Authorization''))))
        (sv_JWTSecret s) = Inr claims"
    and r2: "r2 = ?r1\<lparr>req_context := WithActorID
             (Some (WithValue c UserIDKey (CtxInt (sc_UID claims)))) (sc_Sub claims)\<rparr>"
    and p2: "passes (WithAuth U s :: ('w, 'a) handler \<Rightarrow> ('w, 'a) handler) ?r1 ?st1 r2 (?st1\<lparr>srv_world := w2\<rparr>)"
    using WithAuth_gate [where 'a = 'a and U = U and s = s and r = ?r1 and st = ?st1] refuses_outer by force
  let ?st2 = "?st1\<lparr>srv_world := w2\<rparr>"
  have "\<not> refuses (WithTenant s :: ('w, 'a) handler \<Rightarrow> ('w, 'a) handler) r2 ?st2"
    using \<open>\<not> refuses _ ?r1 ?st1\<close> passes_refuses [OF p2] by blast
  then obtain n w3 st3 ctx where
    count: "sv_countUserTenants s (req_context r2) (sc_UID claims) (TrimSpace (req_header r ''X-Tenant-ID'')) w2 = (Inr n, w3)" "0 < n"
    and ctx: "WithTenantContext (Some (req_context r2))
        \<lparr>tc_TenantID = TrimSpace (req_header r ''X-Tenant-ID''), tc_RequestID = RequestIDFromContext (req_context r2)\<rparr> = Inr ctx"
    and p3: "passes (WithTenant s :: ('w, 'a) handler \<Rightarrow> ('w, 'a) handler) r2 ?st2 (r2\<lparr>req_context := ctx\<rparr>) st3"
    using WithTenant_gate [where 'a = 'a and s = s and r = r2 and st = ?st2] by (auto simp: r2)
  have "passes (tenant_route U s :: ('w, 'a) handler \<Rightarrow> ('w, 'a) handler) r st (r2\<lparr>req_context := ctx\<rparr>) st3"
    using passes_passes [OF p1 passes_passes [OF p2 p3]] mw by simp
  moreover have "UserIDFromContext (req_context (r2\<lparr>req_context := ctx\<rparr>)) = Some (sc_UID claims)"
    using ctx by (simp add: r2 WithTenantContext_Inr or_background_def UserIDFromContext_def WithActorID_def WithValue_def Let_def)
  moreover have "\<forall>t. in_scope (Some (req_context (r2\<lparr>req_context := ctx\<rparr>))) t \<longleftrightarrow> t = TrimSpace (req_header r ''X-Tenant-ID'')"
    using in_scope_WithTenantContext [OF ctx] by simp
  moreover have "time_Unix now < sc_Exp claims" using VerifyJWT_Inr [OF jwt] by blast
  ultimately show ?thesis using jwt count by blast
qed simp

lemma login_route_passes:
  fixes s :: "'w Server" and st :: "'w server_state"
  assumes "HandleLogin marshal m fetch t0 (Inr req) = HttpOK token"
    and "\<forall>c. sv_unmarshal s (marshal c) = Inr c" and "sv_JWTSecret s = am_Secret m"
    and "req_header r ''Authorization'' = ''Bearer '' @ token"
    and "TrimSpace (req_header r ''X-Tenant-ID'') = t" and "t \<noteq> []"
    and "TrimSpace (TrimSpace (req_header r ''X-Request-Id'')) \<noteq> []"
    and "sv_now s (srv_world st) = (now, w1)" and "time_Unix now < time_Unix (t0 + am_TokenTTL m)"
    and "fetch (TrimSpace (lr_Username req)) = Inr user"
    and "\<forall>ctx. \<exists>n w2. sv_countUserTenants s ctx (du_ID user) t w1 = (Inr n, w2) \<and> 0 < n \<and>
      fst (limiter_admits s (t @ '':'' @ req_path r) (st\<lparr>srv_world := w2\<rparr>))"
  shows "\<exists>r' st'. passes (tenant_route U s :: ('w, 'a) handler \<Rightarrow> ('w, 'a) handler) r st r' st' \<and>
    UserIDFromContext (req_context r') = Some (du_ID user) \<and> in_scope (Some (req_context r')) t"
proof -
  have token: "token = SignJWT marshal (user_claims m t0 user) (am_Secret m)"
    using assms(1,10) by (auto simp: HandleLogin_def invalid_credentials_def Let_def split: if_splits)
  note bearer = bearer_header [OF token]
  let ?given = "TrimSpace (req_header r ''X-Request-Id'')"
  have given: "?given \<noteq> []" using assms(7) by auto
  note now = assms(8)
  have jwt: "VerifyJWT (sv_unmarshal s) now token (sv_JWTSecret s) = Inr (user_claims m t0 user)"
    using VerifyJWT_SignJWT assms(2,3,9) token by (simp add: user_claims_def time_Add_def)
  let ?c = "WithActorID (Some (WithValue (WithValue (req_context r) RequestIDKey (CtxString ?given)) UserIDKey
      (CtxInt (du_ID user)))) (du_Username user)"
  obtain n w2 where count: "sv_countUserTenants s ?c (du_ID user) t w1 = (Inr n, w2)" "0 < n"
    and admits: "fst (limiter_admits s (t @ '':'' @ req_path r) (st\<lparr>srv_world := w2\<rparr>))" using assms(11) by blast
  obtain st3 where ad: "limiter_admits s (t @ '':'' @ req_path r) (st\<lparr>srv_world := w2\<rparr>) = (True, st3)"
    using admits by (metis prod.collapse)
  have id: "RequestIDFromContext ?c = TrimSpace ?given"
    by (simp add: RequestIDFromContext_def WithActorID_def WithValue_def or_background_def Let_def)
  obtain ctx where ctx: "WithTenantContext (Some ?c) \<lparr>tc_TenantID = t, tc_RequestID = RequestIDFromContext ?c\<rparr> = Inr ctx"
    using assms(6,7) id by (auto simp: WithTenantContext_def)
  let ?r1 = "r\<lparr>req_context := WithValue (req_context r) RequestIDKey (CtxString ?given)\<rparr>"
  let ?r2 = "r\<lparr>req_context := ?c\<rparr>"
  have p1: "passes (WithRequestID s :: ('w, 'a) handler \<Rightarrow> ('w, 'a) handler) r st ?r1 st"
    using given by (simp add: passes_def WithRequestID_def)
  have p2: "passes (WithAuth U s :: ('w, 'a) handler \<Rightarrow> ('w, 'a) handler) ?r1 st ?r2 (st\<lparr>srv_world := w1\<rparr>)"
    using WithAuth_passes [where 'a = 'a and r = ?r1, OF _ bearer(3) bearer(2) now jwt] assms(4) bearer(1)
    by (simp add: user_claims_def)
  have p3: "passes (WithTenant s :: ('w, 'a) handler \<Rightarrow> ('w, 'a) handler) ?r2 (st\<lparr>srv_world := w1\<rparr>)
      (?r2\<lparr>req_context := ctx\<rparr>) st3"
    using count ad ctx assms(5,6) by (simp add: passes_def WithTenant_def userHasTenant_def)
  have "(\<lambda>h :: ('w, 'a) handler. WithRequestID s (WithAuth U s (WithTenant s h))) = tenant_route U s"
    by (simp add: tenant_route_def fun_eq_iff)
  with passes_passes [OF p1 passes_passes [OF p2 p3]]
  have "passes (tenant_route U s :: ('w, 'a) handler \<Rightarrow> ('w, 'a) handler) r st (r\<lparr>req_context := ctx\<rparr>) st3" by simp
  moreover have "UserIDFromContext ctx = Some (du_ID user)"
    using ctx by (simp add: WithTenantContext_Inr or_background_def UserIDFromContext_def WithActorID_def WithValue_def Let_def)
  moreover have "in_scope (Some ctx) t" using in_scope_WithTenantContext [OF ctx] by simp
  ultimately show ?thesis by (intro exI [of _ "r\<lparr>req_context := ctx\<rparr>"] exI [of _ st3]) simp
qed

text \<open>C12: a login opens the tenant routes. A request that carries the token of a login before it expires, the
  same secret on both sides, reaches the handler of a tenant route as that user, in the scope of the
  tenant it names, when the user is assigned to the tenant, the limiter admits the request and it
  carries a request identifier.\<close>

theorem login_opens_tenant_route:
  fixes s :: "'w Server" and st :: "'w server_state"
  assumes "HandleLogin marshal m fetch t0 (Inr req) = HttpOK token"
    and "\<forall>c. sv_unmarshal s (marshal c) = Inr c" and "sv_JWTSecret s = am_Secret m"
    and "req_header r ''Authorization'' = ''Bearer '' @ token"
    and "TrimSpace (req_header r ''X-Tenant-ID'') = t" and "t \<noteq> []"
    and "TrimSpace (TrimSpace (req_header r ''X-Request-Id'')) \<noteq> []"
    and "\<forall>w. time_Unix (fst (sv_now s w)) < time_Unix (t0 + am_TokenTTL m)"
    and "fetch (TrimSpace (lr_Username req)) = Inr user"
    and "\<forall>ctx w. \<exists>n w'. sv_countUserTenants s ctx (du_ID user) t w = (Inr n, w') \<and> 0 < n"
    and "\<forall>w. fst (limiter_admits s (t @ '':'' @ req_path r) (st\<lparr>srv_world := w\<rparr>))"
  shows "\<exists>r' st'. passes (tenant_route U s :: ('w, 'a) handler \<Rightarrow> ('w, 'a) handler) r st r' st' \<and>
    UserIDFromContext (req_context r') = Some (du_ID user) \<and> in_scope (Some (req_context r')) t"
proof -
  obtain now w1 where now: "sv_now s (srv_world st) = (now, w1)" by (cases "sv_now s (srv_world st)")
  then have "time_Unix now < time_Unix (t0 + am_TokenTTL m)" using assms(8) by (metis fst_conv)
  from login_route_passes [where 'a = 'a and U = U, OF assms(1-7) now this assms(9)] assms(10,11) show ?thesis by blast
qed

section \<open>Witnesses\<close>

definition demo_server :: "unit Server" where
  "demo_server =
     \<lparr>sv_JWTSecret = ''key'', sv_origins = [], sv_unmarshal = demo_unmarshal, sv_now = (\<lambda>w. (0, w)),
      sv_randomID = (\<lambda>w. (''id'', w)), sv_countUserTenants = (\<lambda>ctx u t w. (Inr 1, w))\<rparr>"

definition demo_http :: "string \<Rightarrow> server_request" where
  "demo_http token =
     \<lparr>req_header = (\<lambda>k. if k = ''Authorization'' then ''Bearer '' @ token
        else if k = ''X-Tenant-ID'' then ''acme'' else if k = ''X-Request-Id'' then ''r1'' else []),
      req_context = Background, req_method = ''POST'', req_path = ''/api/v1/search''\<rparr>"

definition demo_state :: "unit server_state" where
  "demo_state = \<lparr>srv_limiter = NewWindowLimiter 5, srv_world = ()\<rparr>"

theorem login_opens_tenant_route_witness:
  "\<exists>token r' st'. HandleLogin demo_marshal demo_manager (\<lambda>u. Inr demo_user) 0
      (Inr \<lparr>lr_Username = ''ann'', lr_Password = ''pw'', lr_APIKey = []\<rparr>) = HttpOK token \<and>
    passes (tenant_route ascii_tables demo_server :: (unit, unit) handler \<Rightarrow> (unit, unit) handler)
      (demo_http token) demo_state r' st' \<and>
    in_scope (Some (req_context r')) ''acme''"
proof -
  let ?req = "\<lparr>lr_Username = ''ann'', lr_Password = ''pw'', lr_APIKey = []\<rparr>"
  have trim: "TrimSpace ''ann'' = ''ann''" "TrimSpace ''pw'' = ''pw''" "TrimSpace ''acme'' = ''acme''"
    "TrimSpace ''r1'' = ''r1''" by code_simp+
  obtain token where token: "HandleLogin demo_marshal demo_manager (\<lambda>u. Inr demo_user) 0 (Inr ?req) = HttpOK token"
    by (simp add: HandleLogin_def trim demo_user_def credentials_ok_def VerifySecret_def HasPrefix_def)
  have json: "\<forall>c. sv_unmarshal demo_server (demo_marshal c) = Inr c" "sv_JWTSecret demo_server = am_Secret demo_manager"
    by (simp_all add: demo_server_def demo_json demo_manager_def)
  have head: "req_header (demo_http token) ''Authorization'' = ''Bearer '' @ token"
    "TrimSpace (req_header (demo_http token) ''X-Tenant-ID'') = ''acme''" "''acme'' \<noteq> []"
    "TrimSpace (TrimSpace (req_header (demo_http token) ''X-Request-Id'')) \<noteq> []"
    by (simp_all add: demo_http_def trim)
  have now: "\<forall>w. time_Unix (fst (sv_now demo_server w)) < time_Unix (0 + am_TokenTTL demo_manager)"
    by (simp add: demo_server_def demo_manager_def time_Unix_def nanos_per_second_def)
  have count: "\<forall>ctx w. \<exists>n w'. sv_countUserTenants demo_server ctx (du_ID demo_user) ''acme'' w = (Inr n, w') \<and> 0 < n"
    by (simp add: demo_server_def)
  have admits: "\<forall>w. fst (limiter_admits demo_server (''acme'' @ '':'' @ req_path (demo_http token)) (demo_state\<lparr>srv_world := w\<rparr>))"
    by (simp add: limiter_admits_def demo_server_def demo_state_def WindowLimiter_Allow_def NewWindowLimiter_def
        window_state_def time_IsZero_def)
  from login_opens_tenant_route [OF token json head now refl count admits, where 'a = unit and U = ascii_tables] token
  show ?thesis by blast
qed

end
