(* ===== verification/Chunking.thy ===== *)
theory Chunking
  imports Contracts
begin

text \<open>
  The two chunkers: \<^verbatim>\<open>chunkPayload\<close> of \<^verbatim>\<open>internal/services/ingestion/service.go\<close>, which packs words
  greedily, and \<^verbatim>\<open>ChunkText\<close> of \<^verbatim>\<open>backend/util/apiutil/text.go\<close>, which packs words into overlapping
  spans. Lengths are byte lengths, as \<^verbatim>\<open>len\<close> gives them.
\<close>

section \<open>The greedy chunker\<close>

text \<open>The loop over the words, with the finished chunks and the chunk under construction.\<close>

primrec chunk_loop :: "int \<Rightarrow> string list \<Rightarrow> string \<Rightarrow> string list \<Rightarrow> string list \<times> string" where
  "chunk_loop maxChunkSize chunks current [] = (chunks, current)"
| "chunk_loop maxChunkSize chunks current (word # words) =
     (let candidate = (if current \<noteq> [] then current @ '' '' @ word else word)
      in if int (length candidate) > maxChunkSize \<and> current \<noteq> []
         then chunk_loop maxChunkSize (chunks @ [current]) word words
         else chunk_loop maxChunkSize chunks candidate words)"

definition chunkPayload :: "string \<Rightarrow> int \<Rightarrow> string list" where
  "chunkPayload payload maxChunkSize =
     (let text = TrimSpace payload
      in if text = [] then []
         else let size = (if maxChunkSize \<le> 0 then 200 else maxChunkSize);
                  words = Fields text
              in if words = [] then []
                 else let (chunks, current) = chunk_loop size [] [] words
                      in if current \<noteq> [] then chunks @ [current] else chunks)"

text \<open>The groups of words behind the chunks.\<close>

fun groups :: "int \<Rightarrow> string list \<Rightarrow> string list \<Rightarrow> string list list" where
  "groups m cur [] = (if cur = [] then [] else [cur])"
| "groups m cur (w # ws) =
     (if cur \<noteq> [] \<and> int (length (Join (cur @ [w]) '' '')) > m then cur # groups m [w] ws
      else groups m (cur @ [w]) ws)"

lemma Join_snoc: "cur \<noteq> [] \<Longrightarrow> Join (cur @ [w]) '' '' = Join cur '' '' @ '' '' @ w"
  by (induction cur rule: induct_list012) simp_all

lemma Join_Nil_iff: "\<forall>w \<in> set ws. w \<noteq> [] \<Longrightarrow> Join ws '' '' = [] \<longleftrightarrow> ws = []"
  by (induction ws rule: induct_list012) auto

lemma length_Join_Cons: "ws \<noteq> [] \<Longrightarrow> length (Join (w # ws) '' '') = length w + 1 + length (Join ws '' '')"
  by (cases ws) simp_all

lemma chunk_loop_groups:
  assumes "\<forall>w \<in> set (cur @ ws). w \<noteq> []"
  shows "(let (chunks, current) = chunk_loop m acc (Join cur '' '') ws
          in if current \<noteq> [] then chunks @ [current] else chunks)
    = acc @ map (\<lambda>g. Join g '' '') (groups m cur ws)"
  using assms
proof (induction ws arbitrary: cur acc)
  case Nil
  then show ?case by (simp add: Join_Nil_iff)
next
  case (Cons w ws)
  have nil: "Join cur '' '' = [] \<longleftrightarrow> cur = []" using Cons.prems by (intro Join_Nil_iff) auto
  show ?case
  proof (cases "cur \<noteq> [] \<and> int (length (Join (cur @ [w]) '' '')) > m")
    case True
    with Cons.IH [of "[w]" "acc @ [Join cur '' '']"] Cons.prems nil show ?thesis
      by (auto simp: Let_def Join_snoc)
  next
    case False
    with Cons.IH [of "cur @ [w]" acc] Cons.prems nil show ?thesis
      by (cases "cur = []") (auto simp: Let_def Join_snoc)
  qed
qed

lemma concat_groups: "concat (groups m cur ws) = cur @ ws"
  by (induction m cur ws rule: groups.induct) auto

lemma groups_nonempty: "[] \<notin> set (groups m cur ws)"
  by (induction m cur ws rule: groups.induct) auto

lemma groups_bound:
  assumes "length cur \<le> 1 \<or> int (length (Join cur '' '')) \<le> m"
  shows "\<forall>g \<in> set (groups m cur ws). length g = 1 \<or> int (length (Join g '' '')) \<le> m"
  using assms
proof (induction m cur ws rule: groups.induct)
  case (1 m cur)
  then show ?case by (cases cur) auto
next
  case (2 m cur w ws)
  show ?case
  proof (cases "cur \<noteq> [] \<and> int (length (Join (cur @ [w]) '' '')) > m")
    case True
    with 2 show ?thesis by (cases cur) auto
  next
    case False
    with 2 show ?thesis by (cases "cur = []") auto
  qed
qed

text \<open>A chunk ends only where the next word would not have fitted.\<close>

lemma groups_maximal:
  "groups m cur ws = pre @ g # h # post \<Longrightarrow> int (length (Join (g @ [hd h]) '' '')) > m"
proof (induction m cur ws arbitrary: pre rule: groups.induct)
  case (1 m cur)
  then show ?case by (cases pre) (auto split: if_splits)
next
  case (2 m cur w ws)
  show ?case
  proof (cases "cur \<noteq> [] \<and> int (length (Join (cur @ [w]) '' '')) > m")
    case True
    have hd: "groups m [w] ws = h # post \<Longrightarrow> hd h = w"
      using concat_groups [of m "[w]" ws] groups_nonempty [of m "[w]" ws] by (cases h) auto
    show ?thesis
    proof (cases pre)
      case Nil
      with True 2(3) hd show ?thesis by auto
    next
      case (Cons p pre')
      with True 2(3) show ?thesis by (intro 2(1) [of pre']) auto
    qed
  next
    case False
    with 2(3) show ?thesis by (intro 2(2)) auto
  qed
qed

lemma chunkPayload_groups:
  "chunkPayload payload m =
     map (\<lambda>g. Join g '' '') (groups (if m \<le> 0 then 200 else m) [] (Fields payload))"
proof (cases "Fields payload = []")
  case True
  then show ?thesis by (simp add: chunkPayload_def Let_def TrimSpace_Nil_iff)
next
  case False
  have "\<forall>w \<in> set ([] @ Fields payload). w \<noteq> []"
    using Fields_words by (auto simp: is_word_def)
  from chunk_loop_groups [OF this, of "if m \<le> 0 then 200 else m" "[]"] False show ?thesis
    by (simp add: chunkPayload_def Let_def TrimSpace_Nil_iff case_prod_beta)
qed

lemma groups_words: "g \<in> set (groups m [] (Fields s)) \<Longrightarrow> \<forall>w \<in> set g. is_word w"
  using concat_groups [of m "[]" "Fields s"] Fields_words by (metis UN_I append_Nil set_concat)

section \<open>Overlapping spans\<close>

text \<open>The inner loop: the end of the span that starts at \<open>start\<close>.\<close>

function extend_span :: "string list \<Rightarrow> int \<Rightarrow> nat \<Rightarrow> nat \<Rightarrow> int \<Rightarrow> nat" where
  "extend_span words maxLen start e currentLen =
     (if e < length words then
        let candidateLen = currentLen + int (length (words ! e)) + (if e > start then 1 else 0)
        in if candidateLen > maxLen \<and> e > start then e
           else if candidateLen \<ge> maxLen then Suc e
           else extend_span words maxLen start (Suc e) candidateLen
      else e)"
  by auto
termination by (relation "measure (\<lambda>(words, maxLen, start, e, currentLen). length words - e)") auto

declare extend_span.simps [simp del]

definition span_end :: "string list \<Rightarrow> int \<Rightarrow> nat \<Rightarrow> nat" where
  "span_end words maxLen start =
     (let e = extend_span words maxLen start start 0 in if e \<le> start then start + 1 else e)"

definition next_start :: "int \<Rightarrow> nat \<Rightarrow> nat \<Rightarrow> nat" where
  "next_start overlapWords start e =
     (let nextStart = int e - overlapWords in if nextStart \<le> int start then e else nat nextStart)"

lemma span_end_gt [simp]: "start < span_end words maxLen start"
  by (simp add: span_end_def Let_def)

lemma next_start_gt: "start < e \<Longrightarrow> start < next_start overlapWords start e"
  by (auto simp: next_start_def Let_def)

text \<open>The outer loop, as the spans it cuts.\<close>

function spans :: "string list \<Rightarrow> int \<Rightarrow> int \<Rightarrow> nat \<Rightarrow> (nat \<times> nat) list" where
  "spans words maxLen overlapWords start =
     (if start < length words then
        let e = span_end words maxLen start
        in (start, e) #
           (if e \<ge> length words then []
            else spans words maxLen overlapWords (next_start overlapWords start e))
      else [])"
  by auto
termination
  by (relation "measure (\<lambda>(words, maxLen, overlapWords, start). length words - start)")
    (auto simp: Let_def intro!: diff_less_mono2 next_start_gt)

declare spans.simps [simp del]

definition slice :: "'a list \<Rightarrow> nat \<Rightarrow> nat \<Rightarrow> 'a list" where
  "slice xs a b = take (b - a) (drop a xs)"

definition ChunkText :: "string \<Rightarrow> int \<Rightarrow> int \<Rightarrow> string list" where
  "ChunkText text maxLen overlapWords =
     (let trimmed = TrimSpace text
      in if trimmed = [] then []
         else let size = (if maxLen \<le> 0 then 900 else maxLen);
                  overlap = (if overlapWords < 0 then 0 else overlapWords);
                  words = Fields trimmed
              in if words = [] then []
                 else map (\<lambda>(a, b). Join (slice words a b) '' '') (spans words size overlap 0))"

text \<open>What the inner loop keeps: the span read so far has the length the counter says.\<close>

lemma slice_Suc: "a \<le> e \<Longrightarrow> e < length xs \<Longrightarrow> slice xs a (Suc e) = slice xs a e @ [xs ! e]"
  by (simp add: slice_def Suc_diff_le take_Suc_conv_app_nth)

lemma slice_same [simp]: "slice xs a a = []"
  by (simp add: slice_def)

lemma length_slice: "a \<le> b \<Longrightarrow> b \<le> length xs \<Longrightarrow> length (slice xs a b) = b - a"
  by (simp add: slice_def)

lemma length_Join_snoc:
  "length (Join (ws @ [w]) '' '') = length (Join ws '' '') + length w + (if ws = [] then 0 else 1)"
  by (cases "ws = []") (simp_all add: Join_snoc)

lemma extend_span_bounds:
  assumes "start \<le> e" and "e \<le> length words"
    and "currentLen = int (length (Join (slice words start e) '' ''))"
    and "e - start \<le> 1 \<or> currentLen \<le> maxLen"
  shows "let e' = extend_span words maxLen start e currentLen
    in e \<le> e' \<and> e' \<le> length words \<and>
       (e' - start \<le> 1 \<or> int (length (Join (slice words start e') '' '')) \<le> maxLen) \<and>
       (e < length words \<and> e = start \<longrightarrow> e < e')"
  using assms
proof (induction words maxLen start e currentLen rule: extend_span.induct)
  case (1 words maxLen start e currentLen)
  show ?case
  proof (cases "e < length words")
    case False
    then have "extend_span words maxLen start e currentLen = e" by (simp add: extend_span.simps)
    with "1.prems" False show ?thesis by (simp add: Let_def)
  next
    case True
    let ?cand = "currentLen + int (length (words ! e)) + (if e > start then 1 else 0)"
    have "slice words start e = [] \<longleftrightarrow> \<not> start < e"
      using length_slice [of start e words] "1.prems"(1,2) by auto
    then have cand: "int (length (Join (slice words start (Suc e)) '' '')) = ?cand"
      using "1.prems"(1,3) True by (simp add: slice_Suc length_Join_snoc)
    have IH: "let e' = extend_span words maxLen start (Suc e) ?cand
      in Suc e \<le> e' \<and> e' \<le> length words \<and>
       (e' - start \<le> 1 \<or> int (length (Join (slice words start e') '' '')) \<le> maxLen)"
      if a: "\<not> (?cand > maxLen \<and> e > start)" and b: "\<not> ?cand \<ge> maxLen"
    proof -
      have pre: "start \<le> Suc e" "Suc e \<le> length words" "Suc e - start \<le> 1 \<or> ?cand \<le> maxLen"
        using "1.prems"(1) True b by linarith+
      from "1.IH" [OF True refl a b pre(1,2) cand [symmetric] pre(3)] show ?thesis
        unfolding Let_def by blast
    qed
    have step: "extend_span words maxLen start e currentLen =
        (if ?cand > maxLen \<and> e > start then e else if ?cand \<ge> maxLen then Suc e
         else extend_span words maxLen start (Suc e) ?cand)"
      using True by (subst extend_span.simps) (simp only: Let_def if_True)
    consider "?cand > maxLen" "e > start" | "\<not> (?cand > maxLen \<and> e > start)" "?cand \<ge> maxLen"
      | "\<not> (?cand > maxLen \<and> e > start)" "\<not> ?cand \<ge> maxLen" by blast
    then show ?thesis
    proof cases
      case 1
      with "1.prems" step show ?thesis by (simp add: Let_def)
    next
      case 2
      then have e: "extend_span words maxLen start e currentLen = Suc e" using step by (simp only: if_False if_True)
      from 2(1) cand have "Suc e - start \<le> 1 \<or> int (length (Join (slice words start (Suc e)) '' '')) \<le> maxLen"
        using \<open>start \<le> e\<close> by linarith
      with True show ?thesis by (simp add: e Let_def)
    next
      case 3
      then have e: "extend_span words maxLen start e currentLen = extend_span words maxLen start (Suc e) ?cand"
        using step by (simp only: if_False)
      from IH [OF 3] show ?thesis unfolding e Let_def by (auto dest: Suc_leD)
    qed
  qed
qed

lemma span_end_bounds:
  assumes "start < length words"
  shows "span_end words maxLen start \<le> length words"
    and "span_end words maxLen start = Suc start \<or>
      int (length (Join (slice words start (span_end words maxLen start)) '' '')) \<le> maxLen"
  using extend_span_bounds [of start start words 0 maxLen] assms
  by (auto simp: span_end_def Let_def le_Suc_eq)

lemma next_start_bounds:
  assumes "start < e" and "0 \<le> overlapWords"
  shows "next_start overlapWords start e \<le> e"
    and "int e - int (next_start overlapWords start e) \<le> overlapWords"
  using assms by (auto simp: next_start_def Let_def)

text \<open>A cover of the words by spans: it starts at \<open>start\<close>, ends at the end, moves forward, leaves no gap
  and overlaps by at most \<open>ov\<close> words.\<close>

definition covers :: "nat \<Rightarrow> int \<Rightarrow> nat \<Rightarrow> (nat \<times> nat) list \<Rightarrow> bool" where
  "covers n ov start sp \<longleftrightarrow>
     sp \<noteq> [] \<and> fst (hd sp) = start \<and> snd (last sp) = n \<and>
     successively (\<lambda>(a, b) (a', b'). a < a' \<and> a' \<le> b \<and> int b - int a' \<le> ov) sp"

lemma spans_cover:
  assumes "start < length words" and "0 \<le> overlapWords"
  shows "covers (length words) overlapWords start (spans words maxLen overlapWords start)"
  using assms
proof (induction words maxLen overlapWords start rule: spans.induct)
  case (1 words maxLen overlapWords start)
  let ?e = "span_end words maxLen start"
  let ?n = "next_start overlapWords start ?e"
  show ?case
  proof (cases "?e \<ge> length words")
    case True
    with span_end_bounds(1) [of start words maxLen] "1.prems" show ?thesis
      by (simp add: spans.simps [of words maxLen overlapWords start] covers_def Let_def)
  next
    case False
    have n: "start < ?n" "?n \<le> ?e" "int ?e - int ?n \<le> overlapWords"
      using next_start_gt next_start_bounds "1.prems"(2) by simp_all
    with False have "?n < length words" by simp
    then have IH: "covers (length words) overlapWords ?n (spans words maxLen overlapWords ?n)"
      using "1.IH" [OF "1.prems"(1) refl False] "1.prems"(2) by simp
    have eq: "spans words maxLen overlapWords start = (start, ?e) # spans words maxLen overlapWords ?n"
      using False "1.prems"(1) by (subst spans.simps) (simp add: Let_def)
    show ?thesis
    proof (cases "spans words maxLen overlapWords ?n")
      case Nil
      with IH show ?thesis by (simp add: covers_def)
    next
      case (Cons s sp)
      obtain a b where "s = (a, b)" by (cases s)
      with Cons IH n show ?thesis by (auto simp: eq covers_def split: if_splits)
    qed
  qed
qed

lemma spans_bounds:
  "(a, b) \<in> set (spans words maxLen overlapWords start) \<Longrightarrow>
   start \<le> a \<and> a < b \<and> b \<le> length words \<and>
   (b = Suc a \<or> int (length (Join (slice words a b) '' '')) \<le> maxLen)"
proof (induction words maxLen overlapWords start rule: spans.induct)
  case (1 words maxLen overlapWords start)
  let ?e = "span_end words maxLen start"
  from "1.prems" have lt: "start < length words"
    by (subst (asm) spans.simps) (auto split: if_splits)
  consider "(a, b) = (start, ?e)"
    | "\<not> ?e \<ge> length words" "(a, b) \<in> set (spans words maxLen overlapWords (next_start overlapWords start ?e))"
    using "1.prems" lt by (subst (asm) spans.simps) (auto simp: Let_def split: if_splits)
  then show ?case
  proof cases
    case 1
    with span_end_bounds [OF lt, of maxLen] show ?thesis by simp
  next
    case 2
    with "1.IH" [OF lt refl] next_start_gt [of start ?e overlapWords] show ?thesis by simp
  qed
qed

lemma spans_length: "length (spans words maxLen overlapWords start) \<le> length words - start"
proof (induction words maxLen overlapWords start rule: spans.induct)
  case (1 words maxLen overlapWords start)
  let ?e = "span_end words maxLen start"
  let ?n = "next_start overlapWords start ?e"
  show ?case
  proof (cases "start < length words \<and> \<not> ?e \<ge> length words")
    case True
    with "1.IH" [OF _ refl] have "length (spans words maxLen overlapWords ?n) \<le> length words - ?n"
      by simp
    moreover have "start < ?n" by (rule next_start_gt) simp
    ultimately show ?thesis
      using True by (subst spans.simps) (simp add: Let_def, arith)
  next
    case False
    then show ?thesis by (subst spans.simps) (auto simp: Let_def)
  qed
qed

section \<open>Properties\<close>

text \<open>\<^verbatim>\<open>chunkPayload\<close> loses, splits and reorders no word: reading the words of the chunks in order gives
  the words of the payload. Each chunk holds at least one word and either is a single word or has at
  most the chunk size in bytes.\<close>

theorem chunkPayload_words:
  "concat (map Fields (chunkPayload payload m)) = Fields payload \<and>
   (\<forall>c \<in> set (chunkPayload payload m). Fields c \<noteq> [] \<and>
      (length (Fields c) = 1 \<or> int (length c) \<le> (if m \<le> 0 then 200 else m)))"
proof -
  let ?m = "if m \<le> 0 then 200 else m"
  let ?gs = "groups ?m [] (Fields payload)"
  have words: "Fields (Join g '' '') = g" if "g \<in> set ?gs" for g
    using groups_words [OF that] by (rule Fields_Join)
  then have "map Fields (chunkPayload payload m) = ?gs"
    by (simp add: chunkPayload_groups map_idI)
  moreover have "\<forall>g \<in> set ?gs. length g = 1 \<or> int (length (Join g '' '')) \<le> ?m"
    by (rule groups_bound) simp
  ultimately show ?thesis
    using concat_groups [of ?m "[]" "Fields payload"] groups_nonempty [of ?m "[]" "Fields payload"] words
    by (auto simp: chunkPayload_groups)
qed

theorem chunkPayload_words_witness:
  "concat (map Fields (chunkPayload ''aa bb  cccc d'' 5)) = [''aa'', ''bb'', ''cccc'', ''d''] \<and>
   chunkPayload ''aa bb  cccc d'' 5 = [''aa bb'', ''cccc'', ''d'']"
proof -
  have f: "Fields ''aa bb  cccc d'' = [''aa'', ''bb'', ''cccc'', ''d'']" by (simp add: string_eval)
  then have "chunkPayload ''aa bb  cccc d'' 5 = [''aa bb'', ''cccc'', ''d'']"
    by (simp add: chunkPayload_groups)
  with f chunkPayload_words [of "''aa bb  cccc d''" 5] show ?thesis by simp
qed

text \<open>\<^verbatim>\<open>chunkPayload\<close> is greedy: a chunk ends only where the next word, with the separating blank,
  would have exceeded the chunk size.\<close>

theorem chunkPayload_greedy:
  assumes "chunkPayload payload m = pre @ c # d # post"
  shows "int (length c + 1 + length (hd (Fields d))) > (if m \<le> 0 then 200 else m)"
proof -
  let ?m = "if m \<le> 0 then 200 else m"
  from assms obtain pre' g h post' where
    gs: "groups ?m [] (Fields payload) = pre' @ g # h # post'"
    and c: "c = Join g '' ''" and d: "d = Join h '' ''"
    by (auto simp: chunkPayload_groups map_eq_append_conv map_eq_Cons_conv)
  have mem: "g \<in> set (groups ?m [] (Fields payload))" "h \<in> set (groups ?m [] (Fields payload))"
    by (simp_all add: gs)
  have "Fields d = h" using groups_words [OF mem(2)] by (simp add: d Fields_Join)
  moreover have "g \<noteq> []" using groups_nonempty mem(1) by metis
  ultimately show ?thesis using groups_maximal [OF gs] by (simp add: c length_Join_snoc)
qed

theorem chunkPayload_greedy_witness:
  "int (length ''aa bb'' + 1 + length (hd (Fields ''cccc''))) > 5"
proof -
  have "Fields ''aa bb  cccc d'' = [''aa'', ''bb'', ''cccc'', ''d'']" by (simp add: string_eval)
  then have "chunkPayload ''aa bb  cccc d'' 5 = [] @ ''aa bb'' # ''cccc'' # [''d'']"
    by (simp add: chunkPayload_groups)
  from chunkPayload_greedy [OF this] show ?thesis by simp
qed

text \<open>C23: \<^verbatim>\<open>ChunkText\<close> ends after at most as many chunks as words, and its chunks are consecutive spans of
  the words that start at the first word, end at the last, always move forward, leave no word out and
  share at most \<^verbatim>\<open>overlapWords\<close> words; each is a single word or fits the chunk length.\<close>

theorem ChunkText_covers:
  assumes "Fields text \<noteq> []"
  shows "\<exists>sp. ChunkText text maxLen ov = map (\<lambda>(a, b). Join (slice (Fields text) a b) '' '') sp \<and>
    length sp \<le> length (Fields text) \<and>
    covers (length (Fields text)) (if ov < 0 then 0 else ov) 0 sp \<and>
    (\<forall>(a, b) \<in> set sp. a < b \<and> b \<le> length (Fields text) \<and>
       (b = Suc a \<or> int (length (Join (slice (Fields text) a b) '' ''))
                      \<le> (if maxLen \<le> 0 then 900 else maxLen)))"
proof -
  let ?size = "if maxLen \<le> 0 then 900 else maxLen" and ?ov = "if ov < 0 then 0 else ov"
  let ?sp = "spans (Fields text) ?size ?ov 0"
  have "ChunkText text maxLen ov = map (\<lambda>(a, b). Join (slice (Fields text) a b) '' '') ?sp"
    using assms by (simp add: ChunkText_def TrimSpace_Nil_iff Let_def)
  moreover have "length ?sp \<le> length (Fields text)" using spans_length [of "Fields text" ?size ?ov 0] by simp
  moreover have "covers (length (Fields text)) ?ov 0 ?sp" using assms by (intro spans_cover) auto
  ultimately show ?thesis using spans_bounds [of _ _ "Fields text" ?size ?ov 0] by blast
qed

theorem ChunkText_covers_witness:
  "length (ChunkText ''a b c d'' 3 1) \<le> 4"
proof -
  have "Fields ''a b c d'' = [''a'', ''b'', ''c'', ''d'']" by (simp add: string_eval)
  with ChunkText_covers [of "''a b c d''" 3 1] show ?thesis by auto
qed

end
