(* ===== verification/Go_Regexp.thy ===== *)
theory Go_Regexp
  imports Go_Strings
begin

text \<open>
  Package \<^verbatim>\<open>regexp\<close> for the patterns of the program: byte classes (all ASCII), sequence, alternation,
  greedy repetition and the ASCII word boundary. A position is the byte before it and the rest of the
  text. Matching lists the ends of all matches from a position in order of preference, so that the
  first is the leftmost-first match Go reports.
\<close>

type_synonym position = "char option \<times> string"

datatype regexp =
    Class "char \<Rightarrow> bool"
  | Cat regexp regexp
  | Or regexp regexp
  | Many nat "nat option" regexp
  | Boundary

definition is_digit :: "char \<Rightarrow> bool" where
  "is_digit c \<longleftrightarrow> 48 \<le> byte c \<and> byte c \<le> 57"

definition is_lower :: "char \<Rightarrow> bool" where
  "is_lower c \<longleftrightarrow> 97 \<le> byte c \<and> byte c \<le> 122"

definition is_upper :: "char \<Rightarrow> bool" where
  "is_upper c \<longleftrightarrow> 65 \<le> byte c \<and> byte c \<le> 90"

definition is_alnum :: "char \<Rightarrow> bool" where
  "is_alnum c \<longleftrightarrow> is_digit c \<or> is_lower c \<or> is_upper c"

text \<open>The class \<^verbatim>\<open>\s\<close>, which has no vertical tab, and the word characters of \<^verbatim>\<open>\b\<close>.\<close>

definition re_space :: "char \<Rightarrow> bool" where
  "re_space c \<longleftrightarrow> byte c \<in> {9, 10, 12, 13, 32}"

definition word_at :: "char option \<Rightarrow> bool" where
  "word_at co \<longleftrightarrow> (case co of None \<Rightarrow> False | Some c \<Rightarrow> is_alnum c \<or> c = CHR ''_'')"

definition peek :: "string \<Rightarrow> char option" where
  "peek s = (case s of [] \<Rightarrow> None | c # _ \<Rightarrow> Some c)"

text \<open>Repetition: \<open>lo\<close> matches are owed, at most \<open>hi\<close> remain; a further match must consume something,
  so the length of the rest bounds their number.\<close>

fun many :: "(position \<Rightarrow> position list) \<Rightarrow> nat \<Rightarrow> nat option \<Rightarrow> nat \<Rightarrow> position \<Rightarrow> position list" where
  "many f (Suc lo) hi fuel x = concat (map (many f lo (map_option (\<lambda>n. n - 1) hi) fuel) (f x))"
| "many f 0 hi 0 x = [x]"
| "many f 0 hi (Suc fuel) x =
     (if hi = Some 0 then [x]
      else concat (map (many f 0 (map_option (\<lambda>n. n - 1) hi) fuel)
             (filter (\<lambda>y. length (snd y) < length (snd x)) (f x))) @ [x])"

primrec matches :: "regexp \<Rightarrow> position \<Rightarrow> position list" where
  "matches (Class p) x = (case snd x of [] \<Rightarrow> [] | c # t \<Rightarrow> if p c then [(Some c, t)] else [])"
| "matches (Cat a b) x = concat (map (matches b) (matches a x))"
| "matches (Or a b) x = matches a x @ matches b x"
| "matches (Many lo hi a) x = many (matches a) lo hi (length (snd x)) x"
| "matches Boundary x = (if word_at (fst x) \<noteq> word_at (peek (snd x)) then [x] else [])"

definition lit :: "string \<Rightarrow> regexp" where
  "lit s = foldr (\<lambda>c r. Cat (Class (\<lambda>d. d = c)) r) (butlast s) (Class (\<lambda>d. d = last s))"

text \<open>\<^verbatim>\<open>MatchString\<close>: a match from any position.\<close>

fun match_from :: "regexp \<Rightarrow> char option \<Rightarrow> string \<Rightarrow> bool" where
  "match_from r pv [] = (matches r (pv, []) \<noteq> [])"
| "match_from r pv (c # s) = (matches r (pv, c # s) \<noteq> [] \<or> match_from r (Some c) s)"

definition MatchString :: "regexp \<Rightarrow> string \<Rightarrow> bool" where
  "MatchString r s = match_from r None s"

text \<open>\<^verbatim>\<open>ReplaceAllStringFunc\<close> for a pattern that matches no empty string.\<close>

function replace_from :: "regexp \<Rightarrow> (string \<Rightarrow> string) \<Rightarrow> char option \<Rightarrow> string \<Rightarrow> string" where
  "replace_from r f pv [] = []"
| "replace_from r f pv (c # s) =
     (case matches r (pv, c # s) of
        [] \<Rightarrow> c # replace_from r f (Some c) s
      | (pv', rest) # _ \<Rightarrow>
          if length rest < length (c # s)
          then f (take (length (c # s) - length rest) (c # s)) @ replace_from r f pv' rest
          else c # replace_from r f (Some c) s)"
  by pat_completeness auto
termination by (relation "measure (\<lambda>(r, f, pv, s). length s)") auto

definition ReplaceAllStringFunc :: "regexp \<Rightarrow> (string \<Rightarrow> string) \<Rightarrow> string \<Rightarrow> string" where
  "ReplaceAllStringFunc r f s = replace_from r f None s"

section \<open>Facts\<close>

text \<open>The end of a match is a suffix, with the byte before it.\<close>

definition ahead :: "position \<Rightarrow> position \<Rightarrow> bool" where
  "ahead x y \<longleftrightarrow> (\<exists>m. snd x = m @ snd y \<and> fst y = (if m = [] then fst x else Some (last m)))"

lemma ahead_refl [simp]: "ahead x x"
  by (auto simp: ahead_def)

lemma ahead_trans:
  assumes "ahead x y" and "ahead y z"
  shows "ahead x z"
proof -
  from assms obtain m k where "snd x = m @ snd y" "fst y = (if m = [] then fst x else Some (last m))"
    "snd y = k @ snd z" "fst z = (if k = [] then fst y else Some (last k))"
    by (auto simp: ahead_def)
  then show ?thesis unfolding ahead_def by (intro exI [of _ "m @ k"]) auto
qed

lemma many_ahead:
  assumes "\<And>x y. y \<in> set (f x) \<Longrightarrow> ahead x y"
  shows "y \<in> set (many f lo hi fuel x) \<Longrightarrow> ahead x y"
proof (induction lo arbitrary: hi fuel x y)
  case 0
  then show ?case
  proof (induction fuel arbitrary: hi x y)
    case (Suc fuel)
    then consider "y = x" | z where "z \<in> set (f x)" "y \<in> set (many f 0 (map_option (\<lambda>n. n - 1) hi) fuel z)"
      by (fastforce split: if_splits)
    then show ?case
    proof cases
      case 2
      then show ?thesis using Suc.IH assms ahead_trans by blast
    qed simp
  qed simp
next
  case (Suc lo)
  then obtain z where "z \<in> set (f x)" "y \<in> set (many f lo (map_option (\<lambda>n. n - 1) hi) fuel z)" by fastforce
  then show ?case using Suc.IH assms ahead_trans by blast
qed

lemma matches_ahead: "y \<in> set (matches r x) \<Longrightarrow> ahead x y"
proof (induction r arbitrary: x y)
  case (Class p)
  then obtain c where "snd x = [c] @ snd y" "fst y = Some c" by (cases "snd x") (auto split: if_splits)
  then show ?case unfolding ahead_def by (intro exI [of _ "[c]"]) simp
next
  case (Cat a b)
  then obtain z where "z \<in> set (matches a x)" "y \<in> set (matches b z)" by auto
  then show ?case using Cat.IH ahead_trans by blast
next
  case (Many lo hi a)
  then show ?case using many_ahead [of "matches a"] by simp
qed (auto split: if_splits)

end
