(* ===== verification/Text_Quality.thy ===== *)
theory Text_Quality
  imports Chunking Go_Regexp Go_Sort Go_Float
begin

text \<open>
  \<^verbatim>\<open>backend/util/apiutil/text.go\<close> except \<^verbatim>\<open>ChunkText\<close>: normalisation of extracted text, the noise test,
  ranking by query intent, the sanitizers of answers and context, and the decoding of hexadecimal PDF
  strings. Ratios are \<^verbatim>\<open>float64\<close> quotients of counts, compared with \<^verbatim>\<open>float64\<close> constants. A slice
  expression out of range panics; the function that contains one yields an option, \<open>None\<close> for the panic.
\<close>

section \<open>Patterns\<close>

definition is_glyph :: "char \<Rightarrow> bool" where
  "is_glyph c \<longleftrightarrow> is_alnum c \<or> c \<in> set ''@._#+-''"

definition NoisySequenceRegexp :: regexp where
  "NoisySequenceRegexp =
     Or (Many 36 None (Class (\<lambda>c. is_alnum c \<or> c \<in> set ''+/='')))
        (Many 2 None (Class (\<lambda>c. c \<in> set ''{}<>|~^'')))"

definition decimal_pattern :: regexp where
  "decimal_pattern =
     Cat (Many 1 (Some 2) (Class is_digit))
       (Many 0 (Some 1) (Cat (Class (\<lambda>c. c = CHR ''.'')) (Many 1 (Some 2) (Class is_digit))))"

definition CGPAValueRegexp :: regexp where
  "CGPAValueRegexp =
     (let spaces = Many 0 None (Class re_space)
      in Or (Cat Boundary (Cat decimal_pattern (Cat spaces (Cat (lit ''/'') (Cat spaces (Cat (lit ''10'') Boundary))))))
            (Cat Boundary (Cat (lit ''cgpa'') (Cat spaces (Cat (Many 0 (Some 1) (Class (\<lambda>c. c \<in> set '':=-'')))
               (Cat spaces (Cat decimal_pattern Boundary)))))))"

definition SpacedGlyphRunRegexp :: regexp where
  "SpacedGlyphRunRegexp =
     Cat (Many 3 None (Cat (Class is_glyph) (Many 1 None (Class re_space)))) (Class is_glyph)"

section \<open>Normalisation\<close>

text \<open>\<^verbatim>\<open>strings.ReplaceAll\<close> of the three bytes of U+FFFD by a space.\<close>

fun replace_fffd :: "string \<Rightarrow> string" where
  "replace_fffd (c # d # e # s) =
     (if byte c = 239 \<and> byte d = 191 \<and> byte e = 189 then CHR '' '' # replace_fffd s
      else c # replace_fffd (d # e # s))"
| "replace_fffd s = s"

definition single_spaced :: "string \<Rightarrow> string" where
  "single_spaced s = Join (Fields s) '' ''"

definition compactSpacedGlyphRun :: "string \<Rightarrow> string" where
  "compactSpacedGlyphRun raw =
     (let tokens = Fields raw
      in if length tokens < 4 then raw
         else let joined = concat (map (\<lambda>tok. concat (map encode_rune
                    (filter (\<lambda>r. r < 128 \<and> is_glyph (char_of r)) (runes tok)))) tokens)
              in if length joined < 4 then raw else joined)"

definition NormalizeExtractedText :: "string \<Rightarrow> string" where
  "NormalizeExtractedText text =
     (let trimmed = TrimSpace text
      in if trimmed = [] then []
         else single_spaced (ReplaceAllStringFunc SpacedGlyphRunRegexp compactSpacedGlyphRun
                (single_spaced (replace_fffd trimmed))))"

section \<open>Noise\<close>

definition rune_letter :: "nat \<Rightarrow> bool" where
  "rune_letter r \<longleftrightarrow> 97 \<le> r \<and> r \<le> 122 \<or> 65 \<le> r \<and> r \<le> 90"

definition rune_digit :: "nat \<Rightarrow> bool" where
  "rune_digit r \<longleftrightarrow> 48 \<le> r \<and> r \<le> 57"

text \<open>The last two of the punctuation marks are the single and the double quote.\<close>

definition rune_punctuation :: "nat \<Rightarrow> bool" where
  "rune_punctuation r \<longleftrightarrow> r \<in> set (map byte ''_-.,:;?!/()[]'') \<or> r = 39 \<or> r = 34"

definition MaxInt :: "int \<Rightarrow> int \<Rightarrow> int" where
  "MaxInt a b = (if a > b then a else b)"

definition ratio :: "int \<Rightarrow> int \<Rightarrow> float64" where
  "ratio a b = fl (of_int a / of_int b)"

definition count_runes :: "(nat \<Rightarrow> bool) \<Rightarrow> string \<Rightarrow> int" where
  "count_runes p s = int (length (filter p (runes s)))"

definition suspicious_token :: "string \<Rightarrow> bool" where
  "suspicious_token token \<longleftrightarrow>
     length token \<ge> 24 \<and>
     ratio (count_runes rune_letter token)
       (MaxInt (count_runes (\<lambda>r. rune_letter r \<or> rune_digit r) token) 1) < fl (35 / 100)"

definition IsLikelyNoisyText :: "string \<Rightarrow> bool" where
  "IsLikelyNoisyText text =
     (if text = [] then True
      else if length text \<ge> 64 \<and> MatchString NoisySequenceRegexp text then True
      else
        let tokens = Fields text
        in if tokens = [] then True
           else
             let alpha = sum_list (map (count_runes rune_letter) tokens);
                 alnum = sum_list (map (count_runes (\<lambda>r. rune_letter r \<or> rune_digit r)) tokens);
                 total = sum_list (map (count_runes (\<lambda>_. True)) tokens);
                 symbol = sum_list (map (count_runes (\<lambda>r. \<not> rune_letter r \<and> \<not> rune_digit r \<and>
                            \<not> rune_punctuation r)) tokens);
                 suspicious = int (length (filter suspicious_token tokens))
             in if total = 0 then True
                else ratio alpha total < fl (28 / 100) \<or> ratio alnum total < fl (45 / 100) \<or>
                     ratio suspicious (int (length tokens)) > fl (25 / 100) \<or>
                     ratio symbol total > fl (18 / 100))"

definition HasReadableSignal :: "string \<Rightarrow> bool" where
  "HasReadableSignal text =
     (if TrimSpace text = [] then False
      else let letters = count_runes rune_letter text;
               total = count_runes (\<lambda>_. True) text
           in if total = 0 \<or> letters = 0 then False else ratio letters total \<ge> fl (15 / 100))"

section \<open>Query terms and ranking\<close>

definition search_stop_words :: "string list" where
  "search_stop_words =
     [''what'', ''is'', ''the'', ''of'', ''for'', ''and'', ''with'', ''from'', ''about'', ''tell'', ''me'']"

text \<open>The replacer maps the punctuation marks to spaces; the last two are the quotes.\<close>

definition search_punctuation :: "(char \<times> string) list" where
  "search_punctuation =
     map (\<lambda>c. (c, '' '')) (''?!.,:;()[]{}'' @ [char_of (39 :: nat), char_of (34 :: nat)])"

definition TokenizeSearchTerms :: "unicode_tables \<Rightarrow> string \<Rightarrow> string list" where
  "TokenizeSearchTerms U input =
     (let value = ToLower U (TrimSpace input)
      in if value = [] then []
         else filter (\<lambda>p. p \<notin> set search_stop_words \<and> \<not> length p < 3)
                (Fields (replace_bytes search_punctuation value)))"

definition ContainsAny :: "string list \<Rightarrow> string list \<Rightarrow> bool" where
  "ContainsAny terms values =
     (if terms = [] \<or> values = [] then False else list_ex (\<lambda>v. v \<in> set terms) values)"

text \<open>\<^verbatim>\<open>range\<close> over the metadata map visits its entries in an unspecified order; the list is one such order.\<close>

definition metadata_text :: "unicode_tables \<Rightarrow> strmap \<Rightarrow> string" where
  "metadata_text U metadata = concat (map (\<lambda>(key, value). '' '' @ ToLower U key @ '' '' @ ToLower U value) metadata)"

definition term_score :: "string \<Rightarrow> string \<Rightarrow> string \<Rightarrow> string \<Rightarrow> int" where
  "term_score content metadataStr source term =
     (if Contains content term then 8
      else if Contains metadataStr term then 5
      else if Contains source term then 4
      else 0)"

definition queryIntentScore :: "unicode_tables \<Rightarrow> string list \<Rightarrow> RetrievalDocument \<Rightarrow> int" where
  "queryIntentScore U queryTerms doc =
     (let content = ToLower U (doc_Content doc);
          source = ToLower U (doc_SourceURI doc);
          metadataStr = metadata_text U (doc_Metadata doc);
          s1 = sum_list (map (term_score content metadataStr source) queryTerms);
          s2 = (if ContainsAny queryTerms [''cgpa'', ''gpa'']
                then s1 + (if Contains content ''cgpa'' \<or> Contains content ''gpa'' then 20 else 0)
                        + (if MatchString CGPAValueRegexp content then 12 else 0)
                else s1)
      in if ContainsAny queryTerms [''education'', ''qualification'', ''degree''] \<and>
            (Contains content ''education'' \<or> Contains content ''qualification'' \<or> Contains content ''degree'')
         then s2 + 10 else s2)"

definition RankDocumentsByQueryIntent ::
  "unicode_tables \<Rightarrow> string \<Rightarrow> RetrievalDocument list \<Rightarrow> RetrievalDocument list" where
  "RankDocumentsByQueryIntent U query docs =
     (if length docs \<le> 1 then docs
      else let queryTerms = TokenizeSearchTerms U query
           in if queryTerms = [] then docs
              else SliceStable
                (\<lambda>x y. let left = queryIntentScore U queryTerms x; right = queryIntentScore U queryTerms y
                       in if left = right then doc_Score x > doc_Score y else left > right) docs)"

section \<open>Answers and context\<close>

definition SanitizeAnswerChunk :: "string \<Rightarrow> string" where
  "SanitizeAnswerChunk raw =
     (let trimmed = TrimSpace raw
      in if trimmed = [] then []
         else let text = single_spaced trimmed
              in if IsLikelyNoisyText text then []
                 else if length text > 320 then take 320 text else text)"

definition SanitizeStreamAnswer :: "string \<Rightarrow> string" where
  "SanitizeStreamAnswer raw =
     (let trimmed = TrimSpace raw
      in if trimmed = [] then []
         else let text = single_spaced trimmed
              in if IsLikelyNoisyText text then []
                 else if length text > 1200 then take 1200 text else text)"

definition SanitizeContextChunk :: "string \<Rightarrow> string" where
  "SanitizeContextChunk raw =
     (let normalized = NormalizeExtractedText (TrimSpace raw)
      in if normalized = [] then []
         else let spaced = single_spaced normalized;
                  text = (if length spaced > 1800 then take 1800 spaced else spaced)
              in if \<not> HasReadableSignal text then []
                 else if MatchString NoisySequenceRegexp text \<and> length (Fields text) \<le> 3 then []
                 else text)"

definition PrimaryQuerySignal :: "unicode_tables \<Rightarrow> string \<Rightarrow> string" where
  "PrimaryQuerySignal U query =
     (let q = ToLower U (TrimSpace query)
      in if Contains q ''cgpa'' then ''cgpa''
         else if Contains q ''gpa'' then ''gpa''
         else if Contains q ''education'' then ''education''
         else if Contains q ''qualification'' then ''qualification''
         else case find (\<lambda>token. length token \<ge> 4) (Fields q) of Some token \<Rightarrow> token | None \<Rightarrow> [])"

text \<open>\<^verbatim>\<open>text[start:end]\<close>.\<close>

definition go_slice :: "string \<Rightarrow> int \<Rightarrow> int \<Rightarrow> string option" where
  "go_slice s i j =
     (if 0 \<le> i \<and> i \<le> j \<and> j \<le> int (length s) then Some (take (nat (j - i)) (drop (nat i) s)) else None)"

definition snippet_window :: "string \<Rightarrow> string \<Rightarrow> nat \<Rightarrow> string option" where
  "snippet_window text needle idx =
     (let start = (if int idx - 120 < 0 then 0 else int idx - 120);
          stop = (if int idx + int (length needle) + 160 > int (length text) then int (length text)
                  else int idx + int (length needle) + 160)
      in go_slice text start stop)"

definition BuildAnswerSnippet :: "unicode_tables \<Rightarrow> string \<Rightarrow> string \<Rightarrow> string option" where
  "BuildAnswerSnippet U query raw =
     (let text = TrimSpace (single_spaced raw)
      in if text = [] then Some []
         else
           let needle = PrimaryQuerySignal U query
           in case (if needle = [] then None else Index (ToLower U text) needle) of
                None \<Rightarrow> Some (SanitizeAnswerChunk text)
              | Some idx \<Rightarrow>
                  (case snippet_window text needle idx of
                     None \<Rightarrow> None
                   | Some window \<Rightarrow>
                       let sanitized = SanitizeAnswerChunk (TrimSpace window)
                       in if sanitized \<noteq> [] then Some sanitized else Some (SanitizeAnswerChunk text)))"

definition BuildContextPart :: "unicode_tables \<Rightarrow> string \<Rightarrow> string \<Rightarrow> string option" where
  "BuildContextPart U query raw =
     (case BuildAnswerSnippet U query raw of
        None \<Rightarrow> None
      | Some cleaned \<Rightarrow> Some (if cleaned \<noteq> [] then cleaned else SanitizeContextChunk raw))"

section \<open>Facts on the string functions\<close>

lemma set_fields_from: "w \<in> set (fields_from cur s) \<Longrightarrow> set w \<subseteq> set cur \<union> set s"
proof (induction cur s arbitrary: w rule: fields_from.induct)
  case (1 cur)
  then show ?case by (auto simp: flush_def split: if_splits)
next
  case (2 cur c s)
  show ?case
  proof (cases "space_len (c # s)")
    case 0
    with 2 show ?thesis by fastforce
  next
    case (Suc n)
    with 2 consider "w \<in> set (flush cur)" | "w \<in> set (fields_from [] (drop n s))" by auto
    then show ?thesis
    proof cases
      case 1
      then show ?thesis by (auto simp: flush_def split: if_splits)
    next
      case 2
      then show ?thesis using "2.IH"(2) [OF Suc] set_drop_subset [of n s] by fastforce
    qed
  qed
qed

lemma set_Fields: "w \<in> set (Fields s) \<Longrightarrow> set w \<subseteq> set s"
  using set_fields_from [of w "[]" s] by (simp add: Fields_def)

lemma set_Join: "set (Join ws sep) \<subseteq> \<Union> (set ` set ws) \<union> set sep"
  by (induction ws sep rule: Join.induct) auto

lemma is_ascii_single_spaced: "is_ascii s \<Longrightarrow> is_ascii (single_spaced s)"
  using set_Join [of "Fields s" "'' ''"] set_Fields [of _ s]
  by (fastforce simp: is_ascii_def single_spaced_def byte_def)

lemma set_trim_left: "set (trim_left s) \<subseteq> set s"
proof (induction s rule: trim_left.induct)
  case (1 s)
  then show ?case using set_drop_subset [of "space_len s" s] by (subst trim_left.simps) auto
qed

lemma set_TrimSpace: "set (TrimSpace s) \<subseteq> set s"
  using trim_right_prefix [of "trim_left s"] set_trim_left [of s]
  by (metis TrimSpace_def set_append subset_trans Un_upper1)

lemma is_ascii_TrimSpace: "is_ascii s \<Longrightarrow> is_ascii (TrimSpace s)"
  using set_TrimSpace [of s] by (auto simp: is_ascii_def)

lemma length_SanitizeAnswerChunk: "length (SanitizeAnswerChunk s) \<le> 320"
  by (simp add: SanitizeAnswerChunk_def Let_def)

lemma snippet_window_inside:
  "idx + length needle \<le> length text \<Longrightarrow> \<exists>w. snippet_window text needle idx = Some w \<and> length w \<le> 280 + length needle"
  by (auto simp: snippet_window_def go_slice_def Let_def)

lemma Contains_blank:
  assumes "CHR '' '' \<notin> set p" and "p \<noteq> []"
  shows "Contains (a @ CHR '' '' # b) p \<longleftrightarrow> Contains a p \<or> Contains b p"
proof
  assume "Contains (a @ CHR '' '' # b) p"
  then obtain u v where eq: "a @ CHR '' '' # b = u @ p @ v" by (auto simp: Contains_iff)
  then consider (left) x where "a = u @ p @ x" | (right) x where "b = x @ p @ v" | (split) "CHR '' '' \<in> set p"
    using assms by (auto simp: append_eq_append_conv2 Cons_eq_append_conv append_eq_Cons_conv)
  then show "Contains a p \<or> Contains b p"
  proof cases
    case left
    then show ?thesis by (auto simp: Contains_iff)
  next
    case right
    then show ?thesis by (auto simp: Contains_iff)
  qed (use assms in simp)
next
  assume "Contains a p \<or> Contains b p"
  then consider u v where "a = u @ p @ v" | u v where "b = u @ p @ v" by (auto simp: Contains_iff)
  then show "Contains (a @ CHR '' '' # b) p"
  proof cases
    case (1 u v)
    then have "a @ CHR '' '' # b = u @ p @ (v @ CHR '' '' # b)" by simp
    then show ?thesis unfolding Contains_iff by blast
  next
    case (2 u v)
    then have "a @ CHR '' '' # b = (a @ CHR '' '' # u) @ p @ v" by simp
    then show ?thesis unfolding Contains_iff by blast
  qed
qed

lemma no_space_blank: "no_space w \<Longrightarrow> CHR '' '' \<notin> set w"
  by (induction w) auto

lemma Contains_Nil: "p \<noteq> [] \<Longrightarrow> \<not> Contains [] p"
  by (simp add: Contains_iff)

text \<open>A word occurs in the metadata text exactly when it occurs in one of its keys or values.\<close>

lemma Contains_metadata_text:
  assumes "is_word term"
  shows "Contains (metadata_text U md) term \<longleftrightarrow>
    (\<exists>(k, v) \<in> set md. Contains (ToLower U k) term \<or> Contains (ToLower U v) term)"
proof (induction md)
  case Nil
  show ?case using assms Contains_Nil by (simp add: metadata_text_def is_word_def)
next
  case (Cons kv md)
  obtain k v where kv: "kv = (k, v)" by (cases kv)
  have t: "CHR '' '' \<notin> set term" "term \<noteq> []" using assms no_space_blank by (auto simp: is_word_def)
  have "metadata_text U md = [] \<or> (\<exists>rest. metadata_text U md = CHR '' '' # rest)"
    by (cases md) (auto simp: metadata_text_def)
  then have "Contains (ToLower U v @ metadata_text U md) term \<longleftrightarrow>
      Contains (ToLower U v) term \<or> Contains (metadata_text U md) term"
    using Contains_blank [OF t] Contains_Nil [OF t(2)] Contains_blank [OF t, of "[]"] by auto
  moreover have "metadata_text U (kv # md) =
      [] @ CHR '' '' # ToLower U k @ CHR '' '' # (ToLower U v @ metadata_text U md)"
    by (simp add: metadata_text_def kv)
  ultimately show ?case
    using Cons Contains_blank [OF t] Contains_Nil [OF t(2)] by (simp only: kv) auto
qed

text \<open>Two documents that differ at most in the order of their metadata.\<close>

definition same_document :: "RetrievalDocument \<Rightarrow> RetrievalDocument \<Rightarrow> bool" where
  "same_document d e \<longleftrightarrow>
     doc_DocumentID d = doc_DocumentID e \<and> doc_TenantID d = doc_TenantID e \<and>
     doc_Content d = doc_Content e \<and> doc_Score d = doc_Score e \<and> doc_SourceURI d = doc_SourceURI e \<and>
     mset (doc_Metadata d) = mset (doc_Metadata e)"

lemma same_document_score:
  assumes "same_document d e" and "\<forall>t \<in> set terms. is_word t"
  shows "queryIntentScore U terms d = queryIntentScore U terms e"
proof -
  have "set (doc_Metadata d) = set (doc_Metadata e)" using assms(1) mset_eq_setD by (auto simp: same_document_def)
  then have "term_score c (metadata_text U (doc_Metadata d)) s t = term_score c (metadata_text U (doc_Metadata e)) s t"
    if "t \<in> set terms" for c s t
    using assms(2) that by (simp add: term_score_def Contains_metadata_text)
  then have "map (term_score c (metadata_text U (doc_Metadata d)) s) terms =
      map (term_score c (metadata_text U (doc_Metadata e)) s) terms" for c s by simp
  moreover have "doc_Content e = doc_Content d" "doc_SourceURI e = doc_SourceURI d"
    using assms(1) by (simp_all add: same_document_def)
  ultimately show ?thesis unfolding queryIntentScore_def Let_def by presburger
qed

lemma TokenizeSearchTerms_words: "t \<in> set (TokenizeSearchTerms U q) \<Longrightarrow> is_word t"
  by (auto simp: TokenizeSearchTerms_def Let_def Fields_words split: if_splits)

lemma slide_left_related:
  assumes lt: "\<And>a a' b b'. R a a' \<Longrightarrow> R b b' \<Longrightarrow> lt a b = lt' a' b'"
  shows "list_all2 R rs rs' \<Longrightarrow> R x x' \<Longrightarrow> list_all2 R (slide_left lt x rs) (slide_left lt' x' rs')"
  by (induction rs rs' rule: list_all2_induct) (auto simp: lt)

lemma SliceStable_related:
  assumes lt: "\<And>a a' b b'. R a a' \<Longrightarrow> R b b' \<Longrightarrow> lt a b = lt' a' b'" and xs: "list_all2 R xs xs'"
  shows "list_all2 R (SliceStable lt xs) (SliceStable lt' xs')"
proof -
  have "list_all2 R rs rs' \<Longrightarrow>
      list_all2 R (foldl (\<lambda>rs x. slide_left lt x rs) rs xs) (foldl (\<lambda>rs x. slide_left lt' x rs) rs' xs')" for rs rs'
    using xs
  proof (induction xs xs' arbitrary: rs rs' rule: list_all2_induct)
    case (Cons x xs x' xs')
    from slide_left_related [of R lt lt', OF lt Cons.prems Cons.hyps(1)] Cons.IH show ?case by simp
  qed simp
  from this [of "[]" "[]"] show ?thesis by (simp add: SliceStable_def)
qed

text \<open>The order of the ranking as a key: intent score first, then the retrieval score.\<close>

lemma intent_order_key:
  fixes f :: "'a \<Rightarrow> int" and g :: "'a \<Rightarrow> rat"
  shows "(\<lambda>x y. let left = f x; right = f y in if left = right then g x > g y else left > right) =
    by_key (\<lambda>d. (- f d, - g d))"
  by (auto simp: fun_eq_iff Let_def)

section \<open>Properties\<close>

text \<open>Answer snippets of ASCII text. For every query and every ASCII chunk, \<^verbatim>\<open>BuildAnswerSnippet\<close> returns
  without a slice out of range, and the snippet has at most 320 bytes.\<close>

theorem answer_snippet_ascii:
  assumes "is_ascii raw"
  shows "\<exists>snippet. BuildAnswerSnippet U query raw = Some snippet \<and> length snippet \<le> 320"
proof -
  let ?text = "TrimSpace (single_spaced raw)" and ?needle = "PrimaryQuerySignal U query"
  have ascii: "is_ascii ?text" using assms is_ascii_single_spaced is_ascii_TrimSpace by blast
  show ?thesis
  proof (cases "if ?needle = [] then None else Index (ToLower U ?text) ?needle")
    case None
    then show ?thesis
      using length_SanitizeAnswerChunk [of ?text] by (simp only: BuildAnswerSnippet_def Let_def) auto
  next
    case (Some idx)
    then have "Index (ToLower U ?text) ?needle = Some idx" by (simp split: if_splits)
    with Index_Some length_ToLower_ascii [OF ascii] have "idx + length ?needle \<le> length ?text" by metis
    then obtain w where "snippet_window ?text ?needle idx = Some w" using snippet_window_inside by blast
    with Some show ?thesis
      using length_SanitizeAnswerChunk by (simp only: BuildAnswerSnippet_def Let_def) auto
  qed
qed

text \<open>The two bytes of U+023A, whose lower case U+2C65 has three, 150 times before a needle.\<close>

definition wide :: "nat \<Rightarrow> string" where
  "wide n = concat (replicate n [char_of (200 :: nat), char_of (186 :: nat)])"

definition growing_text :: string where
  "growing_text = wide 150 @ ''cgpa''"

lemma wide_Suc: "wide (Suc n) = char_of (200 :: nat) # char_of (186 :: nat) # wide n"
  by (simp add: wide_def)

lemma space_len_wide:
  "space_len (char_of (200 :: nat) # s) = 0" "space_len (char_of (186 :: nat) # s) = 0"
  by (cases s rule: space_len.cases; cases "tl s";
      simp add: ascii_space_def space2_def space3_def byte_def)+

lemma no_space_wide: "no_space (wide n @ ''cgpa'')"
  by (induction n) (simp_all add: wide_Suc space_len_wide, simp add: wide_def string_eval)

lemma runes_wide: "runes (wide n @ ''cgpa'') = replicate n 570 @ map byte ''cgpa''"
proof (induction n)
  case 0
  show ?case by (simp add: wide_def runes_ascii is_ascii_def byte_def)
next
  case (Suc n)
  have "decode_rune (char_of (200 :: nat) # char_of (186 :: nat) # s) = (570, 2)" for s
    by (simp add: decode_rune_def byte_def cont_def)
  with Suc show ?case by (subst runes.simps) (simp add: wide_Suc)
qed

lemma growing_text_trim: "TrimSpace (single_spaced growing_text) = growing_text"
proof -
  have w: "is_word growing_text" by (simp add: growing_text_def is_word_def no_space_wide)
  then have "space_len growing_text = 0" by (metis is_word_def no_space.elims(2))
  moreover have "tail_space (s @ ''cgpa'') = 0" for s
    by (simp add: tail_space_def string_eval)
  then have "tail_space growing_text = 0" by (simp add: growing_text_def)
  ultimately show ?thesis
    by (simp add: single_spaced_def Fields_single [OF w] TrimSpace_def trim_left.simps trim_right.simps)
qed

lemma growing_text_runes: "runes growing_text = replicate 150 570 @ map byte ''cgpa''"
  by (simp only: growing_text_def runes_wide)

lemma Index_skip: "CHR ''c'' \<notin> set u \<Longrightarrow> Index (u @ ''cgpa'') ''cgpa'' = Some (length u)"
  by (induction u) (auto simp: HasPrefix_def)

lemma growing_text_index:
  "Index (concat (replicate 150 (encode_rune 11365)) @ ''cgpa'') ''cgpa'' = Some 450"
proof -
  have e: "encode_rune 11365 = [char_of (226 :: nat), char_of (177 :: nat), char_of (165 :: nat)]" by (simp add: encode_rune_def)
  then have c: "CHR ''c'' \<notin> set (encode_rune 11365)" by (simp add: char_of_def bit_0)
  have "CHR ''c'' \<notin> set (concat (replicate n (encode_rune 11365)))" for n by (induction n) (simp_all add: c)
  moreover have "length (concat (replicate 150 (encode_rune 11365))) = 450"
    by (simp add: e length_concat sum_list_replicate)
  ultimately show ?thesis using Index_skip by metis
qed

lemma growing_text_window: "snippet_window growing_text ''cgpa'' 450 = None"
  by (simp add: snippet_window_def go_slice_def growing_text_def wide_def length_concat sum_list_replicate)

lemma ToLower_growing_text:
  assumes "rune_ToLower U 570 = 11365"
  shows "ToLower U growing_text = concat (replicate 150 (encode_rune 11365)) @ ''cgpa''"
proof -
  have "concat (map (\<lambda>r. encode_rune (rune_ToLower U r)) (map byte ''cgpa'')) = ToLower U ''cgpa''"
    using runes_ascii [of "''cgpa''"] by (simp add: ToLower_def is_ascii_def byte_def)
  also have "\<dots> = ''cgpa''" by (simp add: ascii_eval)
  finally show ?thesis using assms by (simp add: ToLower_def growing_text_runes)
qed

text \<open>A snippet can panic. With a Unicode table that maps U+023A to U+2C65, as Unicode does, there is a text
  on which \<^verbatim>\<open>BuildAnswerSnippet\<close> slices out of range: the index was found in the lower-case text, which
  can be longer than the text that is sliced.\<close>

theorem answer_snippet_panics:
  assumes "rune_ToLower U 570 = 11365"
  shows "BuildAnswerSnippet U ''cgpa'' growing_text = None"
proof -
  have "TrimSpace ''cgpa'' = ''cgpa''" "Contains ''cgpa'' ''cgpa''" by code_simp+
  then have signal: "PrimaryQuerySignal U ''cgpa'' = ''cgpa''"
    by (simp add: PrimaryQuerySignal_def ascii_eval)
  have "growing_text \<noteq> []" by (simp add: growing_text_def)
  then show ?thesis
    unfolding BuildAnswerSnippet_def Let_def growing_text_trim signal ToLower_growing_text [OF assms]
    by (simp add: growing_text_index growing_text_window)
qed

text \<open>C25: ranking by query intent is the stable sort by intent score and retrieval score. The ranking only reorders the
  documents; a document with a higher intent score, or the same and a higher retrieval score, comes first; documents with
  equal scores keep their order; a query without terms leaves the documents as they are. And the order in which
  \<^verbatim>\<open>range\<close> visits the metadata maps does not matter: documents that differ only in that order are ranked alike.\<close>

theorem intent_ranking:
  assumes "list_all2 same_document docs docs'"
  shows "mset (RankDocumentsByQueryIntent U q docs) = mset docs \<and>
    (TokenizeSearchTerms U q \<noteq> [] \<longrightarrow>
      sorted (map (\<lambda>d. (- queryIntentScore U (TokenizeSearchTerms U q) d, - doc_Score d))
        (RankDocumentsByQueryIntent U q docs))) \<and>
    (\<forall>intent score. filter (\<lambda>d. queryIntentScore U (TokenizeSearchTerms U q) d = intent \<and> doc_Score d = score)
        (RankDocumentsByQueryIntent U q docs) =
      filter (\<lambda>d. queryIntentScore U (TokenizeSearchTerms U q) d = intent \<and> doc_Score d = score) docs) \<and>
    RankDocumentsByQueryIntent U q docs =
      (if TokenizeSearchTerms U q = [] then docs
       else sort_key (\<lambda>d. (- queryIntentScore U (TokenizeSearchTerms U q) d, - doc_Score d)) docs) \<and>
    list_all2 same_document (RankDocumentsByQueryIntent U q docs) (RankDocumentsByQueryIntent U q docs')"
proof -
  let ?terms = "TokenizeSearchTerms U q"
  let ?key = "\<lambda>d. (- queryIntentScore U ?terms d, - doc_Score d)"
  have rank: "RankDocumentsByQueryIntent U q ds =
      (if length ds \<le> 1 \<or> ?terms = [] then ds else SliceStable (by_key ?key) ds)" for ds
    unfolding RankDocumentsByQueryIntent_def
    using intent_order_key [of "queryIntentScore U ?terms" doc_Score] by (simp only: Let_def) auto
  have one: "sorted (map ?key docs)" if "length docs \<le> 1" using that by (cases docs) auto
  have sorting: "RankDocumentsByQueryIntent U q docs = (if ?terms = [] then docs else sort_key ?key docs)"
  proof (cases "length docs \<le> 1")
    case True
    then have "sort_key ?key docs = docs" using SliceStable_sorted [OF one] SliceStable_sort_key [of ?key docs] by simp
    then show ?thesis using True by (simp only: rank simp_thms if_True if_cancel)
  next
    case False
    then show ?thesis by (simp only: rank SliceStable_sort_key simp_thms)
  qed
  have "list_all2 same_document (SliceStable (by_key ?key) docs) (SliceStable (by_key ?key) docs')"
  proof (rule SliceStable_related [OF _ assms])
    fix a a' b b' assume "same_document a a'" "same_document b b'"
    moreover from this have "queryIntentScore U ?terms a = queryIntentScore U ?terms a'"
      "queryIntentScore U ?terms b = queryIntentScore U ?terms b'"
      using same_document_score TokenizeSearchTerms_words by blast+
    ultimately show "by_key ?key a b = by_key ?key a' b'" by (simp add: same_document_def)
  qed
  moreover have "length docs' = length docs" using assms list_all2_lengthD by metis
  ultimately have alike: "list_all2 same_document (RankDocumentsByQueryIntent U q docs) (RankDocumentsByQueryIntent U q docs')"
    using assms unfolding rank by simp
  have stable: "filter (\<lambda>d. queryIntentScore U ?terms d = intent \<and> doc_Score d = score) (RankDocumentsByQueryIntent U q docs) =
      filter (\<lambda>d. queryIntentScore U ?terms d = intent \<and> doc_Score d = score) docs" for intent score
    using stable_SliceStable [of ?key "(- intent, - score)" docs] unfolding rank by simp
  have perm: "mset (RankDocumentsByQueryIntent U q docs) = mset docs"
    and ord: "?terms \<noteq> [] \<longrightarrow> sorted (map ?key (RankDocumentsByQueryIntent U q docs))"
    by (simp_all add: sorting)
  show ?thesis by (intro conjI allI perm ord stable sorting alike)
qed

section \<open>Witnesses\<close>

theorem answer_snippet_ascii_witness:
  "\<exists>snippet. BuildAnswerSnippet ascii_tables ''cgpa'' ''CGPA: 9.1 of 10'' = Some snippet \<and> length snippet \<le> 320"
  by (rule answer_snippet_ascii) code_simp

theorem answer_snippet_panics_witness:
  "BuildAnswerSnippet (ascii_tables\<lparr>tab_lower := (\<lambda>r. if r = 570 then 11365 else r)\<rparr>) ''cgpa'' growing_text = None"
  by (rule answer_snippet_panics) (simp add: rune_ToLower_def)

definition demo_doc :: "strmap \<Rightarrow> RetrievalDocument" where
  "demo_doc md = \<lparr>doc_DocumentID = ''d'', doc_TenantID = ''t'', doc_Content = ''x'', doc_Score = 0,
     doc_SourceURI = [], doc_Metadata = md\<rparr>"

theorem intent_ranking_witness:
  "list_all2 same_document
     (RankDocumentsByQueryIntent ascii_tables ''skills'' [demo_doc [(''a'', ''b''), (''c'', ''d'')], demo_doc []])
     (RankDocumentsByQueryIntent ascii_tables ''skills'' [demo_doc [(''c'', ''d''), (''a'', ''b'')], demo_doc []])"
proof -
  have "list_all2 same_document [demo_doc [(''a'', ''b''), (''c'', ''d'')], demo_doc []]
      [demo_doc [(''c'', ''d''), (''a'', ''b'')], demo_doc []]"
    by (simp add: same_document_def demo_doc_def)
  from intent_ranking [OF this] show ?thesis by blast
qed

end
