(* ===== verification/Pdf_Text.thy ===== *)
theory Pdf_Text
  imports Text_Quality
begin

text \<open>
  \<^verbatim>\<open>backend/util/apiutil/pdf.go\<close> and the PDF decoders of \<^verbatim>\<open>text.go\<close>: the scanner for literal and
  hexadecimal strings in a PDF body, the search for compressed streams, and the choice among the three
  extraction methods. The two PDF libraries and the zlib decompressor are outside: functions of the
  bytes that yield their text (the empty string for an error) or the inflated bytes.
\<close>

section \<open>Hexadecimal strings\<close>

definition hex_value :: "char \<Rightarrow> nat option" where
  "hex_value c =
     (if 48 \<le> byte c \<and> byte c \<le> 57 then Some (byte c - 48)
      else if 97 \<le> byte c \<and> byte c \<le> 102 then Some (byte c - 87)
      else if 65 \<le> byte c \<and> byte c \<le> 70 then Some (byte c - 55)
      else None)"

text \<open>\<^verbatim>\<open>hex.DecodeString\<close> on a string of even length, \<open>None\<close> for an error.\<close>

fun hex_decode :: "string \<Rightarrow> string option" where
  "hex_decode (c # d # s) =
     (case (hex_value c, hex_value d) of
        (Some h, Some l) \<Rightarrow> map_option (\<lambda>t. char_of (16 * h + l) # t) (hex_decode s)
      | _ \<Rightarrow> None)"
| "hex_decode _ = Some []"

definition printable :: "char \<Rightarrow> bool" where
  "printable c \<longleftrightarrow> byte c = 10 \<or> byte c = 13 \<or> byte c = 9 \<or> 32 \<le> byte c \<and> byte c \<le> 126"

fun byte_pairs :: "string \<Rightarrow> (nat \<times> nat) list" where
  "byte_pairs (c # d # s) = (byte c, byte d) # byte_pairs s"
| "byte_pairs _ = []"

text \<open>\<^verbatim>\<open>utf16.Decode\<close>: a lone surrogate becomes U+FFFD.\<close>

fun utf16_decode :: "nat list \<Rightarrow> nat list" where
  "utf16_decode [] = []"
| "utf16_decode (u # us) =
     (if u < 55296 \<or> 57344 \<le> u then u # utf16_decode us
      else case us of
          v # vs \<Rightarrow>
            if u < 56320 \<and> 56320 \<le> v \<and> v < 57344
            then ((u - 55296) * 1024 + (v - 56320) + 65536) # utf16_decode vs
            else rune_error # utf16_decode us
        | [] \<Rightarrow> [rune_error])"

definition clean_rune :: "nat \<Rightarrow> char" where
  "clean_rune r =
     (if r = 10 \<or> r = 13 \<or> r = 9 \<or> 32 \<le> r \<and> r \<le> 126 then char_of r else CHR '' '')"

definition decodeLikelyPDFUTF16 :: "string \<Rightarrow> string option" where
  "decodeLikelyPDFUTF16 decoded0 =
     (if length decoded0 < 4 then None
      else
        let decoded = (if odd (length decoded0) then butlast decoded0 else decoded0)
        in if length decoded < 4 then None
           else
             let pairs = byte_pairs decoded;
                 evenZero = length (filter (\<lambda>(a, b). a = 0) pairs);
                 oddZero = length (filter (\<lambda>(a, b). b = 0) pairs)
             in if evenZero * 3 < length pairs \<and> oddZero * 3 < length pairs then None
                else
                  let words = (if evenZero \<ge> oddZero then map (\<lambda>(a, b). a * 256 + b) pairs
                               else map (\<lambda>(a, b). b * 256 + a) pairs);
                      text = single_spaced (map clean_rune (utf16_decode words))
                  in if length text < 3 \<or> IsLikelyNoisyText text then None else Some text)"

definition DecodePDFHexLiteral :: "string \<Rightarrow> string" where
  "DecodePDFHexLiteral raw =
     (let trimmed0 = TrimSpace raw
      in if trimmed0 = [] then []
         else
           let trimmed = (if odd (length trimmed0) then trimmed0 @ ''0'' else trimmed0)
           in case hex_decode trimmed of
                None \<Rightarrow> []
              | Some decoded \<Rightarrow>
                  if decoded = [] then []
                  else (case decodeLikelyPDFUTF16 decoded of
                          Some t \<Rightarrow> TrimSpace t
                        | None \<Rightarrow> TrimSpace (map (\<lambda>ch. if printable ch then ch else CHR '' '') decoded)))"

section \<open>The scanner\<close>

record scanner =
  sc_segments :: "string list"
  sc_current :: string
  sc_hexCurrent :: string
  sc_inLiteral :: bool
  sc_escape :: bool
  sc_inHex :: bool

definition scanner_start :: scanner where
  "scanner_start =
     \<lparr>sc_segments = [], sc_current = [], sc_hexCurrent = [], sc_inLiteral = False, sc_escape = False,
      sc_inHex = False\<rparr>"

definition appendCandidate :: "string \<Rightarrow> scanner \<Rightarrow> scanner" where
  "appendCandidate raw sc =
     (let candidate = single_spaced raw
      in if length candidate < 3 then sc
         else if IsLikelyNoisyText candidate then sc
         else sc\<lparr>sc_segments := sc_segments sc @ [candidate]\<rparr>)"

definition flush_literal :: "scanner \<Rightarrow> scanner" where
  "flush_literal sc =
     (if sc_current sc = [] then sc
      else appendCandidate (sc_current sc) (sc\<lparr>sc_current := []\<rparr>))"

definition flushHex :: "scanner \<Rightarrow> scanner" where
  "flushHex sc =
     (if sc_hexCurrent sc = [] then sc
      else let decoded = DecodePDFHexLiteral (sc_hexCurrent sc);
               sc1 = sc\<lparr>sc_hexCurrent := []\<rparr>
           in if decoded = [] then sc1 else appendCandidate decoded sc1)"

definition scan_byte :: "char \<Rightarrow> scanner \<Rightarrow> scanner" where
  "scan_byte r sc =
     (if \<not> sc_inLiteral sc \<and> \<not> sc_inHex sc then
        (if r = CHR ''('' then sc\<lparr>sc_inLiteral := True, sc_escape := False, sc_current := []\<rparr>
         else if r = CHR ''<'' then sc\<lparr>sc_inHex := True, sc_hexCurrent := []\<rparr>
         else sc)
      else if sc_inHex sc then
        (if r = CHR ''>'' then (flushHex sc)\<lparr>sc_inHex := False\<rparr>
         else if hex_value r \<noteq> None then sc\<lparr>sc_hexCurrent := sc_hexCurrent sc @ [r]\<rparr>
         else sc)
      else if sc_escape sc then
        (let sc1 = sc\<lparr>sc_escape := False\<rparr>
         in if 32 \<le> byte r \<and> byte r \<le> 126 then sc1\<lparr>sc_current := sc_current sc @ [r]\<rparr> else sc1)
      else if byte r = 92 then sc\<lparr>sc_escape := True\<rparr>
      else if r = CHR '')'' then (flush_literal sc)\<lparr>sc_inLiteral := False\<rparr>
      else if printable r then sc\<lparr>sc_current := sc_current sc @ [r]\<rparr>
      else sc)"

definition extractPDFTextSegments :: "string \<Rightarrow> string list" where
  "extractPDFTextSegments payload =
     sc_segments (flushHex (flush_literal (fold scan_byte payload scanner_start)))"

section \<open>Compressed streams\<close>

definition toASCIILower :: "string \<Rightarrow> string" where
  "toASCIILower s = map ascii_lower s"

text \<open>The first byte of the data after the keyword: an end of line is skipped.\<close>

definition data_start :: "string \<Rightarrow> nat \<Rightarrow> nat" where
  "data_start payload d =
     (if d < length payload then
        let d1 = (if byte (payload ! d) = 13 then d + 1 else d)
        in if d1 < length payload \<and> byte (payload ! d1) = 10 then d1 + 1 else d1
      else d)"

lemma data_start_ge: "d \<le> data_start payload d"
  by (simp add: data_start_def Let_def)

text \<open>The pieces of the body between the keywords, from a start position on.\<close>

function stream_pieces :: "string \<Rightarrow> nat \<Rightarrow> string list" where
  "stream_pieces payload start =
     (if start \<ge> length payload then []
      else case Index (drop start (toASCIILower payload)) ''stream'' of
          None \<Rightarrow> []
        | Some i \<Rightarrow>
            let dataStart = data_start payload (i + start + 6)
            in if dataStart \<ge> length payload then []
               else case Index (drop dataStart (toASCIILower payload)) ''endstream'' of
                   None \<Rightarrow> []
                 | Some j \<Rightarrow>
                     if j = 0 then stream_pieces payload (dataStart + 1)
                     else take j (drop dataStart payload) # stream_pieces payload (j + dataStart + 9))"
  by pat_completeness auto
termination
proof (relation "measure (\<lambda>(payload, start). length payload - start)")
  fix payload :: string and start i x :: nat
  assume "\<not> length payload \<le> start" "x = data_start payload (i + start + 6)"
  then show "((payload, x + 1), payload, start) \<in> measure (\<lambda>(payload, start). length payload - start)"
    "((payload, j + x + 9), payload, start) \<in> measure (\<lambda>(payload, start). length payload - start)" for j
    using data_start_ge [of "i + start + 6" payload] by auto
qed simp_all

declare stream_pieces.simps [simp del]

definition extractPDFFlateStreams :: "(string \<Rightarrow> string option) \<Rightarrow> string \<Rightarrow> string list" where
  "extractPDFFlateStreams inflate payload =
     filter (\<lambda>d. d \<noteq> []) (List.map_filter inflate (stream_pieces payload 0))"

section \<open>The extractor\<close>

text \<open>The first library: its plain text, read up to two megabytes, \<open>None\<close> for an error.\<close>

definition extractPDFTextWithLibrary :: "(string \<Rightarrow> string option) \<Rightarrow> string \<Rightarrow> string" where
  "extractPDFTextWithLibrary plainText payload =
     (case plainText payload of
        None \<Rightarrow> []
      | Some raw \<Rightarrow>
          if raw = [] then []
          else let text = single_spaced raw
               in if length text < 10 then [] else if IsLikelyNoisyText text then [] else text)"

text \<open>The second library: the text parts of its pages in order, a null page without any.\<close>

definition join_parts :: "string list \<Rightarrow> string" where
  "join_parts parts =
     foldl (\<lambda>b part. let segment = TrimSpace part
                     in if segment = [] then b
                        else (if b \<noteq> [] then b @ '' '' else b) @ segment) [] parts"

definition extractPDFTextWithRscLibrary :: "(string \<Rightarrow> string list list option) \<Rightarrow> string \<Rightarrow> string" where
  "extractPDFTextWithRscLibrary pages payload =
     (case pages payload of
        None \<Rightarrow> []
      | Some ps \<Rightarrow>
          let text = single_spaced (join_parts (concat ps))
          in if length text < 10 \<or> IsLikelyNoisyText text then [] else text)"

fun unique_segments :: "string list \<Rightarrow> string list \<Rightarrow> string list" where
  "unique_segments seen [] = []"
| "unique_segments seen (seg # segs) =
     (let trimmed = TrimSpace seg
      in if trimmed = [] \<or> trimmed \<in> set seen then unique_segments seen segs
         else trimmed # unique_segments (trimmed # seen) segs)"

definition cap_12000 :: "string \<Rightarrow> string" where
  "cap_12000 text = (if length text > 12000 then take 12000 text else text)"

definition ExtractPDFSearchableText ::
  "(string \<Rightarrow> string option) \<Rightarrow> (string \<Rightarrow> string list list option) \<Rightarrow> (string \<Rightarrow> string option) \<Rightarrow> string \<Rightarrow> string" where
  "ExtractPDFSearchableText plainText pages inflate payload =
     (if payload = [] then []
      else
        let parsed1 = extractPDFTextWithLibrary plainText payload
        in if parsed1 \<noteq> [] then cap_12000 (NormalizeExtractedText parsed1)
           else
             let parsed2 = extractPDFTextWithRscLibrary pages payload
             in if parsed2 \<noteq> [] then cap_12000 (NormalizeExtractedText parsed2)
                else
                  let segments = extractPDFTextSegments payload @
                        concat (map extractPDFTextSegments (extractPDFFlateStreams inflate payload));
                      unique = unique_segments [] segments
                  in if unique = [] then []
                     else let text = NormalizeExtractedText (Join unique '' '')
                          in if text = [] \<or> IsLikelyNoisyText text then [] else cap_12000 text)"

section \<open>Lemmas\<close>

lemma single_spaced_idem [simp]: "single_spaced (single_spaced s) = single_spaced s"
  by (simp add: single_spaced_def Fields_Join Fields_words)

definition plain :: "char \<Rightarrow> bool" where
  "plain c \<longleftrightarrow> 32 \<le> byte c \<and> byte c \<le> 126"

lemma no_space_ascii: "no_space w \<Longrightarrow> c \<in> set w \<Longrightarrow> \<not> ascii_space c"
proof (induction w)
  case (Cons d w)
  have "\<not> ascii_space d" using Cons.prems(1) by (cases w rule: space_len.cases; cases "tl w") auto
  with Cons show ?case by auto
qed simp

lemma single_spaced_plain:
  assumes "\<forall>c \<in> set s. printable c"
  shows "\<forall>c \<in> set (single_spaced s). plain c"
proof
  fix c assume "c \<in> set (single_spaced s)"
  then consider "c = CHR '' ''" | w where "w \<in> set (Fields s)" "c \<in> set w"
    using set_Join [of "Fields s" "'' ''"] by (auto simp: single_spaced_def)
  then show "plain c"
  proof cases
    case 2
    have "printable c" using assms set_Fields [OF 2(1)] 2(2) by blast
    moreover have "\<not> ascii_space c"
      using Fields_words [OF 2(1)] 2(2) by (intro no_space_ascii [of w c]) (simp_all add: is_word_def)
    ultimately show ?thesis by (auto simp: printable_def plain_def ascii_space_def)
  qed (simp add: plain_def byte_def)
qed

text \<open>What a segment looks like.\<close>

definition clean_segment :: "string \<Rightarrow> bool" where
  "clean_segment seg \<longleftrightarrow>
     3 \<le> length seg \<and> \<not> IsLikelyNoisyText seg \<and> single_spaced seg = seg \<and> (\<forall>c \<in> set seg. plain c)"

definition scanner_inv :: "scanner \<Rightarrow> bool" where
  "scanner_inv sc \<longleftrightarrow>
     (\<forall>seg \<in> set (sc_segments sc). clean_segment seg) \<and> (\<forall>c \<in> set (sc_current sc). printable c)"

lemma appendCandidate_inv:
  assumes "scanner_inv sc" and "\<forall>c \<in> set raw. printable c"
  shows "scanner_inv (appendCandidate raw sc)"
  using assms single_spaced_plain [OF assms(2)]
  by (auto simp: scanner_inv_def appendCandidate_def Let_def clean_segment_def)

lemma clean_rune_printable: "printable (clean_rune r)"
  by (auto simp: clean_rune_def printable_def byte_def)

lemma decodeLikelyPDFUTF16_plain: "decodeLikelyPDFUTF16 d = Some t \<Longrightarrow> \<forall>c \<in> set t. plain c"
  using single_spaced_plain [of "map clean_rune _"] clean_rune_printable
  by (auto simp: decodeLikelyPDFUTF16_def Let_def split: if_splits)

lemma plain_printable: "plain c \<Longrightarrow> printable c"
  by (simp add: plain_def printable_def)

lemma DecodePDFHexLiteral_cases:
  "DecodePDFHexLiteral raw = [] \<or>
   (\<exists>d t. decodeLikelyPDFUTF16 d = Some t \<and> DecodePDFHexLiteral raw = TrimSpace t) \<or>
   (\<exists>d. DecodePDFHexLiteral raw = TrimSpace (map (\<lambda>ch. if printable ch then ch else CHR '' '') d))"
proof -
  define trimmed where "trimmed = (if odd (length (TrimSpace raw)) then TrimSpace raw @ ''0'' else TrimSpace raw)"
  have eq: "DecodePDFHexLiteral raw =
      (if TrimSpace raw = [] then []
       else case hex_decode trimmed of
           None \<Rightarrow> []
         | Some d \<Rightarrow> if d = [] then []
             else case decodeLikelyPDFUTF16 d of
                 Some t \<Rightarrow> TrimSpace t
               | None \<Rightarrow> TrimSpace (map (\<lambda>ch. if printable ch then ch else CHR '' '') d))"
    unfolding DecodePDFHexLiteral_def Let_def trimmed_def ..
  show ?thesis
  proof (cases "TrimSpace raw = [] \<or> hex_decode trimmed = None \<or> hex_decode trimmed = Some []")
    case True
    then show ?thesis by (auto simp: eq)
  next
    case False
    then obtain d where "TrimSpace raw \<noteq> []" "hex_decode trimmed = Some d" "d \<noteq> []" by auto
    then show ?thesis by (cases "decodeLikelyPDFUTF16 d") (auto simp: eq)
  qed
qed

lemma DecodePDFHexLiteral_printable: "c \<in> set (DecodePDFHexLiteral raw) \<Longrightarrow> printable c"
proof -
  assume c: "c \<in> set (DecodePDFHexLiteral raw)"
  have sp: "printable (CHR '' '')" by (simp add: printable_def byte_def)
  from DecodePDFHexLiteral_cases [of raw] show "printable c"
  proof (elim disjE exE conjE)
    fix d t assume "decodeLikelyPDFUTF16 d = Some t" "DecodePDFHexLiteral raw = TrimSpace t"
    with c show ?thesis using set_TrimSpace [of t] decodeLikelyPDFUTF16_plain plain_printable by auto
  next
    fix d assume "DecodePDFHexLiteral raw = TrimSpace (map (\<lambda>ch. if printable ch then ch else CHR '' '') d)"
    with c have "c \<in> set (map (\<lambda>ch. if printable ch then ch else CHR '' '') d)"
      using set_TrimSpace by (metis subsetD)
    with sp show ?thesis by auto
  qed (use c in simp)
qed

lemma flush_literal_inv: "scanner_inv sc \<Longrightarrow> scanner_inv (flush_literal sc)"
  unfolding flush_literal_def by (auto intro!: appendCandidate_inv) (auto simp: scanner_inv_def)

lemma flushHex_inv: "scanner_inv sc \<Longrightarrow> scanner_inv (flushHex sc)"
  unfolding flushHex_def Let_def
  by (auto intro!: appendCandidate_inv DecodePDFHexLiteral_printable) (auto simp: scanner_inv_def)

lemma scanner_inv_updates:
  assumes "scanner_inv sc"
  shows "scanner_inv (sc\<lparr>sc_inHex := a\<rparr>)" "scanner_inv (sc\<lparr>sc_inLiteral := a\<rparr>)"
    "scanner_inv (sc\<lparr>sc_escape := a\<rparr>)" "scanner_inv (sc\<lparr>sc_hexCurrent := h\<rparr>)"
    "scanner_inv (sc\<lparr>sc_current := []\<rparr>)"
    "printable r \<Longrightarrow> scanner_inv (sc\<lparr>sc_current := sc_current sc @ [r]\<rparr>)"
  using assms by (auto simp: scanner_inv_def)

lemma scanner_inv_escaped:
  "scanner_inv sc \<Longrightarrow> printable r \<Longrightarrow> scanner_inv (sc\<lparr>sc_escape := a, sc_current := sc_current sc @ [r]\<rparr>)"
  by (auto simp: scanner_inv_def)

lemma scan_byte_inv: "scanner_inv sc \<Longrightarrow> scanner_inv (scan_byte r sc)"
  by (simp add: scan_byte_def Let_def scanner_inv_updates scanner_inv_escaped flush_literal_inv
      flushHex_inv plain_printable plain_def)

lemma scan_inv: "scanner_inv sc \<Longrightarrow> scanner_inv (fold scan_byte bs sc)"
  by (induction bs arbitrary: sc) (simp_all add: scan_byte_inv)

section \<open>Properties\<close>

text \<open>C26: what the PDF scanner extracts. Whatever the bytes of the body, every segment has at least three
  bytes, all of them printable ASCII, words separated by single spaces, and passes the noise test; and
  the extracted text never exceeds 12000 bytes, whatever the PDF libraries and the decompressor return.\<close>

theorem pdf_segments_clean:
  "(\<forall>seg \<in> set (extractPDFTextSegments payload). clean_segment seg) \<and>
   length (ExtractPDFSearchableText plainText pages inflate payload) \<le> 12000"
proof
  have "scanner_inv scanner_start" by (simp add: scanner_inv_def scanner_start_def)
  then have "scanner_inv (flushHex (flush_literal (fold scan_byte payload scanner_start)))"
    by (intro flushHex_inv flush_literal_inv scan_inv)
  then show "\<forall>seg \<in> set (extractPDFTextSegments payload). clean_segment seg"
    by (simp add: extractPDFTextSegments_def scanner_inv_def)
  have "length (cap_12000 t) \<le> 12000" for t by (simp add: cap_12000_def)
  then show "length (ExtractPDFSearchableText plainText pages inflate payload) \<le> 12000"
    by (simp add: ExtractPDFSearchableText_def Let_def)
qed

lemma pdf_segments_clean_witness:
  "extractPDFTextSegments ''BT (Hello  PDF world) Tj <48656C6C6F> (a) ET'' = [''Hello PDF world'', ''Hello''] \<and>
   clean_segment ''Hello PDF world'' \<and> clean_segment ''Hello'' \<and>
   length (ExtractPDFSearchableText (\<lambda>_. None) (\<lambda>_. None) (\<lambda>_. None)
     ''BT (Hello  PDF world) Tj <48656C6C6F> (a) ET'') \<le> 12000"
proof -
  have "extractPDFTextSegments ''BT (Hello  PDF world) Tj <48656C6C6F> (a) ET'' = [''Hello PDF world'', ''Hello'']"
    by code_simp
  then show ?thesis
    using pdf_segments_clean [of "''BT (Hello  PDF world) Tj <48656C6C6F> (a) ET''"
        "\<lambda>_. None" "\<lambda>_. None" "\<lambda>_. None"]
    by simp
qed

end
