(* ===== verification/Ingestion_Manager.thy ===== *)
theory Ingestion_Manager
  imports Go_Json Http_Pipeline Chunking Pdf_Text
begin

text \<open>
  \<^verbatim>\<open>backend/managers/ingestion.go\<close>: job submission, the background indexing of uploaded objects, the job
  list, its event stream and the retry. The object store, the embedding provider, the vector index, the
  document parser, the PDF libraries, the clock and the random source are outside: operations on a state
  \<open>'v\<close>. The table \<^verbatim>\<open>ingestion_jobs\<close> is modelled, its rows and the statements the handlers send; what the
  driver adds is whether a statement fails and, where SQL leaves it open, the order of equal rows. The
  goroutines a submission starts are kept as a list of tasks.
\<close>

section \<open>File names and content types\<close>

definition camel_step :: "nat \<Rightarrow> bool \<times> nat list \<Rightarrow> bool \<times> nat list" where
  "camel_step r acc =
     (case acc of (prevLower, out) \<Rightarrow>
        (97 \<le> r \<and> r \<le> 122, out @ (if (65 \<le> r \<and> r \<le> 90) \<and> prevLower then [32, r] else [r])))"

definition splitCamelCase :: "string \<Rightarrow> string" where
  "splitCamelCase input = concat (map encode_rune (snd (fold camel_step (runes input) (False, []))))"

definition hint_stop_words :: "string list" where
  "hint_stop_words =
     [''resume'', ''cv'', ''profile'', ''final'', ''latest'', ''updated'',
      ''jan'', ''feb'', ''mar'', ''apr'', ''may'', ''jun'', ''jul'', ''aug'', ''sep'', ''oct'', ''nov'', ''dec'']"

definition all_digits :: "string \<Rightarrow> bool" where
  "all_digits word \<longleftrightarrow> list_all (\<lambda>ch. 48 \<le> ch \<and> ch \<le> 57) (runes word)"

definition hint_word :: "string \<Rightarrow> bool" where
  "hint_word word \<longleftrightarrow> word \<notin> set hint_stop_words \<and> \<not> (all_digits word \<or> length word < 3)"

definition inferPersonHint :: "unicode_tables \<Rightarrow> string \<Rightarrow> string" where
  "inferPersonHint U relativePath =
     (let base0 = TrimSpace relativePath
      in if base0 = [] then []
         else
           let base1 = after_last (CHR ''/'') base0;
               base2 = (case LastIndexByte base1 (CHR ''.'') of
                          Some dot \<Rightarrow> if dot > 0 then take dot base1 else base1
                        | None \<Rightarrow> base1);
               base3 = replace_bytes [(CHR ''_'', '' ''), (CHR ''-'', '' ''), (CHR ''.'', '' '')] base2;
               words = Fields (ToLower U (splitCamelCase base3))
           in if words = [] then [] else Join (take 2 (filter hint_word words)) '' '')"

definition isTextLikeContent :: "unicode_tables \<Rightarrow> string \<Rightarrow> string \<Rightarrow> bool" where
  "isTextLikeContent U contentType objectKey =
     (let ct = ToLower U (TrimSpace contentType)
      in if HasPrefix ct ''text/'' \<or> Contains ct ''json'' \<or> Contains ct ''xml'' \<or> Contains ct ''yaml'' then True
         else let ext = ToLower U (TrimSpace objectKey)
              in list_ex (HasSuffix ext)
                   [''.txt'', ''.md'', ''.csv'', ''.json'', ''.html'', ''.htm'', ''.xml'', ''.yaml'', ''.yml''])"

definition isPDFContent :: "unicode_tables \<Rightarrow> string \<Rightarrow> string \<Rightarrow> bool" where
  "isPDFContent U contentType objectKey =
     (let ct = ToLower U (TrimSpace contentType)
      in if Contains ct ''pdf'' then True else HasSuffix (ToLower U (TrimSpace objectKey)) ''.pdf'')"

definition inferContentType :: "unicode_tables \<Rightarrow> string \<Rightarrow> string \<Rightarrow> string" where
  "inferContentType U declared key =
     (if declared \<noteq> [] then declared
      else let ext = ToLower U key
           in if HasSuffix ext ''.pdf'' then ''application/pdf''
              else if HasSuffix ext ''.docx''
              then ''application/vnd.openxmlformats-officedocument.wordprocessingml.document''
              else if HasSuffix ext ''.doc'' then ''application/msword''
              else if HasSuffix ext ''.pptx''
              then ''application/vnd.openxmlformats-officedocument.presentationml.presentation''
              else if HasSuffix ext ''.ppt'' then ''application/vnd.ms-powerpoint''
              else if HasSuffix ext ''.png'' then ''image/png''
              else if HasSuffix ext ''.jpg'' \<or> HasSuffix ext ''.jpeg'' then ''image/jpeg''
              else if HasSuffix ext ''.txt'' then ''text/plain''
              else if HasSuffix ext ''.md'' then ''text/markdown''
              else ''application/octet-stream'')"

definition isComplexContent :: "unicode_tables \<Rightarrow> string \<Rightarrow> bool" where
  "isComplexContent U contentType =
     (let ct = ToLower U contentType
      in Contains ct ''word'' \<or> Contains ct ''officedocument'' \<or> Contains ct ''powerpoint'' \<or>
         Contains ct ''image/'' \<or> Contains ct ''pdf'')"

definition extractSearchableText :: "string \<Rightarrow> string" where
  "extractSearchableText payload =
     (if payload = [] then []
      else let text = single_spaced (map (\<lambda>b. if printable b then b else CHR '' '') payload)
           in if IsLikelyNoisyText text then [] else cap_12000 text)"

section \<open>The payload of a job\<close>

definition asString :: "json \<Rightarrow> string" where
  "asString v = json_string v"

definition inferTotalFiles :: "json_object \<Rightarrow> int" where
  "inferTotalFiles payload =
     (case json_array (json_field payload ''localItems'') of
        Some items \<Rightarrow> if items = [] then 1 else int (length items)
      | None \<Rightarrow> 1)"

definition readStringArray :: "json \<Rightarrow> string list" where
  "readStringArray value =
     (case json_array value of
        None \<Rightarrow> []
      | Some items \<Rightarrow> filter (\<lambda>s. s \<noteq> []) (map (\<lambda>item. TrimSpace (json_string item)) items))"

text \<open>\<^verbatim>\<open>localItemByPath\<close>: the items of the payload by trimmed relative path, a later one replacing an
  earlier one.\<close>

definition add_local_item :: "json \<Rightarrow> (string \<times> json_object) list \<Rightarrow> (string \<times> json_object) list" where
  "add_local_item item m =
     (case item of
        JObject asMap \<Rightarrow>
          let relativePath = TrimSpace (asString (json_field asMap ''relativePath''))
          in if relativePath \<noteq> [] then (relativePath, asMap) # filter (\<lambda>(k, _). k \<noteq> relativePath) m else m
      | _ \<Rightarrow> m)"

definition localItemByPath :: "json_object \<Rightarrow> (string \<times> json_object) list" where
  "localItemByPath payload =
     (case json_array (json_field payload ''localItems'') of
        Some items \<Rightarrow> fold add_local_item items []
      | None \<Rightarrow> [])"

text \<open>The declared type of an object: the loop over the map stops at the first match, in the order \<open>order\<close>
  the run-time happens to iterate in.\<close>

definition declared_type ::
  "((string \<times> json_object) list \<Rightarrow> (string \<times> json_object) list) \<Rightarrow> (string \<times> json_object) list \<Rightarrow>
   string \<Rightarrow> string \<Rightarrow> string" where
  "declared_type order items key relativePath =
     (case find (\<lambda>(rel, item). HasSuffix key rel \<or> rel = relativePath) (order items) of
        Some (rel, item) \<Rightarrow> TrimSpace (asString (json_field item ''type''))
      | None \<Rightarrow> [])"

section \<open>Indexing\<close>

text \<open>A stored object: the bytes its body yields and the error that ends the reading, if any.\<close>

type_synonym object_body = "string \<times> error option"

record 'v IngestionManager =
  im_Index :: "(VectorRecord list \<Rightarrow> 'v \<Rightarrow> error option \<times> 'v) option"
  im_GetObject :: "(string \<Rightarrow> string \<Rightarrow> 'v \<Rightarrow> object_body result \<times> 'v) option"
  im_Embedder :: "(TenantID \<Rightarrow> string list \<Rightarrow> 'v \<Rightarrow> embedding list result \<times> 'v) option"
  im_Parser :: "(TenantID \<Rightarrow> string \<Rightarrow> string \<Rightarrow> 'v \<Rightarrow> string \<times> 'v) option"
  im_plainText :: "string \<Rightarrow> string option"
  im_pages :: "string \<Rightarrow> string list list option"
  im_inflate :: "string \<Rightarrow> string option"
  im_UploadBucket :: string
  im_MaxObjectBytes :: int
  im_ChunkSizeChars :: int
  im_ChunkOverlapWords :: int
  im_order :: "(string \<times> json_object) list \<Rightarrow> (string \<times> json_object) list"
  im_now :: "'v \<Rightarrow> time \<times> 'v"
  im_random :: "int \<Rightarrow> 'v \<Rightarrow> string \<times> 'v"

text \<open>\<^verbatim>\<open>io.ReadAll(io.LimitReader(body, max))\<close>: an error after the limit is not seen.\<close>

definition read_limited :: "int \<Rightarrow> object_body \<Rightarrow> string result" where
  "read_limited maxBytes body =
     (case body of (bytes, err) \<Rightarrow>
        if int (length bytes) < maxBytes then (case err of Some e \<Rightarrow> Inl e | None \<Rightarrow> Inr bytes)
        else Inr (take (nat maxBytes) bytes))"

definition extractPDFSearchableText :: "'v IngestionManager \<Rightarrow> string \<Rightarrow> string" where
  "extractPDFSearchableText m payload =
     ExtractPDFSearchableText (im_plainText m) (im_pages m) (im_inflate m) payload"

definition extract_text ::
  "unicode_tables \<Rightarrow> 'v IngestionManager \<Rightarrow> TenantID \<Rightarrow> string \<Rightarrow> string \<Rightarrow> string \<Rightarrow> string \<Rightarrow> 'v \<Rightarrow> string \<times> 'v" where
  "extract_text U m tenantID key relativePath declaredType payloadData v =
     (let contentType = inferContentType U declaredType key;
          (text0, v1) = (case im_Parser m of
             Some parse \<Rightarrow>
               if isComplexContent U contentType then parse tenantID contentType payloadData v else ([], v)
           | None \<Rightarrow> ([], v));
          text1 = (if text0 \<noteq> [] then text0
                   else if isPDFContent U declaredType key then extractPDFSearchableText m payloadData
                   else if isTextLikeContent U declaredType key then extractSearchableText payloadData
                   else [])
      in (if text1 \<noteq> [] then text1
          else ''uploaded document '' @ relativePath @ '' for tenant '' @ tenantID @
               (if declaredType \<noteq> [] then '' ('' @ declaredType @ '')'' else []), v1))"

text \<open>A chunk waiting for its embedding is a record with an empty one.\<close>

definition chunk_metadata :: "unicode_tables \<Rightarrow> string \<Rightarrow> string \<Rightarrow> string \<Rightarrow> strmap" where
  "chunk_metadata U key relativePath sourceURI =
     (let personHint = inferPersonHint U relativePath
      in [(''object_key'', key), (''relative_path'', relativePath), (''file_name'', relativePath),
          (''source_uri'', sourceURI)] @
         (if personHint \<noteq> [] then [(''person_hint'', personHint)] else []))"

definition pending_chunk ::
  "TenantID \<Rightarrow> string \<Rightarrow> string \<Rightarrow> time \<Rightarrow> string \<Rightarrow> string \<Rightarrow> strmap \<Rightarrow> nat \<Rightarrow> nat \<times> string \<Rightarrow> VectorRecord" where
  "pending_chunk tenantID jobID checksum now key sourceURI metadata keyIndex ic =
     (case ic of (chunkIndex, chunk) \<Rightarrow>
        \<lparr>vr_RecordID = ''vec-'' @ jobID @ ''-'' @ Itoa (int keyIndex) @ ''-'' @ Itoa (int chunkIndex),
         vr_TenantID = tenantID, vr_JobID = jobID, vr_ChunkText = chunk, vr_Embedding = [],
         vr_Metadata = metadata, vr_IndexedAt = now, vr_SourceURI = sourceURI, vr_ObjectKey = key,
         vr_Checksum = checksum, vr_RetryCount = 0\<rparr>)"

definition object_chunks ::
  "unicode_tables \<Rightarrow> 'v IngestionManager \<Rightarrow> TenantID \<Rightarrow> string \<Rightarrow> string \<Rightarrow> string \<Rightarrow> time \<Rightarrow>
   (string \<times> json_object) list \<Rightarrow> nat \<Rightarrow> string \<Rightarrow> string \<Rightarrow> 'v \<Rightarrow> VectorRecord list \<times> 'v" where
  "object_chunks U m tenantID jobID checksum fallbackSourceURI now items keyIndex key payloadData v =
     (let relativePath = after_last (CHR ''/'') key;
          declaredType = declared_type (im_order m) items key relativePath;
          sourceURI = (if fallbackSourceURI = [] then ''s3://'' @ im_UploadBucket m @ ''/'' @ key
                       else fallbackSourceURI);
          (text, v1) = extract_text U m tenantID key relativePath declaredType payloadData v;
          chunks = ChunkText text (im_ChunkSizeChars m) (im_ChunkOverlapWords m)
      in (map (pending_chunk tenantID jobID checksum now key sourceURI (chunk_metadata U key relativePath sourceURI)
                 keyIndex) (enumerate 0 chunks), v1))"

text \<open>The loop over the object keys: the chunks of every object and the number of bytes read.\<close>

fun read_objects ::
  "unicode_tables \<Rightarrow> 'v IngestionManager \<Rightarrow> (string \<Rightarrow> string \<Rightarrow> 'v \<Rightarrow> object_body result \<times> 'v) \<Rightarrow>
   TenantID \<Rightarrow> string \<Rightarrow> string \<Rightarrow> string \<Rightarrow> time \<Rightarrow> (string \<times> json_object) list \<Rightarrow> nat \<Rightarrow> string list \<Rightarrow>
   VectorRecord list \<Rightarrow> int \<Rightarrow> 'v \<Rightarrow> (VectorRecord list \<times> int) result \<times> 'v" where
  "read_objects U m getObj t j c uri now items i [] pending bytes v = (Inr (pending, bytes), v)"
| "read_objects U m getObj t j c uri now items i (objectKey # keys) pending bytes v =
     (let key = TrimSpace objectKey
      in if key = [] then read_objects U m getObj t j c uri now items (Suc i) keys pending bytes v
         else case getObj (im_UploadBucket m) key v of
             (Inl e, v1) \<Rightarrow> (Inl (ErrorString (''read object '' @ key @ '': '' @ error_text e)), v1)
           | (Inr body, v1) \<Rightarrow>
               (case read_limited (im_MaxObjectBytes m) body of
                  Inl e \<Rightarrow> (Inl (ErrorString (''read object body '' @ key @ '': '' @ error_text e)), v1)
                | Inr payloadData \<Rightarrow>
                    (case object_chunks U m t j c uri now items i key payloadData v1 of
                       (new, v2) \<Rightarrow>
                         read_objects U m getObj t j c uri now items (Suc i) keys (pending @ new)
                           (bytes + int (length payloadData)) v2)))"

definition embed_and_upsert ::
  "'v IngestionManager \<Rightarrow> (TenantID \<Rightarrow> string list \<Rightarrow> 'v \<Rightarrow> embedding list result \<times> 'v) \<Rightarrow>
   (VectorRecord list \<Rightarrow> 'v \<Rightarrow> error option \<times> 'v) \<Rightarrow> TenantID \<Rightarrow> VectorRecord list \<Rightarrow> int \<Rightarrow> 'v \<Rightarrow>
   (int \<times> int) result \<times> 'v" where
  "embed_and_upsert m embedder upsert tenantID pending payloadBytes v =
     (if pending = [] then (Inr (0, payloadBytes), v)
      else case embedder tenantID (map vr_ChunkText pending) v of
          (Inl e, v1) \<Rightarrow> (Inl (ErrorString (''embed chunks: '' @ error_text e)), v1)
        | (Inr vectors, v1) \<Rightarrow>
            if length vectors \<noteq> length pending then (Inl (ErrorString ''embedding count mismatch''), v1)
            else (case upsert (map2 (\<lambda>item vec. item\<lparr>vr_Embedding := vec\<rparr>) pending vectors) v1 of
                (Some e, v2) \<Rightarrow> (Inl e, v2)
              | (None, v2) \<Rightarrow> (Inr (int (length pending), payloadBytes), v2)))"

definition indexPayloadArtifacts ::
  "unicode_tables \<Rightarrow> 'v IngestionManager \<Rightarrow> TenantID \<Rightarrow> string \<Rightarrow> string \<Rightarrow> string \<Rightarrow> json_object \<Rightarrow> 'v \<Rightarrow>
   (int \<times> int) result \<times> 'v" where
  "indexPayloadArtifacts U m tenantID jobID checksum fallbackSourceURI payload v =
     (case (im_Index m, im_GetObject m) of
        (Some upsert, Some getObj) \<Rightarrow>
          let objectKeys = readStringArray (json_field payload ''objectKeys'')
          in if objectKeys = [] then (Inr (0, 0), v)
             else (case im_Embedder m of
                 None \<Rightarrow> (Inl (ErrorString ''embedding provider unavailable''), v)
               | Some embedder \<Rightarrow>
                   let (now, v1) = im_now m v
                   in case read_objects U m getObj tenantID jobID checksum fallbackSourceURI now
                             (localItemByPath payload) 0 objectKeys [] 0 v1 of
                        (Inl e, v2) \<Rightarrow> (Inl e, v2)
                      | (Inr (pending, payloadBytes), v2) \<Rightarrow>
                          embed_and_upsert m embedder upsert tenantID pending payloadBytes v2)
      | _ \<Rightarrow> (Inr (0, 0), v))"

section \<open>The table of jobs\<close>

record job_row =
  jb_job_id :: string
  jb_tenant_id :: string
  jb_source_uri :: string
  jb_checksum :: string
  jb_status :: string
  jb_stage :: string
  jb_processed_files :: int
  jb_total_files :: int
  jb_successful_files :: int
  jb_failed_files :: int
  jb_policy_code :: string
  jb_policy_reason :: string
  jb_source_mode :: string
  jb_payload_json :: json_object
  jb_chunk_count :: int
  jb_payload_bytes :: int
  jb_submitted_at :: time
  jb_updated_at :: time

text \<open>A goroutine \<^verbatim>\<open>processIngestionBackground\<close> that has been started and has not ended.\<close>

record ingestion_task =
  it_jobID :: string
  it_tenantID :: TenantID
  it_checksum :: string
  it_sourceURI :: string
  it_payload :: json_object

record 'v app =
  app_jobs :: "job_row list"
  app_tasks :: "ingestion_task list"
  app_outer :: 'v

text \<open>What the database adds to a statement: the error it fails with, if it fails; the time of \<^verbatim>\<open>NOW()\<close>;
  and the order \<^verbatim>\<open>ORDER BY submitted_at DESC\<close> gives, in which rows with equal times may be arranged in any
  way.\<close>

record 'v jobs_db =
  jd_fails :: "'v \<Rightarrow> error option \<times> 'v"
  jd_NOW :: "'v \<Rightarrow> time"
  jd_newest_first :: "job_row list \<Rightarrow> job_row list"

definition exec_jobs ::
  "'v jobs_db \<Rightarrow> (job_row list \<Rightarrow> job_row list result) \<Rightarrow> 'v app \<Rightarrow> error option \<times> 'v app" where
  "exec_jobs db stmt a =
     (case jd_fails db (app_outer a) of
        (Some e, v) \<Rightarrow> (Some e, a\<lparr>app_outer := v\<rparr>)
      | (None, v) \<Rightarrow>
          (case stmt (app_jobs a) of
             Inl e \<Rightarrow> (Some e, a\<lparr>app_outer := v\<rparr>)
           | Inr rows \<Rightarrow> (None, a\<lparr>app_jobs := rows, app_outer := v\<rparr>)))"

definition query_jobs :: "'v jobs_db \<Rightarrow> (job_row list \<Rightarrow> 'r) \<Rightarrow> 'v app \<Rightarrow> 'r result \<times> 'v app" where
  "query_jobs db q a =
     (case jd_fails db (app_outer a) of
        (Some e, v) \<Rightarrow> (Inl e, a\<lparr>app_outer := v\<rparr>)
      | (None, v) \<Rightarrow> (Inr (q (app_jobs a)), a\<lparr>app_outer := v\<rparr>))"

text \<open>The statements. \<^verbatim>\<open>job_id\<close> is the primary key.\<close>

definition insert_job :: "job_row \<Rightarrow> job_row list \<Rightarrow> job_row list result" where
  "insert_job row rows =
     (if jb_job_id row \<in> jb_job_id ` set rows
      then Inl (ErrorString ''duplicate key value violates unique constraint'') else Inr (rows @ [row]))"

definition finish_row ::
  "string \<Rightarrow> string \<Rightarrow> string \<Rightarrow> string \<Rightarrow> int \<Rightarrow> int \<Rightarrow> int \<Rightarrow> int \<Rightarrow> int \<Rightarrow> time \<Rightarrow> job_row \<Rightarrow> job_row" where
  "finish_row jobID status stage reason chunkCount payloadBytes processed successful failed now row =
     (if jb_job_id row = jobID
      then row\<lparr>jb_status := status, jb_stage := stage, jb_policy_reason := reason, jb_chunk_count := chunkCount,
               jb_payload_bytes := payloadBytes, jb_processed_files := processed,
               jb_successful_files := successful, jb_failed_files := failed, jb_updated_at := now\<rparr>
      else row)"

definition finish_job ::
  "string \<Rightarrow> string \<Rightarrow> string \<Rightarrow> string \<Rightarrow> int \<Rightarrow> int \<Rightarrow> int \<Rightarrow> int \<Rightarrow> int \<Rightarrow> time \<Rightarrow> job_row list \<Rightarrow> job_row list result" where
  "finish_job jobID status stage reason chunkCount payloadBytes processed successful failed now rows =
     Inr (map (finish_row jobID status stage reason chunkCount payloadBytes processed successful failed now) rows)"

definition retry_row :: "time \<Rightarrow> string \<Rightarrow> string \<Rightarrow> job_row \<Rightarrow> job_row" where
  "retry_row now tenantID jobID row =
     (if jb_tenant_id row = tenantID \<and> jb_job_id row = jobID
      then row\<lparr>jb_status := ''queued'', jb_stage := ''cleanup'', jb_updated_at := now\<rparr>
      else row)"

definition retry_job :: "time \<Rightarrow> string \<Rightarrow> string \<Rightarrow> job_row list \<Rightarrow> job_row list result" where
  "retry_job now tenantID jobID rows = Inr (map (retry_row now tenantID jobID) rows)"

definition select_jobs :: "'v jobs_db \<Rightarrow> string \<Rightarrow> nat \<Rightarrow> job_row list \<Rightarrow> job_row list" where
  "select_jobs db tenantID limit rows =
     take limit (jd_newest_first db (filter (\<lambda>row. jb_tenant_id row = tenantID) rows))"

section \<open>The handlers\<close>

record job_created =
  jc_jobId :: string
  jc_sourceUri :: string
  jc_status :: string
  jc_stage :: string
  jc_totalFiles :: int
  jc_submittedAt :: string

record job_view =
  jv_jobId :: string
  jv_sourceUri :: string
  jv_status :: string
  jv_stage :: string
  jv_processedFiles :: int
  jv_totalFiles :: int
  jv_successfulFiles :: int
  jv_failedFiles :: int
  jv_policyCode :: string
  jv_policyReason :: string
  jv_submittedAt :: string

definition view_job :: "job_row \<Rightarrow> job_view" where
  "view_job row =
     \<lparr>jv_jobId = jb_job_id row, jv_sourceUri = jb_source_uri row, jv_status = jb_status row,
      jv_stage = jb_stage row, jv_processedFiles = jb_processed_files row, jv_totalFiles = jb_total_files row,
      jv_successfulFiles = jb_successful_files row, jv_failedFiles = jb_failed_files row,
      jv_policyCode = jb_policy_code row, jv_policyReason = jb_policy_reason row,
      jv_submittedAt = FormatRFC3339 (jb_submitted_at row)\<rparr>"

text \<open>\<^verbatim>\<open>hashHex\<close> returns a random string of twelve characters; its argument is not used.\<close>

definition hashHex :: "'v IngestionManager \<Rightarrow> string \<Rightarrow> 'v \<Rightarrow> string \<times> 'v" where
  "hashHex m s v = im_random m 12 v"

definition submitted_row ::
  "string \<Rightarrow> string \<Rightarrow> string \<Rightarrow> string \<Rightarrow> string \<Rightarrow> json_object \<Rightarrow> time \<Rightarrow> job_row" where
  "submitted_row jobID tenantID sourceURI checksum sourceMode payload now =
     \<lparr>jb_job_id = jobID, jb_tenant_id = tenantID, jb_source_uri = sourceURI, jb_checksum = checksum,
      jb_status = ''indexing'', jb_stage = ''parsing'', jb_processed_files = 0,
      jb_total_files = inferTotalFiles payload, jb_successful_files = 0, jb_failed_files = 0,
      jb_policy_code = [], jb_policy_reason = [], jb_source_mode = sourceMode, jb_payload_json = payload,
      jb_chunk_count = 0, jb_payload_bytes = 0, jb_submitted_at = now, jb_updated_at = now\<rparr>"

text \<open>The part of \<^verbatim>\<open>HandleSubmitJob\<close> after the payload has been checked.\<close>

definition submit_job ::
  "'v IngestionManager \<Rightarrow> 'v jobs_db \<Rightarrow> string \<Rightarrow> string \<Rightarrow> string \<Rightarrow> string \<Rightarrow> json_object \<Rightarrow> 'v app \<Rightarrow>
   job_created http_reply \<times> 'v app" where
  "submit_job m db tenantID sourceURI checksum0 sourceMode payload a =
     (let (checksum, v1) = (if checksum0 = [] then hashHex m sourceURI (app_outer a) else (checksum0, app_outer a));
          (suffix, v2) = im_random m 10 v1;
          jobID = ''job-'' @ suffix;
          (now, v3) = im_now m v2
      in case exec_jobs db (insert_job (submitted_row jobID tenantID sourceURI checksum sourceMode payload now))
                (a\<lparr>app_outer := v3\<rparr>) of
           (Some e, a1) \<Rightarrow> (HttpError 500 ''job_submit_failed'' (error_text e), a1)
         | (None, a1) \<Rightarrow>
             (HttpOK \<lparr>jc_jobId = jobID, jc_sourceUri = sourceURI, jc_status = ''indexing'',
                jc_stage = ''parsing'', jc_totalFiles = inferTotalFiles payload,
                jc_submittedAt = FormatRFC3339 now\<rparr>,
              a1\<lparr>app_tasks := app_tasks a1 @
                  [\<lparr>it_jobID = jobID, it_tenantID = tenantID, it_checksum = checksum,
                    it_sourceURI = sourceURI, it_payload = payload\<rparr>]\<rparr>))"

definition HandleSubmitJob ::
  "'v IngestionManager \<Rightarrow> 'v jobs_db \<Rightarrow> json_object result \<Rightarrow> server_request \<Rightarrow> 'v app \<Rightarrow>
   job_created http_reply \<times> 'v app" where
  "HandleSubmitJob m db body r a =
     (let tenantID = TrimSpace (req_header r ''X-Tenant-ID'')
      in case body of
           Inl e \<Rightarrow> (HttpError 400 ''invalid_json'' (error_text e), a)
         | Inr payload \<Rightarrow>
             let sourceURI = TrimSpace (asString (json_field payload ''sourceUri''));
                 checksum = TrimSpace (asString (json_field payload ''checksum''));
                 mode0 = TrimSpace (asString (json_field payload ''sourceMode''));
                 sourceMode = (if mode0 = [] then ''uri'' else mode0)
             in if sourceURI = [] then (HttpError 400 ''invalid_payload'' ''sourceUri is required'', a)
                else submit_job m db tenantID sourceURI checksum sourceMode payload a)"

text \<open>The body of the goroutine, run to its end; the error of the final update is only logged.\<close>

definition processIngestionBackground ::
  "unicode_tables \<Rightarrow> 'v IngestionManager \<Rightarrow> 'v jobs_db \<Rightarrow> ingestion_task \<Rightarrow> 'v app \<Rightarrow> error option \<times> 'v app" where
  "processIngestionBackground U m db task a =
     (let (res, v1) = indexPayloadArtifacts U m (it_tenantID task) (it_jobID task) (it_checksum task)
             (it_sourceURI task) (it_payload task) (app_outer a);
          (now, v2) = im_now m v1;
          total = inferTotalFiles (it_payload task);
          a1 = a\<lparr>app_outer := v2\<rparr>
      in case res of
           Inr (chunkCount, payloadBytes) \<Rightarrow>
             exec_jobs db (finish_job (it_jobID task) ''indexed'' ''complete'' [] chunkCount payloadBytes total total 0 now) a1
         | Inl e \<Rightarrow>
             exec_jobs db (finish_job (it_jobID task) ''failed'' ''error'' (error_text e) 0 0 total 0 total now) a1)"

text \<open>The list of jobs. Every selected column is \<^verbatim>\<open>NOT NULL\<close> in the table or replaced by \<^verbatim>\<open>COALESCE\<close> in the query, and is read
  into a variable of its type, so that \<^verbatim>\<open>Scan\<close> succeeds on the rows of the model and the answer \<^verbatim>\<open>job_scan_failed\<close>
  does not occur. A connection that breaks while the rows are delivered is not modelled: \<^verbatim>\<open>rows.Err\<close> is never asked, and
  the rows delivered so far would be returned.\<close>

definition HandleListJobs ::
  "'v jobs_db \<Rightarrow> server_request \<Rightarrow> 'v app \<Rightarrow> job_view list http_reply \<times> 'v app" where
  "HandleListJobs db r a =
     (let tenantID = TrimSpace (req_header r ''X-Tenant-ID'')
      in case query_jobs db (select_jobs db tenantID 100) a of
           (Inl e, a1) \<Rightarrow> (HttpError 500 ''job_list_failed'' (error_text e), a1)
         | (Inr rows, a1) \<Rightarrow> (HttpOK (map view_job rows), a1))"

text \<open>The event stream: the jobs, then \<^verbatim>\<open>done\<close>; a failed query only leaves the jobs out. \<open>flushable\<close> says
  whether the writer can flush.\<close>

datatype job_event = JobEvent job_view | DoneEvent

definition HandleJobStream ::
  "'v jobs_db \<Rightarrow> bool \<Rightarrow> string \<Rightarrow> server_request \<Rightarrow> 'v app \<Rightarrow> job_event list http_reply \<times> 'v app" where
  "HandleJobStream db flushable query_tenantId r a =
     (let tenant0 = TrimSpace query_tenantId;
          tenantID = (if tenant0 = [] then TrimSpace (req_header r ''X-Tenant-ID'') else tenant0)
      in if tenantID = [] then (HttpError 400 ''tenant_required'' ''tenantId is required'', a)
         else if \<not> flushable then (HttpError 500 ''sse_unsupported'' ''stream unsupported'', a)
         else case query_jobs db (select_jobs db tenantID 25) a of
             (Inl e, a1) \<Rightarrow> (HttpOK [DoneEvent], a1)
           | (Inr rows, a1) \<Rightarrow> (HttpOK (map (JobEvent \<circ> view_job) rows @ [DoneEvent]), a1))"

definition HandleRetryJob ::
  "'v jobs_db \<Rightarrow> string \<Rightarrow> server_request \<Rightarrow> 'v app \<Rightarrow> unit http_reply \<times> 'v app" where
  "HandleRetryJob db path_jobId r a =
     (let tenantID = TrimSpace (req_header r ''X-Tenant-ID'');
          jobID = TrimSpace path_jobId
      in if jobID = [] then (HttpError 400 ''job_id_required'' ''job id is required'', a)
         else case exec_jobs db (retry_job (jd_NOW db (app_outer a)) tenantID jobID) a of
             (Some e, a1) \<Rightarrow> (HttpError 500 ''job_retry_failed'' (error_text e), a1)
           | (None, a1) \<Rightarrow> (HttpOK (), a1))"

text \<open>\<^verbatim>\<open>DELETE FROM ingestion_jobs WHERE tenant_id = $1\<close>, which the purge of a tenant sends.\<close>

definition delete_jobs :: "string \<Rightarrow> job_row list \<Rightarrow> job_row list result" where
  "delete_jobs tenantID rows = Inr (filter (\<lambda>row. jb_tenant_id row \<noteq> tenantID) rows)"

section \<open>Steps\<close>

text \<open>
  How the table evolves: requests, the ends of background tasks (whose last update may be lost), purges, and
  whatever happens outside. Reading requests change the outside only.
\<close>

datatype step_kind = Submit | Finish | Lost | Retry | Purge | Outside

inductive job_step ::
  "unicode_tables \<Rightarrow> 'v IngestionManager \<Rightarrow> 'v jobs_db \<Rightarrow> step_kind \<Rightarrow> 'v app \<Rightarrow> 'v app \<Rightarrow> bool"
  for U m db where
  submit: "HandleSubmitJob m db body r a = (reply, a') \<Longrightarrow> job_step U m db Submit a a'"
| finish: "task \<in> set (app_tasks a) \<Longrightarrow> processIngestionBackground U m db task a = (None, a') \<Longrightarrow>
    job_step U m db Finish a (a'\<lparr>app_tasks := remove1 task (app_tasks a')\<rparr>)"
| lost: "task \<in> set (app_tasks a) \<Longrightarrow> processIngestionBackground U m db task a = (Some e, a') \<Longrightarrow>
    job_step U m db Lost a (a'\<lparr>app_tasks := remove1 task (app_tasks a')\<rparr>)"
| retry: "HandleRetryJob db jobId r a = (reply, a') \<Longrightarrow> job_step U m db Retry a a'"
| purge: "exec_jobs db (delete_jobs t) a = (res, a') \<Longrightarrow> job_step U m db Purge a a'"
| outside: "job_step U m db Outside a (a\<lparr>app_outer := v\<rparr>)"

inductive_cases job_stepE: "job_step U m db k a a'"

definition runs ::
  "unicode_tables \<Rightarrow> 'v IngestionManager \<Rightarrow> 'v jobs_db \<Rightarrow> step_kind set \<Rightarrow> 'v app \<Rightarrow> 'v app \<Rightarrow> bool" where
  "runs U m db K = (\<lambda>a a'. \<exists>k \<in> K. job_step U m db k a a')\<^sup>*\<^sup>*"

section \<open>Lemmas\<close>

subsection \<open>Chunks\<close>

lemma ChunkText_nonblank: "c \<in> set (ChunkText text n ov) \<Longrightarrow> TrimSpace c \<noteq> []"
proof -
  assume "c \<in> set (ChunkText text n ov)"
  then obtain a b size overlap where c: "c = Join (slice (Fields text) a b) '' ''"
    and ab: "(a, b) \<in> set (spans (Fields text) size overlap 0)"
    by (auto simp: ChunkText_def Let_def split: if_splits)
  from spans_bounds [OF ab] have ab: "a < b" "b \<le> length (Fields text)" by auto
  have "set (slice (Fields text) a b) \<subseteq> set (Fields text)"
    by (auto simp: slice_def dest: in_set_takeD in_set_dropD)
  then have "Fields c = slice (Fields text) a b"
    unfolding c using Fields_words by (intro Fields_Join) blast
  then have "Fields c \<noteq> []" using ab by (simp add: slice_def)
  then show ?thesis by (simp add: TrimSpace_Nil_iff)
qed

lemma readStringArray_trimmed: "k \<in> set (readStringArray x) \<Longrightarrow> TrimSpace k = k \<and> k \<noteq> []"
  by (auto simp: readStringArray_def split: option.splits)

lemma Itoa_no_dash: "CHR ''-'' \<notin> set (Itoa (int n))"
  using decimal_digits [of "int n" "CHR ''-''"] by (auto simp: Itoa_def)

definition record_id :: "string \<Rightarrow> nat \<times> nat \<Rightarrow> string" where
  "record_id jobID kn = (case kn of (k, n) \<Rightarrow> ''vec-'' @ jobID @ ''-'' @ Itoa (int k) @ ''-'' @ Itoa (int n))"

lemma record_id_inj: "inj (record_id jobID)"
proof (rule injI)
  fix x y assume eq: "record_id jobID x = record_id jobID y"
  obtain k n k' n' where xy: "x = (k, n)" "y = (k', n')" by (cases x, cases y)
  let ?p = "\<lambda>c. c \<noteq> CHR ''-''"
  have split: "takeWhile ?p (Itoa (int i) @ ''-'' @ s) = Itoa (int i)"
    "dropWhile ?p (Itoa (int i) @ ''-'' @ s) = ''-'' @ s" for i s
    using Itoa_no_dash [of i] by (induction "Itoa (int i)") (auto simp: takeWhile_append dropWhile_append)
  from eq xy have "Itoa (int k) @ ''-'' @ Itoa (int n) = Itoa (int k') @ ''-'' @ Itoa (int n')"
    by (simp add: record_id_def)
  with split have "Itoa (int k) = Itoa (int k')" "''-'' @ Itoa (int n) = ''-'' @ Itoa (int n')" by metis+
  with xy show "x = y" by (simp add: Itoa_inj)
qed

text \<open>What a pending chunk of a job carries, and that no two have the same identifier.\<close>

definition chunk_of :: "TenantID \<Rightarrow> string \<Rightarrow> string \<Rightarrow> string set \<Rightarrow> VectorRecord \<Rightarrow> bool" where
  "chunk_of t j c keys r \<longleftrightarrow>
     vr_TenantID r = t \<and> vr_JobID r = j \<and> vr_Checksum r = c \<and> vr_RetryCount r = 0 \<and>
     HasPrefix (vr_RecordID r) (''vec-'' @ j @ ''-'') \<and> vr_SourceURI r \<noteq> [] \<and>
     TrimSpace (vr_ChunkText r) \<noteq> [] \<and> vr_ObjectKey r \<in> keys"

definition numbered :: "string \<Rightarrow> nat \<Rightarrow> VectorRecord list \<Rightarrow> bool" where
  "numbered j i rs \<longleftrightarrow>
     (\<exists>ids. map vr_RecordID rs = map (record_id j) ids \<and> distinct ids \<and> (\<forall>(k, n) \<in> set ids. k < i))"

lemma numbered_distinct: "numbered j i rs \<Longrightarrow> distinct (map vr_RecordID rs)"
  unfolding numbered_def by (metis distinct_map inj_on_subset record_id_inj subset_UNIV)

lemma numbered_mono: "numbered j i rs \<Longrightarrow> i \<le> i' \<Longrightarrow> numbered j i' rs"
  unfolding numbered_def by fastforce

lemma pending_chunk_id:
  "vr_RecordID (pending_chunk t j c now key uri md i ic) = record_id j (i, fst ic)"
  by (cases ic) (simp add: pending_chunk_def record_id_def)

lemma object_chunks_eq:
  assumes "object_chunks U m t j c uri now items i key bytes v = (new, v')"
  obtains uri' md x where "uri' \<noteq> []" and
    "new = map (pending_chunk t j c now key uri' md i)
       (enumerate 0 (ChunkText x (im_ChunkSizeChars m) (im_ChunkOverlapWords m)))"
proof -
  let ?uri = "if uri = [] then ''s3://'' @ im_UploadBucket m @ ''/'' @ key else uri"
  obtain x v1 where "extract_text U m t key (after_last (CHR ''/'') key)
      (declared_type (im_order m) items key (after_last (CHR ''/'') key)) bytes v = (x, v1)" by fastforce
  with assms show ?thesis 
    by (intro that [of ?uri "chunk_metadata U key (after_last (CHR ''/'') key) ?uri" x]) (auto simp: object_chunks_def Let_def)
qed

lemma object_chunks_numbered:
  assumes "numbered j i pending" and "object_chunks U m t j c uri now items i key bytes v = (new, v')"
  shows "numbered j (Suc i) (pending @ new)"
proof -
  from assms(1) obtain ids where ids: "map vr_RecordID pending = map (record_id j) ids" "distinct ids"
    "\<forall>(k, n) \<in> set ids. k < i" by (auto simp: numbered_def)
  from object_chunks_eq [OF assms(2)] obtain uri' md chunks
    where new: "new = map (pending_chunk t j c now key uri' md i) (enumerate 0 chunks)" by metis
  let ?more = "map (\<lambda>ic. (i, fst ic)) (enumerate 0 chunks)"
  have "?more = map (Pair i) [0..<length chunks]"
    using map_map [of "Pair i" fst "enumerate 0 chunks"] by (simp add: comp_def)
  then have "distinct ?more" by (simp add: distinct_map inj_on_def)
  with ids new show ?thesis
    unfolding numbered_def by (intro exI [of _ "ids @ ?more"]) (auto simp: pending_chunk_id)
qed

lemma object_chunks_of:
  assumes "object_chunks U m t j c uri now items i key bytes v = (new, v')" and "r \<in> set new" and "key \<in> keys"
  shows "chunk_of t j c keys r"
proof -
  from object_chunks_eq [OF assms(1)] obtain uri' md x where u: "uri' \<noteq> []" and
    new: "new = map (pending_chunk t j c now key uri' md i)
       (enumerate 0 (ChunkText x (im_ChunkSizeChars m) (im_ChunkOverlapWords m)))" .
  with assms(2) obtain k ch where r: "r = pending_chunk t j c now key uri' md i (k, ch)"
    "(k, ch) \<in> set (enumerate 0 (ChunkText x (im_ChunkSizeChars m) (im_ChunkOverlapWords m)))" by auto
  then have "ch \<in> set (ChunkText x (im_ChunkSizeChars m) (im_ChunkOverlapWords m))" by (auto simp: in_set_enumerate_eq)
  then have "TrimSpace ch \<noteq> []" by (rule ChunkText_nonblank)
  with u r assms(3) show ?thesis by (simp add: chunk_of_def pending_chunk_def HasPrefix_iff)
qed

text \<open>A view of the outside that reading the objects and embedding their chunks does not change.\<close>

definition untouched :: "('v \<Rightarrow> 'x) \<Rightarrow> 'v IngestionManager \<Rightarrow> bool" where
  "untouched f m \<longleftrightarrow>
     (\<forall>v. f (snd (im_now m v)) = f v) \<and>
     (\<forall>get b k v. im_GetObject m = Some get \<longrightarrow> f (snd (get b k v)) = f v) \<and>
     (\<forall>embedder t xs v. im_Embedder m = Some embedder \<longrightarrow> f (snd (embedder t xs v)) = f v) \<and>
     (\<forall>parse t ct p v. im_Parser m = Some parse \<longrightarrow> f (snd (parse t ct p v)) = f v)"

lemma untouchedD:
  assumes "untouched f m"
  shows "im_now m v = (x, v1) \<Longrightarrow> f v1 = f v"
    and "im_GetObject m = Some get \<Longrightarrow> get b k v = (y, v1) \<Longrightarrow> f v1 = f v"
    and "im_Embedder m = Some embedder \<Longrightarrow> embedder t xs v = (z, v1) \<Longrightarrow> f v1 = f v"
    and "im_Parser m = Some parse \<Longrightarrow> parse t ct p v = (u, v1) \<Longrightarrow> f v1 = f v"
  using assms unfolding untouched_def by (metis snd_conv)+

lemma object_chunks_untouched:
  assumes "untouched f m" and "object_chunks U m t j c uri now items i key bytes v = (new, v')"
  shows "f v' = f v"
  using assms(2)
  by (auto simp: object_chunks_def extract_text_def Let_def split: prod.splits option.splits if_splits
      dest: untouchedD(4) [OF assms(1)])

lemma read_objects_untouched:
  assumes "untouched f m" and "im_GetObject m = Some getObj"
    and "read_objects U m getObj t j c uri now items i keys pending bytes v = (res, v')"
  shows "f v' = f v"
  using assms(3)
proof (induction keys arbitrary: i pending bytes v)
  case (Cons k ks)
  then show ?case
    by (auto simp: Let_def split: prod.splits sum.splits if_splits
        dest!: object_chunks_untouched [OF assms(1)] untouchedD(2) [OF assms(1,2)])
qed simp

lemma read_objects_chunks:
  assumes "read_objects U m getObj t j c uri now items i keys pending bytes v = (Inr (rs, n), v')"
    and "numbered j i pending" and "\<forall>r \<in> set pending. chunk_of t j c K r" and "TrimSpace ` set keys \<subseteq> K"
  shows "(\<exists>i'. numbered j i' rs) \<and> (\<forall>r \<in> set rs. chunk_of t j c K r)"
  using assms
proof (induction keys arbitrary: i pending bytes v)
  case (Cons k ks)
  show ?case
  proof (cases "TrimSpace k = []")
    case True
    with Cons.prems Cons.IH [of "Suc i" pending bytes v] numbered_mono [OF Cons.prems(2), of "Suc i"]
    show ?thesis by auto
  next
    case False
    with Cons.prems(1) obtain body v1 bs where 1: "getObj (im_UploadBucket m) (TrimSpace k) v = (Inr body, v1)"
      "read_limited (im_MaxObjectBytes m) body = Inr bs"
      by (auto simp: Let_def split: prod.splits sum.splits)
    obtain new v2 where 2: "object_chunks U m t j c uri now items i (TrimSpace k) bs v1 = (new, v2)" by fastforce
    have "read_objects U m getObj t j c uri now items (Suc i) ks (pending @ new) (bytes + int (length bs)) v2 = (Inr (rs, n), v')"
      using Cons.prems(1) False 1 2 by (simp add: Let_def)
    moreover have "\<forall>r \<in> set (pending @ new). chunk_of t j c K r"
      using Cons.prems(3,4) object_chunks_of [OF 2] by auto
    ultimately show ?thesis
      using Cons.IH object_chunks_numbered [OF Cons.prems(2) 2] Cons.prems(4) by auto
  qed
qed auto

text \<open>Reading the objects of a job, from one state of the outside to another: each key in turn gives the bytes read for it,
  at most the limit, and the text taken from these bytes.\<close>

inductive objects_read ::
  "unicode_tables \<Rightarrow> 'v IngestionManager \<Rightarrow> (string \<Rightarrow> string \<Rightarrow> 'v \<Rightarrow> object_body result \<times> 'v) \<Rightarrow> TenantID \<Rightarrow>
   (string \<times> json_object) list \<Rightarrow> string list \<Rightarrow> (string \<times> string) list \<Rightarrow> 'v \<Rightarrow> 'v \<Rightarrow> bool"
  for U m getObj t items where
    no_object: "objects_read U m getObj t items [] [] v v"
  | one_object: "getObj (im_UploadBucket m) key v = (Inr body, v1) \<Longrightarrow> read_limited (im_MaxObjectBytes m) body = Inr bytes \<Longrightarrow>
      extract_text U m t key (after_last (CHR ''/'') key)
        (declared_type (im_order m) items key (after_last (CHR ''/'') key)) bytes v1 = (content, v2) \<Longrightarrow>
      objects_read U m getObj t items keys objs v2 v3 \<Longrightarrow>
      objects_read U m getObj t items (key # keys) ((bytes, content) # objs) v v3"

inductive_simps objects_read_simps [simp]:
  "objects_read U m getObj t items [] objs v v'"
  "objects_read U m getObj t items (key # keys) objs v v'"

text \<open>All chunks of the texts of objects, each with the key of its object.\<close>

definition chunks_of :: "'v IngestionManager \<Rightarrow> string list \<Rightarrow> (string \<times> string) list \<Rightarrow> (string \<times> string) list" where
  "chunks_of m keys objs =
     concat (map2 (\<lambda>key obj. map (Pair key) (ChunkText (snd obj) (im_ChunkSizeChars m) (im_ChunkOverlapWords m))) keys objs)"

abbreviation keyed_text :: "VectorRecord \<Rightarrow> string \<times> string" where
  "keyed_text r \<equiv> (vr_ObjectKey r, vr_ChunkText r)"

lemma object_chunks_texts:
  assumes "object_chunks U m t j c uri now items i key bytes v = (new, v')"
  shows "\<exists>x. extract_text U m t key (after_last (CHR ''/'') key)
      (declared_type (im_order m) items key (after_last (CHR ''/'') key)) bytes v = (x, v') \<and>
    map keyed_text new = map (Pair key) (ChunkText x (im_ChunkSizeChars m) (im_ChunkOverlapWords m))"
proof -
  obtain x v1 where x: "extract_text U m t key (after_last (CHR ''/'') key)
      (declared_type (im_order m) items key (after_last (CHR ''/'') key)) bytes v = (x, v1)" by fastforce
  have "map (keyed_text \<circ> pending_chunk t j c now key u md i) (enumerate k cs) = map (Pair key) cs" for u md k cs
    by (induction cs arbitrary: k) (simp_all add: pending_chunk_def)
  with x assms show ?thesis by (auto simp: object_chunks_def Let_def)
qed

lemma read_objects_texts:
  assumes "read_objects U m getObj t j c uri now items i keys pending bytes v = (Inr (rs, n), v')"
    and "\<forall>k \<in> set keys. TrimSpace k = k \<and> k \<noteq> []"
  shows "\<exists>objs. objects_read U m getObj t items keys objs v v' \<and> length objs = length keys \<and>
    map keyed_text rs = map keyed_text pending @ chunks_of m keys objs \<and>
    n = bytes + sum_list (map (\<lambda>obj. int (length (fst obj))) objs)"
  using assms
proof (induction keys arbitrary: i pending bytes v)
  case Nil
  then show ?case by (simp add: chunks_of_def)
next
  case (Cons k ks)
  have k: "TrimSpace k = k" "k \<noteq> []" using Cons.prems(2) by simp_all
  with Cons.prems(1) obtain body v1 bs where 1: "getObj (im_UploadBucket m) k v = (Inr body, v1)"
    "read_limited (im_MaxObjectBytes m) body = Inr bs"
    by (auto simp: Let_def split: prod.splits sum.splits)
  obtain new v2 where 2: "object_chunks U m t j c uri now items i k bs v1 = (new, v2)" by fastforce
  have "read_objects U m getObj t j c uri now items (Suc i) ks (pending @ new) (bytes + int (length bs)) v2 = (Inr (rs, n), v')"
    using Cons.prems(1) k 1 2 by (simp add: Let_def)
  from Cons.IH [OF this] Cons.prems(2) obtain objs where objs: "objects_read U m getObj t items ks objs v2 v'" "length objs = length ks"
    "map keyed_text rs = map keyed_text (pending @ new) @ chunks_of m ks objs"
    "n = bytes + int (length bs) + sum_list (map (\<lambda>obj. int (length (fst obj))) objs)" by auto
  from object_chunks_texts [OF 2] obtain x where x: "extract_text U m t k (after_last (CHR ''/'') k)
      (declared_type (im_order m) items k (after_last (CHR ''/'') k)) bs v1 = (x, v2)"
    "map keyed_text new = map (Pair k) (ChunkText x (im_ChunkSizeChars m) (im_ChunkOverlapWords m))" by blast
  have "objects_read U m getObj t items (k # ks) ((bs, x) # objs) v v'" using 1 x(1) objs(1) by (rule one_object)
  then show ?case using objs x(2) by (intro exI [of _ "(bs, x) # objs"]) (simp add: chunks_of_def)
qed

subsection \<open>The table\<close>

lemma exec_jobs_cases:
  assumes "exec_jobs db stmt a = (res, a')"
  shows "app_tasks a' = app_tasks a \<and>
    (res \<noteq> None \<and> app_jobs a' = app_jobs a \<or> res = None \<and> stmt (app_jobs a) = Inr (app_jobs a'))"
  using assms by (auto simp: exec_jobs_def split: prod.splits option.splits sum.splits)

text \<open>A submission changes nothing, or adds one fresh row and one task for it.\<close>

definition submitted :: "'v app \<Rightarrow> 'v app \<Rightarrow> job_row \<Rightarrow> ingestion_task \<Rightarrow> bool" where
  "submitted a a' row task \<longleftrightarrow>
     jb_job_id row \<notin> jb_job_id ` set (app_jobs a) \<and> app_jobs a' = app_jobs a @ [row] \<and>
     app_tasks a' = app_tasks a @ [task] \<and> it_jobID task = jb_job_id row \<and> it_tenantID task = jb_tenant_id row \<and>
     (\<exists>j t uri c mode payload now. row = submitted_row j t uri c mode payload now)"

lemma insert_job_Inr:
  "insert_job row rows = Inr rows' \<longleftrightarrow> jb_job_id row \<notin> jb_job_id ` set rows \<and> rows' = rows @ [row]"
  by (auto simp: insert_job_def)

lemma finish_job_Inr:
  "finish_job j status stage reason n b processed successful failed now rows = Inr rows' \<longleftrightarrow>
   rows' = map (finish_row j status stage reason n b processed successful failed now) rows"
  by (auto simp: finish_job_def)

lemma retry_job_Inr: "retry_job now t j rows = Inr rows' \<longleftrightarrow> rows' = map (retry_row now t j) rows"
  by (auto simp: retry_job_def)

lemma delete_jobs_Inr: "delete_jobs t rows = Inr rows' \<longleftrightarrow> rows' = filter (\<lambda>row. jb_tenant_id row \<noteq> t) rows"
  by (auto simp: delete_jobs_def)

lemma row_updates [simp]:
  "jb_job_id (finish_row j status stage reason n b processed successful failed now row) = jb_job_id row"
  "jb_job_id (retry_row time t j row) = jb_job_id row" "jb_tenant_id (retry_row time t j row) = jb_tenant_id row"
  by (simp_all add: finish_row_def retry_row_def)

lemmas table_updates = finish_job_Inr retry_job_Inr delete_jobs_Inr insert_job_Inr

lemma submit_job_cases:
  assumes "submit_job m db t uri c0 mode payload a = (reply, a')"
  shows "app_jobs a' = app_jobs a \<and> app_tasks a' = app_tasks a \<or> (\<exists>row task. submitted a a' row task)"
proof -
  obtain c v1 where c: "(if c0 = [] then hashHex m uri (app_outer a) else (c0, app_outer a)) = (c, v1)" by fastforce
  obtain x v2 where x: "im_random m 10 v1 = (x, v2)" by fastforce
  obtain now v3 where now: "im_now m v2 = (now, v3)" by fastforce
  let ?row = "submitted_row (''job-'' @ x) t uri c mode payload now"
  let ?task = "\<lparr>it_jobID = ''job-'' @ x, it_tenantID = t, it_checksum = c, it_sourceURI = uri, it_payload = payload\<rparr>"
  obtain res a1 where ex: "exec_jobs db (insert_job ?row) (a\<lparr>app_outer := v3\<rparr>) = (res, a1)" by fastforce
  show ?thesis
  proof (cases res)
    case (Some e)
    with assms have "a' = a1" unfolding submit_job_def c Let_def by (simp add: x now ex [simplified])
    then show ?thesis using exec_jobs_cases [OF ex] Some by simp
  next
    case None
    with assms have "a' = a1\<lparr>app_tasks := app_tasks a1 @ [?task]\<rparr>"
      unfolding submit_job_def c Let_def by (simp add: x now ex [simplified])
    then have "submitted a a' ?row ?task"
      using exec_jobs_cases [OF ex] None by (auto simp: submitted_def insert_job_Inr submitted_row_def)
    then show ?thesis by blast
  qed
qed

lemma HandleSubmitJob_cases:
  assumes "HandleSubmitJob m db body r a = (reply, a')"
  shows "app_jobs a' = app_jobs a \<and> app_tasks a' = app_tasks a \<or> (\<exists>row task. submitted a a' row task)"
proof (cases body)
  case (Inr payload)
  with assms show ?thesis
    using submit_job_cases [of m db] by (fastforce simp: HandleSubmitJob_def Let_def split: if_splits)
qed (use assms in \<open>simp add: HandleSubmitJob_def\<close>)

lemma processIngestionBackground_cases:
  assumes "processIngestionBackground U m db task a = (res, a')"
  obtains (settled) status stage reason n b processed successful failed now where
    "res = None" "app_tasks a' = app_tasks a"
    "finish_job (it_jobID task) status stage reason n b processed successful failed now (app_jobs a) = Inr (app_jobs a')"
    "(status, stage) = (''indexed'', ''complete'') \<and> successful = processed \<and> failed = 0 \<or>
     (status, stage) = (''failed'', ''error'') \<and> successful = 0 \<and> failed = processed"
  | (lost) e where "res = Some e" "app_tasks a' = app_tasks a" "app_jobs a' = app_jobs a"
proof -
  obtain out v1 where out: "indexPayloadArtifacts U m (it_tenantID task) (it_jobID task) (it_checksum task)
      (it_sourceURI task) (it_payload task) (app_outer a) = (out, v1)" by fastforce
  obtain now v2 where now: "im_now m v1 = (now, v2)" by fastforce
  let ?n = "inferTotalFiles (it_payload task)" and ?a = "a\<lparr>app_outer := v2\<rparr>"
  show ?thesis
  proof (cases out)
    case (Inr nb)
    with assms out now have ex: "exec_jobs db (finish_job (it_jobID task) ''indexed'' ''complete'' [] (fst nb) (snd nb) ?n ?n 0 now) ?a = (res, a')"
      by (simp add: processIngestionBackground_def Let_def split: prod.splits)
    from exec_jobs_cases [OF ex] settled [of "''indexed''" "''complete''"] lost show ?thesis by (cases res) auto
  next
    case (Inl e)
    with assms out now have ex: "exec_jobs db (finish_job (it_jobID task) ''failed'' ''error'' (error_text e) 0 0 ?n 0 ?n now) ?a = (res, a')"
      by (simp add: processIngestionBackground_def Let_def)
    from exec_jobs_cases [OF ex] settled [of "''failed''" "''error''"] lost show ?thesis by (cases res) auto
  qed
qed

lemma HandleRetryJob_cases:
  assumes "HandleRetryJob db jobId r a = (reply, a')"
  shows "app_tasks a' = app_tasks a \<and>
    (app_jobs a' = app_jobs a \<and> reply \<noteq> HttpOK () \<or>
     (\<exists>now. retry_job now (TrimSpace (req_header r ''X-Tenant-ID'')) (TrimSpace jobId) (app_jobs a) = Inr (app_jobs a')))"
proof (cases "TrimSpace jobId = []")
  case False
  obtain res a1 where ex: "exec_jobs db (retry_job (jd_NOW db (app_outer a)) (TrimSpace (req_header r ''X-Tenant-ID''))
      (TrimSpace jobId)) a = (res, a1)" by fastforce
  with assms False have "a' = a1" "reply \<noteq> HttpOK () \<or> res = None" "res \<noteq> None \<longrightarrow> reply \<noteq> HttpOK ()"
    by (auto simp: HandleRetryJob_def Let_def split: option.splits)
  with exec_jobs_cases [OF ex] show ?thesis by auto
qed (use assms in \<open>auto simp: HandleRetryJob_def\<close>)

text \<open>What every row of the table satisfies.\<close>

definition row_ok :: "job_row \<Rightarrow> bool" where
  "row_ok row \<longleftrightarrow>
     jb_processed_files row = jb_successful_files row + jb_failed_files row \<and>
     ((jb_status row, jb_stage row) = (''indexing'', ''parsing'') \<and> jb_processed_files row = 0 \<and> jb_chunk_count row = 0 \<or>
      (jb_status row, jb_stage row) = (''indexed'', ''complete'') \<and> jb_failed_files row = 0 \<or>
      (jb_status row, jb_stage row) = (''failed'', ''error'') \<and> jb_successful_files row = 0 \<or>
      (jb_status row, jb_stage row) = (''queued'', ''cleanup''))"

definition table_ok :: "'v app \<Rightarrow> bool" where
  "table_ok a \<longleftrightarrow> distinct (map jb_job_id (app_jobs a)) \<and> (\<forall>row \<in> set (app_jobs a). row_ok row)"

definition no_orphans :: "'v app \<Rightarrow> bool" where
  "no_orphans a \<longleftrightarrow>
     (\<forall>row \<in> set (app_jobs a). jb_status row = ''indexing'' \<longrightarrow> jb_job_id row \<in> it_jobID ` set (app_tasks a))"

lemma table_ok_map:
  "table_ok a \<Longrightarrow> app_jobs a' = map f (app_jobs a) \<Longrightarrow> (\<And>row. jb_job_id (f row) = jb_job_id row) \<Longrightarrow>
   (\<And>row. row_ok row \<Longrightarrow> row_ok (f row)) \<Longrightarrow> table_ok a'"
  by (auto simp: table_ok_def comp_def)

lemma finish_row_ok:
  assumes "(status, stage) = (''indexed'', ''complete'') \<and> successful = processed \<and> failed = 0 \<or>
     (status, stage) = (''failed'', ''error'') \<and> successful = 0 \<and> failed = processed" and "row_ok row"
  shows "row_ok (finish_row j status stage reason n b processed successful failed now row)"
proof (cases "jb_job_id row = j")
  case True
  with assms(1) show ?thesis by (elim disjE) (simp_all add: finish_row_def row_ok_def)
qed (use assms(2) in \<open>simp add: finish_row_def\<close>)

lemma retry_row_ok: "row_ok row \<Longrightarrow> row_ok (retry_row now t j row)"
  by (cases "jb_tenant_id row = t \<and> jb_job_id row = j") (auto simp: retry_row_def row_ok_def)

lemma table_ok_step: "job_step U m db k a a' \<Longrightarrow> table_ok a \<Longrightarrow> table_ok a'"
proof (induction rule: job_step.induct)
  case (submit body r a reply a')
  from HandleSubmitJob_cases [OF submit(1)] submit(2) show ?case
    by (auto simp: table_ok_def submitted_def submitted_row_def row_ok_def)
next
  case (finish task a a')
  from finish(2) show ?case
  proof (cases rule: processIngestionBackground_cases)
    case (settled status stage reason n b processed successful failed now)
    from settled(3) have "app_jobs a' = map (finish_row (it_jobID task) status stage reason n b processed successful failed now) (app_jobs a)"
      by (simp add: finish_job_Inr)
    from table_ok_map [OF finish(3) this] finish_row_ok [OF settled(4)] have "table_ok a'" by simp
    then show ?thesis by (simp add: table_ok_def)
  qed simp
next
  case (lost task a e a')
  from lost(2) show ?case
    by (cases rule: processIngestionBackground_cases) (use lost(3) in \<open>simp_all add: table_ok_def\<close>)
next
  case (retry jobId r a reply a')
  from HandleRetryJob_cases [OF retry(1)] show ?case
  proof (elim conjE disjE exE)
    fix now assume "retry_job now (TrimSpace (req_header r ''X-Tenant-ID'')) (TrimSpace jobId) (app_jobs a) = Inr (app_jobs a')"
    then have "app_jobs a' = map (retry_row now (TrimSpace (req_header r ''X-Tenant-ID'')) (TrimSpace jobId)) (app_jobs a)"
      by (simp add: retry_job_Inr)
    from table_ok_map [OF retry(2) this] retry_row_ok show ?thesis by simp
  qed (use retry(2) in \<open>simp add: table_ok_def\<close>)
next
  case (purge t a res a')
  then show ?case using exec_jobs_cases [OF purge(1)] by (auto simp: table_ok_def delete_jobs_Inr distinct_map_filter)
qed (simp add: table_ok_def)

lemma no_orphans_step: "job_step U m db k a a' \<Longrightarrow> k \<noteq> Lost \<Longrightarrow> no_orphans a \<Longrightarrow> no_orphans a'"
proof (induction rule: job_step.induct)
  case (submit body r a reply a')
  from HandleSubmitJob_cases [OF submit(1)] submit(3) show ?case
    by (auto simp: no_orphans_def submitted_def)
next
  case (finish task a a')
  from finish(2) show ?case
  proof (cases rule: processIngestionBackground_cases)
    case (settled status stage reason n b processed successful failed now)
    have "it_jobID task' \<in> it_jobID ` set (remove1 task (app_tasks a))"
      if "task' \<in> set (app_tasks a)" "it_jobID task' \<noteq> it_jobID task" for task'
      using that by (intro imageI) (metis in_set_remove1)
    then have keep: "j \<in> it_jobID ` set (remove1 task (app_tasks a))"
      if "j \<in> it_jobID ` set (app_tasks a)" "j \<noteq> it_jobID task" for j using that by auto
    show ?thesis
    proof (unfold no_orphans_def, intro ballI impI)
      fix row assume row: "row \<in> set (app_jobs (a'\<lparr>app_tasks := remove1 task (app_tasks a')\<rparr>))" "jb_status row = ''indexing''"
      then have "jb_job_id row \<noteq> it_jobID task" "row \<in> set (app_jobs a)"
        using settled(3,4) by (auto simp: finish_job_Inr finish_row_def split: if_splits)
      with row finish(4) keep settled(2) show "jb_job_id row \<in> it_jobID ` set (app_tasks (a'\<lparr>app_tasks := remove1 task (app_tasks a')\<rparr>))"
        by (simp add: no_orphans_def)
    qed
  qed simp
next
  case (retry jobId r a reply a')
  from HandleRetryJob_cases [OF retry(1)] retry(3) show ?case
    by (auto simp: no_orphans_def retry_job_Inr retry_row_def)
next
  case (purge t a res a')
  then show ?case using exec_jobs_cases [OF purge(1)] by (auto simp: no_orphans_def delete_jobs_Inr)
qed (simp_all add: no_orphans_def)

text \<open>A settled job marked for retry, with no task of its identifier.\<close>

definition parked :: "string \<Rightarrow> 'v app \<Rightarrow> bool" where
  "parked j a \<longleftrightarrow>
     (\<exists>row \<in> set (app_jobs a). jb_job_id row = j \<and> jb_status row = ''queued'') \<and> j \<notin> it_jobID ` set (app_tasks a)"

lemma retry_row_queued: "jb_status row = ''queued'' \<Longrightarrow> jb_status (retry_row now t j row) = ''queued''"
  by (simp add: retry_row_def)

lemma parked_step: "job_step U m db k a a' \<Longrightarrow> k \<noteq> Purge \<Longrightarrow> parked j a \<Longrightarrow> parked j a'"
proof (induction rule: job_step.induct)
  case (submit body r a reply a')
  from HandleSubmitJob_cases [OF submit(1)] submit(3) show ?case
    by (fastforce simp: parked_def submitted_def image_iff)
next
  case (finish task a a')
  have ne: "it_jobID task \<noteq> j" using finish(1,4) by (force simp: parked_def)
  from finish(2) show ?case
    by (cases rule: processIngestionBackground_cases)
       (use finish(4) ne in \<open>auto simp: parked_def finish_job_Inr finish_row_def dest: set_mp [OF set_remove1_subset]\<close>)
next
  case (lost task a e a')
  from lost(2) show ?case
    by (cases rule: processIngestionBackground_cases)
       (use lost(4) in \<open>auto simp: parked_def dest: set_mp [OF set_remove1_subset]\<close>)
next
  case (retry jobId r a reply a')
  from HandleRetryJob_cases [OF retry(1)] retry(3) show ?case
    using retry_row_queued by (fastforce simp: parked_def retry_job_Inr)
qed (simp_all add: parked_def)

lemma runs_invariant:
  assumes "runs U m db K a a'" and "\<And>k b b'. k \<in> K \<Longrightarrow> job_step U m db k b b' \<Longrightarrow> P b \<Longrightarrow> P b'" and "P a"
  shows "P a'"
  using assms(1,3) unfolding runs_def by (induction rule: rtranclp_induct) (use assms(2) in blast)+

section \<open>Properties\<close>

text \<open>C16: the table of jobs, as submissions, background tasks, retries, purges and failures of the
  database interleave in any way. Job identifiers stay unique; every row is in one of the four states
  indexing/parsing, indexed/complete, failed/error and queued/cleanup; its processed files are the
  successful and the failed ones, none are failed in an indexed job and none successful in a failed one. As
  long as no final update of a task is lost, every job shown as indexing has a task that is still
  running.\<close>

theorem job_table_invariant:
  assumes "runs U m db K a a'" and "app_jobs a = []"
  shows "distinct (map jb_job_id (app_jobs a')) \<and> list_all row_ok (app_jobs a') \<and>
    (Lost \<in> K \<or> no_orphans a')"
proof -
  have "table_ok a" "no_orphans a" using assms(2) by (simp_all add: table_ok_def no_orphans_def)
  then have "table_ok a'" "Lost \<in> K \<or> no_orphans a'"
    using runs_invariant [OF assms(1), of table_ok] runs_invariant [OF assms(1), of no_orphans]
      table_ok_step [of U m db] no_orphans_step [of U m db] by blast+
  then show ?thesis by (simp add: table_ok_def list_all_iff)
qed

text \<open>A retry does not run the job again. Once the task of a job has ended, a successful retry request
  leaves its row queued for ever (short of a purge): no later step of the server, however requests and
  tasks interleave, processes it or changes its state.\<close>

theorem retry_never_runs:
  assumes "row \<in> set (app_jobs a)" and "jb_job_id row = TrimSpace jobId"
    and "jb_tenant_id row = TrimSpace (req_header r ''X-Tenant-ID'')"
    and "jb_job_id row \<notin> it_jobID ` set (app_tasks a)"
    and "HandleRetryJob db jobId r a = (HttpOK (), a1)" and "runs U m db (- {Purge}) a1 a2"
  shows "\<exists>row \<in> set (app_jobs a2). jb_job_id row = TrimSpace jobId \<and> jb_status row = ''queued''"
proof -
  from HandleRetryJob_cases [OF assms(5)] obtain now where tasks: "app_tasks a1 = app_tasks a"
    and jobs: "retry_job now (TrimSpace (req_header r ''X-Tenant-ID'')) (TrimSpace jobId) (app_jobs a) = Inr (app_jobs a1)"
    by blast
  have "row\<lparr>jb_status := ''queued'', jb_stage := ''cleanup'', jb_updated_at := now\<rparr> \<in> set (app_jobs a1)"
    using jobs assms(1-3) by (force simp: retry_job_Inr retry_row_def)
  then have "parked (TrimSpace jobId) a1"
    using tasks assms(2,4) by (force simp: parked_def)
  with runs_invariant [OF assms(6), of "parked (TrimSpace jobId)"] parked_step [of U m db]
  show ?thesis by (auto simp: parked_def)
qed

lemma indexed_run:
  assumes "indexPayloadArtifacts U m t j c uri payload v = (Inr (n, b), v')" and "n \<noteq> 0"
  shows "\<exists>upsert rs v1. im_Index m = Some upsert \<and> upsert rs v1 = (None, v') \<and> int (length rs) = n \<and>
    distinct (map vr_RecordID rs) \<and>
    list_all (chunk_of t j c (set (readStringArray (json_field payload ''objectKeys'')))) rs \<and>
    (\<exists>getObj embedder now va v0 objs. im_GetObject m = Some getObj \<and> im_Embedder m = Some embedder \<and> im_now m v = (now, va) \<and>
       objects_read U m getObj t (localItemByPath payload) (readStringArray (json_field payload ''objectKeys'')) objs va v0 \<and>
       map keyed_text rs = chunks_of m (readStringArray (json_field payload ''objectKeys'')) objs \<and>
       b = sum_list (map (\<lambda>obj. int (length (fst obj))) objs) \<and>
       embedder t (map vr_ChunkText rs) v0 = (Inr (map vr_Embedding rs), v1)) \<and>
    (untouched f m \<longrightarrow> f v1 = f v)"
proof -
  let ?keys = "readStringArray (json_field payload ''objectKeys'')"
  from assms obtain upsert getObj where idx: "im_Index m = Some upsert" "im_GetObject m = Some getObj"
    by (auto simp: indexPayloadArtifacts_def split: option.splits)
  with assms have keys: "?keys \<noteq> []" by (auto simp: indexPayloadArtifacts_def Let_def)
  with assms idx obtain embedder where emb: "im_Embedder m = Some embedder"
    by (auto simp: indexPayloadArtifacts_def Let_def split: option.splits)
  obtain now v1 where now: "im_now m v = (now, v1)" by fastforce
  obtain res v2 where rd: "read_objects U m getObj t j c uri now (localItemByPath payload) 0 ?keys [] 0 v1 = (res, v2)" by fastforce
  from assms idx keys emb now rd obtain pending bytes where res: "res = Inr (pending, bytes)"
    and fin: "embed_and_upsert m embedder upsert t pending bytes v2 = (Inr (n, b), v')"
    by (cases res) (auto simp: indexPayloadArtifacts_def Let_def)
  have "TrimSpace ` set ?keys \<subseteq> set ?keys" using readStringArray_trimmed by fastforce
  moreover have "numbered j 0 []" by (simp add: numbered_def)
  ultimately have ok: "distinct (map vr_RecordID pending)" "\<forall>r \<in> set pending. chunk_of t j c (set ?keys) r"
    using read_objects_chunks [OF rd [unfolded res], of "set ?keys"] numbered_distinct by auto
  have "\<forall>k \<in> set ?keys. TrimSpace k = k \<and> k \<noteq> []" using readStringArray_trimmed by blast
  from read_objects_texts [OF rd [unfolded res] this] obtain objs where
    objs: "objects_read U m getObj t (localItemByPath payload) ?keys objs v1 v2" "map keyed_text pending = chunks_of m ?keys objs"
      "bytes = sum_list (map (\<lambda>obj. int (length (fst obj))) objs)" by auto
  from fin assms(2) obtain vectors v3 where vec: "embedder t (map vr_ChunkText pending) v2 = (Inr vectors, v3)"
    "length vectors = length pending"
    by (auto simp: embed_and_upsert_def split: if_splits prod.splits sum.splits)
  let ?rs = "map2 (\<lambda>item vec. item\<lparr>vr_Embedding := vec\<rparr>) pending vectors"
  have up: "upsert ?rs v3 = (None, v')" "n = int (length pending)" "b = bytes"
    using fin assms(2) vec by (auto simp: embed_and_upsert_def split: if_splits prod.splits option.splits)
  have same: "map vr_RecordID ?rs = map vr_RecordID pending" "map vr_ChunkText ?rs = map vr_ChunkText pending"
    "map vr_Embedding ?rs = vectors" "map keyed_text ?rs = map keyed_text pending"
    using vec(2) by (auto simp: list_eq_iff_nth_eq)
  have chunks: "list_all (chunk_of t j c (set ?keys)) ?rs"
    using ok(2) by (auto simp: list_all_iff chunk_of_def dest: set_zip_leftD)
  have "f v3 = f v" if "untouched f m"
    using untouchedD(3) [OF that emb vec(1)] read_objects_untouched [OF that idx(2) rd] untouchedD(1) [OF that now] by simp
  with idx emb up same vec ok(1) chunks now objs show ?thesis
    by (intro exI [of _ upsert] exI [of _ ?rs] exI [of _ v3] conjI exI [of _ getObj] exI [of _ embedder] exI [of _ now]
        exI [of _ v1] exI [of _ v2] exI [of _ objs]) simp_all
qed

lemma indexed_nothing:
  assumes "indexPayloadArtifacts U m t j c uri payload v = (Inr (0, b), v')" and "untouched f m"
  shows "f v' = f v"
  using assms(1)
  by (auto simp: indexPayloadArtifacts_def embed_and_upsert_def Let_def split: option.splits prod.splits sum.splits if_splits
      dest!: read_objects_untouched [OF assms(2)] untouchedD(1) [OF assms(2)])

text \<open>C27: what a finished background run has indexed. When it reports \<open>n\<close> chunks, \<open>n > 0\<close>, every object key the
  payload lists was read in turn, up to the limit, and its text extracted; and the index has accepted, in one call, exactly \<open>n\<close>
  records: one for every chunk of every one of these texts and no other, in the order of the objects and of the
  chunks in their text, with the chunk as its text and the key of its object. All of them carry the job's tenant,
  identifier and checksum, a non-blank text and a source, with pairwise different identifiers, each with its
  own vector of the embedding provider, which was asked once, for all texts. The number of bytes reported is
  that of the bytes read.\<close>

theorem ingestion_indexes_chunks:
  assumes "indexPayloadArtifacts U m t j c uri payload v = (Inr (n, b), v')" and "n \<noteq> 0"
  shows "\<exists>upsert rs v1. im_Index m = Some upsert \<and> upsert rs v1 = (None, v') \<and> int (length rs) = n \<and>
    distinct (map vr_RecordID rs) \<and>
    list_all (chunk_of t j c (set (readStringArray (json_field payload ''objectKeys'')))) rs \<and>
    (\<exists>getObj embedder now va v0 objs. im_GetObject m = Some getObj \<and> im_Embedder m = Some embedder \<and> im_now m v = (now, va) \<and>
       objects_read U m getObj t (localItemByPath payload) (readStringArray (json_field payload ''objectKeys'')) objs va v0 \<and>
       map (\<lambda>r. (vr_ObjectKey r, vr_ChunkText r)) rs = chunks_of m (readStringArray (json_field payload ''objectKeys'')) objs \<and>
       b = sum_list (map (\<lambda>obj. int (length (fst obj))) objs) \<and>
       embedder t (map vr_ChunkText rs) v0 = (Inr (map vr_Embedding rs), v1))"
  using indexed_run [OF assms, where f = "\<lambda>_. ()"] by (elim exE conjE) (intro exI conjI)

text \<open>C33: the job list is confined to the tenant of the header, which the middleware has checked: every
  entry is the view of a row of that tenant, and there are at most a hundred. The event stream is not: a
  \<^verbatim>\<open>tenantId\<close> in the query string takes precedence over the checked header, so that the stream carries the
  rows of any tenant the caller names.\<close>

theorem job_list_scoped_stream_not:
  assumes "\<And>rows. set (jd_newest_first db rows) = set rows" and "jd_fails db (app_outer a) = (None, v)"
  shows "(\<exists>rows. fst (HandleListJobs db r a) = HttpOK (map view_job rows) \<and> length rows \<le> 100 \<and>
      list_all (\<lambda>row. row \<in> set (app_jobs a) \<and> jb_tenant_id row = TrimSpace (req_header r ''X-Tenant-ID'')) rows) \<and>
    (TrimSpace q = [] \<or>
     fst (HandleJobStream db True q r a) =
       HttpOK (map (JobEvent \<circ> view_job) (select_jobs db (TrimSpace q) 25 (app_jobs a)) @ [DoneEvent]))"
proof -
  let ?t = "TrimSpace (req_header r ''X-Tenant-ID'')"
  have "set (select_jobs db ?t 100 (app_jobs a)) \<subseteq> {row \<in> set (app_jobs a). jb_tenant_id row = ?t}"
    using assms(1) by (auto simp: select_jobs_def dest!: in_set_takeD)
  then have "fst (HandleListJobs db r a) = HttpOK (map view_job (select_jobs db ?t 100 (app_jobs a))) \<and>
      length (select_jobs db ?t 100 (app_jobs a)) \<le> 100 \<and>
      list_all (\<lambda>row. row \<in> set (app_jobs a) \<and> jb_tenant_id row = ?t) (select_jobs db ?t 100 (app_jobs a))"
    using assms(2) by (auto simp: HandleListJobs_def query_jobs_def list_all_iff select_jobs_def)
  moreover have "fst (HandleJobStream db True q r a) =
      HttpOK (map (JobEvent \<circ> view_job) (select_jobs db (TrimSpace q) 25 (app_jobs a)) @ [DoneEvent])" if "TrimSpace q \<noteq> []"
    using that assms(2) by (simp add: HandleJobStream_def query_jobs_def)
  ultimately show ?thesis by blast
qed

text \<open>C34: the object keys of a job are not checked against its tenant. A job of any tenant that names the
  key of a readable text object, whoever uploaded it, gets the text of that object chunked, embedded and
  indexed under its own tenant.\<close>

theorem object_keys_unchecked:
  assumes "im_Index m = Some upsert" and "im_GetObject m = Some getObj" and "im_Embedder m = Some embedder"
    and "im_Parser m = None" and "readStringArray (json_field payload ''objectKeys'') = [key]"
    and "json_array (json_field payload ''localItems'') = None" and "im_order m [] = []"
    and "im_now m v = (now, v1)" and "getObj (im_UploadBucket m) key v1 = (Inr (bytes, None), v2)"
    and "int (length bytes) < im_MaxObjectBytes m" and "\<not> isPDFContent U [] key" and "isTextLikeContent U [] key"
    and "extractSearchableText bytes \<noteq> []"
  shows "\<exists>pending. indexPayloadArtifacts U m t j c uri payload v =
      embed_and_upsert m embedder upsert t pending (int (length bytes)) v2 \<and>
    map vr_ChunkText pending =
      ChunkText (extractSearchableText bytes) (im_ChunkSizeChars m) (im_ChunkOverlapWords m) \<and>
    list_all (\<lambda>r. vr_TenantID r = t) pending"
proof -
  have key: "TrimSpace key = key" "key \<noteq> []"
    using readStringArray_trimmed [of key "json_field payload ''objectKeys''"] assms(5) by simp_all
  have items: "localItemByPath payload = []" using assms(6) by (simp add: localItemByPath_def)
  have ty: "declared_type (im_order m) [] key rel = []" for rel using assms(7) by (simp add: declared_type_def)
  have tx: "extract_text U m t key rel [] bytes v2 = (extractSearchableText bytes, v2)" for rel
    using assms(4,11,12,13) by (simp add: extract_text_def Let_def)
  obtain pending v3 where oc: "object_chunks U m t j c uri now [] 0 key bytes v2 = (pending, v3)" by fastforce
  then have p: "v3 = v2" "map vr_ChunkText pending =
      ChunkText (extractSearchableText bytes) (im_ChunkSizeChars m) (im_ChunkOverlapWords m)"
    "list_all (\<lambda>r. vr_TenantID r = t) pending"
    by (auto simp: object_chunks_def Let_def ty tx pending_chunk_def comp_def case_prod_beta list_all_iff)
  have "read_limited (im_MaxObjectBytes m) (bytes, None) = Inr bytes" using assms(10) by (simp add: read_limited_def)
  with assms(1-3,5,8,9) key items oc p have "indexPayloadArtifacts U m t j c uri payload v =
      embed_and_upsert m embedder upsert t pending (int (length bytes)) v2"
    by (simp add: indexPayloadArtifacts_def)
  with p show ?thesis by blast
qed

section \<open>Witnesses\<close>

definition demo_payload :: json_object where
  "demo_payload = [(''sourceUri'', JString ''s3://up''), (''checksum'', JString ''c1''),
     (''objectKeys'', JArray [JString ''other/20240101/notes.txt''])]"

definition demo_ingestion :: "VectorRecord list IngestionManager" where
  "demo_ingestion =
     \<lparr>im_Index = Some (\<lambda>rs v. (None, v @ rs)),
      im_GetObject = Some (\<lambda>b k v. (Inr (''shared meeting notes'', None), v)),
      im_Embedder = Some (\<lambda>t xs v. (Inr (map (\<lambda>_. [1]) xs), v)),
      im_Parser = None, im_plainText = (\<lambda>_. None), im_pages = (\<lambda>_. None), im_inflate = (\<lambda>_. None),
      im_UploadBucket = ''up'', im_MaxObjectBytes = 1000, im_ChunkSizeChars = 900, im_ChunkOverlapWords = 0,
      im_order = (\<lambda>xs. xs), im_now = (\<lambda>v. (1, v)), im_random = (\<lambda>n v. (''x'', v))\<rparr>"

definition demo_jobs :: "VectorRecord list jobs_db" where
  "demo_jobs = \<lparr>jd_fails = (\<lambda>v. (None, v)), jd_NOW = (\<lambda>v. 2), jd_newest_first = (\<lambda>rows. rows)\<rparr>"

definition demo_app :: "VectorRecord list app" where
  "demo_app = \<lparr>app_jobs = [], app_tasks = [], app_outer = []\<rparr>"

definition demo_job_row :: job_row where
  "demo_job_row = submitted_row ''job-x'' ''acme'' ''s3://up'' ''c1'' ''uri'' demo_payload 1"

lemma demo_trim:
  "TrimSpace ''s3://up'' = ''s3://up''" "TrimSpace ''c1'' = ''c1''" "TrimSpace ''acme'' = ''acme''"
  "TrimSpace ''job-x'' = ''job-x''" "TrimSpace ''other'' = ''other''"
  "TrimSpace ''other/20240101/notes.txt'' = ''other/20240101/notes.txt''"
  by code_simp+

lemma demo_header: "req_header (demo_http []) ''X-Tenant-ID'' = ''acme''"
  by (simp add: demo_http_def)

lemma demo_submit:
  "\<exists>reply. HandleSubmitJob demo_ingestion demo_jobs (Inr demo_payload) (demo_http []) demo_app =
     (reply, \<lparr>app_jobs = [demo_job_row],
        app_tasks = [\<lparr>it_jobID = ''job-x'', it_tenantID = ''acme'', it_checksum = ''c1'',
                      it_sourceURI = ''s3://up'', it_payload = demo_payload\<rparr>], app_outer = []\<rparr>)"
  by (simp add: HandleSubmitJob_def submit_job_def demo_header demo_trim demo_job_row_def demo_payload_def json_field_def
      asString_def exec_jobs_def insert_job_def demo_jobs_def demo_ingestion_def demo_app_def Let_def)

theorem job_table_invariant_witness:
  "\<exists>a'. runs ascii_tables demo_ingestion demo_jobs {Submit} demo_app a' \<and> app_jobs a' = [demo_job_row] \<and>
     row_ok demo_job_row \<and> no_orphans a'"
proof -
  obtain reply a' where run: "HandleSubmitJob demo_ingestion demo_jobs (Inr demo_payload) (demo_http []) demo_app = (reply, a')"
    and jobs: "app_jobs a' = [demo_job_row]"
    using demo_submit by (metis app.select_convs(1))
  from run have "runs ascii_tables demo_ingestion demo_jobs {Submit} demo_app a'"
    unfolding runs_def by (intro r_into_rtranclp) (auto intro: job_step.submit)
  with job_table_invariant [OF this] jobs show ?thesis by (auto simp: demo_app_def)
qed

theorem retry_never_runs_witness:
  "\<exists>a1. HandleRetryJob demo_jobs ''job-x'' (demo_http []) (demo_app\<lparr>app_jobs := [demo_job_row]\<rparr>) = (HttpOK (), a1) \<and>
     (\<exists>row \<in> set (app_jobs a1). jb_job_id row = ''job-x'' \<and> jb_status row = ''queued'')"
proof -
  let ?a = "demo_app\<lparr>app_jobs := [demo_job_row]\<rparr>"
  obtain a1 where run: "HandleRetryJob demo_jobs ''job-x'' (demo_http []) ?a = (HttpOK (), a1)"
    by (simp add: HandleRetryJob_def demo_trim demo_header exec_jobs_def retry_job_def demo_jobs_def demo_app_def)
  have "runs ascii_tables demo_ingestion demo_jobs (- {Purge}) a1 a1" by (simp add: runs_def)
  from retry_never_runs [OF _ _ _ _ run this, of demo_job_row] run show ?thesis
    by (simp add: demo_job_row_def submitted_row_def demo_trim demo_header demo_app_def)
qed

lemma demo_indexed:
  "fst (indexPayloadArtifacts ascii_tables demo_ingestion ''acme'' ''job-x'' ''c1'' ''s3://up'' demo_payload []) = Inr (1, 20)"
  by code_simp

theorem ingestion_indexes_chunks_witness:
  "\<exists>v'. indexPayloadArtifacts ascii_tables demo_ingestion ''acme'' ''job-x'' ''c1'' ''s3://up'' demo_payload [] = (Inr (1, 20), v') \<and>
    (\<exists>rs. length rs = 1 \<and> list_all (chunk_of ''acme'' ''job-x'' ''c1'' {''other/20240101/notes.txt''}) rs \<and>
       (\<exists>text. map vr_ChunkText rs = ChunkText text 900 0))"
proof -
  from demo_indexed obtain v' where run: "indexPayloadArtifacts ascii_tables demo_ingestion ''acme'' ''job-x'' ''c1'' ''s3://up'' demo_payload [] = (Inr (1, 20), v')"
    by (metis prod.collapse)
  have keys: "readStringArray (json_field demo_payload ''objectKeys'') = [''other/20240101/notes.txt'']"
    by (simp add: readStringArray_def json_field_def demo_payload_def demo_trim)
  from ingestion_indexes_chunks [OF run, unfolded keys] obtain rs objs where rs: "length rs = 1"
    "list_all (chunk_of ''acme'' ''job-x'' ''c1'' {''other/20240101/notes.txt''}) rs"
    "map keyed_text rs = chunks_of demo_ingestion [''other/20240101/notes.txt''] objs" "length objs = 1"
    by auto
  then obtain bytes x where "objs = [(bytes, x)]" by (cases objs) auto
  then have "map snd (chunks_of demo_ingestion [''other/20240101/notes.txt''] objs) = ChunkText x 900 0"
    by (simp add: chunks_of_def demo_ingestion_def comp_def)
  moreover have "map vr_ChunkText rs = map snd (map keyed_text rs)" by simp
  ultimately have "map vr_ChunkText rs = ChunkText x 900 0" unfolding rs(3) by simp
  then show ?thesis using run rs(1,2) by blast
qed

theorem job_list_scoped_stream_not_witness:
  "\<exists>rows. fst (HandleListJobs demo_jobs (demo_http []) (demo_app\<lparr>app_jobs := [demo_job_row\<lparr>jb_tenant_id := ''other''\<rparr>]\<rparr>)) =
      HttpOK (map view_job rows) \<and> rows = [] \<and>
    fst (HandleJobStream demo_jobs True ''other'' (demo_http []) (demo_app\<lparr>app_jobs := [demo_job_row\<lparr>jb_tenant_id := ''other''\<rparr>]\<rparr>)) =
      HttpOK [JobEvent (view_job (demo_job_row\<lparr>jb_tenant_id := ''other''\<rparr>)), DoneEvent]"
proof -
  let ?row = "demo_job_row\<lparr>jb_tenant_id := ''other''\<rparr>"
  let ?a = "demo_app\<lparr>app_jobs := [?row]\<rparr>"
  have "jd_fails demo_jobs (app_outer ?a) = (None, app_outer ?a)" by (simp add: demo_jobs_def)
  from job_list_scoped_stream_not [of demo_jobs, OF _ this, of "demo_http []" "''other''"]
  obtain rows where "fst (HandleListJobs demo_jobs (demo_http []) ?a) = HttpOK (map view_job rows)"
    and rows: "list_all (\<lambda>row. row \<in> set (app_jobs ?a) \<and> jb_tenant_id row = TrimSpace (req_header (demo_http []) ''X-Tenant-ID'')) rows"
    and "fst (HandleJobStream demo_jobs True ''other'' (demo_http []) ?a) =
      HttpOK (map (JobEvent \<circ> view_job) (select_jobs demo_jobs ''other'' 25 (app_jobs ?a)) @ [DoneEvent])"
    by (auto simp: demo_jobs_def demo_trim)
  moreover from rows have "rows = []" by (cases rows) (auto simp: demo_header demo_trim)
  ultimately show ?thesis by (intro exI [of _ "[]"]) (simp add: select_jobs_def demo_jobs_def)
qed

theorem object_keys_unchecked_witness:
  "\<exists>pending :: VectorRecord list. fst (indexPayloadArtifacts ascii_tables demo_ingestion ''acme'' ''job-x'' ''c1'' ''s3://up'' demo_payload []) = Inr (1, 20) \<and>
     map vr_ChunkText pending = [''shared meeting notes''] \<and> list_all (\<lambda>r. vr_TenantID r = ''acme'') pending"
proof -
  let ?key = "''other/20240101/notes.txt''"
  obtain upsert getObj embedder where env: "im_Index demo_ingestion = Some upsert" "im_GetObject demo_ingestion = Some getObj"
    "im_Embedder demo_ingestion = Some embedder" by (simp add: demo_ingestion_def)
  have keys: "readStringArray (json_field demo_payload ''objectKeys'') = [?key]"
    by (simp add: readStringArray_def json_field_def demo_payload_def demo_trim)
  have none: "im_Parser demo_ingestion = None" "json_array (json_field demo_payload ''localItems'') = None"
    "im_order demo_ingestion [] = []" "im_now demo_ingestion [] = (1, [])"
    "getObj (im_UploadBucket demo_ingestion) ?key [] = (Inr (''shared meeting notes'', None), [])"
    "int (length ''shared meeting notes'') < im_MaxObjectBytes demo_ingestion"
    using env by (auto simp: demo_ingestion_def json_field_def demo_payload_def)
  have type: "\<not> isPDFContent ascii_tables [] ?key" "isTextLikeContent ascii_tables [] ?key"
    "extractSearchableText ''shared meeting notes'' \<noteq> []" by code_simp+
  have "extractSearchableText ''shared meeting notes'' = ''shared meeting notes''"
    "ChunkText ''shared meeting notes'' 900 0 = [''shared meeting notes'']" by code_simp+
  then have chunk: "ChunkText (extractSearchableText ''shared meeting notes'') (im_ChunkSizeChars demo_ingestion)
      (im_ChunkOverlapWords demo_ingestion) = [''shared meeting notes'']"
    by (simp only:) (simp add: demo_ingestion_def)
  from object_keys_unchecked [OF env none(1) keys none(2-6) type, where t = "''acme''" and j = "''job-x''" and c = "''c1''" and uri = "''s3://up''"]
  obtain pending :: "VectorRecord list" where "map vr_ChunkText pending = [''shared meeting notes'']" "list_all (\<lambda>r. vr_TenantID r = ''acme'') pending"
    unfolding chunk by (elim exE conjE) (rule that)
  with demo_indexed show ?thesis by (intro exI [of _ pending] conjI)
qed


end
