(* ===== verification/Upload_Manager.thy ===== *)
theory Upload_Manager
  imports Go_Json Http_Pipeline
begin

text \<open>
  \<^verbatim>\<open>backend/managers/upload.go\<close>: presigned upload URLs. The handler asks the object store's presign client,
  an operation on the outside world \<open>'w\<close>, for a URL per file; the clock is read from that world too.
\<close>

section \<open>Object names\<close>

text \<open>\<^verbatim>\<open>strings.ReplaceAll(value, "//", "/")\<close>: matches do not overlap.\<close>

fun replace_double_slash :: "string \<Rightarrow> string" where
  "replace_double_slash (c # d # s) =
     (if c = CHR ''/'' \<and> d = CHR ''/'' then CHR ''/'' # replace_double_slash s
      else c # replace_double_slash (d # s))"
| "replace_double_slash s = s"

lemma length_replace_double_slash: "length (replace_double_slash s) \<le> length s"
  by (induction s rule: replace_double_slash.induct) auto

lemma replace_double_slash_shorter:
  "Contains s ''//'' \<Longrightarrow> length (replace_double_slash s) < length s"
proof (induction s rule: replace_double_slash.induct)
  case (1 c d s)
  then show ?case
    using length_replace_double_slash [of s] by (auto simp: Contains_Cons HasPrefix_def)
qed (simp_all add: Contains_def HasPrefix_def)

function collapse_slashes :: "string \<Rightarrow> string" where
  "collapse_slashes s = (if Contains s ''//'' then collapse_slashes (replace_double_slash s) else s)"
  by auto
termination by (relation "measure length") (simp_all add: replace_double_slash_shorter)

declare collapse_slashes.simps [simp del]

definition sanitizeRelativePath :: "string \<Rightarrow> string" where
  "sanitizeRelativePath raw =
     (let value0 = TrimSpace raw
      in if value0 = [] then ''file.bin''
         else
           let value1 = replace_bytes [(CHR 0x5C, ''/'')] value0;
               value2 = collapse_slashes value1;
               value = TrimPrefix value2 ''/''
           in if HasPrefix value ''../'' \<or> value = ''..'' \<or> value = ''.'' then ''file.bin'' else value)"

definition optionalString :: "string \<Rightarrow> string option" where
  "optionalString value = (if value = [] then None else Some value)"

section \<open>The handler\<close>

record UploadManager =
  um_UploadBucket :: string
  um_UploadBaseURL :: string
  um_PresignTTL :: duration
  um_MaxObjectBytes :: int

record upload_file =
  uf_Name :: string
  uf_Size :: int
  uf_Type :: string
  uf_RelativePath :: string

record upload_item =
  ui_relativePath :: string
  ui_objectKey :: string
  ui_uploadUrl :: string
  ui_headers :: strmap
  ui_expiresAt :: string
  ui_expiresInSeconds :: int
  ui_maxObjectBytes :: int

text \<open>\<^verbatim>\<open>PresignPutObject\<close>: bucket, key, content type and expiry give a URL or an error.\<close>

record 'w upload_env =
  ue_now :: "'w \<Rightarrow> time \<times> 'w"
  ue_presign :: "string \<Rightarrow> string \<Rightarrow> string option \<Rightarrow> duration \<Rightarrow> 'w \<Rightarrow> string result \<times> 'w"

definition relative_path :: "upload_file \<Rightarrow> string" where
  "relative_path file =
     (let rel = sanitizeRelativePath (uf_RelativePath file)
      in if rel = [] then sanitizeRelativePath (uf_Name file) else rel)"

definition object_key :: "string \<Rightarrow> time \<Rightarrow> upload_file \<Rightarrow> string" where
  "object_key tenantID now file = tenantID @ ''/'' @ FormatDate now @ ''/'' @ relative_path file"

text \<open>The scheme of the URL follows the configured base.\<close>

definition public_url :: "string \<Rightarrow> string \<Rightarrow> string" where
  "public_url base uploadURL =
     (if HasPrefix uploadURL ''https://'' \<and> HasPrefix base ''http://'' then ''http://'' @ drop 8 uploadURL
      else uploadURL)"

fun presign_files ::
  "unicode_tables \<Rightarrow> UploadManager \<Rightarrow> 'w upload_env \<Rightarrow> string \<Rightarrow> upload_file list \<Rightarrow> upload_item list \<Rightarrow> 'w \<Rightarrow>
   upload_item list http_reply \<times> 'w" where
  "presign_files U m env tenantID [] items w = (HttpOK items, w)"
| "presign_files U m env tenantID (file # files) items w =
     (if uf_Size file \<le> 0
      then (HttpError 400 ''invalid_file_size'' (''file '' @ Quote U (uf_Name file) @ '' must include size > 0''), w)
      else if uf_Size file > um_MaxObjectBytes m
      then (HttpError 400 ''object_too_large''
              (''file '' @ Quote U (uf_Name file) @ '' exceeds max size of '' @ Itoa (um_MaxObjectBytes m) @ '' bytes''), w)
      else
        let (now1, w1) = ue_now env w;
            key = object_key tenantID now1 file;
            (now2, w2) = ue_now env w1
        in case ue_presign env (um_UploadBucket m) key (optionalString (TrimSpace (uf_Type file)))
                  (um_PresignTTL m) w2 of
             (Inl e, w3) \<Rightarrow> (HttpError 500 ''presign_failed'' (error_text e), w3)
           | (Inr url, w3) \<Rightarrow>
               presign_files U m env tenantID files
                 (items @ [\<lparr>ui_relativePath = relative_path file, ui_objectKey = key,
                     ui_uploadUrl = public_url (trim_right_slash (um_UploadBaseURL m)) url,
                     ui_headers = (if TrimSpace (uf_Type file) \<noteq> [] then [(''Content-Type'', uf_Type file)] else []),
                     ui_expiresAt = FormatRFC3339 (time_Add now2 (um_PresignTTL m)),
                     ui_expiresInSeconds = dur_whole_seconds (um_PresignTTL m),
                     ui_maxObjectBytes = um_MaxObjectBytes m\<rparr>]) w3)"

definition HandlePresign ::
  "unicode_tables \<Rightarrow> UploadManager \<Rightarrow> 'w upload_env \<Rightarrow> upload_file list result \<Rightarrow> ('w, upload_item list) handler" where
  "HandlePresign U m env body r st =
     (let tenantID = TrimSpace (req_header r ''X-Tenant-ID'')
      in case body of
           Inl e \<Rightarrow> (HttpError 400 ''invalid_json'' (error_text e), st)
         | Inr files \<Rightarrow>
             if files = [] then (HttpError 400 ''files_required'' ''at least one file is required'', st)
             else case presign_files U m env tenantID files [] (srv_world st) of
                 (reply, w1) \<Rightarrow> (reply, st\<lparr>srv_world := w1\<rparr>))"

section \<open>Lemmas\<close>

lemma collapse_slashes_clean: "\<not> Contains (collapse_slashes s) ''//''"
proof (induction s rule: collapse_slashes.induct)
  case (1 s)
  then show ?case by (cases "Contains s ''//''") (simp_all add: collapse_slashes.simps [of s])
qed

lemma set_replace_double_slash: "set (replace_double_slash s) \<subseteq> set s"
  by (induction s rule: replace_double_slash.induct) auto

lemma set_collapse_slashes: "set (collapse_slashes s) \<subseteq> set s"
proof (induction s rule: collapse_slashes.induct)
  case (1 s)
  then show ?case
    using set_replace_double_slash [of s] by (cases "Contains s ''//''") (auto simp: collapse_slashes.simps [of s])
qed

lemma no_backslash_replaced: "CHR 0x5C \<notin> set (replace_bytes [(CHR 0x5C, ''/'')] s)"
  by (auto simp: replace_bytes_def)

text \<open>A safe object name: no backslash, no empty component, not absolute, not starting with a parent.\<close>

definition safe_name :: "string \<Rightarrow> bool" where
  "safe_name p \<longleftrightarrow>
     CHR 0x5C \<notin> set p \<and> \<not> Contains p ''//'' \<and> \<not> HasPrefix p ''/'' \<and> \<not> HasPrefix p ''../'' \<and>
     p \<noteq> ''..'' \<and> p \<noteq> ''.''"

lemma safe_file_bin: "safe_name ''file.bin''"
  by (simp add: safe_name_def Contains_def HasPrefix_def)

lemma TrimPrefix_slash_safe:
  assumes "\<not> Contains v ''//''" and "CHR 0x5C \<notin> set v"
  shows "\<not> HasPrefix (TrimPrefix v ''/'') ''/'' \<and> \<not> Contains (TrimPrefix v ''/'') ''//'' \<and>
    CHR 0x5C \<notin> set (TrimPrefix v ''/'')"
proof (cases "HasPrefix v ''/''")
  case True
  then obtain u where v: "v = CHR ''/'' # u" by (cases v) (auto simp: HasPrefix_def)
  then have "\<not> HasPrefix u ''/''" using assms(1) by (cases u) (auto simp: Contains_Cons HasPrefix_def)
  with assms v True show ?thesis by (simp add: TrimPrefix_def Contains_Cons)
qed (use assms in \<open>simp add: TrimPrefix_def\<close>)

lemma sanitize_safe: "safe_name (sanitizeRelativePath raw)"
proof -
  define v where "v = collapse_slashes (replace_bytes [(CHR 0x5C, ''/'')] (TrimSpace raw))"
  have "\<not> Contains v ''//''" "CHR 0x5C \<notin> set v"
    using collapse_slashes_clean set_collapse_slashes no_backslash_replaced by (auto simp: v_def)
  from TrimPrefix_slash_safe [OF this] show ?thesis
    using safe_file_bin by (simp add: sanitizeRelativePath_def Let_def v_def [symmetric]) (simp add: safe_name_def)
qed

lemma relative_path_safe: "safe_name (relative_path file)"
  using sanitize_safe by (simp add: relative_path_def Let_def)

text \<open>What an issued item says of the file it was issued for.\<close>

definition issued_for :: "UploadManager \<Rightarrow> string \<Rightarrow> upload_file \<Rightarrow> upload_item \<Rightarrow> bool" where
  "issued_for m tenantID file item \<longleftrightarrow>
     0 < uf_Size file \<and> uf_Size file \<le> um_MaxObjectBytes m \<and>
     safe_name (ui_relativePath item) \<and> ui_relativePath item = relative_path file \<and>
     (\<exists>now. ui_objectKey item = object_key tenantID now file)"

lemma presign_files_issued:
  "presign_files U m env t files items w = (HttpOK out, w') \<Longrightarrow>
   \<exists>new. out = items @ new \<and> list_all2 (issued_for m t) files new"
proof (induction files arbitrary: items w)
  case (Cons f fs)
  obtain now1 w1 where 1: "ue_now env w = (now1, w1)" by (cases "ue_now env w")
  obtain now2 w2 where 2: "ue_now env w1 = (now2, w2)" by (cases "ue_now env w1")
  obtain res w3 where 3: "ue_presign env (um_UploadBucket m) (object_key t now1 f)
      (optionalString (TrimSpace (uf_Type f))) (um_PresignTTL m) w2 = (res, w3)" by fastforce
  from Cons.prems 1 2 3 obtain url where res: "res = Inr url"
    by (cases res) (auto split: if_splits)
  have size: "0 < uf_Size f" "uf_Size f \<le> um_MaxObjectBytes m"
    using Cons.prems by (auto split: if_splits)
  obtain item where "presign_files U m env t fs (items @ [item]) w3 = (HttpOK out, w')"
    and item: "ui_relativePath item = relative_path f" "ui_objectKey item = object_key t now1 f"
    using Cons.prems 1 2 3 res size by auto
  with Cons.IH obtain new where "out = (items @ [item]) @ new" "list_all2 (issued_for m t) fs new" by blast
  moreover have "issued_for m t f item" using item size relative_path_safe by (auto simp: issued_for_def)
  ultimately show ?case by (intro exI [of _ "item # new"]) simp
qed simp

section \<open>Properties\<close>

text \<open>C31: what a successful presign request hands out. There is exactly one item per file of the request,
  in the order of the request; every file has a positive size within the configured maximum; the object
  key is the tenant of the header, a date and the sanitized name, so it lies under the tenant's prefix; and
  the name has no backslash, no empty component, is not absolute and does not start with a parent
  reference.\<close>

theorem presign_under_tenant:
  assumes "HandlePresign U m env (Inr files) r st = (HttpOK items, st')"
  shows "files \<noteq> [] \<and> list_all2 (issued_for m (TrimSpace (req_header r ''X-Tenant-ID''))) files items \<and>
    list_all (\<lambda>item. HasPrefix (ui_objectKey item) (TrimSpace (req_header r ''X-Tenant-ID'') @ ''/'')) items"
proof -
  let ?t = "TrimSpace (req_header r ''X-Tenant-ID'')"
  have ne: "files \<noteq> []" using assms by (auto simp: HandlePresign_def)
  with assms obtain w' where "presign_files U m env ?t files [] (srv_world st) = (HttpOK items, w')"
    by (auto simp: HandlePresign_def split: prod.splits)
  from presign_files_issued [OF this] have all: "list_all2 (issued_for m ?t) files items" by simp
  have "HasPrefix (ui_objectKey item) (?t @ ''/'')" if "issued_for m ?t f item" for f item
    using that by (auto simp: issued_for_def object_key_def HasPrefix_def)
  with all have "list_all (\<lambda>item. HasPrefix (ui_objectKey item) (?t @ ''/'')) items"
    by (induction rule: list_all2_induct) simp_all
  with ne all show ?thesis by simp
qed

text \<open>The name of a file does not reach its object key. A blank relative path is sanitized to a fixed
  name before the handler tests it for emptiness, so every file sent without a relative path gets the same
  key on the same day, whatever its name: the later upload replaces the earlier one.\<close>

theorem presign_ignores_names:
  assumes "TrimSpace (uf_RelativePath file) = []"
  shows "object_key tenantID now file = tenantID @ ''/'' @ FormatDate now @ ''/file.bin''"
  using assms by (simp add: object_key_def relative_path_def sanitizeRelativePath_def)

section \<open>Witnesses\<close>

definition demo_upload :: "string \<Rightarrow> string \<Rightarrow> upload_file" where
  "demo_upload name rel = \<lparr>uf_Name = name, uf_Size = 10, uf_Type = ''text/plain'', uf_RelativePath = rel\<rparr>"

definition demo_uploads :: UploadManager where
  "demo_uploads = \<lparr>um_UploadBucket = ''b'', um_UploadBaseURL = ''http://s3/'', um_PresignTTL = 300000000000,
     um_MaxObjectBytes = 100\<rparr>"

definition demo_upload_env :: "unit upload_env" where
  "demo_upload_env = \<lparr>ue_now = (\<lambda>w. (0, w)), ue_presign = (\<lambda>b k t ttl w. (Inr (''https://s3/'' @ k), w))\<rparr>"

theorem presign_under_tenant_witness:
  "\<exists>item st'. HandlePresign ascii_tables demo_uploads demo_upload_env (Inr [demo_upload ''a.txt'' ''docs//a.txt''])
      (demo_http []) demo_state = (HttpOK [item], st') \<and>
    HasPrefix (ui_objectKey item) ''acme/'' \<and> ui_relativePath item = ''docs/a.txt''"
proof -
  have trim: "TrimSpace (req_header (demo_http []) ''X-Tenant-ID'') = ''acme''" by code_simp
  have rel: "relative_path (demo_upload ''a.txt'' ''docs//a.txt'') = ''docs/a.txt''" by code_simp
  obtain item st' where run: "HandlePresign ascii_tables demo_uploads demo_upload_env
      (Inr [demo_upload ''a.txt'' ''docs//a.txt'']) (demo_http []) demo_state = (HttpOK [item], st')"
    by (simp add: HandlePresign_def demo_upload_env_def demo_upload_def demo_uploads_def Let_def)
  from presign_under_tenant [OF this] show ?thesis
    using run by (auto simp: trim rel issued_for_def)
qed

theorem presign_ignores_names_witness:
  "object_key ''acme'' 0 (demo_upload ''a.txt'' []) = object_key ''acme'' 0 (demo_upload ''b.txt'' [])"
  using presign_ignores_names [of "demo_upload ''a.txt'' []" "''acme''" 0]
    presign_ignores_names [of "demo_upload ''b.txt'' []" "''acme''" 0]
  by (simp add: demo_upload_def)

end
