(* ===== verification/Tenant_Manager.thy ===== *)
theory Tenant_Manager
  imports Ingestion_Manager Upload_Manager "HOL-Library.Multiset"
begin

text \<open>
  \<^verbatim>\<open>backend/managers/tenant.go\<close> and \<^verbatim>\<open>backend/managers/knowledgebase.go\<close>: listing, creating and purging
  tenants, and the aggregates over the table of jobs. The tables \<^verbatim>\<open>tenant_registry\<close> and \<^verbatim>\<open>user_tenants\<close> join
  the state; the object store and the vector index are operations on the outside state \<open>'v\<close>.
\<close>

record 'v tenant_world =
  tw_registry :: "TenantRecord list"
  tw_members :: "(int \<times> string) list"
  tw_app :: "'v app"

text \<open>What the database decides: a failure of a statement, and the order of the rows of a \<^verbatim>\<open>SELECT\<close>.\<close>

record 'v tenant_db =
  td_jobs :: "'v jobs_db"
  td_registry :: "'v tenant_world sql_db"
  td_recent_first :: "TenantRecord list \<Rightarrow> TenantRecord list"

definition driver_fails :: "'v tenant_db \<Rightarrow> 'v tenant_world \<Rightarrow> error option \<times> 'v tenant_world" where
  "driver_fails db w =
     (case jd_fails (td_jobs db) (app_outer (tw_app w)) of
        (e, v) \<Rightarrow> (e, w\<lparr>tw_app := (tw_app w)\<lparr>app_outer := v\<rparr>\<rparr>))"

section \<open>Listing and creating tenants\<close>

definition assigned_tenants :: "int \<Rightarrow> 'v tenant_world \<Rightarrow> TenantRecord list" where
  "assigned_tenants uid w =
     filter (\<lambda>t. (uid, tr_TenantID t) \<in> set (tw_members w) \<and> tr_Active t) (tw_registry w)"

definition HandleListTenants ::
  "'v tenant_db \<Rightarrow> server_request \<Rightarrow> 'v tenant_world \<Rightarrow> (string \<times> string) list http_reply \<times> 'v tenant_world" where
  "HandleListTenants db r w =
     (case UserIDFromContext (req_context r) of
        None \<Rightarrow> (HttpError 401 ''auth_required'' ''missing user context'', w)
      | Some uid \<Rightarrow>
          (case driver_fails db w of
             (Some e, w1) \<Rightarrow> (HttpError 500 ''tenant_list_failed'' (error_text e), w1)
           | (None, w1) \<Rightarrow>
               (HttpOK (map (\<lambda>t. (tr_TenantID t, tr_DisplayName t)) (td_recent_first db (assigned_tenants uid w1))), w1)))"

record create_tenant_request =
  ct_TenantID :: string
  ct_DisplayName :: string
  ct_PlanTier :: string

text \<open>\<^verbatim>\<open>INSERT INTO user_tenants ... ON CONFLICT DO NOTHING\<close>.\<close>

definition insert_member :: "int \<times> string \<Rightarrow> 'v tenant_world \<Rightarrow> 'v tenant_world" where
  "insert_member m w = (if m \<in> set (tw_members w) then w else w\<lparr>tw_members := tw_members w @ [m]\<rparr>)"

definition register_tenant ::
  "'v tenant_db \<Rightarrow> time \<Rightarrow> Context \<Rightarrow> int \<Rightarrow> string \<Rightarrow> string \<Rightarrow> string \<Rightarrow> 'v tenant_world \<Rightarrow>
   (string \<times> string) http_reply \<times> 'v tenant_world" where
  "register_tenant db now ctx uid tenantID displayName planTier w =
     (case WithTenantContext (Some ctx) \<lparr>tc_TenantID = tenantID, tc_RequestID = ''tenant-create''\<rparr> of
        Inl e \<Rightarrow> (HttpError 400 ''tenant_context_invalid'' (error_text e), w)
      | Inr ctx' \<Rightarrow>
          (case TenantRegistry_Upsert (NewPostgresRepository (Some (td_registry db)) \<lparr>pg_QueryTimeout = 0\<rparr>) (Some ctx')
                  \<lparr>tr_TenantID = tenantID, tr_DisplayName = displayName, tr_PlanTier = planTier, tr_Active = True,
                   tr_UpdatedAt = now\<rparr> w of
             (Some e, w1) \<Rightarrow> (HttpError 500 ''tenant_create_failed'' (error_text e), w1)
           | (None, w1) \<Rightarrow>
               (case driver_fails db w1 of
                  (Some e, w2) \<Rightarrow> (HttpError 500 ''tenant_assign_failed'' (error_text e), w2)
                | (None, w2) \<Rightarrow> (HttpOK (tenantID, displayName), insert_member (uid, tenantID) w2))))"

definition HandleCreateTenant ::
  "'v tenant_db \<Rightarrow> time \<Rightarrow> create_tenant_request result \<Rightarrow> server_request \<Rightarrow> 'v tenant_world \<Rightarrow>
   (string \<times> string) http_reply \<times> 'v tenant_world" where
  "HandleCreateTenant db now body r w =
     (case UserIDFromContext (req_context r) of
        None \<Rightarrow> (HttpError 401 ''auth_required'' ''missing user context'', w)
      | Some uid \<Rightarrow>
          (case body of
             Inl e \<Rightarrow> (HttpError 400 ''invalid_json'' (error_text e), w)
           | Inr req \<Rightarrow>
               let tenantID = TrimSpace (ct_TenantID req); displayName = TrimSpace (ct_DisplayName req)
               in if tenantID = [] \<or> displayName = []
                  then (HttpError 400 ''invalid_tenant'' ''tenantId and displayName are required'', w)
                  else register_tenant db now (req_context r) uid tenantID displayName
                         (if TrimSpace (ct_PlanTier req) = [] then ''starter'' else ct_PlanTier req) w))"

section \<open>Purging a tenant\<close>

text \<open>
  The object store's side: a page of the listing under a prefix, from a continuation token on, with the
  token of the next page; and the deletion of a key. \<^verbatim>\<open>HasMorePages\<close> is the presence of a token.
\<close>

record 'v purge_env =
  pe_list :: "string \<Rightarrow> string option \<Rightarrow> 'v \<Rightarrow> (string option list \<times> string option) result \<times> 'v"
  pe_delete :: "string \<Rightarrow> 'v \<Rightarrow> error option \<times> 'v"
  pe_purger :: "(TenantID \<Rightarrow> 'v \<Rightarrow> error option \<times> 'v) option"

fun delete_keys ::
  "(string \<Rightarrow> 'v \<Rightarrow> error option \<times> 'v) \<Rightarrow> string option list \<Rightarrow> int \<Rightarrow> 'v \<Rightarrow> int result \<times> 'v" where
  "delete_keys del [] n v = (Inr n, v)"
| "delete_keys del (None # keys) n v = delete_keys del keys n v"
| "delete_keys del (Some k # keys) n v =
     (if TrimSpace k = [] then delete_keys del keys n v
      else case del k v of
          (Some e, v1) \<Rightarrow> (Inl e, v1)
        | (None, v1) \<Rightarrow> delete_keys del keys (n + 1) v1)"

text \<open>The loop over the pages; \<open>None\<close> if the listing never ends.\<close>

partial_function (option) purge_pages ::
  "(string option \<Rightarrow> 'v \<Rightarrow> (string option list \<times> string option) result \<times> 'v) \<Rightarrow>
   (string \<Rightarrow> 'v \<Rightarrow> error option \<times> 'v) \<Rightarrow> string option \<Rightarrow> int \<Rightarrow> 'v \<Rightarrow> (((string \<times> error) + int) \<times> 'v) option" where
  "purge_pages list_page del tok n v =
     (case list_page tok v of
        (Inl e, v1) \<Rightarrow> Some (Inl (''object_store_list_failed'', e), v1)
      | (Inr (keys, next_tok), v1) \<Rightarrow>
          (case delete_keys del keys n v1 of
             (Inl e, v2) \<Rightarrow> Some (Inl (''object_store_delete_failed'', e), v2)
           | (Inr n', v2) \<Rightarrow>
               (case next_tok of
                  None \<Rightarrow> Some (Inr n', v2)
                | Some t \<Rightarrow> purge_pages list_page del (Some t) n' v2)))"

text \<open>The index is purged if it can be, then the jobs are deleted.\<close>

definition purge_index :: "'v purge_env \<Rightarrow> TenantID \<Rightarrow> 'v \<Rightarrow> error option \<times> 'v" where
  "purge_index env tenantID v =
     (case pe_purger env of Some purge \<Rightarrow> purge tenantID v | None \<Rightarrow> (None, v))"

definition HandlePurgeTenantData ::
  "unicode_tables \<Rightarrow> 'v purge_env \<Rightarrow> 'v jobs_db \<Rightarrow> string \<Rightarrow> string result \<Rightarrow> server_request \<Rightarrow> 'v app \<Rightarrow>
   (int http_reply \<times> 'v app) option" where
  "HandlePurgeTenantData U env db path_tenantId body r a =
     (let tenantID = TrimSpace (req_header r ''X-Tenant-ID'');
          pathTenant = TrimSpace path_tenantId
      in if tenantID = [] \<or> pathTenant = [] \<or> tenantID \<noteq> pathTenant
         then Some (HttpError 400 ''tenant_mismatch'' ''tenant header and path must match'', a)
         else case body of
             Inl e \<Rightarrow> Some (HttpError 400 ''invalid_json'' (error_text e), a)
           | Inr confirm \<Rightarrow>
               if ToUpper U (TrimSpace confirm) \<noteq> ''PURGE''
               then Some (HttpError 400 ''confirmation_required'' ''set confirm to PURGE'', a)
               else case purge_pages (pe_list env (tenantID @ ''/'')) (pe_delete env) None 0 (app_outer a) of
                   None \<Rightarrow> None
                 | Some (Inl (code, e), v1) \<Rightarrow> Some (HttpError 500 code (error_text e), a\<lparr>app_outer := v1\<rparr>)
                 | Some (Inr deletedObjects, v1) \<Rightarrow>
                     (case purge_index env tenantID v1 of
                        (Some e, v2) \<Rightarrow> Some (HttpError 500 ''vector_purge_failed'' (error_text e), a\<lparr>app_outer := v2\<rparr>)
                      | (None, v2) \<Rightarrow>
                          (case exec_jobs db (delete_jobs tenantID) (a\<lparr>app_outer := v2\<rparr>) of
                             (Some e, a1) \<Rightarrow> Some (HttpError 500 ''job_purge_failed'' (error_text e), a1)
                           | (None, a1) \<Rightarrow> Some (HttpOK deletedObjects, a1))))"

section \<open>Knowledge bases and statistics\<close>

record knowledge_base =
  kb_knowledgeBaseId :: string
  kb_name :: string
  kb_status :: string
  kb_documentCount :: int
  kb_chunkCount :: int
  kb_lastIngestedAt :: string

definition mapJobStatus :: "unicode_tables \<Rightarrow> string \<Rightarrow> string" where
  "mapJobStatus U status =
     (let s = ToLower U (TrimSpace status)
      in if s = ''approved'' \<or> s = ''indexed'' then ''ready''
         else if s = ''failed'' \<or> s = ''rejected'' then ''degraded''
         else ''indexing'')"

text \<open>A group of \<^verbatim>\<open>GROUP BY source_uri\<close>: the source, \<^verbatim>\<open>MAX(status)\<close> in the collation of the database, the
  count, the sum of the chunks and the latest submission.\<close>

record source_group =
  sg_source_uri :: string
  sg_status :: string
  sg_count :: int
  sg_chunks :: int
  sg_last :: time

definition source_groups :: "(string list \<Rightarrow> string) \<Rightarrow> string \<Rightarrow> job_row list \<Rightarrow> source_group list" where
  "source_groups max_status tenantID rows =
     (let mine = filter (\<lambda>row. jb_tenant_id row = tenantID) rows
      in map (\<lambda>uri. let g = filter (\<lambda>row. jb_source_uri row = uri) mine
                    in \<lparr>sg_source_uri = uri, sg_status = max_status (map jb_status g), sg_count = int (length g),
                        sg_chunks = sum_list (map jb_chunk_count g), sg_last = Max (jb_submitted_at ` set g)\<rparr>)
            (remdups (map jb_source_uri mine)))"

text \<open>The identifiers are random strings, drawn in the order of the rows; \<open>order\<close> is the order of the result.\<close>

fun knowledge_bases ::
  "unicode_tables \<Rightarrow> ('v \<Rightarrow> string \<times> 'v) \<Rightarrow> source_group list \<Rightarrow> 'v \<Rightarrow> knowledge_base list \<times> 'v" where
  "knowledge_bases U random [] v = ([], v)"
| "knowledge_bases U random (g # gs) v =
     (let (i, v1) = random v; (rest, v2) = knowledge_bases U random gs v1
      in (\<lparr>kb_knowledgeBaseId = i, kb_name = sg_source_uri g, kb_status = mapJobStatus U (sg_status g),
           kb_documentCount = sg_count g, kb_chunkCount = sg_chunks g,
           kb_lastIngestedAt = FormatRFC3339 (sg_last g)\<rparr> # rest, v2))"

definition HandleKnowledgeBases ::
  "unicode_tables \<Rightarrow> ('v \<Rightarrow> string \<times> 'v) \<Rightarrow> 'v jobs_db \<Rightarrow> (string list \<Rightarrow> string) \<Rightarrow>
   (source_group list \<Rightarrow> source_group list) \<Rightarrow> server_request \<Rightarrow> 'v app \<Rightarrow> knowledge_base list http_reply \<times> 'v app" where
  "HandleKnowledgeBases U random db max_status order r a =
     (let tenantID = TrimSpace (req_header r ''X-Tenant-ID'')
      in case query_jobs db (\<lambda>rows. order (source_groups max_status tenantID rows)) a of
           (Inl e, a1) \<Rightarrow> (HttpError 500 ''knowledge_bases_failed'' (error_text e), a1)
         | (Inr gs, a1) \<Rightarrow>
             let (kbs, v) = knowledge_bases U random gs (app_outer a1)
             in (HttpOK kbs, a1\<lparr>app_outer := v\<rparr>))"

record vector_stats =
  vs_vectorCount :: int
  vs_storageBytes :: int

text \<open>The sums of no rows are \<^verbatim>\<open>NULL\<close>, read as zero.\<close>

definition HandleVectorStats ::
  "'v jobs_db \<Rightarrow> string \<Rightarrow> server_request \<Rightarrow> 'v app \<Rightarrow> vector_stats http_reply \<times> 'v app" where
  "HandleVectorStats db path_tenantId r a =
     (let tenantPath = TrimSpace path_tenantId; tenantHeader = TrimSpace (req_header r ''X-Tenant-ID'')
      in if tenantPath \<noteq> tenantHeader
         then (HttpError 403 ''tenant_mismatch'' ''path tenant must match header'', a)
         else case query_jobs db (filter (\<lambda>row. jb_tenant_id row = tenantPath)) a of
             (Inl e, a1) \<Rightarrow> (HttpError 500 ''vector_stats_failed'' (error_text e), a1)
           | (Inr rows, a1) \<Rightarrow>
               (HttpOK \<lparr>vs_vectorCount = sum_list (map jb_chunk_count rows),
                        vs_storageBytes = sum_list (map jb_payload_bytes rows)\<rparr>, a1))"

section \<open>Lemmas\<close>

text \<open>
  What the object store documents: a listing under a prefix goes through the objects whose keys start with
  it, page by page. \<open>contents\<close> are the stored keys and \<open>pending tok\<close> those a listing still has to return from
  the token on; a page gives distinct keys of them, and the next token stands for the rest; a page that is
  not the last is not empty; a deletion removes exactly its key.
\<close>

definition object_store_ok ::
  "string \<Rightarrow> ('v \<Rightarrow> string set) \<Rightarrow> (string option \<Rightarrow> 'v \<Rightarrow> string set) \<Rightarrow>
   (string option \<Rightarrow> 'v \<Rightarrow> (string option list \<times> string option) result \<times> 'v) \<Rightarrow>
   (string \<Rightarrow> 'v \<Rightarrow> error option \<times> 'v) \<Rightarrow> bool" where
  "object_store_ok pre contents pending list_page del \<longleftrightarrow>
     (\<forall>v. finite (contents v) \<and> pending None v = {k \<in> contents v. HasPrefix k pre}) \<and>
     (\<forall>tok v. pending tok v \<subseteq> {k \<in> contents v. HasPrefix k pre}) \<and>
     (\<forall>tok v keys next_tok v'. list_page tok v = (Inr (keys, next_tok), v') \<longrightarrow>
        contents v' = contents v \<and> (\<forall>t. pending t v' = pending t v) \<and>
        (\<exists>ks. keys = map Some ks \<and> distinct ks \<and>
           (case next_tok of
              None \<Rightarrow> pending tok v = set ks
            | Some t \<Rightarrow> ks \<noteq> [] \<and> pending tok v = set ks \<union> pending (Some t) v \<and> set ks \<inter> pending (Some t) v = {}))) \<and>
     (\<forall>k v v'. del k v = (None, v') \<longrightarrow> contents v' = contents v - {k} \<and> (\<forall>t. pending t v' = pending t v - {k}))"

lemma prefix_not_blank: "HasPrefix k (t @ ''/'') \<Longrightarrow> TrimSpace k \<noteq> []"
proof
  assume "HasPrefix k (t @ ''/'')" "TrimSpace k = []"
  moreover then have "CHR ''/'' \<in> set k" by (auto simp: HasPrefix_iff prefix_def)
  ultimately have "ascii_space (CHR ''/'') \<or> 128 \<le> byte (CHR ''/'')" using TrimSpace_Nil_bytes by blast
  then show False by (simp add: ascii_space_def byte_def)
qed

lemma delete_keys_ok:
  assumes "object_store_ok pre contents pending list_page del" and "delete_keys del (map Some ks) n v = (Inr n', v')"
    and "\<forall>k \<in> set ks. TrimSpace k \<noteq> []"
  shows "contents v' = contents v - set ks \<and> (\<forall>t. pending t v' = pending t v - set ks) \<and> n' = n + int (length ks)"
  using assms(2,3)
proof (induction ks arbitrary: n v)
  case (Cons k ks)
  then obtain v1 where d: "del k v = (None, v1)" "delete_keys del (map Some ks) (n + 1) v1 = (Inr n', v')"
    by (auto split: prod.splits option.splits)
  with assms(1) have "contents v1 = contents v - {k}" "\<forall>t. pending t v1 = pending t v - {k}"
    by (auto simp: object_store_ok_def)
  with Cons.IH [OF d(2)] Cons.prems(2) show ?case by auto
qed auto

lemma object_store_page:
  assumes "object_store_ok pre contents pending list_page del" and "list_page tok v = (Inr (keys, next_tok), v')"
  shows "contents v' = contents v \<and> (\<forall>t. pending t v' = pending t v) \<and>
    (\<exists>ks. keys = map Some ks \<and> distinct ks \<and>
       (case next_tok of
          None \<Rightarrow> pending tok v = set ks
        | Some t \<Rightarrow> ks \<noteq> [] \<and> pending tok v = set ks \<union> pending (Some t) v \<and> set ks \<inter> pending (Some t) v = {}))"
proof -
  have law: "\<forall>tok v keys next_tok v'. list_page tok v = (Inr (keys, next_tok), v') \<longrightarrow>
      contents v' = contents v \<and> (\<forall>t. pending t v' = pending t v) \<and>
      (\<exists>ks. keys = map Some ks \<and> distinct ks \<and>
         (case next_tok of
            None \<Rightarrow> pending tok v = set ks
          | Some t \<Rightarrow> ks \<noteq> [] \<and> pending tok v = set ks \<union> pending (Some t) v \<and> set ks \<inter> pending (Some t) v = {}))"
    using assms(1) unfolding object_store_ok_def by (elim conjE)
  from law [rule_format, OF assms(2)] show ?thesis .
qed

text \<open>The loop ends, and if it ends without an error it has deleted what was pending.\<close>

lemma purge_pages_ok:
  assumes ok: "object_store_ok (t @ ''/'') contents pending list_page del"
  shows "\<exists>res v'. purge_pages list_page del tok n v = Some (res, v') \<and>
    (\<forall>n'. res = Inr n' \<longrightarrow> contents v' = contents v - pending tok v \<and> n' = n + int (card (pending tok v)))"
proof (induction "card (pending tok v)" arbitrary: tok n v rule: less_induct)
  case less
  note step = purge_pages.simps [of list_page del tok n v]
  have "pending tok v \<subseteq> {k \<in> contents v. HasPrefix k (t @ ''/'')}" "finite (contents v)"
    using ok by (simp_all add: object_store_ok_def)
  then have sub: "pending tok v \<subseteq> contents v" "\<forall>k \<in> pending tok v. TrimSpace k \<noteq> []" "finite (contents v)"
    using prefix_not_blank by blast+
  have fin: "finite (pending tok v)" using sub by (auto intro: finite_subset)
  show ?case
  proof (cases "list_page tok v")
    case (Pair page v1)
    show ?thesis
    proof (cases page)
      case (Inl e)
      then show ?thesis using Pair by (simp add: step)
    next
      case (Inr kn)
      obtain keys next_tok where kn: "kn = (keys, next_tok)" by (cases kn)
      with object_store_page [OF ok, of tok v keys next_tok v1] Pair Inr obtain ks where v1: "contents v1 = contents v" "\<forall>t. pending t v1 = pending t v"
        and ks: "keys = map Some ks" "distinct ks"
        and rest: "case next_tok of None \<Rightarrow> pending tok v = set ks
          | Some t \<Rightarrow> ks \<noteq> [] \<and> pending tok v = set ks \<union> pending (Some t) v \<and> set ks \<inter> pending (Some t) v = {}"
        by auto
      have nb: "\<forall>k \<in> set ks. TrimSpace k \<noteq> []" using rest sub(2) by (auto split: option.splits)
      obtain out v2 where del: "delete_keys del (map Some ks) n v1 = (out, v2)" by fastforce
      show ?thesis
      proof (cases out)
        case (Inl e)
        then show ?thesis using Pair Inr kn ks(1) del by (simp add: step)
      next
        case out: (Inr n')
        with delete_keys_ok [OF ok _ nb] del v1 have v2: "contents v2 = contents v - set ks"
          "\<forall>t. pending t v2 = pending t v - set ks" "n' = n + int (length ks)" by auto
        show ?thesis
        proof (cases next_tok)
          case None
          then show ?thesis
            using Pair Inr kn ks del out v2 rest by (simp add: step distinct_card)
        next
          case (Some u)
          have go: "purge_pages list_page del tok n v = purge_pages list_page del (Some u) n' v2"
            using Pair Inr kn ks(1) del out Some by (simp add: step)
          have p: "pending (Some u) v2 = pending (Some u) v" "pending tok v = set ks \<union> pending (Some u) v"
            "set ks \<inter> pending (Some u) v = {}" "ks \<noteq> []" using rest Some v2 by auto
          then have c: "card (pending tok v) = length ks + card (pending (Some u) v)"
            using fin ks(2) by (simp add: card_Un_disjoint distinct_card)
          then have "card (pending (Some u) v2) < card (pending tok v)" using p by simp
          from less [OF this, of n'] show ?thesis unfolding go using p v2 c by auto
        qed
      qed
    qed
  qed
qed

text \<open>A view of the outside that listing and deleting objects leaves alone survives the loop.\<close>

lemma delete_keys_keeps:
  assumes "\<And>k v. f (snd (del k v)) = f v" and "delete_keys del ks n v = (res, v')"
  shows "f v' = f v"
  using assms(2)
proof (induction ks arbitrary: n v)
  case (Cons k ks)
  have del: "f v1 = f w" if "del x w = (e, v1)" for x w e v1 using assms(1) [of x w] that by simp
  from Cons show ?case
    by (cases k) (auto split: if_splits prod.splits option.splits dest: del)
qed simp

lemma purge_pages_keeps:
  assumes "purge_pages list_page del tok n v = Some y"
    and "\<And>tok v. f (snd (list_page tok v)) = f v" and "\<And>k v. f (snd (del k v)) = f v"
  shows "f (snd y) = f v"
  using assms
proof (induction list_page del tok n v y rule: purge_pages.raw_induct [rotated, consumes 1, case_names Step])
  case (Step self list_page del tok n v y)
  have page: "f v1 = f w" if "list_page x w = (e, v1)" for x w e v1 using Step.prems(1) that by (metis snd_conv)
  have self: "f (snd y) = f w" if "self list_page del x m w = Some y" for x m w
    using Step(1) [OF that] Step.prems by simp
  from Step(2) show ?case
    by (auto split: prod.splits sum.splits option.splits dest!: page self delete_keys_keeps [of f del, OF Step.prems(2)])
qed

lemma purge_success:
  assumes "HandlePurgeTenantData U env db path body r a = Some (HttpOK n, a')"
  defines "t \<equiv> TrimSpace (req_header r ''X-Tenant-ID'')"
  shows "\<exists>v1 v2. purge_pages (pe_list env (t @ ''/'')) (pe_delete env) None 0 (app_outer a) = Some (Inr n, v1) \<and>
    purge_index env t v1 = (None, v2) \<and> exec_jobs db (delete_jobs t) (a\<lparr>app_outer := v2\<rparr>) = (None, a')"
  using assms(1)
  by (auto simp: HandlePurgeTenantData_def Let_def t_def [symmetric] split: if_splits sum.splits option.splits prod.splits)

lemma sum_list_groups:
  "sum_list (map (\<lambda>u. sum_list (map f (filter (\<lambda>x. g x = u) xs))) (remdups (map g xs))) = (sum_list (map f xs) :: int)"
proof -
  have "sum_list (map (\<lambda>u. sum_list (map f (filter (\<lambda>x. g x = u) xs))) us) =
      sum_list (map f (filter (\<lambda>x. g x \<in> set us) xs))" if "distinct us" for us
    using that
  proof (induction us)
    case (Cons u us)
    have "sum_list (map f (filter (\<lambda>x. g x = u \<or> g x \<in> set us) ys)) =
        sum_list (map f (filter (\<lambda>x. g x = u) ys)) + sum_list (map f (filter (\<lambda>x. g x \<in> set us) ys))" for ys
      using Cons.prems by (induction ys) auto
    with Cons show ?case by simp
  qed simp
  from this [of "remdups (map g xs)"] show ?thesis by (simp add: filter_id_conv [THEN iffD2])
qed

lemma knowledge_bases_fields:
  "map kb_chunkCount (fst (knowledge_bases U random gs v)) = map sg_chunks gs"
  "map kb_documentCount (fst (knowledge_bases U random gs v)) = map sg_count gs"
  "map kb_name (fst (knowledge_bases U random gs v)) = map sg_source_uri gs"
  by (induction gs arbitrary: v) (simp_all add: case_prod_beta Let_def)

lemma sum_mset_perm: "mset xs = mset ys \<Longrightarrow> sum_list xs = (sum_list ys :: int)"
  by (metis sum_mset_sum_list)

section \<open>Properties\<close>

lemma purge_total:
  assumes "object_store_ok (TrimSpace (req_header r ''X-Tenant-ID'') @ ''/'') contents pending
      (pe_list env (TrimSpace (req_header r ''X-Tenant-ID'') @ ''/'')) (pe_delete env)"
  shows "\<exists>reply a'. HandlePurgeTenantData U env db path body r a = Some (reply, a')"
proof -
  let ?t = "TrimSpace (req_header r ''X-Tenant-ID'')"
  obtain res v1 where "purge_pages (pe_list env (?t @ ''/'')) (pe_delete env) None 0 (app_outer a) = Some (res, v1)"
    using purge_pages_ok [OF assms, of None 0 "app_outer a"] by auto
  then show ?thesis
    by (cases body; cases res) (auto simp: HandlePurgeTenantData_def Let_def split: prod.splits option.splits)
qed

lemma exec_jobs_None:
  "exec_jobs db (delete_jobs t) a = (None, a') \<longleftrightarrow>
   (\<exists>v. jd_fails db (app_outer a) = (None, v) \<and>
      a' = a\<lparr>app_jobs := filter (\<lambda>row. jb_tenant_id row \<noteq> t) (app_jobs a), app_outer := v\<rparr>)"
  by (auto simp: exec_jobs_def delete_jobs_def split: prod.splits option.splits)

text \<open>C28: the purge of a tenant ends, whatever the number of its objects, and when it reports success it has
  been asked for by header and path and has run to its end. First every object under the tenant's prefix is deleted and no
  other, and the number reported is the number of these objects; then, if the index can be purged at all, its purge of
  this tenant was called once, on the state the deletions left, and accepted; then the statement on the table of jobs
  succeeded and exactly the tenant's rows left it. Background tasks of the tenant go on. When the three systems do not
  write into each other, the objects are gone in the final state, and if an accepted purge removes exactly
  the tenant's vectors, so are the vectors. An index that cannot be purged is left as it is, and the purge still
  reports success.\<close>

theorem purge_erases_tenant:
  assumes "t = TrimSpace (req_header r ''X-Tenant-ID'')"
    and "object_store_ok (t @ ''/'') contents pending (pe_list env (t @ ''/'')) (pe_delete env)"
  shows "\<exists>reply a'. HandlePurgeTenantData U env db path body r a = Some (reply, a') \<and>
    (\<forall>n. reply = HttpOK n \<longrightarrow>
       TrimSpace path = t \<and> t \<noteq> [] \<and> n = int (card {k \<in> contents (app_outer a). HasPrefix k (t @ ''/'')}) \<and>
       (\<exists>v1 v2. purge_pages (pe_list env (t @ ''/'')) (pe_delete env) None 0 (app_outer a) = Some (Inr n, v1) \<and>
          contents v1 = {k \<in> contents (app_outer a). \<not> HasPrefix k (t @ ''/'')} \<and>
          (case pe_purger env of Some purge \<Rightarrow> purge t v1 = (None, v2) | None \<Rightarrow> v2 = v1) \<and>
          jd_fails db v2 = (None, app_outer a')) \<and>
       app_jobs a' = filter (\<lambda>row. jb_tenant_id row \<noteq> t) (app_jobs a) \<and> app_tasks a' = app_tasks a \<and>
       (keeps contents (jd_fails db) \<and> (\<forall>purge. pe_purger env = Some purge \<longrightarrow> keeps contents (purge t)) \<longrightarrow>
          contents (app_outer a') = {k \<in> contents (app_outer a). \<not> HasPrefix k (t @ ''/'')}) \<and>
       (\<forall>purge. pe_purger env = Some purge \<and> (\<forall>v v'. purge t v = (None, v') \<longrightarrow> vectors v' = {x \<in> vectors v. owner x \<noteq> t}) \<and>
          (\<forall>tok. keeps vectors (pe_list env (t @ ''/'') tok)) \<and> (\<forall>k. keeps vectors (pe_delete env k)) \<and>
          keeps vectors (jd_fails db) \<longrightarrow>
          vectors (app_outer a') = {x \<in> vectors (app_outer a). owner x \<noteq> t}))"
proof -
  note ok = assms(2) [unfolded assms(1)]
  obtain reply a' where run: "HandlePurgeTenantData U env db path body r a = Some (reply, a')"
    using purge_total [OF ok] by blast
  have success: "TrimSpace path = t \<and> t \<noteq> [] \<and> n = int (card {k \<in> contents (app_outer a). HasPrefix k (t @ ''/'')}) \<and>
       (\<exists>v1 v2. purge_pages (pe_list env (t @ ''/'')) (pe_delete env) None 0 (app_outer a) = Some (Inr n, v1) \<and>
          contents v1 = {k \<in> contents (app_outer a). \<not> HasPrefix k (t @ ''/'')} \<and>
          (case pe_purger env of Some purge \<Rightarrow> purge t v1 = (None, v2) | None \<Rightarrow> v2 = v1) \<and>
          jd_fails db v2 = (None, app_outer a')) \<and>
       app_jobs a' = filter (\<lambda>row. jb_tenant_id row \<noteq> t) (app_jobs a) \<and> app_tasks a' = app_tasks a"
    if "reply = HttpOK n" for n
  proof -
    from purge_success [OF run [unfolded that]] obtain v1 v2
      where pages: "purge_pages (pe_list env (t @ ''/'')) (pe_delete env) None 0 (app_outer a) = Some (Inr n, v1)"
        and idx: "purge_index env t v1 = (None, v2)" and jobs: "exec_jobs db (delete_jobs t) (a\<lparr>app_outer := v2\<rparr>) = (None, a')"
      unfolding assms(1) by blast
    have "pending None (app_outer a) = {k \<in> contents (app_outer a). HasPrefix k (t @ ''/'')}"
      using assms(2) by (simp add: object_store_ok_def)
    then have "contents v1 = {k \<in> contents (app_outer a). \<not> HasPrefix k (t @ ''/'')} \<and>
        n = int (card {k \<in> contents (app_outer a). HasPrefix k (t @ ''/'')})"
      using purge_pages_ok [OF assms(2), of None 0 "app_outer a"] pages by auto
    moreover have "case pe_purger env of Some purge \<Rightarrow> purge t v1 = (None, v2) | None \<Rightarrow> v2 = v1"
      using idx by (auto simp: purge_index_def split: option.splits)
    moreover have "TrimSpace path = t \<and> t \<noteq> []"
      using run that assms(1) by (auto simp: HandlePurgeTenantData_def Let_def split: if_splits)
    ultimately show ?thesis using jobs pages unfolding exec_jobs_None by auto
  qed
  have objects: "contents (app_outer a') = {k \<in> contents (app_outer a). \<not> HasPrefix k (t @ ''/'')}"
    if "reply = HttpOK n" "keeps contents (jd_fails db)" "\<forall>purge. pe_purger env = Some purge \<longrightarrow> keeps contents (purge t)" for n
  proof -
    note ok = success [OF that(1)]
    obtain v1 v2 where v: "contents v1 = {k \<in> contents (app_outer a). \<not> HasPrefix k (t @ ''/'')}"
      "case pe_purger env of Some purge \<Rightarrow> purge t v1 = (None, v2) | None \<Rightarrow> v2 = v1" "jd_fails db v2 = (None, app_outer a')"
      using ok by (elim conjE exE) (rule that)
    have "contents v2 = contents v1"
      using v(2) that(3) keepsD [of contents _ v1 None v2] by (cases "pe_purger env") simp_all
    then show ?thesis using v(1) keepsD [OF that(2) v(3)] by simp
  qed
  have index: "vectors (app_outer a') = {x \<in> vectors (app_outer a). owner x \<noteq> t}"
    if "reply = HttpOK n" "pe_purger env = Some purge" "\<forall>v v'. purge t v = (None, v') \<longrightarrow> vectors v' = {x \<in> vectors v. owner x \<noteq> t}"
      "\<forall>tok. keeps vectors (pe_list env (t @ ''/'') tok)" "\<forall>k. keeps vectors (pe_delete env k)" "keeps vectors (jd_fails db)" for n purge
  proof -
    note ok = success [OF that(1)] and purger = that(2)
    obtain v1 v2 where v: "purge_pages (pe_list env (t @ ''/'')) (pe_delete env) None 0 (app_outer a) = Some (Inr n, v1)"
      "purge t v1 = (None, v2)" "jd_fails db v2 = (None, app_outer a')"
      using ok purger by auto
    have "vectors v1 = vectors (app_outer a)" using purge_pages_keeps [OF v(1), of vectors] that(4,5) by (simp add: keeps_def)
    then show ?thesis using that(3) v(2) keepsD [OF that(6) v(3)] by simp
  qed
  show ?thesis using run success objects index by blast
qed

text \<open>A purge reaches beyond its tenant. Tenant identifiers may contain a slash, and the objects of a
  tenant are found by the identifier and a slash alone: an object uploaded for the tenant \<open>t/u\<close> is among
  those the purge of \<open>t\<close> deletes.\<close>

theorem purge_takes_nested_tenants:
  assumes "object_store_ok (t @ ''/'') contents pending (pe_list env (t @ ''/'')) (pe_delete env)"
    and "purge_pages (pe_list env (t @ ''/'')) (pe_delete env) None 0 v = Some (Inr n, v')"
  shows "object_key (t @ ''/'' @ u) now f \<notin> contents v'"
proof -
  have "pending None v = {k \<in> contents v. HasPrefix k (t @ ''/'')}" using assms(1) by (simp add: object_store_ok_def)
  then have "contents v' = contents v - {k \<in> contents v. HasPrefix k (t @ ''/'')}"
    using purge_pages_ok [OF assms(1), of None 0 v] assms(2) by auto
  then show ?thesis by (auto simp: object_key_def HasPrefix_def)
qed

text \<open>Creating a tenant is not confined to new tenants. Whoever is logged in and names the identifier of
  any tenant, registered by somebody else or not, is made a member of it: with a working database the
  request succeeds and the membership the tenant routes ask for is there.\<close>

theorem create_tenant_joins_any:
  assumes "UserIDFromContext (req_context r) = Some uid"
    and "TrimSpace (ct_TenantID req) \<noteq> []" and "TrimSpace (ct_DisplayName req) \<noteq> []" and "now \<noteq> 0"
    and "\<And>d rec w. \<exists>w'. exec_tenant_upsert (td_registry db) d rec w = (None, w')"
    and "\<And>v. fst (jd_fails (td_jobs db) v) = None"
  shows "\<exists>w'. HandleCreateTenant db now (Inr req) r w =
      (HttpOK (TrimSpace (ct_TenantID req), TrimSpace (ct_DisplayName req)), w') \<and>
    (uid, TrimSpace (ct_TenantID req)) \<in> set (tw_members w')"
proof -
  let ?t = "TrimSpace (ct_TenantID req)" and ?n = "TrimSpace (ct_DisplayName req)"
  define plan where "plan = (if TrimSpace (ct_PlanTier req) = [] then ''starter'' else ct_PlanTier req)"
  let ?rec = "\<lparr>tr_TenantID = ?t, tr_DisplayName = ?n, tr_PlanTier = plan, tr_Active = True, tr_UpdatedAt = now\<rparr>"
  have "TrimSpace ''starter'' \<noteq> []" by code_simp
  then have plan: "TrimSpace plan \<noteq> []" by (simp add: plan_def)
  have valid: "TenantRecord_Validate ?rec = None"
    using assms(2-4) plan by (simp add: TenantRecord_Validate_def TenantID_Validate_def time_IsZero_def)
  obtain ctx where ctx: "WithTenantContext (Some (req_context r)) \<lparr>tc_TenantID = ?t, tc_RequestID = ''tenant-create''\<rparr> = Inr ctx"
    using assms(2) by (auto simp: WithTenantContext_Inr)
  have guard: "GuardWriteScope (Some ctx) ?t = None"
    using in_scope_WithTenantContext [OF ctx, of ?t] by (simp add: in_scope_def GuardWriteScope_None)
  obtain w1 where up: "exec_tenant_upsert (td_registry db) (3 * nanos_per_second) ?rec w = (None, w1)" using assms(5) by blast
  have "TenantRegistry_Upsert (NewPostgresRepository (Some (td_registry db)) \<lparr>pg_QueryTimeout = 0\<rparr>) (Some ctx) ?rec w = (None, w1)"
    using valid guard up by (simp add: TenantRegistry_Upsert_def NewPostgresRepository_def withDefaults_def del: TenantRecord_Validate_None)
  moreover obtain w2 where "driver_fails db w1 = (None, w2)"
    using assms(6) [of "app_outer (tw_app w1)"] by (cases "jd_fails (td_jobs db) (app_outer (tw_app w1))") (auto simp: driver_fails_def)
  ultimately have "HandleCreateTenant db now (Inr req) r w = (HttpOK (?t, ?n), insert_member (uid, ?t) w2)"
    using assms(1-3) ctx by (simp add: HandleCreateTenant_def register_tenant_def plan_def [symmetric] Let_def)
  moreover have "(uid, ?t) \<in> set (tw_members (insert_member (uid, ?t) w2))" by (simp add: insert_member_def)
  ultimately show ?thesis by blast
qed

text \<open>The two views of a tenant's data agree. On the same table the chunk counts of the knowledge bases
  sum up to the vector count of the statistics, their document counts to the number of the tenant's jobs,
  and every source appears once.\<close>

theorem knowledge_bases_agree_with_stats:
  assumes "\<And>gs. mset (order gs) = mset gs" and "jd_fails db (app_outer a) = (None, v)"
    and "TrimSpace path = TrimSpace (req_header r ''X-Tenant-ID'')"
  shows "\<exists>kbs stats. fst (HandleKnowledgeBases U random db max_status order r a) = HttpOK kbs \<and>
    fst (HandleVectorStats db path r a) = HttpOK stats \<and>
    sum_list (map kb_chunkCount kbs) = vs_vectorCount stats \<and>
    sum_list (map kb_documentCount kbs) =
      int (length (filter (\<lambda>row. jb_tenant_id row = TrimSpace path) (app_jobs a))) \<and>
    distinct (map kb_name kbs)"
proof -
  let ?t = "TrimSpace (req_header r ''X-Tenant-ID'')"
  let ?mine = "filter (\<lambda>row. jb_tenant_id row = ?t) (app_jobs a)"
  let ?gs = "source_groups max_status ?t (app_jobs a)"
  let ?kbs = "fst (knowledge_bases U random (order ?gs) v)"
  have kb: "fst (HandleKnowledgeBases U random db max_status order r a) = HttpOK ?kbs"
    using assms(2) by (simp add: HandleKnowledgeBases_def query_jobs_def split: prod.splits)
  have st: "fst (HandleVectorStats db path r a) =
      HttpOK \<lparr>vs_vectorCount = sum_list (map jb_chunk_count ?mine), vs_storageBytes = sum_list (map jb_payload_bytes ?mine)\<rparr>"
    using assms(2,3) by (simp add: HandleVectorStats_def query_jobs_def Let_def)
  have perm: "sum_list (map f (order ?gs)) = sum_list (map f ?gs)" for f :: "source_group \<Rightarrow> int"
    using assms(1) by (intro sum_mset_perm) simp
  have "sum_list (map kb_chunkCount ?kbs) = sum_list (map jb_chunk_count ?mine)"
    unfolding knowledge_bases_fields perm using sum_list_groups [of jb_chunk_count jb_source_uri ?mine]
    by (simp add: source_groups_def Let_def comp_def)
  moreover have "sum_list (map kb_documentCount ?kbs) = int (length ?mine)"
    unfolding knowledge_bases_fields perm using sum_list_groups [of "\<lambda>_. 1" jb_source_uri ?mine]
    by (simp add: source_groups_def Let_def comp_def sum_list_triv)
  moreover have "mset (map kb_name ?kbs) = mset (map sg_source_uri ?gs)"
    unfolding knowledge_bases_fields mset_map assms(1) ..
  then have "mset (map kb_name ?kbs) = mset (remdups (map jb_source_uri ?mine))"
    by (simp add: source_groups_def Let_def comp_def)
  then have "distinct (map kb_name ?kbs)" by (metis distinct_remdups mset_eq_imp_distinct_iff)
  ultimately show ?thesis using kb st assms(3) by auto
qed

section \<open>Witnesses\<close>

text \<open>A store with one page per listing.\<close>

definition demo_pages :: "string \<Rightarrow> string option \<Rightarrow> string list \<Rightarrow> (string option list \<times> string option) result \<times> string list" where
  "demo_pages pre tok v = (Inr (map Some (remdups (filter (\<lambda>k. HasPrefix k pre) v)), None), v)"

definition demo_purge :: "string list purge_env" where
  "demo_purge = \<lparr>pe_list = demo_pages, pe_delete = (\<lambda>k v. (None, removeAll k v)), pe_purger = None\<rparr>"

definition demo_jobs_list :: "string list jobs_db" where
  "demo_jobs_list = \<lparr>jd_fails = (\<lambda>v. (None, v)), jd_NOW = (\<lambda>v. 2), jd_newest_first = (\<lambda>rows. rows)\<rparr>"

definition demo_objects :: "string list app" where
  "demo_objects = \<lparr>app_jobs = [demo_job_row], app_tasks = [], app_outer = [''acme/20240101/a'', ''other/20240101/b'']\<rparr>"

lemma demo_purge_ok:
  "object_store_ok pre set (\<lambda>tok v. {k \<in> set v. HasPrefix k pre}) (pe_list demo_purge pre) (pe_delete demo_purge)"
  by (auto simp: object_store_ok_def demo_purge_def demo_pages_def)

text \<open>A store of objects beside an index of vectors, each with its owner, that can be purged.\<close>

definition indexed_purge :: "(string list \<times> (string \<times> nat) list) purge_env" where
  "indexed_purge =
     \<lparr>pe_list = (\<lambda>pre tok v. (Inr (map Some (remdups (filter (\<lambda>k. HasPrefix k pre) (fst v))), None), v)),
      pe_delete = (\<lambda>k v. (None, (removeAll k (fst v), snd v))),
      pe_purger = Some (\<lambda>t v. (None, (fst v, filter (\<lambda>x. fst x \<noteq> t) (snd v))))\<rparr>"

definition indexed_app :: "(string list \<times> (string \<times> nat) list) app" where
  "indexed_app = \<lparr>app_jobs = [demo_job_row], app_tasks = [],
     app_outer = ([''acme/20240101/a'', ''other/20240101/b''], [(''acme'', 1), (''other'', 2), (''acme'', 3)])\<rparr>"

lemma indexed_purge_ok:
  "object_store_ok pre (set \<circ> fst) (\<lambda>tok v. {k \<in> set (fst v). HasPrefix k pre}) (pe_list indexed_purge pre) (pe_delete indexed_purge)"
  by (auto simp: object_store_ok_def indexed_purge_def)

lemma the_outcome: "\<exists>reply b. x = Some (reply, b) \<and> Q reply b \<Longrightarrow> x = Some (r, a) \<Longrightarrow> Q r a"
  by auto

theorem purge_erases_tenant_witness:
  "\<exists>a'. HandlePurgeTenantData ascii_tables indexed_purge \<lparr>jd_fails = (\<lambda>v. (None, v)), jd_NOW = (\<lambda>v. 2), jd_newest_first = (\<lambda>rows. rows)\<rparr>
      ''acme'' (Inr ''purge'') (demo_http []) indexed_app = Some (HttpOK 1, a') \<and> app_jobs a' = [] \<and>
    set (fst (app_outer a')) = {''other/20240101/b''} \<and> set (snd (app_outer a')) = {(''other'', 2)}"
proof -
  let ?db = "\<lparr>jd_fails = (\<lambda>v. (None, v)), jd_NOW = (\<lambda>v. 2), jd_newest_first = (\<lambda>rows. rows)\<rparr> :: (string list \<times> (string \<times> nat) list) jobs_db"
  let ?list = "pe_list indexed_purge ''acme/''"
  have up: "ToUpper ascii_tables (TrimSpace ''purge'') = ''PURGE''" by code_simp
  have nb: "TrimSpace ''acme/20240101/a'' \<noteq> []" by code_simp
  have pages: "purge_pages ?list (pe_delete indexed_purge) None 0 (app_outer indexed_app) =
      Some (Inr 1, ([''other/20240101/b''], snd (app_outer indexed_app)))"
    by (subst purge_pages.simps) (simp add: nb indexed_purge_def indexed_app_def HasPrefix_def)
  obtain a' where run: "HandlePurgeTenantData ascii_tables indexed_purge ?db ''acme'' (Inr ''purge'') (demo_http []) indexed_app =
      Some (HttpOK 1, a')"
    by (simp add: HandlePurgeTenantData_def demo_header demo_trim up Let_def pages)
       (simp add: purge_index_def indexed_purge_def exec_jobs_def delete_jobs_def)
  have mine: "{k \<in> set (fst (app_outer indexed_app)). \<not> HasPrefix k (''acme'' @ ''/'')} = {''other/20240101/b''}"
    and vecs: "{x \<in> set (snd (app_outer indexed_app)). fst x \<noteq> ''acme''} = {(''other'', 2)}"
    and rows: "filter (\<lambda>row. jb_tenant_id row \<noteq> ''acme'') (app_jobs indexed_app) = []"
    by (auto simp: indexed_app_def HasPrefix_def demo_job_row_def submitted_row_def)
  have t: "''acme'' = TrimSpace (req_header (demo_http []) ''X-Tenant-ID'')" by (simp add: demo_header demo_trim)
  note after = the_outcome [OF purge_erases_tenant [where vectors = "set \<circ> snd" and owner = fst, OF t indexed_purge_ok] run,
      THEN spec, THEN mp, OF refl]
  have "keeps (set \<circ> fst) (jd_fails ?db) \<and> (\<forall>purge. pe_purger indexed_purge = Some purge \<longrightarrow> keeps (set \<circ> fst) (purge ''acme''))"
    by (simp add: keeps_def indexed_purge_def)
  with after mine have "set (fst (app_outer a')) = {''other/20240101/b''}" by simp
  moreover have "set (snd (app_outer a')) = {(''other'', 2)}"
  proof -
    let ?purge = "\<lambda>t v. (None, (fst v, filter (\<lambda>x. fst x \<noteq> t) (snd v))) :: error option \<times> string list \<times> (string \<times> nat) list"
    have "pe_purger indexed_purge = Some ?purge \<and>
        (\<forall>v v'. ?purge ''acme'' v = (None, v') \<longrightarrow> (set \<circ> snd) v' = {x \<in> (set \<circ> snd) v. fst x \<noteq> ''acme''}) \<and>
        (\<forall>tok. keeps (set \<circ> snd) (pe_list indexed_purge (''acme'' @ ''/'') tok)) \<and> (\<forall>k. keeps (set \<circ> snd) (pe_delete indexed_purge k)) \<and>
        keeps (set \<circ> snd) (jd_fails ?db)"
      by (auto simp: keeps_def indexed_purge_def)
    with after vecs show ?thesis by (elim conjE allE [where x = ?purge]) simp
  qed
  ultimately show ?thesis using run after rows by simp
qed

theorem purge_takes_nested_tenants_witness:
  "\<exists>n v'. purge_pages (pe_list demo_purge ''acme/'') (pe_delete demo_purge) None 0 [''acme/sub/00010101/file.bin''] = Some (Inr n, v') \<and>
     object_key ''acme/sub'' 0 (demo_upload ''a'' []) \<notin> set v'"
proof -
  obtain n v' where run: "purge_pages (pe_list demo_purge (''acme'' @ ''/'')) (pe_delete demo_purge) None 0
      [''acme/sub/00010101/file.bin''] = Some (Inr n, v')"
    using prefix_not_blank [of "''acme/sub/00010101/file.bin''" "''acme''"]
    by (simp add: purge_pages.simps [of "demo_pages _"] Let_def demo_purge_def demo_pages_def HasPrefix_def)
  from purge_takes_nested_tenants [OF demo_purge_ok run, of "''sub''" 0 "demo_upload ''a'' []"] run show ?thesis by auto
qed

definition demo_tenant_db :: "string list tenant_db" where
  "demo_tenant_db =
     \<lparr>td_jobs = demo_jobs_list,
      td_registry = \<lparr>exec_tenant_upsert = (\<lambda>d t w. (None, w\<lparr>tw_registry := tw_registry w @ [t]\<rparr>)),
        query_tenant = (\<lambda>d t w. (Inr None, w)), exec_metadata_upsert = (\<lambda>d m w. (None, w)),
        query_metadata = (\<lambda>d t c w. (Inr None, w)), exec_audit_insert = (\<lambda>d e w. (None, w)),
        query_audit = (\<lambda>d t n w. (Inr ([], None), w))\<rparr>,
      td_recent_first = (\<lambda>ts. ts)\<rparr>"

theorem create_tenant_joins_any_witness:
  "\<exists>w'. HandleCreateTenant demo_tenant_db 1 (Inr \<lparr>ct_TenantID = ''acme'', ct_DisplayName = ''other'', ct_PlanTier = []\<rparr>)
      ((demo_http [])\<lparr>req_context := WithValue Background UserIDKey (CtxInt 7)\<rparr>)
      \<lparr>tw_registry = [], tw_members = [(1, ''acme'')], tw_app = demo_objects\<rparr> = (HttpOK (''acme'', ''other''), w') \<and>
    (7, ''acme'') \<in> set (tw_members w')"
  using create_tenant_joins_any [of "(demo_http [])\<lparr>req_context := WithValue Background UserIDKey (CtxInt 7)\<rparr>" 7
      "\<lparr>ct_TenantID = ''acme'', ct_DisplayName = ''other'', ct_PlanTier = []\<rparr>" 1 demo_tenant_db
      "\<lparr>tw_registry = [], tw_members = [(1, ''acme'')], tw_app = demo_objects\<rparr>"]
  by (simp add: demo_trim UserIDFromContext_def WithValue_def demo_tenant_db_def demo_jobs_list_def)

theorem knowledge_bases_agree_with_stats_witness:
  "\<exists>kbs stats. fst (HandleKnowledgeBases ascii_tables (\<lambda>v. (''id'', v)) demo_jobs_list hd (\<lambda>gs. gs) (demo_http []) demo_objects) = HttpOK kbs \<and>
     fst (HandleVectorStats demo_jobs_list ''acme'' (demo_http []) demo_objects) = HttpOK stats \<and>
     sum_list (map kb_chunkCount kbs) = vs_vectorCount stats"
  using knowledge_bases_agree_with_stats [of "\<lambda>gs. gs" demo_jobs_list demo_objects "app_outer demo_objects" "''acme''" "demo_http []"
      ascii_tables "\<lambda>v. (''id'', v)" hd]
  by (auto simp: demo_header demo_trim demo_jobs_list_def)


end
