(* ===== verification/Go_Parse.thy ===== *)
theory Go_Parse
  imports Go_Json
begin

text \<open>
  The parsers of the standard library the sources use on configuration and headers: \<^verbatim>\<open>strconv.Atoi\<close> and
  \<^verbatim>\<open>strconv.ParseInt(s, 10, 64)\<close>, \<^verbatim>\<open>time.ParseDuration\<close>, and \<^verbatim>\<open>strconv.FormatFloat(v, 'f', -1, 64)\<close>. \<open>None\<close>
  is an error.
\<close>

definition is_digit :: "char \<Rightarrow> bool" where
  "is_digit c \<longleftrightarrow> 48 \<le> byte c \<and> byte c \<le> 57"

definition digit_value :: "char \<Rightarrow> int" where
  "digit_value c = int (byte c) - 48"

section \<open>Integers\<close>

fun unsigned :: "string \<Rightarrow> int \<Rightarrow> int" where
  "unsigned [] n = n"
| "unsigned (c # s) n = unsigned s (10 * n + digit_value c)"

definition Atoi :: "string \<Rightarrow> int option" where
  "Atoi s =
     (let (neg, ds) = (case s of
            c # t \<Rightarrow> if c = CHR ''-'' then (True, t) else if c = CHR ''+'' then (False, t) else (False, s)
          | [] \<Rightarrow> (False, []))
      in if ds = [] \<or> \<not> list_all is_digit ds then None
         else let n = (if neg then - unsigned ds 0 else unsigned ds 0)
              in if is_int64 n then Some n else None)"

lemma Atoi_int64: "Atoi s = Some n \<Longrightarrow> is_int64 n"
  by (auto simp: Atoi_def Let_def split: if_splits prod.splits)

section \<open>Durations\<close>

definition duration_unit :: "string \<Rightarrow> int option" where
  "duration_unit u =
     map_of [(''ns'', 1), (''us'', 1000), ([char_of (194 :: nat), char_of (181 :: nat)] @ ''s'', 1000),
             ([char_of (206 :: nat), char_of (188 :: nat)] @ ''s'', 1000), (''ms'', 1000000), (''s'', 1000000000),
             (''m'', 60000000000), (''h'', 3600000000000)] u"

text \<open>\<^verbatim>\<open>leadingInt\<close>: the value of the leading digits and the rest, \<open>None\<close> beyond \<open>2\<^sup>6\<^sup>3\<close>.\<close>

definition leadingInt :: "string \<Rightarrow> (int \<times> string) option" where
  "leadingInt s =
     (let n = unsigned (takeWhile is_digit s) 0
      in if n > 2 ^ 63 then None else Some (n, dropWhile is_digit s))"

text \<open>\<^verbatim>\<open>leadingFraction\<close>: digits that no longer fit are read and ignored.\<close>

fun fraction_digits :: "string \<Rightarrow> int \<Rightarrow> int \<Rightarrow> bool \<Rightarrow> int \<times> int" where
  "fraction_digits [] x scale overflow = (x, scale)"
| "fraction_digits (c # s) x scale overflow =
     (if overflow then fraction_digits s x scale True
      else if x > (2 ^ 63 - 1) div 10 then fraction_digits s x scale True
      else let y = x * 10 + digit_value c
           in if y > 2 ^ 63 then fraction_digits s x scale True
              else fraction_digits s y (scale * 10) False)"

definition leadingFraction :: "string \<Rightarrow> int \<times> int \<times> string" where
  "leadingFraction s =
     (case fraction_digits (takeWhile is_digit s) 0 1 False of (f, scale) \<Rightarrow> (f, scale, dropWhile is_digit s))"

definition unit_char :: "char \<Rightarrow> bool" where
  "unit_char c \<longleftrightarrow> c \<noteq> CHR ''.'' \<and> \<not> is_digit c"

text \<open>One number with its unit: its nanoseconds and the rest of the string.\<close>

definition duration_part :: "string \<Rightarrow> (int \<times> string) option" where
  "duration_part s =
     (case leadingInt s of
        None \<Rightarrow> None
      | Some (v, s1) \<Rightarrow>
          let pre = (s1 \<noteq> s);
              (f, scale, s2, post) =
                (case s1 of
                   c # t \<Rightarrow>
                     if c = CHR ''.'' then (case leadingFraction t of (f, scale, t') \<Rightarrow> (f, scale, t', t' \<noteq> t))
                     else (0, 1, s1, False)
                 | [] \<Rightarrow> (0, 1, s1, False));
              u = takeWhile unit_char s2
          in if \<not> pre \<and> \<not> post then None
             else if u = [] then None
             else case duration_unit u of
                 None \<Rightarrow> None
               | Some per \<Rightarrow>
                   if v > 2 ^ 63 div per then None
                   else let w = v * per + (if f > 0 then float_trunc (fl (fl (of_int f) * fl (of_int per / of_int scale))) else 0)
                        in if w > 2 ^ 63 then None else Some (w, dropWhile unit_char s2))"

lemma duration_part_shorter: "duration_part s = Some (w, t) \<Longrightarrow> length t < length s"
proof -
  assume p: "duration_part s = Some (w, t)"
  then obtain v s1 where l: "leadingInt s = Some (v, s1)" by (auto simp: duration_part_def split: option.splits)
  then have s1: "length s1 \<le> length s" by (auto simp: leadingInt_def Let_def length_dropWhile_le split: if_splits)
  let ?rest = "case s1 of c # x \<Rightarrow> if c = CHR ''.'' then snd (snd (leadingFraction x)) else s1 | [] \<Rightarrow> s1"
  from p l have t: "t = dropWhile unit_char ?rest" and u: "takeWhile unit_char ?rest \<noteq> []"
    by (auto simp: duration_part_def Let_def split: list.splits if_splits option.splits prod.splits)
  have "length ?rest \<le> length s1"
    by (auto simp: leadingFraction_def length_dropWhile_le le_SucI split: list.splits prod.splits)
  moreover have "length ?rest = length (takeWhile unit_char ?rest) + length t"
    unfolding t by (metis length_append takeWhile_dropWhile_id)
  moreover have "0 < length (takeWhile unit_char ?rest)" using u by blast
  ultimately show ?thesis using s1 by linarith
qed

function duration_sum :: "string \<Rightarrow> int \<Rightarrow> int option" where
  "duration_sum s d =
     (if s = [] then Some d
      else case duration_part s of
          None \<Rightarrow> None
        | Some (w, t) \<Rightarrow> if d + w > 2 ^ 63 then None else duration_sum t (d + w))"
  by auto
termination by (relation "measure (length \<circ> fst)") (auto simp: duration_part_shorter)

declare duration_sum.simps [simp del]

definition ParseDuration :: "string \<Rightarrow> duration option" where
  "ParseDuration s0 =
     (let (neg, s) = (case s0 of
            c # t \<Rightarrow> if c = CHR ''-'' then (True, t) else if c = CHR ''+'' then (False, t) else (False, s0)
          | [] \<Rightarrow> (False, []))
      in if s = ''0'' then Some 0
         else if s = [] then None
         else case duration_sum s 0 of
             None \<Rightarrow> None
           | Some d \<Rightarrow> if neg then Some (- d) else if d > 2 ^ 63 - 1 then None else Some d)"

section \<open>Floats\<close>

text \<open>The least number of decimal digits (at most 17) that determines the float, and the nearest decimal
  with that many; no exponent is printed.\<close>

fun scale_up :: "nat \<Rightarrow> rat \<Rightarrow> nat \<Rightarrow> nat" where
  "scale_up 0 v k = k"
| "scale_up (Suc n) v k = (if v * 10 ^ k \<ge> 1 then k else scale_up n v (k + 1))"

definition decimal_exponent :: "rat \<Rightarrow> int" where
  "decimal_exponent v =
     (if v \<ge> 1 then int (length (decimal \<lfloor>v\<rfloor>)) - 1 else - int (scale_up 400 v 0))"

definition round_digits :: "nat \<Rightarrow> rat \<Rightarrow> rat" where
  "round_digits n v =
     (let q = 10 powi (decimal_exponent v - int n + 1) in of_int (round_even (v / q)) * q)"

definition shortest :: "rat \<Rightarrow> rat" where
  "shortest v = (case find (\<lambda>n. fl (round_digits n v) = v) [1..<17] of Some n \<Rightarrow> round_digits n v | None \<Rightarrow> round_digits 17 v)"

fun fraction_string :: "nat \<Rightarrow> rat \<Rightarrow> string" where
  "fraction_string 0 x = []"
| "fraction_string (Suc n) x = (if x = 0 then [] else digit_char \<lfloor>x * 10\<rfloor> # fraction_string n (x * 10 - of_int \<lfloor>x * 10\<rfloor>))"

definition FormatFloat :: "float64 \<Rightarrow> string" where
  "FormatFloat v =
     (if v = 0 then ''0''
      else let s = shortest \<bar>v\<bar>; i = \<lfloor>s\<rfloor>; f = fraction_string 400 (s - of_int i)
           in (if v < 0 then ''-'' else []) @ decimal i @ (if f = [] then [] else ''.'' @ f))"

section \<open>Examples\<close>

lemma Atoi_examples: "Atoi ''42'' = Some 42" "Atoi ''-7'' = Some (- 7)" "Atoi ''12a'' = None" "Atoi [] = None"
  by code_simp+

lemma ParseDuration_examples:
  "ParseDuration ''15m'' = Some 900000000000" "ParseDuration ''1h30m'' = Some 5400000000000"
  "ParseDuration ''1.5s'' = Some 1500000000" "ParseDuration ''-2ms'' = Some (- 2000000)"
  "ParseDuration ''5'' = None" "ParseDuration [] = None"
  by code_simp+

lemma FormatFloat_examples: "FormatFloat (3 / 2) = ''1.5''" "FormatFloat 42 = ''42''" "FormatFloat (- (1 / 4)) = ''-0.25''"
  by code_simp+

end
