(* ===== verification/Vector_Store.thy ===== *)
theory Vector_Store
  imports Contracts
begin

text \<open>
  \<^verbatim>\<open>internal/adapters/vector\<close>: the error classification of \<^verbatim>\<open>errors.go\<close> and the in-memory store of
  \<^verbatim>\<open>stub/adapter.go\<close>. The mutex makes each call atomic. Vector components are finite \<^verbatim>\<open>float32\<close> values;
  the product of two of them is exact in \<^verbatim>\<open>float64\<close>, sums are rounded by \<open>fl\<close>. Elapsed times are
  arguments.
\<close>

section \<open>Provider errors\<close>

definition error_category :: "unicode_tables \<Rightarrow> error \<Rightarrow> provider_category" where
  "error_category U err =
     (let msg = ToLower U (error_text err)
      in if is_deadline err \<or> Contains msg ''timeout'' then ProviderErrTimeout
         else if Contains msg ''unauthorized'' \<or> Contains msg ''forbidden'' \<or> Contains msg ''auth''
         then ProviderErrUnauthorized
         else if Contains msg ''invalid'' \<or> Contains msg ''malformed'' \<or> Contains msg ''required''
         then ProviderErrValidation
         else if Contains msg ''unavailable'' \<or> Contains msg ''connection refused'' \<or>
                 Contains msg ''temporarily''
         then ProviderErrUnavailable
         else ProviderErrInternal)"

definition NormalizeProviderError ::
  "unicode_tables \<Rightarrow> string \<Rightarrow> string \<Rightarrow> error option \<Rightarrow> error option" where
  "NormalizeProviderError U provider op err =
     (case err of
        None \<Rightarrow> None
      | Some e \<Rightarrow> Some (ProviderError (error_category U e) provider op (Some e)))"

section \<open>Cosine similarity\<close>

text \<open>\<^verbatim>\<open>math.Sqrt\<close> is correctly rounded: the integer root of the scaled argument, with a last digit that
  says whether it was exact, is rounded once.\<close>

fun isqrt :: "nat \<Rightarrow> int \<Rightarrow> int \<Rightarrow> int" where
  "isqrt 0 x r = r"
| "isqrt (Suc k) x r = isqrt k x (if (r + 2 ^ k)\<^sup>2 \<le> x then r + 2 ^ k else r)"

definition Sqrt :: "float64 \<Rightarrow> float64" where
  "Sqrt q =
     (if q \<le> 0 then 0
      else let k = nat (60 - log2_floor q div 2);
               scaled = q * 4 ^ k;
               n = nat (log2_floor scaled div 2 + 1);
               s = isqrt n \<lfloor>scaled\<rfloor> 0;
               sticky = (if rat_of_int (s\<^sup>2) = scaled then 0 else 1)
           in fl (rat_of_int (2 * s + sticky) / 2 ^ (k + 1)))"

definition dot_sum :: "(float64 \<times> float64) list \<Rightarrow> float64" where
  "dot_sum lrs = foldl (\<lambda>acc (l, r). fl (acc + fl (l * r))) 0 lrs"

definition cosineSimilarity :: "embedding \<Rightarrow> embedding \<Rightarrow> float64" where
  "cosineSimilarity left right =
     (if left = [] \<or> right = [] then 0
      else let lrs = zip left right;
               dot = dot_sum lrs;
               leftNorm = dot_sum (map (\<lambda>(l, r). (l, l)) lrs);
               rightNorm = dot_sum (map (\<lambda>(l, r). (r, r)) lrs)
           in if leftNorm = 0 \<or> rightNorm = 0 then 0
              else fl (dot / fl (Sqrt leftNorm * Sqrt rightNorm)))"

section \<open>The store\<close>

record Adapter =
  ad_store :: "TenantID \<rightharpoonup> VectorRecord list"
  ad_lastTrace :: VectorCallTrace

definition NewAdapter :: Adapter where
  "NewAdapter =
     \<lparr>ad_store = Map.empty, ad_lastTrace = \<lparr>vt_Provider = [], vt_Status = [], vt_LatencyMillis = 0\<rparr>\<rparr>"

definition records :: "Adapter \<Rightarrow> TenantID \<Rightarrow> VectorRecord list" where
  "records a t = (case ad_store a t of None \<Rightarrow> [] | Some rs \<Rightarrow> rs)"

definition markTrace :: "string \<Rightarrow> int \<Rightarrow> Adapter \<Rightarrow> Adapter" where
  "markTrace status elapsedMillis a =
     a\<lparr>ad_lastTrace :=
        \<lparr>vt_Provider = ''stub'', vt_Status = status, vt_LatencyMillis = elapsedMillis\<rparr>\<rparr>"

definition LastVectorTrace :: "Adapter \<Rightarrow> VectorCallTrace" where
  "LastVectorTrace a = ad_lastTrace a"

text \<open>The loop of \<^verbatim>\<open>Upsert\<close>: a record that fails validation ends it, after the earlier ones were
  stored.\<close>

fun store_records :: "VectorRecord list \<Rightarrow> Adapter \<Rightarrow> error option \<times> Adapter" where
  "store_records [] a = (None, a)"
| "store_records (r # rs) a =
     (case VectorRecord_Validate r of
        Some e \<Rightarrow> (Some e, a)
      | None \<Rightarrow>
          store_records rs
            (a\<lparr>ad_store := (ad_store a)(vr_TenantID r \<mapsto> records a (vr_TenantID r) @ [r])\<rparr>))"

definition Upsert :: "int \<Rightarrow> VectorRecord list \<Rightarrow> Adapter \<Rightarrow> error option \<times> Adapter" where
  "Upsert elapsed rs a0 =
     (let a = markTrace ''ok'' elapsed a0
      in if rs = [] then (Some (ErrorString ''at least one record is required''), a)
         else store_records rs a)"

definition to_document :: "(VectorRecord \<Rightarrow> float64) \<Rightarrow> VectorRecord \<Rightarrow> RetrievalDocument" where
  "to_document score r =
     \<lparr>doc_DocumentID = vr_RecordID r, doc_TenantID = vr_TenantID r, doc_Content = vr_ChunkText r,
      doc_Score = score r, doc_SourceURI = vr_SourceURI r, doc_Metadata = []\<rparr>"

definition top_documents :: "int \<Rightarrow> RetrievalDocument list \<Rightarrow> RetrievalDocument list" where
  "top_documents topK docs =
     (let sorted_docs = SliceStable (\<lambda>x y. doc_Score x > doc_Score y) docs
      in if topK < int (length sorted_docs) then take (nat topK) sorted_docs else sorted_docs)"

definition text_score :: "unicode_tables \<Rightarrow> string \<Rightarrow> VectorRecord \<Rightarrow> float64" where
  "text_score U queryText r =
     (if Contains (ToLower U (vr_ChunkText r)) (ToLower U (TrimSpace queryText)) then 1 else fl (1 / 10))"

definition Search ::
  "unicode_tables \<Rightarrow> int \<Rightarrow> TenantID \<Rightarrow> string \<Rightarrow> int \<Rightarrow> Adapter \<Rightarrow>
   RetrievalDocument list result \<times> Adapter" where
  "Search U elapsed tenantID queryText topK a0 =
     (let a = markTrace ''ok'' elapsed a0
      in case TenantID_Validate tenantID of
           Some e \<Rightarrow> (Inl e, a)
         | None \<Rightarrow>
             if TrimSpace queryText = [] then (Inl (ErrorString ''query text is required''), a)
             else if topK \<le> 0 then (Inl (ErrorString ''top_k must be > 0''), a)
             else (Inr (top_documents topK (map (to_document (text_score U queryText)) (records a tenantID))), a))"

definition SearchByEmbedding ::
  "int \<Rightarrow> TenantID \<Rightarrow> embedding \<Rightarrow> int \<Rightarrow> Adapter \<Rightarrow> RetrievalDocument list result \<times> Adapter" where
  "SearchByEmbedding elapsed tenantID queryEmbedding topK a0 =
     (let a = markTrace ''ok'' elapsed a0
      in case TenantID_Validate tenantID of
           Some e \<Rightarrow> (Inl e, a)
         | None \<Rightarrow>
             if queryEmbedding = [] then (Inl (ErrorString ''query embedding is required''), a)
             else if topK \<le> 0 then (Inl (ErrorString ''top_k must be > 0''), a)
             else (Inr (top_documents topK
                     (map (to_document (\<lambda>r. cosineSimilarity queryEmbedding (vr_Embedding r)))
                        (records a tenantID))), a))"

definition PurgeTenant :: "TenantID \<Rightarrow> Adapter \<Rightarrow> error option \<times> Adapter" where
  "PurgeTenant tenantID a =
     (case TenantID_Validate tenantID of
        Some e \<Rightarrow> (Some e, a)
      | None \<Rightarrow> (None, a\<lparr>ad_store := (ad_store a)(tenantID := None)\<rparr>))"

section \<open>The contract of a tenant store\<close>

datatype store_op = OpUpsert "VectorRecord list" | OpPurge TenantID

text \<open>What the calls leave for one tenant.\<close>

fun op_effect :: "TenantID \<Rightarrow> store_op \<Rightarrow> VectorRecord list \<Rightarrow> VectorRecord list" where
  "op_effect t (OpUpsert rs) old =
     old @ filter (\<lambda>r. vr_TenantID r = t) (takeWhile (\<lambda>r. VectorRecord_Validate r = None) rs)"
| "op_effect t (OpPurge t') old = (if t' = t \<and> t \<noteq> [] then [] else old)"

text \<open>The calls that concern a tenant: an upsert with a record of it, or its purge.\<close>

definition concerns :: "TenantID \<Rightarrow> store_op \<Rightarrow> bool" where
  "concerns t p =
     (case p of OpUpsert rs \<Rightarrow> (\<exists>r \<in> set rs. vr_TenantID r = t) | OpPurge t' \<Rightarrow> t' = t)"

text \<open>A store keeps, per tenant, what was upserted for it and not purged. The laws are those of the two
  writing operations; the lemmas hold for every history of calls.\<close>

locale tenant_store =
  fixes recs :: "'s \<Rightarrow> TenantID \<Rightarrow> VectorRecord list"
    and apply_op :: "store_op \<Rightarrow> 's \<Rightarrow> 's"
    and empty_store :: 's
  assumes recs_empty: "recs empty_store t = []"
    and recs_apply: "recs (apply_op p s) t = op_effect t p (recs s t)"
begin

lemma recs_history: "recs (fold apply_op ops s) t = fold (op_effect t) ops (recs s t)"
  by (induction ops arbitrary: s) (simp_all add: recs_apply)

lemma recs_scoped:
  "r \<in> set (recs (fold apply_op ops empty_store) t) \<Longrightarrow>
     vr_TenantID r = t \<and> VectorRecord_Validate r = None \<and>
     (\<exists>rs. OpUpsert rs \<in> set ops \<and> r \<in> set rs)"
proof -
  have "\<forall>r \<in> set (fold (op_effect t) ops old). r \<in> set old \<or>
      vr_TenantID r = t \<and> VectorRecord_Validate r = None \<and>
      (\<exists>rs. OpUpsert rs \<in> set ops \<and> r \<in> set rs)" for old
  proof (induction ops arbitrary: old)
    case (Cons p ops)
    have step: "r \<in> set old \<or>
        vr_TenantID r = t \<and> VectorRecord_Validate r = None \<and> (\<exists>rs. p = OpUpsert rs \<and> r \<in> set rs)"
      if "r \<in> set (op_effect t p old)" for r
      using that by (cases p) (auto dest: set_takeWhileD split: if_splits)
    show ?case
    proof
      fix r
      assume "r \<in> set (fold (op_effect t) (p # ops) old)"
      then have "r \<in> set (fold (op_effect t) ops (op_effect t p old))" by simp
      from bspec [OF Cons.IH this]
      show "r \<in> set old \<or> vr_TenantID r = t \<and> VectorRecord_Validate r = None \<and>
          (\<exists>rs. OpUpsert rs \<in> set (p # ops) \<and> r \<in> set rs)"
      proof
        assume "r \<in> set (op_effect t p old)"
        from step [OF this] show ?thesis by auto
      qed auto
    qed
  qed simp
  from this [of "[]"] show "r \<in> set (recs (fold apply_op ops empty_store) t) \<Longrightarrow>
     vr_TenantID r = t \<and> VectorRecord_Validate r = None \<and>
     (\<exists>rs. OpUpsert rs \<in> set ops \<and> r \<in> set rs)"
    by (auto simp: recs_history recs_empty)
qed

text \<open>A tenant's records depend only on the calls that concern it.\<close>

lemma recs_local: "recs (fold apply_op ops s) t = recs (fold apply_op (filter (concerns t) ops) s) t"
proof -
  have "fold (op_effect t) ops old = fold (op_effect t) (filter (concerns t) ops) old" for old
  proof (induction ops arbitrary: old)
    case (Cons p ops)
    have "\<not> concerns t p \<Longrightarrow> op_effect t p old = old"
      by (cases p) (auto simp: concerns_def filter_empty_conv dest: set_takeWhileD)
    with Cons show ?case by simp
  qed simp
  then show ?thesis by (simp add: recs_history)
qed

end

lemma records_markTrace [simp]: "records (markTrace st e a) t = records a t"
  by (simp add: records_def markTrace_def)

lemma records_store_records:
  "records (snd (store_records rs a)) t =
     records a t @ filter (\<lambda>r. vr_TenantID r = t) (takeWhile (\<lambda>r. VectorRecord_Validate r = None) rs)"
proof (induction rs arbitrary: a)
  case (Cons r rs)
  have "records (a\<lparr>ad_store := (ad_store a)(u \<mapsto> records a u @ [r])\<rparr>) t =
      (if u = t then records a t @ [r] else records a t)" for u
    by (simp add: records_def)
  with Cons show ?case by (cases "VectorRecord_Validate r") simp_all
qed simp

definition apply_stub :: "int \<Rightarrow> store_op \<Rightarrow> Adapter \<Rightarrow> Adapter" where
  "apply_stub elapsed p a =
     (case p of OpUpsert rs \<Rightarrow> snd (Upsert elapsed rs a) | OpPurge t \<Rightarrow> snd (PurgeTenant t a))"

interpretation stub: tenant_store records "apply_stub elapsed" NewAdapter
proof
  show "records NewAdapter t = []" for t by (simp add: records_def NewAdapter_def)
  show "records (apply_stub elapsed p s) t = op_effect t p (records s t)" for p s t
  proof (cases p)
    case (OpUpsert rs)
    then show ?thesis by (simp add: apply_stub_def Upsert_def Let_def records_store_records)
  next
    case (OpPurge t')
    then show ?thesis by (cases "t' = []") (auto simp: apply_stub_def PurgeTenant_def records_def TenantID_Validate_def)
  qed
qed

section \<open>Lemmas\<close>

lemma set_top_documents: "set (top_documents k docs) \<subseteq> set docs"
  by (auto simp: top_documents_def Let_def dest: in_set_takeD)

lemma length_top_documents: "0 < k \<Longrightarrow> int (length (top_documents k docs)) \<le> k"
  by (simp add: top_documents_def Let_def)

lemma Search_Inr:
  "fst (Search U e t q k a) = Inr docs \<longleftrightarrow>
     t \<noteq> [] \<and> TrimSpace q \<noteq> [] \<and> 0 < k \<and>
     docs = top_documents k (map (to_document (text_score U q)) (records a t))"
  by (cases "t = []") (auto simp: Search_def Let_def TenantID_Validate_def)

lemma SearchByEmbedding_Inr:
  "fst (SearchByEmbedding e t v k a) = Inr docs \<longleftrightarrow>
     t \<noteq> [] \<and> v \<noteq> [] \<and> 0 < k \<and>
     docs = top_documents k
       (map (to_document (\<lambda>r. cosineSimilarity v (vr_Embedding r))) (records a t))"
  by (cases "t = []") (auto simp: SearchByEmbedding_def Let_def TenantID_Validate_def)

text \<open>A stable sort by a score of two values puts the high ones first and keeps both orders.\<close>

lemma SliceStable_two_values:
  fixes key :: "'a \<Rightarrow> 'k::linorder"
  assumes "\<forall>x \<in> set xs. key x = lo \<or> key x = hi" and "lo < hi"
  shows "SliceStable (by_key key) xs = filter (\<lambda>x. key x = lo) xs @ filter (\<lambda>x. key x = hi) xs"
proof (rule SliceStable_unique [symmetric])
  have hi: "filter (\<lambda>x. key x = hi) xs = filter (\<lambda>x. key x \<noteq> lo) xs"
    using assms by (intro filter_cong) auto
  show "mset (filter (\<lambda>x. key x = lo) xs @ filter (\<lambda>x. key x = hi) xs) = mset xs"
    by (simp add: hi)
  show "sorted (map key (filter (\<lambda>x. key x = lo) xs @ filter (\<lambda>x. key x = hi) xs))"
  proof -
    have "map key (filter (\<lambda>x. key x = c) xs) = replicate (length (filter (\<lambda>x. key x = c) xs)) c" for c
      by (induction xs) auto
    with assms(2) show ?thesis by (simp add: sorted_append less_imp_le)
  qed
  show "filter (\<lambda>x. key x = k) (filter (\<lambda>x. key x = lo) xs @ filter (\<lambda>x. key x = hi) xs)
      = filter (\<lambda>x. key x = k) xs" for k
  proof (cases "k = lo \<or> k = hi")
    case True
    with assms(2) show ?thesis by (auto simp: filter_filter filter_empty_conv conj_commute intro!: filter_cong)
  next
    case False
    with assms(1) have "filter (\<lambda>x. key x = k) xs = []" by (auto simp: filter_empty_conv)
    with False show ?thesis by (auto simp: filter_empty_conv)
  qed
qed

section \<open>Properties\<close>

text \<open>Tenant isolation of the store. After any sequence of upserts and purges, by any tenants, a search
  by text or by vector for a tenant returns at most \<^verbatim>\<open>topK\<close> documents, all of that tenant, each made of a
  valid record that was upserted for it.\<close>

theorem store_tenant_isolation:
  assumes "a = fold (apply_stub elapsed) ops NewAdapter"
    and "fst (Search U e t q k a) = Inr docs \<or> fst (SearchByEmbedding e t v k a) = Inr docs"
  shows "int (length docs) \<le> k \<and>
    (\<forall>d \<in> set docs. doc_TenantID d = t \<and>
       (\<exists>rs r. OpUpsert rs \<in> set ops \<and> r \<in> set rs \<and> vr_TenantID r = t \<and>
          VectorRecord_Validate r = None \<and> doc_DocumentID d = vr_RecordID r \<and>
          doc_Content d = vr_ChunkText r))"
proof -
  from assms(2) obtain score where k: "0 < k"
    and docs: "docs = top_documents k (map (to_document score) (records a t))"
    by (auto simp: Search_Inr SearchByEmbedding_Inr)
  have "doc_TenantID d = t \<and> (\<exists>rs r. OpUpsert rs \<in> set ops \<and> r \<in> set rs \<and> vr_TenantID r = t \<and>
      VectorRecord_Validate r = None \<and> doc_DocumentID d = vr_RecordID r \<and> doc_Content d = vr_ChunkText r)"
    if "d \<in> set docs" for d
  proof -
    from that obtain r where r: "r \<in> set (records a t)" "d = to_document score r"
      using set_top_documents by (fastforce simp: docs)
    then show ?thesis
      using stub.recs_scoped [of r elapsed ops t] assms(1) by (auto simp: to_document_def)
  qed
  with length_top_documents [OF k] show ?thesis by (simp add: docs)
qed

text \<open>C9: non-interference. What a tenant's searches return does not depend on the calls of other tenants:
  leaving out every upsert without a record of the tenant and every other tenant's purge gives the
  same answers.\<close>

theorem store_noninterference:
  "fst (Search U e t q k (fold (apply_stub elapsed) ops NewAdapter)) =
     fst (Search U e t q k (fold (apply_stub elapsed) (filter (concerns t) ops) NewAdapter)) \<and>
   fst (SearchByEmbedding e t v k (fold (apply_stub elapsed) ops NewAdapter)) =
     fst (SearchByEmbedding e t v k (fold (apply_stub elapsed) (filter (concerns t) ops) NewAdapter))"
proof -
  have "records (fold (apply_stub elapsed) ops NewAdapter) t =
      records (fold (apply_stub elapsed) (filter (concerns t) ops) NewAdapter) t"
    by (rule stub.recs_local)
  then show ?thesis
    by (cases "t = []") (simp_all add: Search_def SearchByEmbedding_def Let_def TenantID_Validate_def)
qed

text \<open>A purge forgets. After \<^verbatim>\<open>PurgeTenant\<close> a valid search for the tenant finds nothing until something is
  upserted for it again, and every other tenant finds what it found before.\<close>

theorem purge_forgets:
  assumes "t \<noteq> []" and "TrimSpace q \<noteq> []" and "0 < k"
  shows "fst (Search U e t q k (snd (PurgeTenant t a))) = Inr [] \<and>
    (\<forall>t'. t' \<noteq> t \<longrightarrow> fst (Search U e t' q k (snd (PurgeTenant t a))) = fst (Search U e t' q k a))"
proof -
  have recs: "records (snd (PurgeTenant t a)) t' = (if t' = t then [] else records a t')" for t'
    using assms(1) by (simp add: PurgeTenant_def records_def TenantID_Validate_def)
  have "top_documents k [] = []" by (simp add: top_documents_def SliceStable_def)
  with recs assms show ?thesis
    by (auto simp: Search_Inr) (simp add: Search_def Let_def TenantID_Validate_def)
qed

text \<open>The order of a text search. The documents whose text contains the query, ignoring case and
  surrounding white space, come first in insertion order, then the others in insertion order, cut to
  \<^verbatim>\<open>topK\<close>.\<close>

theorem text_search_matches_first:
  assumes "t \<noteq> []" and "TrimSpace q \<noteq> []" and "0 < k"
  shows "let hit = (\<lambda>r. Contains (ToLower U (vr_ChunkText r)) (ToLower U (TrimSpace q)))
    in fst (Search U e t q k a) = Inr (map (to_document (text_score U q))
         (take (nat k) (filter hit (records a t) @ filter (\<lambda>r. \<not> hit r) (records a t))))"
proof -
  let ?hit = "\<lambda>r. Contains (ToLower U (vr_ChunkText r)) (ToLower U (TrimSpace q))"
  let ?docs = "map (to_document (text_score U q)) (records a t)"
  have tenth: "fl (1 / 10) < 1"
    using fl_mono [of "1 / 10" "of_int 1 / 2"] fl_half [of 1] by simp
  have score: "doc_Score (to_document (text_score U q) r) = (if ?hit r then 1 else fl (1 / 10))" for r
    by (simp add: to_document_def text_score_def)
  have "SliceStable (by_key (\<lambda>d. - doc_Score d)) ?docs =
      filter (\<lambda>d. - doc_Score d = - 1) ?docs @ filter (\<lambda>d. - doc_Score d = - fl (1 / 10)) ?docs"
    by (rule SliceStable_two_values) (use tenth score in auto)
  also have "\<dots> = map (to_document (text_score U q))
      (filter ?hit (records a t) @ filter (\<lambda>r. \<not> ?hit r) (records a t))"
    using tenth by (simp add: filter_map o_def score)
  finally have sorted: "SliceStable (\<lambda>x y. doc_Score x > doc_Score y) ?docs = \<dots>" by simp
  have len: "length (filter ?hit (records a t) @ filter (\<lambda>r. \<not> ?hit r) (records a t)) = length (records a t)"
    by (simp add: sum_length_filter_compl)
  have "top_documents k ?docs = map (to_document (text_score U q))
      (take (nat k) (filter ?hit (records a t) @ filter (\<lambda>r. \<not> ?hit r) (records a t)))"
    unfolding top_documents_def Let_def sorted using assms(3) len by (auto simp: take_map)
  then show ?thesis using assms by (simp add: Search_Inr)
qed

section \<open>Witnesses\<close>

definition demo_record :: "string \<Rightarrow> TenantID \<Rightarrow> string \<Rightarrow> VectorRecord" where
  "demo_record i t txt =
     \<lparr>vr_RecordID = i, vr_TenantID = t, vr_JobID = ''j'', vr_ChunkText = txt, vr_Embedding = [1],
      vr_Metadata = [], vr_IndexedAt = 1, vr_SourceURI = ''s'', vr_ObjectKey = ''s'',
      vr_Checksum = ''c'', vr_RetryCount = 0\<rparr>"

definition demo_ops :: "store_op list" where
  "demo_ops = [OpUpsert [demo_record ''1'' ''a'' ''cat'', demo_record ''2'' ''b'' ''dog''], OpPurge ''b'']"

theorem store_tenant_isolation_witness:
  "\<exists>docs. fst (Search ascii_tables 0 ''a'' ''cat'' 3 (fold (apply_stub 0) demo_ops NewAdapter)) = Inr docs \<and>
     int (length docs) \<le> 3"
proof -
  have "TrimSpace ''cat'' \<noteq> []" by (simp add: string_eval)
  then obtain docs where *: "fst (Search ascii_tables 0 ''a'' ''cat'' 3
      (fold (apply_stub 0) demo_ops NewAdapter)) = Inr docs"
    by (simp add: Search_Inr)
  from store_tenant_isolation [OF refl disjI1 [OF *]] * show ?thesis by blast
qed

theorem purge_forgets_witness:
  "fst (Search ascii_tables 0 ''b'' ''dog'' 3 (snd (PurgeTenant ''b'' NewAdapter))) = Inr []"
proof -
  have "TrimSpace ''dog'' \<noteq> []" by (simp add: string_eval)
  from purge_forgets [OF _ this, of "''b''" 3 ascii_tables 0 NewAdapter] show ?thesis by simp
qed

theorem text_search_matches_first_witness:
  "\<exists>docs. fst (Search ascii_tables 0 ''a'' ''cat'' 3 (fold (apply_stub 0) demo_ops NewAdapter)) = Inr docs"
proof -
  have "TrimSpace ''cat'' \<noteq> []" by (simp add: string_eval)
  from text_search_matches_first [OF _ this, of "''a''" 3 ascii_tables 0] show ?thesis by (simp add: Let_def)
qed

end
