(* ===== verification/Rerank_Gateway.thy ===== *)
theory Rerank_Gateway
  imports Vector_Store Go_Format
begin

text \<open>
  The rerankers behind a gateway: \<^verbatim>\<open>internal/adapters/gateway/portkey/reranker.go\<close> (retries, fallback
  modes, circuit breaker) and \<^verbatim>\<open>internal/adapters/gateway/cohere/reranker.go\<close> (no retries, always falls
  back to the retrieval order). HTTP and JSON are outside: a call is an operation on a state \<open>'w\<close> that
  yields its outcome and the milliseconds it took; a decoder gives the value of a body.
\<close>

section \<open>Circuit breakers\<close>

text \<open>
  The contract the breakers of the rerankers and of the retrieval service share: a counter of failures
  in a row and a threshold. A call with the counter at the threshold leaves it alone; below, a call
  clears it, adds one, or leaves it.
\<close>

locale circuit_breaker =
  fixes step :: "'i \<Rightarrow> 's \<Rightarrow> 's"
    and failures :: "'s \<Rightarrow> int"
    and threshold :: "'s \<Rightarrow> int"
  assumes open_keeps: "threshold s \<le> failures s \<Longrightarrow> failures (step i s) = failures s"
    and closed_step: "failures s < threshold s \<Longrightarrow> 0 \<le> failures s \<Longrightarrow> is_int64 (threshold s) \<Longrightarrow>
      failures (step i s) \<in> {0, failures s, failures s + 1}"
    and threshold_step: "threshold (step i s) = threshold s"
begin

lemma threshold_run: "threshold (fold step is s) = threshold s"
  by (induction "is" arbitrary: s) (simp_all add: threshold_step)

text \<open>Once open, open for good: no later call closes it.\<close>

lemma open_forever: "threshold s \<le> failures s \<Longrightarrow> failures (fold step is s) = failures s"
  by (induction "is" arbitrary: s) (simp_all add: open_keeps threshold_step)

lemma counter_bounds:
  "0 \<le> failures s \<Longrightarrow> failures s \<le> threshold s \<Longrightarrow> 0 < threshold s \<Longrightarrow> is_int64 (threshold s) \<Longrightarrow>
   0 \<le> failures (fold step is s) \<and> failures (fold step is s) \<le> threshold s"
proof (induction "is" arbitrary: s)
  case (Cons i "is")
  have "0 \<le> failures (step i s) \<and> failures (step i s) \<le> threshold s"
  proof (cases "failures s < threshold s")
    case True
    from closed_step [OF True Cons.prems(1,4), of i] True Cons.prems show ?thesis by auto
  next
    case False
    with Cons.prems open_keeps [of s i] show ?thesis by simp
  qed
  with Cons.IH [of "step i s"] Cons.prems show ?case by (simp add: threshold_step)
qed simp

text \<open>Fewer calls than the threshold cannot open a breaker that starts at zero.\<close>

lemma opens_late:
  assumes "failures s = 0" and "0 < threshold s" and "is_int64 (threshold s)"
    and "threshold s \<le> failures (fold step is s)"
  shows "threshold s \<le> int (length is)"
proof -
  have "0 \<le> failures s \<Longrightarrow> failures s \<le> threshold s \<Longrightarrow> 0 < threshold s \<Longrightarrow> is_int64 (threshold s) \<Longrightarrow>
      failures (fold step is s) \<le> failures s + int (length is)" for s
  proof (induction "is" arbitrary: s)
    case (Cons i "is")
    have st: "0 \<le> failures (step i s) \<and> failures (step i s) \<le> threshold s \<and>
        failures (step i s) \<le> failures s + 1"
    proof (cases "failures s < threshold s")
      case True
      from closed_step [OF True Cons.prems(1,4), of i] True Cons.prems show ?thesis by auto
    next
      case False
      with Cons.prems open_keeps [of s i] show ?thesis by simp
    qed
    with Cons.IH [of "step i s"] Cons.prems show ?case by (simp add: threshold_step)
  qed simp
  from this [of s] assms show ?thesis by simp
qed

end

section \<open>The portkey reranker\<close>

record TokenUsage =
  tu_Input :: int
  tu_Output :: int
  tu_Total :: int

record gateway_request =
  gr_TenantID :: TenantID
  gr_RequestID :: string
  gr_QueryText :: string
  gr_Candidates :: "RerankCandidate list"
  gr_TopN :: int
  gr_Metadata :: strmap

record portkey_config =
  pk_BaseURL :: string
  pk_APIKey :: string
  pk_Timeout :: duration
  pk_RetryMax :: int
  pk_CircuitFailureThreshold :: int
  pk_FallbackMode :: string
  pk_DirectAllowlist :: "string list"
  pk_Model :: string
  pk_ProviderKey :: string

record RerankerAdapter =
  ra_cfg :: portkey_config
  ra_failures :: int
  ra_lastTrace :: GatewayCallTrace
  ra_lastMetadata :: strmap

text \<open>\<^verbatim>\<open>Client.Rerank\<close> under the timeout context: candidates and usage or an error (the deadline error when
  the timeout expires), and the elapsed milliseconds.\<close>

type_synonym 'w rerank_client =
  "gateway_request \<Rightarrow> 'w \<Rightarrow> ((RerankCandidate list \<times> TokenUsage) result \<times> int) \<times> 'w"

definition empty_trace :: GatewayCallTrace where
  "empty_trace =
     \<lparr>gt_Provider = [], gt_Model = [], gt_LatencyMillis = 0, gt_TokenInput = 0, gt_TokenOutput = 0,
      gt_TokenTotal = 0, gt_Status = [], gt_FallbackReason = []\<rparr>"

definition validateFallbackMode :: "unicode_tables \<Rightarrow> string \<Rightarrow> error option" where
  "validateFallbackMode U mode =
     (if mode \<in> {''fail_closed'', ''direct_allowlist'', ''retrieval_only''} then None
      else Some (ErrorString (''unsupported FINE_RAG_GATEWAY_FALLBACK_MODE '' @ Quote U mode)))"

definition NewRerankerAdapter :: "unicode_tables \<Rightarrow> portkey_config \<Rightarrow> RerankerAdapter result" where
  "NewRerankerAdapter U cfg0 =
     (if TrimSpace (pk_BaseURL cfg0) = []
      then Inl (ErrorString ''FINE_RAG_PORTKEY_BASE_URL is required when FINE_RAG_GATEWAY_PROVIDER=portkey'')
      else if TrimSpace (pk_APIKey cfg0) = []
      then Inl (ErrorString ''FINE_RAG_PORTKEY_API_KEY is required when FINE_RAG_GATEWAY_PROVIDER=portkey'')
      else
        let cfg = cfg0\<lparr>
              pk_Timeout := (if pk_Timeout cfg0 \<le> 0 then 12 * nanos_per_second else pk_Timeout cfg0),
              pk_RetryMax := (if pk_RetryMax cfg0 < 0 then 0 else pk_RetryMax cfg0),
              pk_CircuitFailureThreshold :=
                (if pk_CircuitFailureThreshold cfg0 \<le> 0 then 3 else pk_CircuitFailureThreshold cfg0),
              pk_FallbackMode :=
                (if pk_FallbackMode cfg0 = [] then ''retrieval_only'' else pk_FallbackMode cfg0)\<rparr>
        in case validateFallbackMode U (pk_FallbackMode cfg) of
             Some e \<Rightarrow> Inl e
           | None \<Rightarrow> Inr \<lparr>ra_cfg = cfg, ra_failures = 0, ra_lastTrace = empty_trace, ra_lastMetadata = []\<rparr>)"

definition toGatewayRequest :: "RerankRequest \<Rightarrow> gateway_request" where
  "toGatewayRequest req =
     \<lparr>gr_TenantID = rk_TenantID req, gr_RequestID = rk_RequestID req, gr_QueryText = rk_QueryText req,
      gr_Candidates = rk_Candidates req, gr_TopN = rk_TopN req,
      gr_Metadata = [(''tenant_id'', rk_TenantID req), (''request_id'', rk_RequestID req)]\<rparr>"

definition isAllowlisted :: "TenantID \<Rightarrow> string list \<Rightarrow> bool" where
  "isAllowlisted tenantID allowlist = list_ex (\<lambda>item. item = tenantID) allowlist"

definition isCircuitOpen :: "RerankerAdapter \<Rightarrow> bool" where
  "isCircuitOpen r \<longleftrightarrow> ra_failures r \<ge> pk_CircuitFailureThreshold (ra_cfg r)"

definition registerFailure :: "RerankerAdapter \<Rightarrow> RerankerAdapter" where
  "registerFailure r = r\<lparr>ra_failures := inc64 (ra_failures r)\<rparr>"

definition resetFailures :: "RerankerAdapter \<Rightarrow> RerankerAdapter" where
  "resetFailures r = r\<lparr>ra_failures := 0\<rparr>"

definition recordTrace :: "GatewayCallTrace \<Rightarrow> RerankerAdapter \<Rightarrow> RerankerAdapter" where
  "recordTrace trace r = r\<lparr>ra_lastTrace := trace\<rparr>"

definition applyFallback ::
  "portkey_config \<Rightarrow> RerankRequest \<Rightarrow> error \<Rightarrow> RerankCandidate list result" where
  "applyFallback cfg req err =
     (if pk_FallbackMode cfg = ''retrieval_only'' then Inr (TopCandidates req)
      else if pk_FallbackMode cfg = ''direct_allowlist''
      then if isAllowlisted (rk_TenantID req) (pk_DirectAllowlist cfg) then Inr (TopCandidates req)
           else Inl (WrapError (''fallback blocked for tenant: '' @ error_text err) err)
      else Inl err)"

text \<open>The attempts: \<open>n\<close> are left. Each sets the outbound metadata before the call. The result is the
  client's answer with its latency, or the last error.\<close>

fun attempts ::
  "unicode_tables \<Rightarrow> 'w rerank_client \<Rightarrow> RerankRequest \<Rightarrow> nat \<Rightarrow> error \<Rightarrow> RerankerAdapter \<Rightarrow> 'w \<Rightarrow>
   (error + (RerankCandidate list \<times> TokenUsage) \<times> int) \<times> RerankerAdapter \<times> 'w" where
  "attempts U client req 0 lastErr r w = (Inl lastErr, r, w)"
| "attempts U client req (Suc n) lastErr r w =
     (let gwReq = toGatewayRequest req;
          r1 = r\<lparr>ra_lastMetadata :=
                 [(''tenant_id'', rk_TenantID req), (''request_id'', rk_RequestID req)]\<rparr>
      in case client gwReq w of
           ((Inr (candidates, usage), elapsed), w1) \<Rightarrow> (Inr ((candidates, usage), elapsed), r1, w1)
         | ((Inl err, elapsed), w1) \<Rightarrow>
             attempts U client req n
               (ProviderError (error_category U err) ''portkey'' ''rerank'' (Some err)) r1 w1)"

definition Portkey_Rerank ::
  "unicode_tables \<Rightarrow> 'w rerank_client \<Rightarrow> RerankRequest \<Rightarrow> RerankerAdapter \<Rightarrow> 'w \<Rightarrow>
   RerankCandidate list result \<times> RerankerAdapter \<times> 'w" where
  "Portkey_Rerank U client req r w =
     (case RerankRequest_Validate req of
        Some e \<Rightarrow> (Inl (validation_error ''rerank_request'' e), r, w)
      | None \<Rightarrow>
          if isCircuitOpen r then
            let reason = ''gateway_circuit_open'';
                r1 = recordTrace (empty_trace\<lparr>gt_Provider := ''portkey'', gt_Status := ''circuit_open'',
                       gt_FallbackReason := reason\<rparr>) r
            in (applyFallback (ra_cfg r) req (ErrorString reason), r1, w)
          else
            (case attempts U client req (nat (pk_RetryMax (ra_cfg r) + 1)) (ErrorString []) r w of
               (Inr ((candidates, usage), elapsed), r1, w1) \<Rightarrow>
                 (Inr candidates,
                  recordTrace
                    \<lparr>gt_Provider = ''portkey'', gt_Model = ''portkey-rerank'', gt_LatencyMillis = elapsed,
                     gt_TokenInput = tu_Input usage, gt_TokenOutput = tu_Output usage,
                     gt_TokenTotal = tu_Total usage, gt_Status = ''ok'', gt_FallbackReason = []\<rparr>
                    (resetFailures r1), w1)
             | (Inl lastErr, r1, w1) \<Rightarrow>
                 let reason = (if is_deadline lastErr then ''gateway_timeout'' else ''gateway_error'')
                 in (applyFallback (ra_cfg r) req lastErr,
                     recordTrace (empty_trace\<lparr>gt_Provider := ''portkey'', gt_Status := ''fallback'',
                       gt_FallbackReason := reason\<rparr>) (registerFailure r1), w1)))"

definition RedactedAPIKey :: "RerankerAdapter \<Rightarrow> string" where
  "RedactedAPIKey r = (if TrimSpace (pk_APIKey (ra_cfg r)) = [] then [] else ''REDACTED'')"

definition BuildAuditAttributes :: "RerankRequest \<Rightarrow> GatewayCallTrace \<Rightarrow> strmap" where
  "BuildAuditAttributes req trace =
     [(''tenant_id'', rk_TenantID req), (''request_id'', rk_RequestID req),
      (''provider'', gt_Provider trace), (''status'', gt_Status trace),
      (''fallback_reason'', gt_FallbackReason trace)]"

definition stubReranker_Rerank :: "RerankRequest \<Rightarrow> RerankCandidate list result" where
  "stubReranker_Rerank req = Inr (TopCandidates req)"

section \<open>The HTTP clients\<close>

record http_call =
  hc_url :: string
  hc_headers :: strmap
  hc_model :: string
  hc_query :: string
  hc_documents :: "string list"
  hc_top_n :: "int option"

record rerank_payload =
  rp_results :: "(int \<times> float64) list"
  rp_units :: int

text \<open>A response is a status and a body; \<open>decode\<close> reads the body.\<close>

type_synonym 'w http_do = "http_call \<Rightarrow> 'w \<Rightarrow> (int \<times> string) result \<times> 'w"

fun trim_slashes :: "string \<Rightarrow> string" where
  "trim_slashes s = rev (dropWhile (\<lambda>c. c = CHR ''/'') (rev s))"

text \<open>The loop over the results: an index out of range is skipped.\<close>

definition select_candidates ::
  "RerankCandidate list \<Rightarrow> (int \<times> float64) list \<Rightarrow> RerankCandidate list" where
  "select_candidates cs results =
     map (\<lambda>(i, s). (cs ! nat i)\<lparr>rc_Score := s\<rparr>)
       (filter (\<lambda>(i, s). 0 \<le> i \<and> i < int (length cs)) results)"

definition portkeyRerankClient_Rerank ::
  "portkey_config \<Rightarrow> 'w http_do \<Rightarrow> (string \<Rightarrow> rerank_payload result) \<Rightarrow> gateway_request \<Rightarrow> 'w \<Rightarrow>
   (RerankCandidate list \<times> TokenUsage) result \<times> 'w" where
  "portkeyRerankClient_Rerank cfg do_http decode req w =
     (let call =
            \<lparr>hc_url = trim_slashes (pk_BaseURL cfg) @ ''/v1/rerank'',
             hc_headers =
               [(''Content-Type'', ''application/json''), (''x-portkey-api-key'', TrimSpace (pk_APIKey cfg))] @
               (if pk_ProviderKey cfg \<noteq> []
                then [(''Authorization'', ''Bearer '' @ TrimSpace (pk_ProviderKey cfg))] else []),
             hc_model = (if pk_Model cfg = [] then ''portkey-rerank'' else pk_Model cfg),
             hc_query = gr_QueryText req,
             hc_documents = map rc_Text (gr_Candidates req),
             hc_top_n = (if gr_TopN req > 0 then Some (gr_TopN req) else None)\<rparr>
      in case do_http call w of
           (Inl e, w1) \<Rightarrow> (Inl e, w1)
         | (Inr (status, body), w1) \<Rightarrow>
             if status < 200 \<or> status \<ge> 300
             then (Inl (ErrorString (''portkey rerank failed: status='' @ Itoa status @ '' body='' @ body)), w1)
             else (case decode body of
                     Inl e \<Rightarrow> (Inl e, w1)
                   | Inr payload \<Rightarrow>
                       if rp_results payload = [] then (Inl (ErrorString ''empty rerank response''), w1)
                       else (Inr (select_candidates (gr_Candidates req) (rp_results payload),
                                  \<lparr>tu_Input = 0, tu_Output = 0, tu_Total = rp_units payload\<rparr>), w1)))"

section \<open>The cohere reranker\<close>

record cohere_config =
  ch_APIKey :: string
  ch_Model :: string
  ch_Timeout :: duration
  ch_RetryMax :: int
  ch_CircuitFailureThreshold :: int

record CohereReranker =
  co_cfg :: cohere_config
  co_failures :: int
  co_lastTrace :: GatewayCallTrace

definition NewCohereReranker :: "cohere_config \<Rightarrow> CohereReranker result" where
  "NewCohereReranker cfg =
     (if TrimSpace (ch_APIKey cfg) = [] then Inl (ErrorString ''cohere api key is required'')
      else Inr
        \<lparr>co_cfg = cfg\<lparr>
           ch_Model := (if TrimSpace (ch_Model cfg) = [] then ''rerank-v4.0-pro'' else ch_Model cfg),
           ch_Timeout := (if ch_Timeout cfg \<le> 0 then 12 * nanos_per_second else ch_Timeout cfg),
           ch_CircuitFailureThreshold :=
             (if ch_CircuitFailureThreshold cfg \<le> 0 then 3 else ch_CircuitFailureThreshold cfg)\<rparr>,
         co_failures = 0, co_lastTrace = empty_trace\<rparr>)"

definition Cohere_recordTrace :: "string \<Rightarrow> int \<Rightarrow> int \<Rightarrow> CohereReranker \<Rightarrow> CohereReranker" where
  "Cohere_recordTrace status latency units r =
     r\<lparr>co_lastTrace := empty_trace\<lparr>gt_Provider := ''cohere'', gt_Model := ch_Model (co_cfg r),
        gt_Status := status, gt_LatencyMillis := latency, gt_TokenTotal := units\<rparr>\<rparr>"

definition Cohere_Rerank ::
  "('w \<Rightarrow> int) \<Rightarrow> 'w http_do \<Rightarrow> (string \<Rightarrow> rerank_payload result) \<Rightarrow> RerankRequest \<Rightarrow> CohereReranker \<Rightarrow> 'w \<Rightarrow>
   RerankCandidate list result \<times> CohereReranker \<times> 'w" where
  "Cohere_Rerank elapsed do_http decode req r w =
     (case RerankRequest_Validate req of
        Some e \<Rightarrow> (Inl (validation_error ''cohere_rerank_request'' e), r, w)
      | None \<Rightarrow>
          if length (rk_Candidates req) < 3 then (Inr (TopCandidates req), r, w)
          else if co_failures r \<ge> ch_CircuitFailureThreshold (co_cfg r) then (Inr (TopCandidates req), r, w)
          else
            let call =
                  \<lparr>hc_url = ''https://api.cohere.com/v2/rerank'',
                   hc_headers = [(''Authorization'', ''Bearer '' @ TrimSpace (ch_APIKey (co_cfg r))),
                                 (''Content-Type'', ''application/json'')],
                   hc_model = ch_Model (co_cfg r), hc_query = rk_QueryText req,
                   hc_documents = map rc_Text (rk_Candidates req), hc_top_n = Some (rk_TopN req)\<rparr>;
                failed = (\<lambda>status w1. Cohere_recordTrace status (elapsed w1) 0
                            (r\<lparr>co_failures := inc64 (co_failures r)\<rparr>))
            in case do_http call w of
                 (Inl e, w1) \<Rightarrow> (Inr (TopCandidates req), failed ''timeout'' w1, w1)
               | (Inr (status, body), w1) \<Rightarrow>
                   if status < 200 \<or> status \<ge> 300
                   then (Inr (TopCandidates req), failed ''error'' w1, w1)
                   else
                     let r1 = r\<lparr>co_failures := 0\<rparr>
                     in case decode body of
                          Inl e \<Rightarrow> (Inr (TopCandidates req), r1, w1)
                        | Inr payload \<Rightarrow>
                            if rp_results payload = [] then (Inr (TopCandidates req), r1, w1)
                            else (Inr (select_candidates (rk_Candidates req) (rp_results payload)),
                                  Cohere_recordTrace ''ok'' (elapsed w1) (rp_units payload) r1, w1))"

section \<open>Lemmas\<close>

declare RerankRequest_Validate_None [simp del]

lemma attempts_state:
  "attempts U client req n e r w = (res, r', w') \<Longrightarrow>
   ra_cfg r' = ra_cfg r \<and> ra_failures r' = ra_failures r"
proof (induction U client req n e r w rule: attempts.induct)
  case (2 U client req n lastErr r w)
  show ?case
  proof (cases "fst (fst (client (toGatewayRequest req) w))")
    case (Inl err)
    with 2 show ?thesis by (auto simp: Let_def split: prod.splits)
  next
    case (Inr ok)
    with 2(2) show ?thesis by (auto simp: Let_def split: prod.splits)
  qed
qed simp

text \<open>How one call moves the failure counter.\<close>

lemma Portkey_Rerank_failures:
  "ra_cfg (fst (snd (Portkey_Rerank U client req r w))) = ra_cfg r \<and>
   (isCircuitOpen r \<longrightarrow> ra_failures (fst (snd (Portkey_Rerank U client req r w))) = ra_failures r) \<and>
   ra_failures (fst (snd (Portkey_Rerank U client req r w))) \<in> {0, ra_failures r, inc64 (ra_failures r)}"
proof (cases "RerankRequest_Validate req")
  case (Some e)
  then show ?thesis by (simp add: Portkey_Rerank_def)
next
  case None
  obtain res r' w' where run: "attempts U client req (nat (pk_RetryMax (ra_cfg r) + 1)) (ErrorString []) r w
      = (res, r', w')" by (metis prod_cases3)
  from attempts_state [OF this] None run show ?thesis
    by (cases res) (auto simp: Portkey_Rerank_def recordTrace_def resetFailures_def registerFailure_def
        Let_def split: prod.split)
qed

definition portkey_step ::
  "unicode_tables \<times> 'w rerank_client \<times> RerankRequest \<times> 'w \<Rightarrow> RerankerAdapter \<Rightarrow> RerankerAdapter" where
  "portkey_step i r = (case i of (U, client, req, w) \<Rightarrow> fst (snd (Portkey_Rerank U client req r w)))"

interpretation portkey_breaker: circuit_breaker portkey_step ra_failures
  "\<lambda>r. pk_CircuitFailureThreshold (ra_cfg r)"
proof
  fix r :: RerankerAdapter and i :: "unicode_tables \<times> 'a rerank_client \<times> RerankRequest \<times> 'a"
  obtain U client req w where i: "i = (U, client, req, w)" by (metis prod_cases4)
  note f = Portkey_Rerank_failures [of U client req r w]
  show "pk_CircuitFailureThreshold (ra_cfg r) \<le> ra_failures r \<Longrightarrow> ra_failures (portkey_step i r) = ra_failures r"
    using f by (simp add: portkey_step_def i isCircuitOpen_def)
  show "pk_CircuitFailureThreshold (ra_cfg (portkey_step i r)) = pk_CircuitFailureThreshold (ra_cfg r)"
    using f by (simp add: portkey_step_def i)
  assume "ra_failures r < pk_CircuitFailureThreshold (ra_cfg r)" and "0 \<le> ra_failures r"
    and "is_int64 (pk_CircuitFailureThreshold (ra_cfg r))"
  then have "inc64 (ra_failures r) = ra_failures r + 1" by (intro inc64_small)
  with f show "ra_failures (portkey_step i r) \<in> {0, ra_failures r, ra_failures r + 1}"
    by (simp add: portkey_step_def i)
qed

definition cohere_step ::
  "('w \<Rightarrow> int) \<times> 'w http_do \<times> (string \<Rightarrow> rerank_payload result) \<times> RerankRequest \<times> 'w \<Rightarrow>
   CohereReranker \<Rightarrow> CohereReranker" where
  "cohere_step i r =
     (case i of (elapsed, do_http, decode, req, w) \<Rightarrow>
        fst (snd (Cohere_Rerank elapsed do_http decode req r w)))"

lemma Cohere_Rerank_failures:
  "co_cfg (fst (snd (Cohere_Rerank el h dc req r w))) = co_cfg r \<and>
   (ch_CircuitFailureThreshold (co_cfg r) \<le> co_failures r \<longrightarrow>
      co_failures (fst (snd (Cohere_Rerank el h dc req r w))) = co_failures r) \<and>
   co_failures (fst (snd (Cohere_Rerank el h dc req r w))) \<in> {0, co_failures r, inc64 (co_failures r)}"
  by (cases "RerankRequest_Validate req")
    (auto simp: Cohere_Rerank_def Cohere_recordTrace_def Let_def split: prod.split sum.split)

interpretation cohere_breaker: circuit_breaker cohere_step co_failures
  "\<lambda>r. ch_CircuitFailureThreshold (co_cfg r)"
proof
  fix r :: CohereReranker
    and i :: "('a \<Rightarrow> int) \<times> 'a http_do \<times> (string \<Rightarrow> rerank_payload result) \<times> RerankRequest \<times> 'a"
  obtain el h dc req w where i: "i = (el, h, dc, req, w)" by (metis prod_cases5)
  note f = Cohere_Rerank_failures [of el h dc req r w]
  show "ch_CircuitFailureThreshold (co_cfg r) \<le> co_failures r \<Longrightarrow> co_failures (cohere_step i r) = co_failures r"
    using f by (simp add: cohere_step_def i)
  show "ch_CircuitFailureThreshold (co_cfg (cohere_step i r)) = ch_CircuitFailureThreshold (co_cfg r)"
    using f by (simp add: cohere_step_def i)
  assume "co_failures r < ch_CircuitFailureThreshold (co_cfg r)" and "0 \<le> co_failures r"
    and "is_int64 (ch_CircuitFailureThreshold (co_cfg r))"
  then have "inc64 (co_failures r) = co_failures r + 1" by (intro inc64_small)
  with f show "co_failures (cohere_step i r) \<in> {0, co_failures r, co_failures r + 1}"
    by (simp add: cohere_step_def i)
qed

text \<open>The attempts against a client whose answers are numbered.\<close>

lemma attempts_success:
  assumes "\<forall>j < i. \<exists>e. fst (out (k + j)) = Inl e" and "out (k + i) = (Inr ok, t)" and "i < n"
  shows "\<exists>r'. attempts U (\<lambda>q k. (out k, Suc k)) req n e r k = (Inr (ok, t), r', Suc (k + i)) \<and>
    ra_cfg r' = ra_cfg r"
  using assms
proof (induction n arbitrary: i k e r)
  case (Suc n)
  show ?case
  proof (cases i)
    case 0
    with Suc.prems(2) show ?thesis by (cases ok) (simp add: Let_def)
  next
    case (Suc i')
    from Suc.prems(1) Suc obtain err t' where out: "out k = (Inl err, t')"
      by (metis add_0_right prod.collapse zero_less_Suc)
    have pre: "\<forall>j < i'. \<exists>e. fst (out (Suc k + j)) = Inl e"
      using Suc.prems(1) Suc by (auto dest: spec [of _ "Suc _"])
    obtain r' where "attempts U (\<lambda>q k. (out k, Suc k)) req n
        (ProviderError (error_category U err) ''portkey'' ''rerank'' (Some err))
        (r\<lparr>ra_lastMetadata := [(''tenant_id'', rk_TenantID req), (''request_id'', rk_RequestID req)]\<rparr>)
        (Suc k) = (Inr (ok, t), r', Suc (Suc k + i'))" "ra_cfg r' = ra_cfg r"
      using Suc.IH [OF pre, where e = "ProviderError (error_category U err) ''portkey'' ''rerank'' (Some err)" and
          r = "r\<lparr>ra_lastMetadata := [(''tenant_id'', rk_TenantID req), (''request_id'', rk_RequestID req)]\<rparr>"]
        Suc.prems(2,3) Suc by auto
    with out Suc show ?thesis by (simp add: Let_def)
  qed
qed simp

lemma attempts_exhausted:
  assumes "\<forall>j < n. \<exists>e. fst (out (k + j)) = Inl e" and "0 < n"
  shows "\<exists>r' err. attempts U (\<lambda>q k. (out k, Suc k)) req n e r k =
      (Inl (ProviderError (error_category U err) ''portkey'' ''rerank'' (Some err)), r', k + n) \<and>
    fst (out (k + n - 1)) = Inl err \<and> ra_cfg r' = ra_cfg r \<and> ra_failures r' = ra_failures r"
  using assms
proof (induction n arbitrary: k e r)
  case (Suc n)
  obtain err t where out: "out k = (Inl err, t)"
    using Suc.prems(1) by (metis add_0_right prod.collapse zero_less_Suc)
  show ?case
  proof (cases "n = 0")
    case True
    with out show ?thesis by (simp add: Let_def)
  next
    case False
    have pre: "\<forall>j < n. \<exists>e. fst (out (Suc k + j)) = Inl e"
      using Suc.prems(1) by (auto dest: spec [of _ "Suc _"])
    let ?e = "ProviderError (error_category U err) ''portkey'' ''rerank'' (Some err)"
    let ?r = "r\<lparr>ra_lastMetadata := [(''tenant_id'', rk_TenantID req), (''request_id'', rk_RequestID req)]\<rparr>"
    have "attempts U (\<lambda>q k. (out k, Suc k)) req (Suc n) e r k =
        attempts U (\<lambda>q k. (out k, Suc k)) req n ?e ?r (Suc k)"
      using out by (simp add: Let_def)
    with Suc.IH [OF pre, where e = ?e and r = ?r] False show ?thesis by simp
  qed
qed simp

lemma select_candidates_from:
  "c \<in> set (select_candidates cs results) \<Longrightarrow>
   \<exists>c' \<in> set cs. rc_DocumentID c = rc_DocumentID c' \<and> rc_Text c = rc_Text c'"
  by (auto simp: select_candidates_def)

lemma portkey_first_success:
  assumes "RerankRequest_Validate req = None" and "\<not> isCircuitOpen r"
    and "Portkey_Rerank U (\<lambda>q k. (out k, Suc k)) req r 0 = (res, r', calls)"
    and "int i \<le> pk_RetryMax (ra_cfg r)" and "out i = (Inr (cs, u), t)"
    and "\<forall>j < i. \<exists>e. fst (out j) = Inl e"
  shows "res = Inr cs \<and> calls = Suc i \<and> ra_failures r' = 0"
proof -
  let ?n = "nat (pk_RetryMax (ra_cfg r) + 1)"
  have "i < ?n" using assms(4) by linarith
  with attempts_success [of i out 0 "(cs, u)" t ?n U req "ErrorString []" r] assms(5,6) obtain r1 where
    "attempts U (\<lambda>q k. (out k, Suc k)) req ?n (ErrorString []) r 0 = (Inr ((cs, u), t), r1, Suc i)" by auto
  with assms(1-3) show ?thesis
    by (auto simp: Portkey_Rerank_def recordTrace_def resetFailures_def)
qed

lemma portkey_all_fail:
  assumes "RerankRequest_Validate req = None" and "\<not> isCircuitOpen r" and "0 \<le> pk_RetryMax (ra_cfg r)"
    and "Portkey_Rerank U (\<lambda>q k. (out k, Suc k)) req r 0 = (res, r', calls)"
    and "\<forall>i. int i \<le> pk_RetryMax (ra_cfg r) \<longrightarrow> (\<exists>e. fst (out i) = Inl e)"
  shows "int calls = pk_RetryMax (ra_cfg r) + 1 \<and> ra_failures r' = inc64 (ra_failures r) \<and>
      (\<exists>e. fst (out (nat (pk_RetryMax (ra_cfg r)))) = Inl e \<and>
         res = applyFallback (ra_cfg r) req
           (ProviderError (error_category U e) ''portkey'' ''rerank'' (Some e)))"
proof -
  let ?n = "nat (pk_RetryMax (ra_cfg r) + 1)"
  have "\<forall>j < ?n. \<exists>e. fst (out (0 + j)) = Inl e" using assms(5) by auto
  from attempts_exhausted [OF this, where U = U and req = req and e = "ErrorString []" and r = r] assms(3)
  obtain r1 err where
    "attempts U (\<lambda>q k. (out k, Suc k)) req ?n (ErrorString []) r 0 =
      (Inl (ProviderError (error_category U err) ''portkey'' ''rerank'' (Some err)), r1, ?n)"
    "fst (out (?n - 1)) = Inl err" "ra_failures r1 = ra_failures r" by auto
  moreover have "?n - 1 = nat (pk_RetryMax (ra_cfg r))" using assms(3) by (simp add: nat_add_distrib)
  ultimately show ?thesis
    using assms(1-4) by (auto simp: Portkey_Rerank_def recordTrace_def registerFailure_def Let_def)
qed

text \<open>Either every allowed attempt fails, or there is a first success among them.\<close>

lemma first_success_or_none:
  assumes "\<not> (\<forall>i. int i \<le> n \<longrightarrow> (\<exists>e. fst (out i) = Inl e))"
  shows "\<exists>i cs u t. int i \<le> n \<and> out i = (Inr (cs, u), t) \<and> (\<forall>j < i. \<exists>e. fst (out j) = Inl e)"
proof -
  let ?ok = "\<lambda>i. \<nexists>e. fst (out i) = Inl e"
  from assms obtain i0 where i0: "int i0 \<le> n" "?ok i0" by auto
  define i where "i = (LEAST i. ?ok i)"
  have i: "?ok i" "i \<le> i0" using LeastI [of ?ok, OF i0(2)] Least_le [of ?ok, OF i0(2)] by (simp_all add: i_def)
  moreover have "\<forall>j < i. \<exists>e. fst (out j) = Inl e" using not_less_Least by (auto simp: i_def)
  moreover obtain cs u t where "out i = (Inr (cs, u), t)"
    using i(1) by (metis obj_sumE prod.collapse)
  ultimately show ?thesis using i0(1) by (intro exI [of _ i]) auto
qed

section \<open>Properties\<close>

text \<open>C22: the retry budget. With the breaker closed, \<^verbatim>\<open>Rerank\<close> calls the gateway until the first success and at
  most \<^verbatim>\<open>RetryMax + 1\<close> times. The first success is returned and clears the failure counter; when every
  attempt fails, the counter grows by one and the fallback decides, on the last attempt's error with
  its category.\<close>

theorem portkey_retry_budget:
  assumes "RerankRequest_Validate req = None" and "\<not> isCircuitOpen r" and "0 \<le> pk_RetryMax (ra_cfg r)"
    and "Portkey_Rerank U (\<lambda>q k. (out k, Suc k)) req r 0 = (res, r', calls)"
  shows "int calls \<le> pk_RetryMax (ra_cfg r) + 1 \<and>
    (\<forall>i cs u t. int i \<le> pk_RetryMax (ra_cfg r) \<and> out i = (Inr (cs, u), t) \<and>
        (\<forall>j < i. \<exists>e. fst (out j) = Inl e) \<longrightarrow>
      res = Inr cs \<and> calls = Suc i \<and> ra_failures r' = 0) \<and>
    ((\<forall>i. int i \<le> pk_RetryMax (ra_cfg r) \<longrightarrow> (\<exists>e. fst (out i) = Inl e)) \<longrightarrow>
      int calls = pk_RetryMax (ra_cfg r) + 1 \<and> ra_failures r' = inc64 (ra_failures r) \<and>
      (\<exists>e. fst (out (nat (pk_RetryMax (ra_cfg r)))) = Inl e \<and>
         res = applyFallback (ra_cfg r) req
           (ProviderError (error_category U e) ''portkey'' ''rerank'' (Some e))))"
proof -
  note first = portkey_first_success [OF assms(1,2,4)]
  note all = portkey_all_fail [OF assms]
  have "int calls \<le> pk_RetryMax (ra_cfg r) + 1"
  proof (cases "\<forall>i. int i \<le> pk_RetryMax (ra_cfg r) \<longrightarrow> (\<exists>e. fst (out i) = Inl e)")
    case False
    from first_success_or_none [OF this] first show ?thesis by fastforce
  qed (use all in simp)
  with first all show ?thesis by blast
qed

text \<open>The fallback modes. With the breaker open, \<^verbatim>\<open>retrieval_only\<close> answers with the retrieval order, \<^verbatim>\<open>direct_allowlist\<close> does so for listed
  tenants and fails for the others, and \<^verbatim>\<open>fail_closed\<close> always fails. The gateway is not called, and the
  failure counter is left alone.\<close>

theorem portkey_fallback_modes:
  assumes "RerankRequest_Validate req = None" and "isCircuitOpen r"
    and "Portkey_Rerank U client req r w = (res, r', w')"
  shows "w' = w \<and> ra_failures r' = ra_failures r \<and> gt_Status (ra_lastTrace r') = ''circuit_open'' \<and>
    (pk_FallbackMode (ra_cfg r) = ''retrieval_only'' \<longrightarrow> res = Inr (TopCandidates req)) \<and>
    (pk_FallbackMode (ra_cfg r) = ''direct_allowlist'' \<longrightarrow>
       (if rk_TenantID req \<in> set (pk_DirectAllowlist (ra_cfg r)) then res = Inr (TopCandidates req)
        else \<exists>e. res = Inl e)) \<and>
    (pk_FallbackMode (ra_cfg r) = ''fail_closed'' \<longrightarrow> res = Inl (ErrorString ''gateway_circuit_open''))"
  using assms
  by (auto simp: Portkey_Rerank_def recordTrace_def applyFallback_def isAllowlisted_def list_ex_iff Let_def)

text \<open>The portkey breaker never closes. From the constructor on, for calls made one after
  another, the failure counter stays between zero and the threshold; it takes at least as many calls as
  the threshold to open the breaker; and once it is open it is open after any further calls, whatever
  the gateway would answer: the adapter has no half-open state and no reset.\<close>

theorem portkey_breaker_never_closes:
  assumes "NewRerankerAdapter U cfg = Inr r" and "is_int64 (pk_CircuitFailureThreshold cfg)"
  shows "(0 \<le> ra_failures (fold portkey_step is r) \<and>
      ra_failures (fold portkey_step is r) \<le> pk_CircuitFailureThreshold (ra_cfg r)) \<and>
    (isCircuitOpen (fold portkey_step is r) \<longrightarrow>
       pk_CircuitFailureThreshold (ra_cfg r) \<le> int (length is) \<and>
       (\<forall>is'. isCircuitOpen (fold portkey_step is' (fold portkey_step is r))))"
proof -
  have r: "ra_failures r = 0" "0 < pk_CircuitFailureThreshold (ra_cfg r)"
    "is_int64 (pk_CircuitFailureThreshold (ra_cfg r))"
    using assms by (auto simp: NewRerankerAdapter_def Let_def is_int64_def split: if_splits)
  have th: "pk_CircuitFailureThreshold (ra_cfg (fold portkey_step js s)) = pk_CircuitFailureThreshold (ra_cfg s)"
    for js s by (rule portkey_breaker.threshold_run)
  have "0 \<le> ra_failures (fold portkey_step is r) \<and>
      ra_failures (fold portkey_step is r) \<le> pk_CircuitFailureThreshold (ra_cfg r)"
    by (rule portkey_breaker.counter_bounds) (use r in simp_all)
  moreover have "pk_CircuitFailureThreshold (ra_cfg r) \<le> int (length is)"
    if "isCircuitOpen (fold portkey_step is r)"
    using portkey_breaker.opens_late [OF r] that by (simp add: isCircuitOpen_def th)
  moreover have "isCircuitOpen (fold portkey_step is' (fold portkey_step is r))"
    if "isCircuitOpen (fold portkey_step is r)" for is'
    using portkey_breaker.open_forever [of "fold portkey_step is r" is'] that
    by (simp add: isCircuitOpen_def th)
  ultimately show ?thesis by blast
qed

text \<open>Rerankers invent nothing. Whatever the provider answers, every candidate that the portkey client
  or the cohere reranker returns carries the document and text of a candidate of the request; an index
  out of range is skipped.\<close>

theorem rerank_results_from_request:
  "(portkeyRerankClient_Rerank cfg h dc gw w = (Inr (cs, u), w') \<and> c \<in> set cs \<longrightarrow>
      (\<exists>c' \<in> set (gr_Candidates gw). rc_DocumentID c = rc_DocumentID c' \<and> rc_Text c = rc_Text c')) \<and>
   (Cohere_Rerank el h dc req r w = (Inr cs, r', w') \<and> c \<in> set cs \<longrightarrow>
      (\<exists>c' \<in> set (rk_Candidates req). rc_DocumentID c = rc_DocumentID c' \<and> rc_Text c = rc_Text c'))"
proof (intro conjI impI)
  assume "portkeyRerankClient_Rerank cfg h dc gw w = (Inr (cs, u), w') \<and> c \<in> set cs"
  then obtain results where "cs = select_candidates (gr_Candidates gw) results" "c \<in> set cs"
    by (auto simp: portkeyRerankClient_Rerank_def Let_def split: prod.splits sum.splits if_splits)
  then show "\<exists>c' \<in> set (gr_Candidates gw). rc_DocumentID c = rc_DocumentID c' \<and> rc_Text c = rc_Text c'"
    using select_candidates_from by blast
next
  assume "Cohere_Rerank el h dc req r w = (Inr cs, r', w') \<and> c \<in> set cs"
  then have "(cs = TopCandidates req \<or> (\<exists>results. cs = select_candidates (rk_Candidates req) results)) \<and> c \<in> set cs"
    by (auto simp: Cohere_Rerank_def Let_def split: option.splits prod.splits sum.splits if_splits)
  then show "\<exists>c' \<in> set (rk_Candidates req). rc_DocumentID c = rc_DocumentID c' \<and> rc_Text c = rc_Text c'"
    using select_candidates_from set_TopCandidates_subset by blast
qed

text \<open>The cohere reranker degrades, it does not fail: a valid request always gets candidates. With fewer
  than three candidates, an open breaker, a transport error, an error status, or a body that cannot
  be read or is empty, they are the retrieval order; reranked candidates come only with the failure
  counter cleared.\<close>

theorem cohere_degrades:
  assumes "RerankRequest_Validate req = None"
    and "Cohere_Rerank el h dc req r w = (res, r', w')"
  shows "\<exists>cs. res = Inr cs \<and>
    (length (rk_Candidates req) < 3 \<or> ch_CircuitFailureThreshold (co_cfg r) \<le> co_failures r \<longrightarrow>
       cs = TopCandidates req \<and> r' = r \<and> w' = w) \<and>
    (cs \<noteq> TopCandidates req \<longrightarrow> co_failures r' = 0)"
  using assms
  by (auto simp: Cohere_Rerank_def Cohere_recordTrace_def Let_def split: prod.splits sum.splits if_splits)

section \<open>Witnesses\<close>

definition demo_request :: RerankRequest where
  "demo_request =
     \<lparr>rk_TenantID = ''acme'', rk_RequestID = ''r'', rk_QueryText = ''q'',
      rk_Candidates = [\<lparr>rc_DocumentID = ''d1'', rc_Text = ''t1'', rc_Score = 0\<rparr>], rk_TopN = 1\<rparr>"

definition demo_config :: portkey_config where
  "demo_config =
     \<lparr>pk_BaseURL = ''u'', pk_APIKey = ''k'', pk_Timeout = 1, pk_RetryMax = 2,
      pk_CircuitFailureThreshold = 3, pk_FallbackMode = ''retrieval_only'', pk_DirectAllowlist = [],
      pk_Model = [], pk_ProviderKey = []\<rparr>"

definition demo_adapter :: "int \<Rightarrow> RerankerAdapter" where
  "demo_adapter n =
     \<lparr>ra_cfg = demo_config, ra_failures = n, ra_lastTrace = empty_trace, ra_lastMetadata = []\<rparr>"

lemma demo_request_valid: "RerankRequest_Validate demo_request = None"
  by (simp add: RerankRequest_Validate_None demo_request_def)

theorem portkey_retry_budget_witness:
  "\<exists>res r'. Portkey_Rerank ascii_tables (\<lambda>q k. ((Inl (ErrorString ''down''), 1), Suc k)) demo_request
     (demo_adapter 0) (0::nat) = (res, r', 3) \<and> ra_failures r' = 1"
proof -
  let ?out = "\<lambda>k::nat. (Inl (ErrorString ''down'') :: (RerankCandidate list \<times> TokenUsage) result, 1::int)"
  obtain res r' calls where run: "Portkey_Rerank ascii_tables (\<lambda>q k. (?out k, Suc k)) demo_request
      (demo_adapter 0) (0::nat) = (res, r', calls)" by (metis prod_cases3)
  have c: "\<not> isCircuitOpen (demo_adapter 0)" "0 \<le> pk_RetryMax (ra_cfg (demo_adapter 0))"
    by (simp_all add: isCircuitOpen_def demo_adapter_def demo_config_def)
  from portkey_retry_budget [OF demo_request_valid c run]
  have "int calls = 3" "ra_failures r' = inc64 0"
    by (simp_all add: demo_adapter_def demo_config_def)
  then have "calls = 3" "ra_failures r' = 1" by (simp_all add: inc64_def wrap64_def)
  with run show ?thesis by simp
qed

theorem portkey_fallback_modes_witness:
  "fst (Portkey_Rerank ascii_tables (\<lambda>q w. ((Inl Canceled, 1), w)) demo_request (demo_adapter 3) ()) =
     Inr (TopCandidates demo_request)"
proof -
  obtain res r' w' where run: "Portkey_Rerank ascii_tables (\<lambda>q w. ((Inl Canceled, 1), w)) demo_request
      (demo_adapter 3) () = (res, r', w')" by (metis prod_cases3)
  have "isCircuitOpen (demo_adapter 3)" by (simp add: isCircuitOpen_def demo_adapter_def demo_config_def)
  from portkey_fallback_modes [OF demo_request_valid this run] run show ?thesis
    by (simp add: demo_adapter_def demo_config_def)
qed

theorem portkey_breaker_never_closes_witness:
  "ra_failures (fold portkey_step
     [(ascii_tables, \<lambda>q w. ((Inl Canceled, 1), w), demo_request, ())] (demo_adapter 0)) \<le> 3"
proof -
  have t: "TrimSpace ''u'' \<noteq> []" "TrimSpace ''k'' \<noteq> []" by (simp_all add: string_eval)
  have new: "NewRerankerAdapter ascii_tables demo_config = Inr (demo_adapter 0)"
    using t by (simp add: NewRerankerAdapter_def demo_config_def demo_adapter_def validateFallbackMode_def)
  have "is_int64 (pk_CircuitFailureThreshold demo_config)" by (simp add: demo_config_def is_int64_def)
  from portkey_breaker_never_closes [OF new this,
      of "[(ascii_tables, \<lambda>q w. ((Inl Canceled, 1), w), demo_request, ())]"]
  show ?thesis by (simp add: demo_adapter_def demo_config_def)
qed

theorem rerank_results_from_request_witness:
  "\<exists>c' \<in> set (rk_Candidates demo_request). rc_DocumentID c' = ''d1''"
proof -
  let ?r = "\<lparr>co_cfg = \<lparr>ch_APIKey = ''k'', ch_Model = ''m'', ch_Timeout = 1, ch_RetryMax = 0,
      ch_CircuitFailureThreshold = 3\<rparr>, co_failures = 0, co_lastTrace = empty_trace\<rparr>"
  let ?c = "\<lparr>rc_DocumentID = ''d1'', rc_Text = ''t1'', rc_Score = 0\<rparr>"
  have run: "Cohere_Rerank (\<lambda>w. 0) (\<lambda>c w. (Inl Canceled, w)) (\<lambda>b. Inl Canceled) demo_request ?r () =
      (Inr [?c], ?r, ())"
    by (simp add: Cohere_Rerank_def demo_request_valid)
      (simp add: demo_request_def TopCandidates_def SliceStable_def)
  with rerank_results_from_request [where cfg = demo_config and h = "\<lambda>c w. (Inl Canceled, w)" and
      dc = "\<lambda>b. Inl Canceled" and gw = "toGatewayRequest demo_request" and w = "()" and cs = "[?c]" and
      u = "\<lparr>tu_Input = 0, tu_Output = 0, tu_Total = 0\<rparr>" and w' = "()" and c = ?c and
      el = "\<lambda>w. 0" and req = demo_request and r = ?r and r' = ?r]
  show ?thesis by auto
qed

theorem cohere_degrades_witness:
  "\<exists>cs. fst (Cohere_Rerank (\<lambda>w. 0) (\<lambda>c w. (Inl Canceled, w)) (\<lambda>b. Inl Canceled) demo_request
     \<lparr>co_cfg = \<lparr>ch_APIKey = ''k'', ch_Model = ''m'', ch_Timeout = 1, ch_RetryMax = 0,
        ch_CircuitFailureThreshold = 3\<rparr>, co_failures = 0, co_lastTrace = empty_trace\<rparr> ()) = Inr cs"
proof -
  let ?r = "\<lparr>co_cfg = \<lparr>ch_APIKey = ''k'', ch_Model = ''m'', ch_Timeout = 1, ch_RetryMax = 0,
      ch_CircuitFailureThreshold = 3\<rparr>, co_failures = 0, co_lastTrace = empty_trace\<rparr>"
  obtain res r' w' where run: "Cohere_Rerank (\<lambda>w. 0) (\<lambda>c w. (Inl Canceled, w)) (\<lambda>b. Inl Canceled)
      demo_request ?r () = (res, r', w')" by (metis prod_cases3)
  from cohere_degrades [OF demo_request_valid run] run show ?thesis by auto
qed

end
