(* ===== verification/Milvus_Adapter.thy ===== *)
theory Milvus_Adapter
  imports Vector_Store Go_Parse
begin

text \<open>
  \<^verbatim>\<open>internal/adapters/vector/milvus/adapter.go\<close>: the vector store on a Milvus collection. The client of the SDK
  is a parameter (\<open>milvus_client\<close>): each of its calls maps the outside state \<open>'w\<close>, which holds the server and
  the clock, to a result and the next state. \<^verbatim>\<open>url.Parse\<close> and the JSON codec of the metadata are parameters,
  too. The mutex guards single fields, so the calls of the adapter are modelled one after another.
\<close>

section \<open>The client of the SDK\<close>

datatype field_type = VarChar int | Int64 | FloatVector int

datatype column_data =
    ColumnVarChar string "string list"
  | ColumnInt64 string "int list"
  | ColumnFloatVector string nat "embedding list"

text \<open>A column of a result: its name, its length, \<^verbatim>\<open>GetAsString\<close> and the text of \<^verbatim>\<open>Get\<close>.\<close>

record column =
  co_Name :: string
  co_Len :: nat
  co_GetAsString :: "nat \<Rightarrow> string option"
  co_Get :: "nat \<Rightarrow> string option"

record search_result =
  se_ResultCount :: nat
  se_IDs :: "column option"
  se_Fields :: "column list"
  se_Scores :: "rat list"

record client_config =
  cc_Address :: string
  cc_DBName :: string
  cc_EnableTLSAuth :: bool
  cc_APIKey :: string
  cc_Username :: string
  cc_Password :: string

record 'w milvus_client =
  mc_now :: "'w \<Rightarrow> time \<times> 'w"
  mc_connect :: "client_config \<Rightarrow> 'w \<Rightarrow> error option \<times> 'w"
  mc_HasCollection :: "string \<Rightarrow> 'w \<Rightarrow> bool result \<times> 'w"
  mc_DescribeCollection :: "string \<Rightarrow> 'w \<Rightarrow> (string \<times> string option) list result \<times> 'w"
  mc_CreateCollection :: "string \<Rightarrow> (string \<times> field_type) list \<Rightarrow> 'w \<Rightarrow> error option \<times> 'w"
  mc_NewIndexAUTOINDEX :: "error option"
  mc_NewSearchParam :: "error option"
  mc_CreateIndex :: "string \<Rightarrow> string \<Rightarrow> 'w \<Rightarrow> error option \<times> 'w"
  mc_LoadCollection :: "string \<Rightarrow> 'w \<Rightarrow> error option \<times> 'w"
  mc_Upsert :: "string \<Rightarrow> column_data list \<Rightarrow> 'w \<Rightarrow> error option \<times> 'w"
  mc_Flush :: "string \<Rightarrow> 'w \<Rightarrow> error option \<times> 'w"
  mc_Query :: "string \<Rightarrow> string \<Rightarrow> string list \<Rightarrow> int \<Rightarrow> 'w \<Rightarrow> column list result \<times> 'w"
  mc_Search :: "string \<Rightarrow> string \<Rightarrow> string list \<Rightarrow> embedding \<Rightarrow> string \<Rightarrow> int \<Rightarrow> 'w \<Rightarrow>
                search_result list result \<times> 'w"
  mc_Delete :: "string \<Rightarrow> string \<Rightarrow> 'w \<Rightarrow> error option \<times> 'w"
  mc_marshal :: "strmap \<Rightarrow> string result"
  mc_unmarshal :: "string \<Rightarrow> strmap result"

section \<open>Configuration\<close>

abbreviation fieldRecordID :: string where "fieldRecordID \<equiv> ''record_id''"
abbreviation fieldTenantID :: string where "fieldTenantID \<equiv> ''tenant_id''"
abbreviation fieldJobID :: string where "fieldJobID \<equiv> ''job_id''"
abbreviation fieldChunkText :: string where "fieldChunkText \<equiv> ''chunk_text''"
abbreviation fieldSourceURI :: string where "fieldSourceURI \<equiv> ''source_uri''"
abbreviation fieldObjectKey :: string where "fieldObjectKey \<equiv> ''object_key''"
abbreviation fieldChecksum :: string where "fieldChecksum \<equiv> ''checksum''"
abbreviation fieldRetryCount :: string where "fieldRetryCount \<equiv> ''retry_count''"
abbreviation fieldIndexedAtMs :: string where "fieldIndexedAtMs \<equiv> ''indexed_at_ms''"
abbreviation fieldMetadata :: string where "fieldMetadata \<equiv> ''metadata_json''"
abbreviation fieldEmbedding :: string where "fieldEmbedding \<equiv> ''embedding''"

record milvus_config =
  mi_Endpoint :: string
  mi_Database :: string
  mi_Collection :: string
  mi_Username :: string
  mi_Password :: string
  mi_Token :: string
  mi_TLS :: bool

record MilvusAdapter =
  ma_cfg :: milvus_config
  ma_lastTrace :: VectorCallTrace
  ma_dim :: int

type_synonym 'w milvus_state = "MilvusAdapter \<times> 'w"

text \<open>\<^verbatim>\<open>url.Parse\<close> yields an error or a URL, of which only the host is used.\<close>

definition normalizeMilvusAddress :: "(string \<Rightarrow> string result) \<Rightarrow> string \<Rightarrow> string result" where
  "normalizeMilvusAddress parse_host endpoint =
     (let raw = TrimSpace endpoint
      in if raw = [] then Inl (ErrorString ''milvus endpoint is empty'')
         else if HasPrefix raw ''http://'' \<or> HasPrefix raw ''https://'' then
           (case parse_host raw of
              Inl e \<Rightarrow> Inl (WrapError (''invalid milvus endpoint: '' @ error_text e) e)
            | Inr h \<Rightarrow>
                let host = TrimSpace h
                in if host = [] then Inl (ErrorString ''invalid milvus endpoint host'')
                   else if Contains host '':'' then Inr host
                   else if HasPrefix raw ''https://'' then Inr (host @ '':443'')
                   else Inr (host @ '':80''))
         else if Contains raw '':'' then Inr raw
         else Inr (raw @ '':19530''))"

definition milvus_markTrace ::
  "'w milvus_client \<Rightarrow> string \<Rightarrow> time \<Rightarrow> 'w milvus_state \<Rightarrow> 'w milvus_state" where
  "milvus_markTrace env status start s =
     (case mc_now env (snd s) of (now, w) \<Rightarrow>
        ((fst s)\<lparr>ma_lastTrace := \<lparr>vt_Provider = ''milvus'', vt_Status = status,
                                vt_LatencyMillis = dur_Milliseconds (time_Sub now start)\<rparr>\<rparr>, w))"

definition milvus_error :: "unicode_tables \<Rightarrow> string \<Rightarrow> error \<Rightarrow> error" where
  "milvus_error U op e = ProviderError (error_category U e) ''milvus'' op (Some e)"

definition client_cfg :: "milvus_config \<Rightarrow> string \<Rightarrow> client_config" where
  "client_cfg cfg address =
     (let tok = TrimSpace (mi_Token cfg)
      in \<lparr>cc_Address = address, cc_DBName = TrimSpace (mi_Database cfg), cc_EnableTLSAuth = mi_TLS cfg,
          cc_APIKey = tok, cc_Username = (if tok \<noteq> [] then [] else TrimSpace (mi_Username cfg)),
          cc_Password = (if tok \<noteq> [] then [] else TrimSpace (mi_Password cfg))\<rparr>)"

definition required_error :: "string \<Rightarrow> error" where
  "required_error name = ErrorString (name @ '' is required when FINE_RAG_VECTOR_PROVIDER=milvus'')"

definition Milvus_NewAdapter ::
  "unicode_tables \<Rightarrow> 'w milvus_client \<Rightarrow> (string \<Rightarrow> string result) \<Rightarrow> milvus_config \<Rightarrow> 'w \<Rightarrow>
   MilvusAdapter result \<times> 'w" where
  "Milvus_NewAdapter U env parse_host cfg w =
     (if TrimSpace (mi_Endpoint cfg) = [] then (Inl (required_error ''FINE_RAG_MILVUS_ENDPOINT''), w)
      else if TrimSpace (mi_Database cfg) = [] then (Inl (required_error ''FINE_RAG_MILVUS_DATABASE''), w)
      else if TrimSpace (mi_Collection cfg) = [] then (Inl (required_error ''FINE_RAG_MILVUS_COLLECTION''), w)
      else if \<not> mi_TLS cfg
      then (Inl (ErrorString ''FINE_RAG_MILVUS_TLS must be true for milvus provider''), w)
      else case normalizeMilvusAddress parse_host (mi_Endpoint cfg) of
          Inl e \<Rightarrow> (Inl e, w)
        | Inr address \<Rightarrow>
            (case mc_connect env (client_cfg cfg address) w of
               (Some e, w1) \<Rightarrow> (Inl (milvus_error U ''connect'' e), w1)
             | (None, w1) \<Rightarrow>
                 (case mc_now env w1 of (now, w2) \<Rightarrow>
                   (case milvus_markTrace env ''ok'' now
                        (\<lparr>ma_cfg = cfg, ma_lastTrace = \<lparr>vt_Provider = [], vt_Status = [], vt_LatencyMillis = 0\<rparr>,
                         ma_dim = 0\<rparr>, w2) of
                     (a, w3) \<Rightarrow> (Inr a, w3)))))"

definition DebugString :: "MilvusAdapter \<Rightarrow> string" where
  "DebugString a = ''milvus('' @ mi_Database (ma_cfg a) @ ''/'' @ mi_Collection (ma_cfg a) @ '')''"

section \<open>The collection\<close>

definition message_allows :: "unicode_tables \<Rightarrow> string list \<Rightarrow> error \<Rightarrow> bool" where
  "message_allows U parts e \<longleftrightarrow> (\<exists>p \<in> set parts. Contains (ToLower U (error_text e)) p)"

definition load_collection ::
  "unicode_tables \<Rightarrow> 'w milvus_client \<Rightarrow> 'w milvus_state \<Rightarrow> error option \<times> 'w milvus_state" where
  "load_collection U env s =
     (case mc_LoadCollection env (mi_Collection (ma_cfg (fst s))) (snd s) of
        (Some e, w) \<Rightarrow> (if message_allows U [''already'', ''loaded''] e then None else Some e, (fst s, w))
      | (None, w) \<Rightarrow> (None, (fst s, w)))"

definition ensureIndexAndLoad ::
  "unicode_tables \<Rightarrow> 'w milvus_client \<Rightarrow> 'w milvus_state \<Rightarrow> error option \<times> 'w milvus_state" where
  "ensureIndexAndLoad U env s =
     (case mc_NewIndexAUTOINDEX env of
        Some e \<Rightarrow> (Some e, s)
      | None \<Rightarrow>
          (case mc_CreateIndex env (mi_Collection (ma_cfg (fst s))) fieldEmbedding (snd s) of
             (Some e, w) \<Rightarrow>
               if \<not> message_allows U [''already'', ''exist''] e then (Some e, (fst s, w))
               else load_collection U env (fst s, w)
           | (None, w) \<Rightarrow> load_collection U env (fst s, w)))"

text \<open>One field of the described schema: whether it is the object key, and the dimension of the embedding.\<close>

definition scan_field :: "bool \<times> int \<Rightarrow> string \<times> string option \<Rightarrow> bool \<times> int" where
  "scan_field st f =
     (fst st \<or> fst f = fieldObjectKey,
      if fst f = fieldEmbedding
      then (case snd f of
              Some d \<Rightarrow> (case Atoi d of Some p \<Rightarrow> if p > 0 then p else snd st | None \<Rightarrow> snd st)
            | None \<Rightarrow> snd st)
      else snd st)"

definition collection_schema :: "int \<Rightarrow> (string \<times> field_type) list" where
  "collection_schema d =
     [(fieldRecordID, VarChar 256), (fieldTenantID, VarChar 128), (fieldJobID, VarChar 128),
      (fieldChunkText, VarChar 65535), (fieldSourceURI, VarChar 2048), (fieldObjectKey, VarChar 1024),
      (fieldChecksum, VarChar 128), (fieldRetryCount, Int64), (fieldIndexedAtMs, Int64),
      (fieldMetadata, VarChar 65535), (fieldEmbedding, FloatVector d)]"

definition schema_mismatch :: "string \<Rightarrow> error" where
  "schema_mismatch collection =
     ErrorString (''milvus collection schema mismatch: '' @ fieldObjectKey @ '' field is missing in '' @ collection @
       ''. Please drop the collection to allow the backend to recreate it with the correct schema (required for efficient purging).'')"

definition dimension_required :: error where
  "dimension_required = ErrorString ''embedding dimension is required to initialize collection''"

definition ensureCollection ::
  "unicode_tables \<Rightarrow> 'w milvus_client \<Rightarrow> int \<Rightarrow> 'w milvus_state \<Rightarrow> error option \<times> 'w milvus_state" where
  "ensureCollection U env d0 s =
     (case s of (a, w) \<Rightarrow>
        let want = (if d0 \<le> 0 then ma_dim a else d0); collection = mi_Collection (ma_cfg a)
        in case mc_HasCollection env collection w of
             (Inl e, w1) \<Rightarrow> (Some e, (a, w1))
           | (Inr True, w1) \<Rightarrow>
               (case mc_DescribeCollection env collection w1 of
                  (Inl _, w2) \<Rightarrow> ensureIndexAndLoad U env (a, w2)
                | (Inr descr, w2) \<Rightarrow>
                    (case foldl scan_field (False, ma_dim a) descr of
                       (found, d) \<Rightarrow>
                         if \<not> found then (Some (schema_mismatch collection), (a\<lparr>ma_dim := d\<rparr>, w2))
                         else ensureIndexAndLoad U env (a\<lparr>ma_dim := d\<rparr>, w2)))
           | (Inr False, w1) \<Rightarrow>
               if want \<le> 0 then (Some dimension_required, (a, w1))
               else (case mc_CreateCollection env collection (collection_schema want) w1 of
                   (Some e, w2) \<Rightarrow> (Some e, (a, w2))
                 | (None, w2) \<Rightarrow> ensureIndexAndLoad U env (a\<lparr>ma_dim := want\<rparr>, w2)))"

section \<open>Reading results\<close>

definition column_string :: "column \<Rightarrow> nat \<Rightarrow> string" where
  "column_string col i =
     (case co_GetAsString col i of
        Some v \<Rightarrow> TrimSpace v
      | None \<Rightarrow> (case co_Get col i of Some v \<Rightarrow> TrimSpace v | None \<Rightarrow> []))"

fun readResultField :: "column list \<Rightarrow> string \<Rightarrow> nat \<Rightarrow> string" where
  "readResultField [] field i = []"
| "readResultField (col # cols) field i =
     (if co_Name col \<noteq> field then readResultField cols field i else column_string col i)"

fun readSearchField :: "column list \<Rightarrow> string \<Rightarrow> nat \<Rightarrow> string" where
  "readSearchField [] field i = []"
| "readSearchField (col # cols) field i =
     (if co_Name col \<noteq> field then readSearchField cols field i else column_string col i)"

definition readColumnString :: "column option \<Rightarrow> nat \<Rightarrow> string" where
  "readColumnString col i = (case col of None \<Rightarrow> [] | Some c \<Rightarrow> column_string c i)"

definition unmarshalMetadata :: "'w milvus_client \<Rightarrow> string \<Rightarrow> strmap" where
  "unmarshalMetadata env raw =
     (let t = TrimSpace raw
      in if t = [] then [] else case mc_unmarshal env t of Inr m \<Rightarrow> m | Inl _ \<Rightarrow> [])"

definition marshalMetadata :: "'w milvus_client \<Rightarrow> strmap \<Rightarrow> string" where
  "marshalMetadata env metadata =
     (if metadata = [] then ''{}'' else case mc_marshal env metadata of Inr s \<Rightarrow> s | Inl _ \<Rightarrow> ''{}'')"

definition rowsFromResultSet :: "'w milvus_client \<Rightarrow> column list \<Rightarrow> TenantID \<Rightarrow> RetrievalDocument list" where
  "rowsFromResultSet env cols tenantID =
     (case cols of
        [] \<Rightarrow> []
      | c # _ \<Rightarrow>
          map (\<lambda>i. \<lparr>doc_DocumentID = readResultField cols fieldRecordID i, doc_TenantID = tenantID,
                     doc_Content = readResultField cols fieldChunkText i, doc_Score = 0,
                     doc_SourceURI = readResultField cols fieldSourceURI i,
                     doc_Metadata = unmarshalMetadata env (readResultField cols fieldMetadata i)\<rparr>)
            [0 ..< co_Len c])"

text \<open>The replacer of \<^verbatim>\<open>escapeExprString\<close>: a backslash before every backslash and double quote.\<close>

definition escapeExprString :: "string \<Rightarrow> string" where
  "escapeExprString s = replace_bytes [(CHR 0x5C, [CHR 0x5C, CHR 0x5C]), (CHR 0x22, [CHR 0x5C, CHR 0x22])] s"

definition tenant_expr :: "unicode_tables \<Rightarrow> TenantID \<Rightarrow> string" where
  "tenant_expr U tenantID = fieldTenantID @ '' == '' @ Quote U (escapeExprString tenantID)"

definition lexicalScore :: "unicode_tables \<Rightarrow> string \<Rightarrow> string \<Rightarrow> float64" where
  "lexicalScore U query content =
     (let queryTokens = Fields (ToLower U (TrimSpace query));
          contentLC = ToLower U content
      in if queryTokens = [] then 0
         else let hits = length (filter (Contains contentLC) queryTokens)
              in if hits = 0 then fl (of_nat (length content mod 13) / 100)
                 else fl (of_nat hits + fl (of_nat (length content mod 10) / 100)))"

section \<open>The operations\<close>

definition query_limit :: "int \<Rightarrow> int" where
  "query_limit topK =
     (let limit = wrap64 (topK * 24);
          limit1 = (if limit < topK then topK else limit)
      in if limit1 > 512 then 512 else limit1)"

text \<open>How an operation ends: the trace is marked, and an error is normalised.\<close>

definition finish_with ::
  "unicode_tables \<Rightarrow> 'w milvus_client \<Rightarrow> string \<Rightarrow> time \<Rightarrow> string \<Rightarrow> error \<Rightarrow> 'w milvus_state \<Rightarrow>
   error \<times> 'w milvus_state" where
  "finish_with U env op started status e s = (milvus_error U op e, milvus_markTrace env status started s)"

fun record_error :: "nat \<Rightarrow> VectorRecord list \<Rightarrow> error option" where
  "record_error n [] = None"
| "record_error n (r # rs) =
     (case VectorRecord_Validate r of
        Some e \<Rightarrow> Some e
      | None \<Rightarrow>
          if length (vr_Embedding r) \<noteq> n
          then Some (ErrorString (''embedding dimension mismatch: got='' @ Itoa (int (length (vr_Embedding r))) @
                 '' want='' @ Itoa (int n)))
          else record_error n rs)"

definition time_UnixMilli :: "time \<Rightarrow> int" where
  "time_UnixMilli t = (t - 62135596800 * nanos_per_second) div 1000000"

definition upsert_columns :: "'w milvus_client \<Rightarrow> nat \<Rightarrow> VectorRecord list \<Rightarrow> column_data list" where
  "upsert_columns env n rs =
     [ColumnVarChar fieldRecordID (map vr_RecordID rs), ColumnVarChar fieldTenantID (map vr_TenantID rs),
      ColumnVarChar fieldJobID (map vr_JobID rs), ColumnVarChar fieldChunkText (map vr_ChunkText rs),
      ColumnVarChar fieldSourceURI (map vr_SourceURI rs), ColumnVarChar fieldObjectKey (map vr_ObjectKey rs),
      ColumnVarChar fieldChecksum (map vr_Checksum rs), ColumnInt64 fieldRetryCount (map vr_RetryCount rs),
      ColumnInt64 fieldIndexedAtMs (map (\<lambda>r. time_UnixMilli (vr_IndexedAt r)) rs),
      ColumnVarChar fieldMetadata (map (\<lambda>r. marshalMetadata env (vr_Metadata r)) rs),
      ColumnFloatVector fieldEmbedding n (map vr_Embedding rs)]"

definition Milvus_Upsert ::
  "unicode_tables \<Rightarrow> 'w milvus_client \<Rightarrow> VectorRecord list \<Rightarrow> 'w milvus_state \<Rightarrow>
   error option \<times> 'w milvus_state" where
  "Milvus_Upsert U env rs s =
     (case mc_now env (snd s) of (started, w0) \<Rightarrow>
        let s0 = (fst s, w0);
            n = length (vr_Embedding (hd rs));
            collection = mi_Collection (ma_cfg (fst s));
            fail = (\<lambda>status e s. map_prod Some id (finish_with U env ''upsert'' started status e s))
        in if rs = [] then fail ''validation_error'' (ErrorString ''at least one record is required'') s0
           else if n = 0 then fail ''validation_error'' (ErrorString ''embedding is required'') s0
           else case record_error n rs of
               Some e \<Rightarrow> fail ''validation_error'' e s0
             | None \<Rightarrow>
                 (case ensureCollection U env (int n) s0 of
                    (Some e, s1) \<Rightarrow> fail ''collection_error'' e s1
                  | (None, (a1, w1)) \<Rightarrow>
                      (case mc_Upsert env collection (upsert_columns env n rs) w1 of
                         (Some e, w2) \<Rightarrow> fail ''error'' e (a1, w2)
                       | (None, w2) \<Rightarrow>
                           (case mc_Flush env collection w2 of
                              (Some e, w3) \<Rightarrow> fail ''error'' e (a1, w3)
                            | (None, w3) \<Rightarrow> (None, milvus_markTrace env ''ok'' started (a1, w3))))))"

definition rank_rows :: "unicode_tables \<Rightarrow> string \<Rightarrow> int \<Rightarrow> RetrievalDocument list \<Rightarrow> RetrievalDocument list" where
  "rank_rows U queryText topK rows =
     (let query = TrimSpace (ToLower U queryText);
          docs = SliceStable (\<lambda>x y. doc_Score x > doc_Score y)
                   (map (\<lambda>d. d\<lparr>doc_Score := lexicalScore U query (doc_Content d)\<rparr>) rows)
      in if topK < int (length docs) then take (nat topK) docs else docs)"

definition Milvus_Search ::
  "unicode_tables \<Rightarrow> 'w milvus_client \<Rightarrow> TenantID \<Rightarrow> string \<Rightarrow> int \<Rightarrow> 'w milvus_state \<Rightarrow>
   RetrievalDocument list result \<times> 'w milvus_state" where
  "Milvus_Search U env tenantID queryText topK s =
     (case mc_now env (snd s) of (started, w0) \<Rightarrow>
        let s0 = (fst s, w0);
            collection = mi_Collection (ma_cfg (fst s));
            fail = (\<lambda>status e s. map_prod Inl id (finish_with U env ''search'' started status e s))
        in case TenantID_Validate tenantID of
             Some e \<Rightarrow> fail ''validation_error'' e s0
           | None \<Rightarrow>
               if TrimSpace queryText = [] then fail ''validation_error'' (ErrorString ''query text is required'') s0
               else if topK \<le> 0 then fail ''validation_error'' (ErrorString ''top_k must be > 0'') s0
               else (case ensureCollection U env 0 s0 of
                   (Some e, s1) \<Rightarrow> fail ''error'' e s1
                 | (None, (a1, w1)) \<Rightarrow>
                     (case mc_Query env collection (tenant_expr U tenantID)
                             [fieldRecordID, fieldChunkText, fieldSourceURI, fieldMetadata] (query_limit topK) w1 of
                        (Inl e, w2) \<Rightarrow> fail ''error'' e (a1, w2)
                      | (Inr cols, w2) \<Rightarrow>
                          (Inr (if cols = [] then []
                                else rank_rows U queryText topK (rowsFromResultSet env cols tenantID)),
                           milvus_markTrace env ''ok'' started (a1, w2)))))"

definition result_documents :: "'w milvus_client \<Rightarrow> TenantID \<Rightarrow> search_result \<Rightarrow> RetrievalDocument list" where
  "result_documents env tenantID r =
     map (\<lambda>i. \<lparr>doc_DocumentID = readColumnString (se_IDs r) i, doc_TenantID = tenantID,
                doc_Content = readSearchField (se_Fields r) fieldChunkText i,
                doc_Score = (if i < length (se_Scores r) then se_Scores r ! i else 0),
                doc_SourceURI = readSearchField (se_Fields r) fieldSourceURI i,
                doc_Metadata = unmarshalMetadata env (readSearchField (se_Fields r) fieldMetadata i)\<rparr>)
       [0 ..< se_ResultCount r]"

definition Milvus_SearchByEmbedding ::
  "unicode_tables \<Rightarrow> 'w milvus_client \<Rightarrow> TenantID \<Rightarrow> embedding \<Rightarrow> int \<Rightarrow> 'w milvus_state \<Rightarrow>
   RetrievalDocument list result \<times> 'w milvus_state" where
  "Milvus_SearchByEmbedding U env tenantID queryEmbedding topK s =
     (case mc_now env (snd s) of (started, w0) \<Rightarrow>
        let s0 = (fst s, w0);
            collection = mi_Collection (ma_cfg (fst s));
            fail = (\<lambda>status e s. map_prod Inl id (finish_with U env ''search_by_embedding'' started status e s))
        in case TenantID_Validate tenantID of
             Some e \<Rightarrow> fail ''validation_error'' e s0
           | None \<Rightarrow>
               if queryEmbedding = []
               then fail ''validation_error'' (ErrorString ''query embedding is required'') s0
               else if topK \<le> 0 then fail ''validation_error'' (ErrorString ''top_k must be > 0'') s0
               else (case ensureCollection U env (int (length queryEmbedding)) s0 of
                   (Some e, s1) \<Rightarrow> fail ''error'' e s1
                 | (None, (a1, w1)) \<Rightarrow>
                     (case mc_LoadCollection env collection w1 of
                        (Some e, w2) \<Rightarrow> fail ''error'' e (a1, w2)
                      | (None, w2) \<Rightarrow>
                          (case mc_NewSearchParam env of
                             Some e \<Rightarrow> fail ''error'' e (a1, w2)
                           | None \<Rightarrow>
                               (case mc_Search env collection (tenant_expr U tenantID)
                                       [fieldChunkText, fieldSourceURI, fieldMetadata] queryEmbedding
                                       fieldEmbedding topK w2 of
                                  (Inl e, w3) \<Rightarrow> fail ''error'' e (a1, w3)
                                | (Inr results, w3) \<Rightarrow>
                                    (Inr (case results of [] \<Rightarrow> [] | r # _ \<Rightarrow> result_documents env tenantID r),
                                     milvus_markTrace env ''ok'' started (a1, w3)))))))"

definition Milvus_PurgeTenant ::
  "unicode_tables \<Rightarrow> 'w milvus_client \<Rightarrow> TenantID \<Rightarrow> 'w milvus_state \<Rightarrow> error option \<times> 'w milvus_state" where
  "Milvus_PurgeTenant U env tenantID s =
     (case mc_now env (snd s) of (started, w0) \<Rightarrow>
        let s0 = (fst s, w0);
            collection = mi_Collection (ma_cfg (fst s));
            fail = (\<lambda>status e s. map_prod Some id (finish_with U env ''purge'' started status e s))
        in case TenantID_Validate tenantID of
             Some e \<Rightarrow> fail ''validation_error'' e s0
           | None \<Rightarrow>
               (case ensureCollection U env 0 s0 of
                  (Some e, s1) \<Rightarrow> fail ''error'' e s1
                | (None, (a1, w1)) \<Rightarrow>
                    (case mc_Delete env collection (tenant_expr U tenantID) w1 of
                       (Some e, w2) \<Rightarrow> fail ''error'' e (a1, w2)
                     | (None, w2) \<Rightarrow>
                         (case mc_Flush env collection w2 of
                            (Some e, w3) \<Rightarrow> fail ''error'' e (a1, w3)
                          | (None, w3) \<Rightarrow> (None, milvus_markTrace env ''ok'' started (a1, w3))))))"

section \<open>The server\<close>

text \<open>What the collection stores, read from the columns by their names.\<close>

record milvus_row =
  mr_RecordID :: string
  mr_TenantID :: TenantID
  mr_JobID :: string
  mr_ChunkText :: string
  mr_SourceURI :: string
  mr_ObjectKey :: string
  mr_Checksum :: string
  mr_RetryCount :: int
  mr_IndexedAtMs :: int
  mr_Metadata :: string
  mr_Embedding :: embedding

fun varchars :: "string \<Rightarrow> column_data list \<Rightarrow> string list" where
  "varchars name [] = []"
| "varchars name (ColumnVarChar n vs # cs) = (if n = name then vs else varchars name cs)"
| "varchars name (_ # cs) = varchars name cs"

fun int64s :: "string \<Rightarrow> column_data list \<Rightarrow> int list" where
  "int64s name [] = []"
| "int64s name (ColumnInt64 n vs # cs) = (if n = name then vs else int64s name cs)"
| "int64s name (_ # cs) = int64s name cs"

fun vectors :: "string \<Rightarrow> column_data list \<Rightarrow> embedding list" where
  "vectors name [] = []"
| "vectors name (ColumnFloatVector n d vs # cs) = (if n = name then vs else vectors name cs)"
| "vectors name (_ # cs) = vectors name cs"

definition rows_of_columns :: "column_data list \<Rightarrow> milvus_row list" where
  "rows_of_columns cs =
     map (\<lambda>i. \<lparr>mr_RecordID = varchars ''record_id'' cs ! i, mr_TenantID = varchars ''tenant_id'' cs ! i,
                mr_JobID = varchars ''job_id'' cs ! i, mr_ChunkText = varchars ''chunk_text'' cs ! i,
                mr_SourceURI = varchars ''source_uri'' cs ! i, mr_ObjectKey = varchars ''object_key'' cs ! i,
                mr_Checksum = varchars ''checksum'' cs ! i, mr_RetryCount = int64s ''retry_count'' cs ! i,
                mr_IndexedAtMs = int64s ''indexed_at_ms'' cs ! i, mr_Metadata = varchars ''metadata_json'' cs ! i,
                mr_Embedding = vectors ''embedding'' cs ! i\<rparr>)
       [0 ..< length (varchars ''record_id'' cs)]"

definition row_of :: "'w milvus_client \<Rightarrow> VectorRecord \<Rightarrow> milvus_row" where
  "row_of env r =
     \<lparr>mr_RecordID = vr_RecordID r, mr_TenantID = vr_TenantID r, mr_JobID = vr_JobID r,
      mr_ChunkText = vr_ChunkText r, mr_SourceURI = vr_SourceURI r, mr_ObjectKey = vr_ObjectKey r,
      mr_Checksum = vr_Checksum r, mr_RetryCount = vr_RetryCount r,
      mr_IndexedAtMs = time_UnixMilli (vr_IndexedAt r), mr_Metadata = marshalMetadata env (vr_Metadata r),
      mr_Embedding = vr_Embedding r\<rparr>"

definition row_field :: "string \<Rightarrow> milvus_row \<Rightarrow> string" where
  "row_field f r =
     (if f = ''record_id'' then mr_RecordID r else if f = ''chunk_text'' then mr_ChunkText r
      else if f = ''source_uri'' then mr_SourceURI r else if f = ''metadata_json'' then mr_Metadata r else [])"

text \<open>The columns of a result hold the asked fields of the rows.\<close>

definition holds_rows :: "column list \<Rightarrow> string list \<Rightarrow> milvus_row list \<Rightarrow> bool" where
  "holds_rows cols fs rs \<longleftrightarrow>
     (\<forall>c cs. cols = c # cs \<longrightarrow> co_Len c = length rs) \<and>
     (\<forall>f \<in> set fs. \<exists>c. find (\<lambda>c. co_Name c = f) cols = Some c \<and>
        (\<forall>i < length rs. co_GetAsString c i = Some (row_field f (rs ! i))))"

definition printable :: "string \<Rightarrow> bool" where
  "printable s \<longleftrightarrow> (\<forall>c \<in> set s. 32 \<le> byte c \<and> byte c < 127)"

text \<open>The filter of a literal: the value of a quoted printable string is the string.\<close>

abbreviation tenant_is :: "string \<Rightarrow> milvus_row list \<Rightarrow> milvus_row list" where
  "tenant_is s \<equiv> filter (\<lambda>r. mr_TenantID r = s)"

text \<open>The documented behaviour of the server that the adapter relies on, where \<open>rows w\<close> is the content of the
  collection: only \<^verbatim>\<open>Upsert\<close> and \<^verbatim>\<open>Delete\<close> change it; an upsert replaces the rows with the primary keys of
  the new ones, a delete removes the rows its expression selects; a query returns as many of the selected rows as
  its limit allows, a search some of them.\<close>

definition reads_ok :: "'w milvus_client \<Rightarrow> ('w \<Rightarrow> milvus_row list) \<Rightarrow> bool" where
  "reads_ok env rows \<longleftrightarrow>
     keeps rows (mc_now env) \<and> (\<forall>c. keeps rows (mc_HasCollection env c)) \<and>
     (\<forall>c. keeps rows (mc_DescribeCollection env c)) \<and> (\<forall>c fs. keeps rows (mc_CreateCollection env c fs)) \<and>
     (\<forall>c f. keeps rows (mc_CreateIndex env c f)) \<and> (\<forall>c. keeps rows (mc_LoadCollection env c)) \<and>
     (\<forall>c. keeps rows (mc_Flush env c)) \<and> (\<forall>c e fs k. keeps rows (mc_Query env c e fs k)) \<and>
     (\<forall>c e fs v f k. keeps rows (mc_Search env c e fs v f k))"

definition writes_ok :: "unicode_tables \<Rightarrow> 'w milvus_client \<Rightarrow> ('w \<Rightarrow> milvus_row list) \<Rightarrow> bool" where
  "writes_ok U env rows \<longleftrightarrow>
     (\<forall>c cs w w'. distinct (varchars ''record_id'' cs) \<longrightarrow> mc_Upsert env c cs w = (None, w') \<longrightarrow>
        rows w' = filter (\<lambda>r. mr_RecordID r \<notin> set (varchars ''record_id'' cs)) (rows w) @ rows_of_columns cs) \<and>
     (\<forall>c s w w'. printable s \<longrightarrow> mc_Delete env c (''tenant_id == '' @ Quote U s) w = (None, w') \<longrightarrow>
        rows w' = filter (\<lambda>r. mr_TenantID r \<noteq> s) (rows w))"

definition queries_ok :: "unicode_tables \<Rightarrow> 'w milvus_client \<Rightarrow> ('w \<Rightarrow> milvus_row list) \<Rightarrow> bool" where
  "queries_ok U env rows \<longleftrightarrow>
     (\<forall>c s fs k w cols w'. printable s \<longrightarrow> mc_Query env c (''tenant_id == '' @ Quote U s) fs k w = (Inr cols, w') \<longrightarrow>
        (\<exists>rs. mset rs \<subseteq># mset (tenant_is s (rows w)) \<and> length rs = min (nat k) (length (tenant_is s (rows w))) \<and>
              (cols = [] \<and> rs = [] \<or> holds_rows cols fs rs))) \<and>
     (\<forall>c s fs v f k w results w'. printable s \<longrightarrow>
        mc_Search env c (''tenant_id == '' @ Quote U s) fs v f k w = (Inr results, w') \<longrightarrow>
        (\<forall>r more. results = r # more \<longrightarrow>
          (\<exists>rs ids. mset rs \<subseteq># mset (tenant_is s (rows w)) \<and> length rs \<le> nat k \<and> se_ResultCount r = length rs \<and>
             se_IDs r = Some ids \<and> (\<forall>i < length rs. co_GetAsString ids i = Some (mr_RecordID (rs ! i))) \<and>
             holds_rows (se_Fields r) fs rs)))"

section \<open>Escaping\<close>

lemma escape_Nil [simp]: "escapeExprString [] = []"
  by (simp add: escapeExprString_def replace_bytes_def)

lemma escape_Cons:
  "escapeExprString (c # s) =
     (if c = CHR 0x5C \<or> c = CHR 0x22 then [CHR 0x5C, c] else [c]) @ escapeExprString s"
  by (auto simp: escapeExprString_def replace_bytes_def)

lemma escape_inj: "escapeExprString s = escapeExprString t \<longleftrightarrow> s = t"
proof
  show "escapeExprString s = escapeExprString t \<Longrightarrow> s = t"
  proof (induction s arbitrary: t)
    case Nil
    then show ?case by (cases t) (auto simp: escape_Cons split: if_splits)
  next
    case (Cons c s)
    then show ?case by (cases t) (auto simp: escape_Cons split: if_splits)
  qed
qed simp

definition plain :: "string \<Rightarrow> bool" where
  "plain s \<longleftrightarrow> CHR 0x5C \<notin> set s \<and> CHR 0x22 \<notin> set s"

lemma length_escape: "length s \<le> length (escapeExprString s)"
  by (induction s) (auto simp: escape_Cons)

lemma escape_plain_iff: "escapeExprString s = s \<longleftrightarrow> plain s"
proof (induction s)
  case (Cons c s)
  show ?case
  proof (cases "c = CHR 0x5C \<or> c = CHR 0x22")
    case True
    have "length (escapeExprString (c # s)) > length (c # s)"
      using True length_escape [of s] by (auto simp: escape_Cons)
    then show ?thesis using True by (auto simp: plain_def)
  next
    case False
    with Cons show ?thesis by (auto simp: escape_Cons plain_def)
  qed
qed (simp add: plain_def)

lemma byte_escapes [simp]: "byte (CHR 0x5C) = 92" "byte (CHR 0x22) = 34"
  by (simp_all add: byte_def)

lemma byte_eq_iff: "byte c = byte d \<longleftrightarrow> c = d"
  by (metis char_of_byte)

lemma printable_escape: "printable s \<Longrightarrow> printable (escapeExprString s)"
proof -
  have "set (escapeExprString s) \<subseteq> insert (CHR 0x5C) (set s)"
    by (induction s) (auto simp: escape_Cons)
  then show "printable s \<Longrightarrow> printable (escapeExprString s)"
    unfolding printable_def by (auto dest!: subsetD)
qed

lemma quote_body_printable: "printable s \<Longrightarrow> quote_body U s = escapeExprString s"
proof (induction s)
  case (Cons c s)
  then have c: "32 \<le> byte c" "byte c < 127" and s: "printable s" by (auto simp: printable_def)
  have dec: "decode_rune (c # s) = (byte c, 1)" using c by (simp add: decode_rune_def)
  have "quote_rune U (byte c) 1 c = (if c = CHR 0x5C \<or> c = CHR 0x22 then [CHR 0x5C, c] else [c])"
  proof -
    have "byte c = 92 \<longleftrightarrow> c = CHR 0x5C" "byte c = 34 \<longleftrightarrow> c = CHR 0x22"
      using byte_eq_iff [of c "CHR 0x5C"] byte_eq_iff [of c "CHR 0x22"] by simp_all
    with c show ?thesis using char_of_byte [of "CHR 0x5C"] char_of_byte [of "CHR 0x22"]
      by (auto simp: quote_rune_def rune_error_def rune_IsPrint_def encode_rune_ascii)
  qed
  with dec Cons.IH [OF s] show ?case by (subst quote_body.simps) (simp add: escape_Cons)
qed (simp add: quote_body.simps)

lemma tenant_expr_printable:
  "printable t \<Longrightarrow> tenant_expr U t = ''tenant_id == '' @ Quote U (escapeExprString t)"
  by (simp add: tenant_expr_def)

section \<open>What the operations leave in the collection\<close>

lemma reads_okD:
  assumes "reads_ok env rows"
  shows "keeps rows (mc_now env)" "keeps rows (mc_HasCollection env c)" "keeps rows (mc_DescribeCollection env c)"
    "keeps rows (mc_CreateCollection env c fs)" "keeps rows (mc_CreateIndex env c f)"
    "keeps rows (mc_LoadCollection env c)" "keeps rows (mc_Flush env c)" "keeps rows (mc_Query env c e fls k)"
    "keeps rows (mc_Search env c e fls v g j)"
  using assms by (simp_all add: reads_ok_def)

lemmas read_rows = reads_okD [THEN keepsD]

lemma load_collection_rows:
  assumes "reads_ok env rows" and "load_collection U env s = (r, a, w)"
  shows "rows w = rows (snd s) \<and> a = fst s"
  using assms(2)
  by (auto simp: load_collection_def split: prod.splits option.splits if_splits dest: read_rows(6) [OF assms(1)])

lemma ensureIndexAndLoad_rows:
  assumes "reads_ok env rows" and "ensureIndexAndLoad U env s = (r, a, w)"
  shows "rows w = rows (snd s) \<and> a = fst s"
  using assms(2)
  by (auto simp: ensureIndexAndLoad_def split: prod.splits option.splits if_splits
      dest!: load_collection_rows [OF assms(1)] read_rows(5) [OF assms(1)])

lemma ensureCollection_rows:
  assumes "reads_ok env rows" and "ensureCollection U env d s = (r, a, w)"
  shows "rows w = rows (snd s) \<and> ma_cfg a = ma_cfg (fst s)"
  using assms(2)
  by (cases s)
     (auto simp: ensureCollection_def Let_def split: prod.splits sum.splits bool.splits option.splits if_splits
      dest!: ensureIndexAndLoad_rows [OF assms(1)] read_rows(2-4) [OF assms(1)])

lemma markTrace_rows:
  assumes "reads_ok env rows"
  shows "rows (snd (milvus_markTrace env st t s)) = rows (snd s)"
  by (auto simp: milvus_markTrace_def split: prod.splits dest: read_rows(1) [OF assms])

lemma varchars_upsert:
  "varchars ''record_id'' (upsert_columns env n rs) = map vr_RecordID rs"
  by (simp add: upsert_columns_def)

lemma rows_of_upsert: "rows_of_columns (upsert_columns env n rs) = map (row_of env) rs"
  by (rule nth_equalityI) (simp_all add: rows_of_columns_def upsert_columns_def row_of_def)

text \<open>Every way an operation can end, success or failure: the rows after \<^verbatim>\<open>Upsert\<close> and \<^verbatim>\<open>PurgeTenant\<close>.\<close>

lemma Upsert_invalid:
  assumes "reads_ok env rows" and "rs = [] \<or> (\<exists>r \<in> set rs. VectorRecord_Validate r \<noteq> None)"
  shows "\<exists>e a w. Milvus_Upsert U env rs s = (Some e, a, w) \<and> rows w = rows (snd s)"
proof -
  obtain t w0 where now: "mc_now env (snd s) = (t, w0)" by (metis surj_pair)
  have bad: "record_error n rs \<noteq> None" if "\<exists>r \<in> set rs. VectorRecord_Validate r \<noteq> None" for n
    using that by (induction rs) (auto split: option.splits)
  have fail: "\<exists>e a w. map_prod Some id (finish_with U env op t st err (a0, w0)) = (Some e, a, w) \<and>
      rows w = rows (snd s)" for op st err a0
    using markTrace_rows [OF assms(1), of st t "(a0, w0)"] read_rows(1) [OF assms(1) now]
    by (cases "milvus_markTrace env st t (a0, w0)") (simp add: finish_with_def)
  show ?thesis
  proof (cases "rs = []")
    case True
    then show ?thesis using fail by (simp add: Milvus_Upsert_def now)
  next
    case False
    with assms(2) bad obtain err where "record_error (length (vr_Embedding (hd rs))) rs = Some err" by blast
    with False fail show ?thesis by (simp add: Milvus_Upsert_def now Let_def)
  qed
qed

lemma Upsert_success:
  assumes "reads_ok env rows" and "writes_ok U env rows" and "distinct (map vr_RecordID rs)"
    and run: "Milvus_Upsert U env rs s = (None, a, w)"
  shows "rows w = filter (\<lambda>r. mr_RecordID r \<notin> vr_RecordID ` set rs) (rows (snd s)) @ map (row_of env) rs"
proof -
  have upsert: "rows w' = filter (\<lambda>r. mr_RecordID r \<notin> vr_RecordID ` set rs) (rows w1) @ map (row_of env) rs"
    if "mc_Upsert env c (upsert_columns env n rs) w1 = (None, w')" for c n w1 w'
    using assms(2) [unfolded writes_ok_def, THEN conjunct1, rule_format, OF _ that] assms(3)
    by (simp add: varchars_upsert rows_of_upsert)
  obtain t w0 where now: "mc_now env (snd s) = (t, w0)" by (metis surj_pair)
  from run show ?thesis
    using read_rows(1) [OF assms(1) now] markTrace_rows [OF assms(1)]
    by (auto simp: Milvus_Upsert_def now Let_def finish_with_def split: option.splits prod.splits if_splits
        dest!: upsert ensureCollection_rows [OF assms(1)] read_rows(7) [OF assms(1)])
       (metis snd_conv)+
qed

lemma Purge_success:
  assumes "reads_ok env rows" and "writes_ok U env rows" and "printable t"
    and run: "Milvus_PurgeTenant U env t s = (None, a, w)"
  shows "rows w = filter (\<lambda>r. mr_TenantID r \<noteq> escapeExprString t) (rows (snd s))"
proof -
  have del: "rows w' = filter (\<lambda>r. mr_TenantID r \<noteq> escapeExprString t) (rows w1)"
    if "mc_Delete env c (tenant_expr U t) w1 = (None, w')" for c w1 w'
    using assms(2) printable_escape [OF assms(3)] that
    by (simp add: writes_ok_def tenant_expr_printable [OF assms(3)])
  obtain t0 w0 where now: "mc_now env (snd s) = (t0, w0)" by (metis surj_pair)
  from run show ?thesis
    using read_rows(1) [OF assms(1) now] markTrace_rows [OF assms(1)]
    by (auto simp: Milvus_PurgeTenant_def now Let_def finish_with_def split: option.splits prod.splits if_splits
        dest!: del ensureCollection_rows [OF assms(1)] read_rows(7) [OF assms(1)])
       (metis snd_conv)+
qed

section \<open>What a search reads\<close>

definition row_document :: "'w milvus_client \<Rightarrow> TenantID \<Rightarrow> milvus_row \<Rightarrow> RetrievalDocument" where
  "row_document env t r =
     \<lparr>doc_DocumentID = TrimSpace (mr_RecordID r), doc_TenantID = t, doc_Content = TrimSpace (mr_ChunkText r),
      doc_Score = 0, doc_SourceURI = TrimSpace (mr_SourceURI r),
      doc_Metadata = unmarshalMetadata env (TrimSpace (mr_Metadata r))\<rparr>"

lemma readResultField_find:
  "find (\<lambda>c. co_Name c = f) cols = Some c \<Longrightarrow> readResultField cols f i = column_string c i"
  by (induction cols) (auto split: if_splits)

lemma readSearchField_find:
  "find (\<lambda>c. co_Name c = f) cols = Some c \<Longrightarrow> readSearchField cols f i = column_string c i"
  by (induction cols) (auto split: if_splits)

lemma holds_rows_field:
  assumes "holds_rows cols fs rs" and "f \<in> set fs" and "i < length rs"
  shows "readResultField cols f i = TrimSpace (row_field f (rs ! i))"
    and "readSearchField cols f i = TrimSpace (row_field f (rs ! i))"
proof -
  from assms(1,2) obtain c where c: "find (\<lambda>c. co_Name c = f) cols = Some c"
    and v: "\<forall>i < length rs. co_GetAsString c i = Some (row_field f (rs ! i))"
    by (auto simp: holds_rows_def)
  have "column_string c i = TrimSpace (row_field f (rs ! i))" using v assms(3) by (simp add: column_string_def)
  then show "readResultField cols f i = TrimSpace (row_field f (rs ! i))"
    and "readSearchField cols f i = TrimSpace (row_field f (rs ! i))"
    using readResultField_find [OF c] readSearchField_find [OF c] by simp_all
qed

lemma rowsFromResultSet_rows:
  assumes "holds_rows cols [fieldRecordID, fieldChunkText, fieldSourceURI, fieldMetadata] rs" and "cols \<noteq> []"
  shows "rowsFromResultSet env cols t = map (row_document env t) rs"
proof -
  obtain c cs where cols: "cols = c # cs" using assms(2) by (cases cols) auto
  have len: "co_Len c = length rs" using assms(1) cols by (simp add: holds_rows_def)
  note field = holds_rows_field(1) [OF assms(1)]
  show ?thesis
    by (rule nth_equalityI)
       (simp_all add: rowsFromResultSet_def cols len row_document_def field [unfolded cols] row_field_def
         del: readResultField.simps)
qed

lemma result_documents_rows:
  assumes "holds_rows (se_Fields r) [fieldChunkText, fieldSourceURI, fieldMetadata] rs"
    and "se_ResultCount r = length rs" and "se_IDs r = Some ids"
    and "\<forall>i < length rs. co_GetAsString ids i = Some (mr_RecordID (rs ! i))"
  shows "\<exists>sc. result_documents env t r =
    map (\<lambda>i. (row_document env t (rs ! i))\<lparr>doc_Score := sc i\<rparr>) [0 ..< length rs]"
proof
  note field = holds_rows_field(2) [OF assms(1)]
  show "result_documents env t r =
    map (\<lambda>i. (row_document env t (rs ! i))\<lparr>doc_Score := if i < length (se_Scores r) then se_Scores r ! i else 0\<rparr>)
      [0 ..< length rs]"
    using assms(2-4)
    by (auto simp: result_documents_def row_document_def field row_field_def readColumnString_def column_string_def)
qed

lemma rank_rows_Nil [simp]: "rank_rows U q k [] = []"
  by (simp add: rank_rows_def SliceStable_def)

lemma Search_success:
  assumes "reads_ok env rows" and "queries_ok U env rows" and "printable t"
    and run: "Milvus_Search U env t q k s = (Inr docs, a, w)"
  shows "rows w = rows (snd s) \<and> 0 < k \<and>
    (\<exists>rs. mset rs \<subseteq># mset (tenant_is (escapeExprString t) (rows (snd s))) \<and>
       length rs = min (nat (query_limit k)) (length (tenant_is (escapeExprString t) (rows (snd s)))) \<and>
       docs = rank_rows U q k (map (row_document env t) rs))"
proof -
  let ?fs = "[fieldRecordID, fieldChunkText, fieldSourceURI, fieldMetadata]"
  obtain t0 w0 where now: "mc_now env (snd s) = (t0, w0)" by (metis surj_pair)
  from run obtain a1 w1 cols w2 where k: "0 < k"
    and ens: "ensureCollection U env 0 (fst s, w0) = (None, a1, w1)"
    and query: "mc_Query env (mi_Collection (ma_cfg (fst s))) (tenant_expr U t) ?fs (query_limit k) w1 = (Inr cols, w2)"
    and docs: "docs = (if cols = [] then [] else rank_rows U q k (rowsFromResultSet env cols t))"
    and w: "(a, w) = milvus_markTrace env ''ok'' t0 (a1, w2)"
    by (auto simp: Milvus_Search_def now Let_def finish_with_def split: option.splits prod.splits sum.splits if_splits)
  have same: "rows w1 = rows (snd s)" "rows w = rows (snd s)"
    using read_rows(1) [OF assms(1) now] ensureCollection_rows [OF assms(1) ens] read_rows(8) [OF assms(1) query]
      markTrace_rows [OF assms(1), of "''ok''" t0 "(a1, w2)"] w
    by (metis snd_conv)+
  from query have q: "mc_Query env (mi_Collection (ma_cfg (fst s))) (''tenant_id == '' @ Quote U (escapeExprString t)) ?fs
      (query_limit k) w1 = (Inr cols, w2)"
    by (simp add: tenant_expr_printable [OF assms(3)])
  from assms(2) [unfolded queries_ok_def, THEN conjunct1, rule_format, OF printable_escape [OF assms(3)] q]
  obtain rs where "mset rs \<subseteq># mset (tenant_is (escapeExprString t) (rows w1))"
    and "length rs = min (nat (query_limit k)) (length (tenant_is (escapeExprString t) (rows w1)))"
    and cols: "cols = [] \<and> rs = [] \<or> holds_rows cols ?fs rs"
    by blast
  moreover have "docs = rank_rows U q k (map (row_document env t) rs)"
  proof (cases "cols = []")
    case True
    with cols have "rs = []" by (auto simp: holds_rows_def)
    with docs True show ?thesis by simp
  next
    case False
    with cols docs rowsFromResultSet_rows show ?thesis by metis
  qed
  ultimately show ?thesis using same k by auto
qed

lemma SearchByEmbedding_success:
  assumes "reads_ok env rows" and "queries_ok U env rows" and "printable t"
    and run: "Milvus_SearchByEmbedding U env t v k s = (Inr docs, a, w)"
  shows "rows w = rows (snd s) \<and> 0 < k \<and>
    (\<exists>rs sc. mset rs \<subseteq># mset (tenant_is (escapeExprString t) (rows (snd s))) \<and> length rs \<le> nat k \<and>
       docs = map (\<lambda>i. (row_document env t (rs ! i))\<lparr>doc_Score := sc i\<rparr>) [0 ..< length rs])"
proof -
  let ?fs = "[fieldChunkText, fieldSourceURI, fieldMetadata]"
  let ?c = "mi_Collection (ma_cfg (fst s))"
  obtain t0 w0 where now: "mc_now env (snd s) = (t0, w0)" by (metis surj_pair)
  from run obtain a1 w1 w2 results w3 where k: "0 < k"
    and ens: "ensureCollection U env (int (length v)) (fst s, w0) = (None, a1, w1)"
    and load: "mc_LoadCollection env ?c w1 = (None, w2)"
    and query: "mc_Search env ?c (tenant_expr U t) ?fs v fieldEmbedding k w2 = (Inr results, w3)"
    and docs: "docs = (case results of [] \<Rightarrow> [] | r # _ \<Rightarrow> result_documents env t r)"
    and w: "(a, w) = milvus_markTrace env ''ok'' t0 (a1, w3)"
    by (auto simp: Milvus_SearchByEmbedding_def now Let_def finish_with_def
        split: option.splits prod.splits sum.splits if_splits)
  have same: "rows w2 = rows (snd s)" "rows w = rows (snd s)"
    using read_rows(1) [OF assms(1) now] ensureCollection_rows [OF assms(1) ens] read_rows(6) [OF assms(1) load]
      read_rows(9) [OF assms(1) query] markTrace_rows [OF assms(1), of "''ok''" t0 "(a1, w3)"] w
    by (metis snd_conv)+
  from query have q: "mc_Search env ?c (''tenant_id == '' @ Quote U (escapeExprString t)) ?fs v fieldEmbedding k w2 =
      (Inr results, w3)"
    by (simp add: tenant_expr_printable [OF assms(3)])
  note law = assms(2) [unfolded queries_ok_def, THEN conjunct2, rule_format, OF printable_escape [OF assms(3)] q]
  show ?thesis
  proof (cases results)
    case Nil
    with docs same k show ?thesis by (intro conjI exI [of _ "[]"]) simp_all
  next
    case (Cons r more)
    from law [OF Cons] obtain rs ids where rs: "mset rs \<subseteq># mset (tenant_is (escapeExprString t) (rows w2))"
      "length rs \<le> nat k" and r: "se_ResultCount r = length rs" "se_IDs r = Some ids"
      "\<forall>i < length rs. co_GetAsString ids i = Some (mr_RecordID (rs ! i))" "holds_rows (se_Fields r) ?fs rs"
      by blast
    from result_documents_rows [OF r(4,1,2,3), of env t] rs same k docs Cons show ?thesis by auto
  qed
qed

section \<open>Ranking\<close>

definition token_hits :: "unicode_tables \<Rightarrow> string \<Rightarrow> string \<Rightarrow> nat" where
  "token_hits U query content = length (filter (Contains (ToLower U content)) (Fields (ToLower U (TrimSpace query))))"

lemma fl_hundredth: "m < 50 \<Longrightarrow> 0 \<le> fl (of_nat m / 100) \<and> fl (of_nat m / 100) \<le> 1 / 2"
  using fl_mono [of 0 "of_nat m / 100"] fl_mono [of "of_nat m / 100" "of_int 1 / 2"] fl_half [of 0] fl_half [of 1]
  by simp

lemma lexicalScore_bounds:
  assumes "token_hits U q content < 2 ^ 50"
  shows "of_nat (token_hits U q content) \<le> lexicalScore U q content \<and>
         lexicalScore U q content \<le> of_nat (token_hits U q content) + 1 / 2"
proof -
  let ?h = "token_hits U q content"
  have f: "0 \<le> fl (of_nat (length content mod 10) / 100) \<and> fl (of_nat (length content mod 10) / 100) \<le> 1 / 2"
    and g: "0 \<le> fl (of_nat (length content mod 13) / 100) \<and> fl (of_nat (length content mod 13) / 100) \<le> 1 / 2"
    by (rule fl_hundredth, simp add: less_trans [OF mod_less_divisor])+
  have lo: "fl (of_nat ?h) = of_nat ?h" using fl_half [of "2 * int ?h"] assms by simp
  have "2 * int ?h + 1 < 2 ^ 53" using assms by simp
  then have hi: "fl (of_nat ?h + 1 / 2) = of_nat ?h + 1 / 2"
    using fl_half [of "2 * int ?h + 1"] by (simp add: add_divide_distrib)
  have "of_nat ?h \<le> fl (of_nat ?h + fl (of_nat (length content mod 10) / 100)) \<and>
      fl (of_nat ?h + fl (of_nat (length content mod 10) / 100)) \<le> of_nat ?h + 1 / 2"
    using fl_mono [of "of_nat ?h" "of_nat ?h + fl (of_nat (length content mod 10) / 100)"]
      fl_mono [of "of_nat ?h + fl (of_nat (length content mod 10) / 100)" "of_nat ?h + 1 / 2"] lo hi f by simp
  with g show ?thesis by (auto simp: lexicalScore_def token_hits_def Let_def)
qed

lemma lexicalScore_hits:
  assumes "lexicalScore U q y \<le> lexicalScore U q x" and "length (Fields (ToLower U (TrimSpace q))) < 2 ^ 50"
  shows "token_hits U q y \<le> token_hits U q x"
proof -
  have "token_hits U q c < 2 ^ 50" for c
    using le_less_trans [OF length_filter_le assms(2)] by (simp add: token_hits_def)
  from lexicalScore_bounds [OF this, of x] lexicalScore_bounds [OF this, of y] assms(1)
  have "rat_of_nat (token_hits U q y) \<le> of_nat (token_hits U q x) + 1 / 2" by linarith
  then show ?thesis by linarith
qed

lemma query_limit_bounds: "0 < k \<Longrightarrow> min k 512 \<le> query_limit k \<and> query_limit k \<le> 512"
  by (auto simp: query_limit_def Let_def)

text \<open>The ranked rows: the first \<open>k\<close> of a permutation that is ordered by the score.\<close>

lemma rank_rows_split:
  assumes "0 < k"
  obtains rest where "mset (rank_rows U q k rows @ rest) =
      mset (map (\<lambda>d. d\<lparr>doc_Score := lexicalScore U (TrimSpace (ToLower U q)) (doc_Content d)\<rparr>) rows)"
    and "sorted_wrt (\<lambda>x y. doc_Score y \<le> doc_Score x) (rank_rows U q k rows @ rest)"
    and "length (rank_rows U q k rows) = min (nat k) (length rows)"
proof -
  let ?docs = "map (\<lambda>d. d\<lparr>doc_Score := lexicalScore U (TrimSpace (ToLower U q)) (doc_Content d)\<rparr>) rows"
  let ?sorted = "SliceStable (\<lambda>x y. doc_Score x > doc_Score y) ?docs"
  have eq: "rank_rows U q k rows = take (nat k) ?sorted"
    using assms by (auto simp: rank_rows_def Let_def)
  have "sorted_wrt (\<lambda>x y. doc_Score y \<le> doc_Score x) ?sorted"
    using sorted_SliceStable [of "\<lambda>d. - doc_Score d" ?docs] by (simp add: sorted_map)
  with eq show thesis by (intro that [of "drop (nat k) ?sorted"]) (simp_all add: min_def)
qed

lemma rank_rows_from:
  assumes "0 < k" and "d \<in> set (rank_rows U q k ds)"
  shows "\<exists>d0 \<in> set ds. \<exists>sc. d = d0\<lparr>doc_Score := sc\<rparr>"
proof -
  obtain rest where perm: "mset (rank_rows U q k ds @ rest) =
      mset (map (\<lambda>d. d\<lparr>doc_Score := lexicalScore U (TrimSpace (ToLower U q)) (doc_Content d)\<rparr>) ds)"
    by (rule rank_rows_split [OF assms(1)])
  from assms(2) have "d \<in> set (rank_rows U q k ds @ rest)" by simp
  then show ?thesis unfolding mset_eq_setD [OF perm] by auto
qed

lemma rank_rows_hits:
  defines "hits \<equiv> \<lambda>U q d. token_hits U (TrimSpace (ToLower U q)) (doc_Content d)"
  assumes k: "0 < k" and short: "length (Fields (ToLower U (TrimSpace (TrimSpace (ToLower U q))))) < 2 ^ 50"
  shows "sorted_wrt (\<lambda>x y. hits U q y \<le> hits U q x) (rank_rows U q k ds) \<and>
    (\<forall>d \<in> set ds. (\<exists>sc. d\<lparr>doc_Score := sc\<rparr> \<in> set (rank_rows U q k ds)) \<or>
       (\<forall>x \<in> set (rank_rows U q k ds). hits U q d \<le> hits U q x))"
proof -
  let ?scored = "\<lambda>d. d\<lparr>doc_Score := lexicalScore U (TrimSpace (ToLower U q)) (doc_Content d)\<rparr>"
  let ?docs = "rank_rows U q k ds"
  obtain rest where perm: "mset (?docs @ rest) = mset (map ?scored ds)"
    and sorted: "sorted_wrt (\<lambda>x y. doc_Score y \<le> doc_Score x) (?docs @ rest)"
    by (rule rank_rows_split [OF k])
  have all: "set (?docs @ rest) = ?scored ` set ds" using mset_eq_setD [OF perm] by simp
  have hits: "hits U q y \<le> hits U q x"
    if "x \<in> set (?docs @ rest)" "y \<in> set (?docs @ rest)" "doc_Score y \<le> doc_Score x" for x y
  proof -
    have "doc_Score z = lexicalScore U (TrimSpace (ToLower U q)) (doc_Content z)" if "z \<in> set (?docs @ rest)" for z
      using that unfolding all by auto
    with that have "lexicalScore U (TrimSpace (ToLower U q)) (doc_Content y) \<le>
        lexicalScore U (TrimSpace (ToLower U q)) (doc_Content x)" by metis
    from lexicalScore_hits [OF this short] show ?thesis by (simp add: hits_def)
  qed
  have "sorted_wrt (\<lambda>x y. hits U q y \<le> hits U q x) ?docs"
    using sorted by (intro sorted_wrt_mono_rel [OF hits, where P = "\<lambda>x y. doc_Score y \<le> doc_Score x"])
      (auto simp: sorted_wrt_append)
  moreover have "(\<exists>sc. d\<lparr>doc_Score := sc\<rparr> \<in> set ?docs) \<or> (\<forall>x \<in> set ?docs. hits U q d \<le> hits U q x)"
    if "d \<in> set ds" for d
  proof (cases "?scored d \<in> set ?docs")
    case False
    with that all have "?scored d \<in> set rest" by auto
    with sorted have "doc_Score (?scored d) \<le> doc_Score x" if "x \<in> set ?docs" for x
      using that unfolding sorted_wrt_append by blast
    with \<open>?scored d \<in> set rest\<close> have "hits U q (?scored d) \<le> hits U q x" if "x \<in> set ?docs" for x
      using that by (intro hits) simp_all
    then show ?thesis by (simp add: hits_def)
  qed blast
  ultimately show ?thesis by blast
qed

lemma length_rank_rows: "0 < k \<Longrightarrow> length (rank_rows U q k ds) = min (nat k) (length ds)"
  by (rule rank_rows_split)

section \<open>Properties\<close>

text \<open>C10: searches of the Milvus store are confined to the tenant. On a server that behaves as documented, a text or
  vector search for a tenant identifier of printable ASCII characters without quote and backslash returns at
  most \<^verbatim>\<open>topK\<close> documents, each made of a stored row of that tenant, and changes nothing.\<close>

theorem milvus_scoped_search:
  assumes "reads_ok env rows" and "queries_ok U env rows" and "printable t" and "plain t"
    and "Milvus_Search U env t q k s = (Inr docs, a, w) \<or> Milvus_SearchByEmbedding U env t v k s = (Inr docs, a, w)"
  shows "rows w = rows (snd s) \<and> int (length docs) \<le> k \<and>
    (\<forall>d \<in> set docs. doc_TenantID d = t \<and>
       (\<exists>r \<in> set (rows (snd s)). mr_TenantID r = t \<and> doc_DocumentID d = TrimSpace (mr_RecordID r) \<and>
          doc_Content d = TrimSpace (mr_ChunkText r) \<and> doc_SourceURI d = TrimSpace (mr_SourceURI r)))"
proof -
  have e: "escapeExprString t = t" using assms(4) by (simp add: escape_plain_iff)
  from assms(5) obtain rs where same: "rows w = rows (snd s)" and len: "int (length docs) \<le> k"
    and rs: "mset rs \<subseteq># mset (tenant_is t (rows (snd s)))"
    and docs: "\<And>d. d \<in> set docs \<Longrightarrow> \<exists>r \<in> set rs. \<exists>sc. d = (row_document env t r)\<lparr>doc_Score := sc\<rparr>"
  proof
    assume "Milvus_Search U env t q k s = (Inr docs, a, w)"
    from Search_success [OF assms(1-3) this] e obtain rs where *: "rows w = rows (snd s)" "0 < k"
      "mset rs \<subseteq># mset (tenant_is t (rows (snd s)))" "docs = rank_rows U q k (map (row_document env t) rs)" by auto
    from that [of rs] * length_rank_rows [OF *(2)] rank_rows_from [OF *(2)] show thesis by fastforce
  next
    assume "Milvus_SearchByEmbedding U env t v k s = (Inr docs, a, w)"
    from SearchByEmbedding_success [OF assms(1-3) this] e obtain rs sc where *: "rows w = rows (snd s)" "0 < k"
      "mset rs \<subseteq># mset (tenant_is t (rows (snd s)))" "length rs \<le> nat k"
      "docs = map (\<lambda>i. (row_document env t (rs ! i))\<lparr>doc_Score := sc i\<rparr>) [0 ..< length rs]" by auto
    from that [of rs] * show thesis by fastforce
  qed
  have "set rs \<subseteq> {r \<in> set (rows (snd s)). mr_TenantID r = t}" using set_mset_mono [OF rs] by auto
  with docs have "\<exists>r \<in> set (rows (snd s)). mr_TenantID r = t \<and> (\<exists>sc. d = (row_document env t r)\<lparr>doc_Score := sc\<rparr>)"
    if "d \<in> set docs" for d using that by blast
  with same len show ?thesis by (fastforce simp: row_document_def)
qed

text \<open>The text search of the Milvus store ranks by matches. Documents that contain more of the words of the query
  come first, and when the tenant has at most as many rows as the query fetches (24 times \<^verbatim>\<open>topK\<close>, at most 512),
  every row that is left out contains no more of them than any document returned.\<close>

theorem milvus_ranking:
  assumes "reads_ok env rows" and "queries_ok U env rows" and "printable t" and "plain t"
    and "Milvus_Search U env t q k s = (Inr docs, a, w)"
    and "length (Fields (ToLower U (TrimSpace (TrimSpace (ToLower U q))))) < 2 ^ 50"
    and "int (length (tenant_is t (rows (snd s)))) \<le> query_limit k"
  shows "let hits = (\<lambda>d. token_hits U (TrimSpace (ToLower U q)) (doc_Content d)) in
    sorted_wrt (\<lambda>x y. hits y \<le> hits x) docs \<and>
    length docs = min (nat k) (length (tenant_is t (rows (snd s)))) \<and>
    (\<forall>r \<in> set (rows (snd s)). mr_TenantID r = t \<longrightarrow>
       (\<exists>d \<in> set docs. doc_DocumentID d = TrimSpace (mr_RecordID r) \<and> doc_Content d = TrimSpace (mr_ChunkText r)) \<or>
       (\<forall>d \<in> set docs. hits (row_document env t r) \<le> hits d))"
proof -
  have e: "escapeExprString t = t" using assms(4) by (simp add: escape_plain_iff)
  from Search_success [OF assms(1-3,5)] e obtain rs where k: "0 < k"
    and sub: "mset rs \<subseteq># mset (tenant_is t (rows (snd s)))"
    and len: "length rs = min (nat (query_limit k)) (length (tenant_is t (rows (snd s))))"
    and docs: "docs = rank_rows U q k (map (row_document env t) rs)" by auto
  from len assms(7) have n: "length rs = length (tenant_is t (rows (snd s)))" by simp
  then have "size (mset rs) = size (mset (tenant_is t (rows (snd s))))" by (simp only: size_mset)
  with sub have "mset rs = mset (tenant_is t (rows (snd s)))"
    by (metis mset_subset_size nless_le subset_mset.le_imp_less_or_eq)
  from mset_eq_setD [OF this] have all: "set rs = {r \<in> set (rows (snd s)). mr_TenantID r = t}" by auto
  show ?thesis
    unfolding Let_def
  proof (intro conjI ballI impI)
    fix r
    assume "r \<in> set (rows (snd s))" and "mr_TenantID r = t"
    with all have "row_document env t r \<in> set (map (row_document env t) rs)" by simp
    from bspec [OF conjunct2 [OF rank_rows_hits [OF k assms(6), of "map (row_document env t) rs"]] this]
    show "(\<exists>d \<in> set docs. doc_DocumentID d = TrimSpace (mr_RecordID r) \<and> doc_Content d = TrimSpace (mr_ChunkText r)) \<or>
       (\<forall>d \<in> set docs. token_hits U (TrimSpace (ToLower U q)) (doc_Content (row_document env t r)) \<le>
          token_hits U (TrimSpace (ToLower U q)) (doc_Content d))"
      unfolding docs [symmetric]
    proof
      assume "\<exists>sc. (row_document env t r)\<lparr>doc_Score := sc\<rparr> \<in> set docs"
      then obtain sc where d: "(row_document env t r)\<lparr>doc_Score := sc\<rparr> \<in> set docs" ..
      then show ?thesis by (intro disjI1 bexI [OF _ d]) (simp add: row_document_def)
    qed blast
  qed (use rank_rows_hits [OF k assms(6)] length_rank_rows [OF k] docs n in auto)
qed

text \<open>C11: the writes of the Milvus store. An upsert without records or with an invalid one fails and stores nothing, unlike
  the in-memory store, which keeps the records before the invalid one. A successful upsert of records with pairwise
  different identifiers replaces the rows with these identifiers and stores every field of every record. A
  successful purge of a tenant whose identifier is printable ASCII removes exactly the rows its filter selects, those of the
  escaped identifier; these are exactly the rows of the tenant when the identifier has no quote and no backslash, and
  rows of another tenant otherwise (the next theorem).\<close>

theorem milvus_writes:
  assumes "reads_ok env rows" and "writes_ok U env rows"
  shows "(rs = [] \<or> (\<exists>r \<in> set rs. VectorRecord_Validate r \<noteq> None) \<longrightarrow>
       (\<exists>e a w. Milvus_Upsert U env rs s = (Some e, a, w) \<and> rows w = rows (snd s))) \<and>
    (distinct (map vr_RecordID rs) \<and> Milvus_Upsert U env rs s = (None, a, w) \<longrightarrow>
       rows w = filter (\<lambda>r. mr_RecordID r \<notin> vr_RecordID ` set rs) (rows (snd s)) @ map (row_of env) rs) \<and>
    (printable t \<and> Milvus_PurgeTenant U env t s = (None, a', w') \<longrightarrow>
       rows w' = filter (\<lambda>r. mr_TenantID r \<noteq> escapeExprString t) (rows (snd s)) \<and>
       (plain t \<longrightarrow> rows w' = filter (\<lambda>r. mr_TenantID r \<noteq> t) (rows (snd s))))"
  using Upsert_invalid [OF assms(1)] Upsert_success [OF assms] Purge_success [OF assms, of t s a' w']
    escape_plain_iff [of t]
  by auto

text \<open>The filter escapes twice. \<^verbatim>\<open>escapeExprString\<close> escapes the tenant and \<^verbatim>\<open>%q\<close> escapes the result again, so
  for a tenant with a quote or a backslash the expression selects another identifier, the escaped one: a text
  search returns only rows of that other tenant, labelled with the identifier of the caller, and a purge deletes them
  and none of the caller's.\<close>

theorem milvus_escapes_twice:
  assumes "reads_ok env rows" and "writes_ok U env rows" and "queries_ok U env rows"
    and "printable t" and "\<not> plain t"
  shows "escapeExprString t \<noteq> t \<and>
    (\<forall>docs a w. Milvus_Search U env t q k s = (Inr docs, a, w) \<longrightarrow>
       (\<forall>d \<in> set docs. doc_TenantID d = t \<and>
          (\<exists>r \<in> set (rows (snd s)). mr_TenantID r = escapeExprString t \<and> doc_Content d = TrimSpace (mr_ChunkText r)))) \<and>
    (\<forall>a w. Milvus_PurgeTenant U env t s = (None, a, w) \<longrightarrow>
       tenant_is t (rows w) = tenant_is t (rows (snd s)) \<and> tenant_is (escapeExprString t) (rows w) = [])"
proof (intro conjI allI impI ballI)
  show ne: "escapeExprString t \<noteq> t" using assms(5) by (simp add: escape_plain_iff)
  {
    fix docs a w d
    assume run: "Milvus_Search U env t q k s = (Inr docs, a, w)" and d: "d \<in> set docs"
    from Search_success [OF assms(1,3,4) run] obtain rs where k: "0 < k"
      and rs: "mset rs \<subseteq># mset (tenant_is (escapeExprString t) (rows (snd s)))"
      and docs: "docs = rank_rows U q k (map (row_document env t) rs)" by blast
    from rank_rows_from [OF k d [unfolded docs]] obtain r sc where r: "r \<in> set rs"
      "d = (row_document env t r)\<lparr>doc_Score := sc\<rparr>" by auto
    show "doc_TenantID d = t" by (simp add: r row_document_def)
    from r set_mset_mono [OF rs] have "r \<in> set (rows (snd s))" "mr_TenantID r = escapeExprString t" by auto
    with r(2) show "\<exists>r \<in> set (rows (snd s)). mr_TenantID r = escapeExprString t \<and> doc_Content d = TrimSpace (mr_ChunkText r)"
      by (intro bexI [of _ r]) (simp_all add: row_document_def)
  next
    fix a w
    assume "Milvus_PurgeTenant U env t s = (None, a, w)"
    from Purge_success [OF assms(1,2,4) this] ne
    show "tenant_is t (rows w) = tenant_is t (rows (snd s))" and "tenant_is (escapeExprString t) (rows w) = []"
      by (auto simp: filter_filter intro: filter_cong)
  }
qed

text \<open>Before the first upsert. As long as the collection does not exist and the adapter knows no dimension, a text
  search and a purge fail with an error instead of finding and deleting nothing, as the in-memory store does.\<close>

theorem milvus_cold_start:
  assumes "\<forall>w. fst (mc_HasCollection env (mi_Collection (ma_cfg a)) w) = Inr False" and "ma_dim a = 0"
    and "t \<noteq> []" and "TrimSpace q \<noteq> []" and "0 < k"
  shows "fst (Milvus_Search U env t q k (a, w)) = Inl (milvus_error U ''search'' dimension_required) \<and>
    fst (Milvus_PurgeTenant U env t (a, w)) = Some (milvus_error U ''purge'' dimension_required)"
proof -
  have "fst (ensureCollection U env 0 (a, w0)) = Some dimension_required" for w0
  proof -
    obtain x w1 where "mc_HasCollection env (mi_Collection (ma_cfg a)) w0 = (x, w1)" by (metis surj_pair)
    with assms(1) have "mc_HasCollection env (mi_Collection (ma_cfg a)) w0 = (Inr False, w1)" by (metis fst_conv)
    with assms(2) show ?thesis by (simp add: ensureCollection_def)
  qed
  then have "\<exists>s. ensureCollection U env 0 (a, w0) = (Some dimension_required, s)" for w0
    by (metis prod.collapse)
  then obtain s1 where ens: "ensureCollection U env 0 (a, w0) = (Some dimension_required, s1 w0)" for w0 by metis
  obtain t0 w0 where "mc_now env w = (t0, w0)" by (metis surj_pair)
  with assms(3-5) ens show ?thesis
    by (simp add: Milvus_Search_def Milvus_PurgeTenant_def TenantID_Validate_def Let_def finish_with_def)
qed

section \<open>A server for the examples\<close>

definition demo_columns :: "string list \<Rightarrow> milvus_row list \<Rightarrow> column list" where
  "demo_columns fs rs =
     map (\<lambda>f. \<lparr>co_Name = f, co_Len = length rs,
                co_GetAsString = \<lambda>i. if i < length rs then Some (row_field f (rs ! i)) else None,
                co_Get = \<lambda>i. None\<rparr>) fs"

definition demo_select :: "string \<Rightarrow> milvus_row list \<Rightarrow> milvus_row list" where
  "demo_select expr =
     filter (\<lambda>r. expr = ''tenant_id == '' @ [CHR 0x22] @ escapeExprString (mr_TenantID r) @ [CHR 0x22])"

definition demo_milvus :: "milvus_row list milvus_client" where
  "demo_milvus =
     \<lparr>mc_now = \<lambda>w. (0, w), mc_connect = \<lambda>c w. (None, w), mc_HasCollection = \<lambda>c w. (Inr True, w),
      mc_DescribeCollection = \<lambda>c w. (Inr [(''object_key'', None), (''embedding'', Some ''1'')], w),
      mc_CreateCollection = \<lambda>c fs w. (None, w), mc_NewIndexAUTOINDEX = None, mc_NewSearchParam = None,
      mc_CreateIndex = \<lambda>c f w. (None, w), mc_LoadCollection = \<lambda>c w. (None, w),
      mc_Upsert = \<lambda>c cs w. (None, filter (\<lambda>r. mr_RecordID r \<notin> set (varchars ''record_id'' cs)) w @ rows_of_columns cs),
      mc_Flush = \<lambda>c w. (None, w),
      mc_Query = \<lambda>c e fs k w. (Inr (demo_columns fs (take (nat k) (demo_select e w))), w),
      mc_Search = \<lambda>c e fs v f k w.
        (let rs = take (nat k) (demo_select e w)
         in (Inr [\<lparr>se_ResultCount = length rs, se_IDs = Some (hd (demo_columns [''record_id''] rs)),
                  se_Fields = demo_columns fs rs, se_Scores = []\<rparr>], w)),
      mc_Delete = \<lambda>c e w. (None, filter (\<lambda>r. r \<notin> set (demo_select e w)) w),
      mc_marshal = \<lambda>m. Inr ''{}'', mc_unmarshal = \<lambda>t. Inr []\<rparr>"

lemma demo_select_literal: "printable s \<Longrightarrow> demo_select (''tenant_id == '' @ Quote U s) w = tenant_is s w"
  by (auto simp: demo_select_def Quote_def quote_body_printable escape_inj intro!: filter_cong)

lemma demo_holds: "holds_rows (demo_columns fs rs) fs rs"
proof -
  have "find (\<lambda>c. co_Name c = f) (demo_columns fs rs) =
      Some \<lparr>co_Name = f, co_Len = length rs,
            co_GetAsString = \<lambda>i. if i < length rs then Some (row_field f (rs ! i)) else None, co_Get = \<lambda>i. None\<rparr>"
    if "f \<in> set fs" for f
    using that by (induction fs) (auto simp: demo_columns_def)
  then show ?thesis by (auto simp: holds_rows_def demo_columns_def)
qed

lemma mset_take_subset: "mset (take n xs) \<subseteq># mset xs"
  by (metis append_take_drop_id mset_append mset_subset_eq_add_left)

lemma demo_reads: "reads_ok demo_milvus id"
  by (simp add: reads_ok_def keeps_def demo_milvus_def Let_def)

lemma demo_writes: "writes_ok U demo_milvus id"
  unfolding writes_ok_def
proof (intro conjI allI impI)
  show "printable s \<Longrightarrow> mc_Delete demo_milvus c (''tenant_id == '' @ Quote U s) w = (None, w') \<Longrightarrow>
      id w' = filter (\<lambda>r. mr_TenantID r \<noteq> s) (id w)" for c s w w'
    by (auto simp: demo_milvus_def demo_select_literal simp del: append.simps intro!: filter_cong)
qed (simp add: demo_milvus_def)

lemma demo_queries: "queries_ok U demo_milvus id"
  unfolding queries_ok_def
proof (intro conjI allI impI)
  fix c s fs k w cols w'
  assume s: "printable s" and run: "mc_Query demo_milvus c (''tenant_id == '' @ Quote U s) fs k w = (Inr cols, w')"
  show "\<exists>rs. mset rs \<subseteq># mset (tenant_is s (id w)) \<and> length rs = min (nat k) (length (tenant_is s (id w))) \<and>
      (cols = [] \<and> rs = [] \<or> holds_rows cols fs rs)"
    using run demo_holds mset_take_subset
    by (intro exI [of _ "take (nat k) (tenant_is s w)"])
       (auto simp: demo_milvus_def demo_select_literal [OF s] simp del: append.simps mset_filter)
next
  fix c s fs v f k w results w' r more
  assume s: "printable s" and rs: "results = r # more"
    and run: "mc_Search demo_milvus c (''tenant_id == '' @ Quote U s) fs v f k w = (Inr results, w')"
  show "\<exists>rs ids. mset rs \<subseteq># mset (tenant_is s (id w)) \<and> length rs \<le> nat k \<and> se_ResultCount r = length rs \<and>
      se_IDs r = Some ids \<and> (\<forall>i < length rs. co_GetAsString ids i = Some (mr_RecordID (rs ! i))) \<and>
      holds_rows (se_Fields r) fs rs"
  proof (intro exI conjI)
    let ?rs = "take (nat k) (tenant_is s w)"
    have r: "r = \<lparr>se_ResultCount = length ?rs, se_IDs = Some (hd (demo_columns [''record_id''] ?rs)),
                  se_Fields = demo_columns fs ?rs, se_Scores = []\<rparr>"
      using run rs by (auto simp: demo_milvus_def demo_select_literal [OF s] Let_def simp del: append.simps)
    show "mset ?rs \<subseteq># mset (tenant_is s (id w))" using mset_take_subset by (simp del: mset_filter)
    show "length ?rs \<le> nat k" by simp
    show "se_ResultCount r = length ?rs" and "se_IDs r = Some (hd (demo_columns [''record_id''] ?rs))" by (simp_all add: r)
    show "\<forall>i < length ?rs. co_GetAsString (hd (demo_columns [''record_id''] ?rs)) i = Some (mr_RecordID (?rs ! i))"
      by (simp add: demo_columns_def row_field_def)
    show "holds_rows (se_Fields r) fs ?rs" using demo_holds by (simp add: r)
  qed
qed

definition demo_row :: "string \<Rightarrow> TenantID \<Rightarrow> string \<Rightarrow> milvus_row" where
  "demo_row i t txt = row_of demo_milvus (demo_record i t txt)"

definition demo_store :: "MilvusAdapter" where
  "demo_store =
     \<lparr>ma_cfg = \<lparr>mi_Endpoint = ''h'', mi_Database = ''d'', mi_Collection = ''c'', mi_Username = [], mi_Password = [],
                 mi_Token = [], mi_TLS = True\<rparr>,
      ma_lastTrace = \<lparr>vt_Provider = [], vt_Status = [], vt_LatencyMillis = 0\<rparr>, ma_dim = 0\<rparr>"

definition demo_rows :: "milvus_row list" where
  "demo_rows = [demo_row ''1'' ''a'' ''a cat'', demo_row ''2'' ''b'' ''a dog'', demo_row ''3'' ''a'' ''cat and dog'']"

lemma demo_collection: "ensureCollection U demo_milvus d (demo_store, w) = (None, demo_store\<lparr>ma_dim := 1\<rparr>, w)"
proof -
  have "Atoi ''1'' = Some 1" by code_simp
  then show ?thesis
    by (simp add: ensureCollection_def ensureIndexAndLoad_def load_collection_def scan_field_def demo_milvus_def)
qed

lemma demo_text: "TrimSpace ''cat dog'' \<noteq> []" "length (Fields (ToLower ascii_tables (TrimSpace (TrimSpace (ToLower ascii_tables ''cat dog''))))) = 2"
  by code_simp+

lemma demo_text_search: "\<exists>docs a. Milvus_Search ascii_tables demo_milvus ''a'' ''cat dog'' 5 (demo_store, demo_rows) = (Inr docs, a, demo_rows)"
  using demo_text(1)
  by (simp add: Milvus_Search_def Let_def TenantID_Validate_def demo_collection milvus_markTrace_def)
     (simp add: demo_milvus_def milvus_markTrace_def)

lemma demo_tenants: "printable ''a''" "plain ''a''"
  by (simp_all add: printable_def plain_def byte_def)

theorem milvus_scoped_search_witness:
  "\<exists>docs a. Milvus_Search ascii_tables demo_milvus ''a'' ''cat dog'' 5 (demo_store, demo_rows) = (Inr docs, a, demo_rows) \<and>
     int (length docs) \<le> 5"
proof -
  obtain docs a where run:
    "Milvus_Search ascii_tables demo_milvus ''a'' ''cat dog'' 5 (demo_store, demo_rows) = (Inr docs, a, demo_rows)"
    using demo_text_search by blast
  from milvus_scoped_search [OF demo_reads demo_queries demo_tenants disjI1 [OF run]] run show ?thesis by auto
qed

theorem milvus_ranking_witness:
  "\<exists>docs a. Milvus_Search ascii_tables demo_milvus ''a'' ''cat dog'' 5 (demo_store, demo_rows) = (Inr docs, a, demo_rows) \<and>
     length docs = 2"
proof -
  obtain docs a where run:
    "Milvus_Search ascii_tables demo_milvus ''a'' ''cat dog'' 5 (demo_store, demo_rows) = (Inr docs, a, demo_rows)"
    using demo_text_search by blast
  have "length (tenant_is ''a'' demo_rows) = 2"
    by (simp add: demo_rows_def demo_row_def row_of_def demo_record_def)
  moreover have "query_limit 5 = 120" by code_simp
  ultimately show ?thesis
    using milvus_ranking [OF demo_reads demo_queries demo_tenants run] run demo_text(2) by (simp add: Let_def)
qed

theorem milvus_writes_witness:
  "(\<exists>a. Milvus_PurgeTenant ascii_tables demo_milvus ''a'' (demo_store, demo_rows) = (None, a, [demo_row ''2'' ''b'' ''a dog''])) \<and>
   (\<exists>e a w. Milvus_Upsert ascii_tables demo_milvus [] (demo_store, demo_rows) = (Some e, a, w) \<and> w = demo_rows)"
proof -
  have "\<exists>a w. Milvus_PurgeTenant ascii_tables demo_milvus ''a'' (demo_store, demo_rows) = (None, a, w)"
    by (simp add: Milvus_PurgeTenant_def Let_def TenantID_Validate_def demo_collection milvus_markTrace_def)
       (simp add: demo_milvus_def milvus_markTrace_def)
  then obtain a w where purge: "Milvus_PurgeTenant ascii_tables demo_milvus ''a'' (demo_store, demo_rows) = (None, a, w)"
    by blast
  have left: "filter (\<lambda>r. mr_TenantID r \<noteq> ''a'') demo_rows = [demo_row ''2'' ''b'' ''a dog'']"
    by (simp add: demo_rows_def demo_row_def row_of_def demo_record_def)
  note w = milvus_writes [OF demo_reads demo_writes, where rs = "[]" and U = ascii_tables and s = "(demo_store, demo_rows)"
      and t = "''a''" and a' = a and w' = w]
  from w purge left demo_tenants show ?thesis by auto
qed

theorem milvus_escapes_twice_witness:
  "escapeExprString [CHR 0x22] = [CHR 0x5C, CHR 0x22] \<and>
   (\<exists>a w. Milvus_PurgeTenant ascii_tables demo_milvus [CHR 0x22]
        (demo_store, [demo_row ''1'' [CHR 0x22] ''x'', demo_row ''2'' [CHR 0x5C, CHR 0x22] ''y'']) = (None, a, w) \<and>
      tenant_is [CHR 0x5C, CHR 0x22] w = [] \<and> length (tenant_is [CHR 0x22] w) = 1)"
proof -
  let ?rows = "[demo_row ''1'' [CHR 0x22] ''x'', demo_row ''2'' [CHR 0x5C, CHR 0x22] ''y'']"
  have esc: "escapeExprString [CHR 0x22] = [CHR 0x5C, CHR 0x22]" by (simp add: escape_Cons)
  have "\<exists>a w. Milvus_PurgeTenant ascii_tables demo_milvus [CHR 0x22] (demo_store, ?rows) = (None, a, w)"
    by (simp add: Milvus_PurgeTenant_def Let_def TenantID_Validate_def demo_collection milvus_markTrace_def)
       (simp add: demo_milvus_def milvus_markTrace_def)
  then obtain a w where purge: "Milvus_PurgeTenant ascii_tables demo_milvus [CHR 0x22] (demo_store, ?rows) = (None, a, w)"
    by blast
  have "printable [CHR 0x22]" "\<not> plain [CHR 0x22]" by (simp_all add: printable_def plain_def)
  from milvus_escapes_twice [OF demo_reads demo_writes demo_queries this, where U = ascii_tables and s = "(demo_store, ?rows)"] purge esc
  show ?thesis by (auto simp: demo_row_def row_of_def demo_record_def)
qed

theorem milvus_cold_start_witness:
  "fst (Milvus_PurgeTenant ascii_tables (demo_milvus\<lparr>mc_HasCollection := \<lambda>c w. (Inr False, w)\<rparr>) ''a'' (demo_store, [])) =
     Some (milvus_error ascii_tables ''purge'' dimension_required)"
  using milvus_cold_start [of "demo_milvus\<lparr>mc_HasCollection := \<lambda>c w. (Inr False, w)\<rparr>" demo_store "''a''" "''cat dog''" 1]
    demo_text(1)
  by (simp add: demo_store_def)

end
