(* ===== verification/Runtime_Config.thy ===== *)
theory Runtime_Config
  imports Go_Parse Go_Crypto Rerank_Gateway Milvus_Adapter
begin

text \<open>
  Configuration: the environment helpers of \<^verbatim>\<open>backend/util/apiutil/util.go\<close>, \<^verbatim>\<open>ConfigFromEnv\<close> of
  \<^verbatim>\<open>backend/util/ConfigUtil.go\<close>, and the configuration of gateway, vector store and database with their builders in
  \<^verbatim>\<open>internal/runtime\<close>. The environment and the files named in it are arguments, as are \<^verbatim>\<open>url.Parse\<close> and the
  database driver.
\<close>

section \<open>The environment\<close>

record environment =
  en_lookup :: "string \<Rightarrow> string option"
  en_file :: "string \<Rightarrow> string option"

definition Getenv :: "environment \<Rightarrow> string \<Rightarrow> string" where
  "Getenv en key = (case en_lookup en key of Some v \<Rightarrow> v | None \<Rightarrow> [])"

definition EnvOr :: "environment \<Rightarrow> string \<Rightarrow> string \<Rightarrow> string" where
  "EnvOr en key fallback = (let v = TrimSpace (Getenv en key) in if v \<noteq> [] then v else fallback)"

text \<open>The value of the file a path names, if the path is set and the file can be read and is not blank.\<close>

definition file_value :: "environment \<Rightarrow> string \<Rightarrow> string option" where
  "file_value en path =
     (if TrimSpace path = [] then None
      else case en_file en (TrimSpace path) of
          None \<Rightarrow> None
        | Some raw \<Rightarrow> if TrimSpace raw \<noteq> [] then Some (TrimSpace raw) else None)"

definition EnvOrSecret :: "environment \<Rightarrow> string \<Rightarrow> string \<Rightarrow> string" where
  "EnvOrSecret en key fallback =
     (case file_value en (Getenv en (key @ ''_FILE'')) of
        Some v \<Rightarrow> v
      | None \<Rightarrow> let v = TrimSpace (Getenv en key) in if v \<noteq> [] then v else fallback)"

fun EnvOrAny :: "environment \<Rightarrow> string list \<Rightarrow> string \<Rightarrow> string" where
  "EnvOrAny en [] fallback = fallback"
| "EnvOrAny en (key # keys) fallback =
     (let v = TrimSpace (Getenv en key) in if v \<noteq> [] then v else EnvOrAny en keys fallback)"

fun EnvOrSecretAny :: "environment \<Rightarrow> string list \<Rightarrow> string \<Rightarrow> string" where
  "EnvOrSecretAny en [] fallback = fallback"
| "EnvOrSecretAny en (key # keys) fallback =
     (let v = TrimSpace (EnvOrSecret en key []) in if v \<noteq> [] then v else EnvOrSecretAny en keys fallback)"

fun EnvBoolAny :: "unicode_tables \<Rightarrow> environment \<Rightarrow> string list \<Rightarrow> bool \<Rightarrow> bool" where
  "EnvBoolAny U en [] fallback = fallback"
| "EnvBoolAny U en (key # keys) fallback =
     (let v = TrimSpace (Getenv en key)
      in if v = [] then EnvBoolAny U en keys fallback
         else if ToLower U v \<in> {''1'', ''true'', ''yes'', ''on''} then True
         else if ToLower U v \<in> {''0'', ''false'', ''no'', ''off''} then False
         else EnvBoolAny U en keys fallback)"

definition SplitCSV :: "string \<Rightarrow> string list" where
  "SplitCSV raw = filter (\<lambda>p. p \<noteq> []) (map TrimSpace (Split raw (CHR '','')))"

section \<open>Random identifiers\<close>

text \<open>\<^verbatim>\<open>rand.Read\<close> fills a buffer or fails; then \<^verbatim>\<open>RandomString\<close> falls back to the clock.\<close>

definition RandomString :: "(nat \<Rightarrow> string option) \<Rightarrow> time \<Rightarrow> int \<Rightarrow> string" where
  "RandomString read now n0 =
     (let n = nat (if n0 \<le> 0 then 8 else n0)
      in case read n of
           None \<Rightarrow> Itoa (time_UnixNano now)
         | Some buf \<Rightarrow> take n (RawURL_EncodeToString buf))"

definition set_bits :: "nat \<Rightarrow> nat \<Rightarrow> char \<Rightarrow> char" where
  "set_bits k m c = char_of (byte c mod k + m)"

definition RandomUUIDv4Like :: "(nat \<Rightarrow> string option) \<Rightarrow> time \<Rightarrow> string" where
  "RandomUUIDv4Like read now =
     (case read 16 of
        None \<Rightarrow> ''req-'' @ RandomString read now 16
      | Some b0 \<Rightarrow>
          let b = b0[6 := set_bits 16 64 (b0 ! 6), 8 := set_bits 64 128 (b0 ! 8)]
          in EncodeToString (take 4 b) @ ''-'' @ EncodeToString (take 2 (drop 4 b)) @ ''-'' @
             EncodeToString (take 2 (drop 6 b)) @ ''-'' @ EncodeToString (take 2 (drop 8 b)) @ ''-'' @
             EncodeToString (take 6 (drop 10 b)))"

section \<open>The configuration of the server\<close>

record Config =
  cf_Addr :: string
  cf_JWTSecret :: string
  cf_TokenTTL :: duration
  cf_AllowedOrigins :: "string list"
  cf_RateLimitPerMin :: int
  cf_UploadBaseURL :: string
  cf_S3Endpoint :: string
  cf_UploadBucket :: string
  cf_S3AccessKey :: string
  cf_S3SecretKey :: string
  cf_S3Region :: string
  cf_S3UsePathStyle :: bool
  cf_PresignTTL :: duration
  cf_MaxObjectBytes :: int
  cf_GatewayProvider :: string
  cf_PortkeyBaseURL :: string
  cf_PortkeyAPIKey :: string
  cf_OpenRouterKey :: string
  cf_OpenRouterModel :: string
  cf_EnableQueryRewrite :: bool
  cf_QueryRewriteModel :: string
  cf_EmbeddingModel :: string
  cf_EmbeddingFallbackModel :: string
  cf_LLMTimeout :: duration
  cf_OpenRouterMinInterval :: duration
  cf_OpenRouterRetryMax :: int
  cf_ChunkSizeChars :: int
  cf_ChunkOverlapWords :: int
  cf_ParserType :: string
  cf_DoclingEndpoint :: string

text \<open>A setting that is parsed and checked, with its default.\<close>

definition setting :: "(string \<Rightarrow> 'a option) \<Rightarrow> ('a \<Rightarrow> bool) \<Rightarrow> string \<Rightarrow> 'a \<Rightarrow> 'a" where
  "setting parse ok value d =
     (let raw = TrimSpace value
      in if raw = [] then d
         else case parse raw of Some v \<Rightarrow> if ok v then v else d | None \<Rightarrow> d)"

definition ConfigFromEnv :: "unicode_tables \<Rightarrow> environment \<Rightarrow> Config" where
  "ConfigFromEnv U en =
     (let ttl = setting ParseDuration (\<lambda>_. True) (Getenv en ''FINE_RAG_TOKEN_TTL'') (8 * 3600 * nanos_per_second);
          limit = setting Atoi (\<lambda>n. n > 0) (Getenv en ''FINE_RAG_RATE_LIMIT_PER_MIN'') 120;
          origins0 = SplitCSV (Getenv en ''FINE_RAG_ALLOWED_ORIGINS'');
          origins = (if origins0 = [] then [''https://finer.shafeeq.dev'', ''https://dash-finer.shafeeq.dev''] else origins0);
          pathStyle = (if TrimSpace (EnvOrSecretAny en [''FINE_RAG_S3_ENDPOINT''] []) \<noteq> [] then True
                       else EnvBoolAny U en [''FINE_RAG_S3_USE_PATH_STYLE''] False);
          presignTTL = setting ParseDuration (\<lambda>d. d > 0) (EnvOrAny en [''FINE_RAG_S3_PRESIGN_TTL''] []) (300 * nanos_per_second);
          maxObjectBytes = setting Atoi (\<lambda>n. n > 0) (EnvOrAny en [''FINE_RAG_S3_MAX_OBJECT_BYTES''] []) (20 * 1024 * 1024);
          llmTimeout = setting ParseDuration (\<lambda>d. d > 0) (Getenv en ''FINE_RAG_LLM_TIMEOUT'') (12 * nanos_per_second);
          minInterval = setting ParseDuration (\<lambda>d. d > 0) (Getenv en ''FINE_RAG_OPENROUTER_MIN_INTERVAL'') 900000000;
          retryMax = setting Atoi (\<lambda>n. n \<ge> 0) (Getenv en ''FINE_RAG_OPENROUTER_RETRY_MAX'') 3;
          chunkSize = setting Atoi (\<lambda>n. n > 0) (Getenv en ''FINE_RAG_CHUNK_SIZE_CHARS'') 900;
          overlap = setting Atoi (\<lambda>n. n \<ge> 0) (Getenv en ''FINE_RAG_CHUNK_OVERLAP_WORDS'') 30;
          rewriteRaw = TrimSpace (Getenv en ''FINE_RAG_ENABLE_QUERY_REWRITE'');
          rewrite = (if rewriteRaw = [] then True
                     else EqualFold_ascii rewriteRaw ''true'' \<or> rewriteRaw = ''1'' \<or> EqualFold_ascii rewriteRaw ''yes'')
      in \<lparr>cf_Addr = EnvOr en ''FINE_RAG_HTTP_ADDR'' '':8080'',
          cf_JWTSecret = EnvOrSecret en ''FINE_RAG_JWT_SECRET'' [],
          cf_TokenTTL = ttl, cf_AllowedOrigins = origins, cf_RateLimitPerMin = limit,
          cf_UploadBaseURL = EnvOrSecretAny en [''FINE_RAG_UPLOAD_PUBLIC_BASE_URL'', ''FINE_RAG_S3_PUBLIC_BASE_URL''] [],
          cf_S3Endpoint = EnvOrSecretAny en [''FINE_RAG_S3_ENDPOINT''] [],
          cf_UploadBucket = EnvOrAny en [''FINE_RAG_S3_BUCKET''] ''finerag-ingestion'',
          cf_S3AccessKey = EnvOrSecretAny en [''FINE_RAG_S3_ACCESS_KEY''] [],
          cf_S3SecretKey = EnvOrSecretAny en [''FINE_RAG_S3_SECRET_KEY''] [],
          cf_S3Region = EnvOrAny en [''FINE_RAG_S3_REGION''] ''us-east-1'',
          cf_S3UsePathStyle = pathStyle, cf_PresignTTL = presignTTL, cf_MaxObjectBytes = maxObjectBytes,
          cf_GatewayProvider = ToLower U (EnvOr en ''FINE_RAG_GATEWAY_PROVIDER'' ''stub''),
          cf_PortkeyBaseURL = EnvOr en ''FINE_RAG_PORTKEY_BASE_URL'' ''https://api.portkey.ai'',
          cf_PortkeyAPIKey = EnvOrSecret en ''FINE_RAG_PORTKEY_API_KEY'' [],
          cf_OpenRouterKey = EnvOrSecret en ''FINE_RAG_OPENROUTER_API_KEY'' [],
          cf_OpenRouterModel = EnvOr en ''FINE_RAG_OPENROUTER_MODEL'' ''@groq-key/openai/gpt-oss-120b'',
          cf_EnableQueryRewrite = rewrite,
          cf_QueryRewriteModel = EnvOr en ''FINE_RAG_QUERY_REWRITE_MODEL'' ''@groq-key/openai/gpt-oss-20b'',
          cf_EmbeddingModel = EnvOr en ''FINE_RAG_OPENROUTER_EMBEDDING_MODEL''
            ''@openrouter-key/nvidia/llama-nemotron-embed-vl-1b-v2:free'',
          cf_EmbeddingFallbackModel = EnvOr en ''FINE_RAG_OPENROUTER_EMBEDDING_FALLBACK_MODEL'' [],
          cf_LLMTimeout = llmTimeout, cf_OpenRouterMinInterval = minInterval, cf_OpenRouterRetryMax = retryMax,
          cf_ChunkSizeChars = chunkSize, cf_ChunkOverlapWords = overlap,
          cf_ParserType = ToLower U (EnvOr en ''FINE_RAG_PARSER_TYPE'' ''extractous''),
          cf_DoclingEndpoint = EnvOr en ''FINE_RAG_DOCLING_ENDPOINT'' ''http://localhost:5000''\<rparr>)"

section \<open>Gateway\<close>

text \<open>\<^verbatim>\<open>getEnv\<close> of \<^verbatim>\<open>internal/runtime\<close>: the file wins; the value of the variable is not trimmed.\<close>

definition runtime_getEnv :: "environment \<Rightarrow> string \<Rightarrow> string" where
  "runtime_getEnv en key =
     (case en_lookup en (key @ ''_FILE'') of
        Some path \<Rightarrow> (case file_value en path of Some v \<Rightarrow> v | None \<Rightarrow> Getenv en key)
      | None \<Rightarrow> Getenv en key)"

definition provider_setting :: "unicode_tables \<Rightarrow> environment \<Rightarrow> string \<Rightarrow> string \<Rightarrow> string" where
  "provider_setting U en key d =
     (case en_lookup en key of
        Some v \<Rightarrow> if TrimSpace v \<noteq> [] then ToLower U (TrimSpace v) else d
      | None \<Rightarrow> d)"

record GatewayConfig =
  gc_Provider :: string
  gc_PortkeyBaseURL :: string
  gc_PortkeyAPIKey :: string
  gc_Timeout :: duration
  gc_RetryMax :: int
  gc_CircuitFailureThreshold :: int
  gc_FallbackMode :: string
  gc_DirectAllowlist :: "string list"
  gc_RerankModel :: string
  gc_PortkeyProviderKey :: string
  gc_RerankerProvider :: string

definition LoadGatewayConfigFromEnv :: "unicode_tables \<Rightarrow> environment \<Rightarrow> GatewayConfig" where
  "LoadGatewayConfigFromEnv U en =
     (let g = runtime_getEnv en;
          fallback = ToLower U (TrimSpace (g ''FINE_RAG_GATEWAY_FALLBACK_MODE''));
          allowlistRaw = TrimSpace (g ''FINE_RAG_GATEWAY_DIRECT_ALLOWLIST'')
      in \<lparr>gc_Provider = provider_setting U en ''FINE_RAG_GATEWAY_PROVIDER'' ''stub'',
          gc_PortkeyBaseURL = TrimSpace (g ''FINE_RAG_PORTKEY_BASE_URL''),
          gc_PortkeyAPIKey = TrimSpace (g ''FINE_RAG_PORTKEY_API_KEY''),
          gc_Timeout = setting ParseDuration (\<lambda>_. True) (g ''FINE_RAG_GATEWAY_TIMEOUT'') (20 * nanos_per_second),
          gc_RetryMax = setting Atoi (\<lambda>_. True) (g ''FINE_RAG_GATEWAY_RETRY_MAX'') 1,
          gc_CircuitFailureThreshold =
            setting Atoi (\<lambda>_. True) (g ''FINE_RAG_GATEWAY_CIRCUIT_FAILURE_THRESHOLD'') 3,
          gc_FallbackMode = (if fallback = [] then ''retrieval_only'' else fallback),
          gc_DirectAllowlist = (if allowlistRaw = [] then [] else SplitCSV allowlistRaw),
          gc_RerankModel = g ''FINE_RAG_RERANK_MODEL'', gc_PortkeyProviderKey = g ''FINE_RAG_COHERE_API_KEY'',
          gc_RerankerProvider = g ''FINE_RAG_RERANKER_PROVIDER''\<rparr>)"

definition runtime_validateFallbackMode :: "unicode_tables \<Rightarrow> string \<Rightarrow> error option" where
  "runtime_validateFallbackMode U mode =
     (if mode \<in> {''fail_closed'', ''direct_allowlist'', ''retrieval_only''} then None
      else Some (ErrorString (''unsupported FINE_RAG_GATEWAY_FALLBACK_MODE '' @ Quote U mode)))"

definition GatewayConfig_Validate :: "unicode_tables \<Rightarrow> GatewayConfig \<Rightarrow> error option" where
  "GatewayConfig_Validate U c =
     (if gc_Provider c = ''stub'' then runtime_validateFallbackMode U (gc_FallbackMode c)
      else if gc_Provider c = ''portkey'' then
        if TrimSpace (gc_PortkeyBaseURL c) = []
        then Some (ErrorString ''FINE_RAG_PORTKEY_BASE_URL is required when FINE_RAG_GATEWAY_PROVIDER=portkey'')
        else if TrimSpace (gc_PortkeyAPIKey c) = []
        then Some (ErrorString ''FINE_RAG_PORTKEY_API_KEY is required when FINE_RAG_GATEWAY_PROVIDER=portkey'')
        else if gc_Timeout c \<le> 0 then Some (ErrorString ''FINE_RAG_GATEWAY_TIMEOUT must be > 0'')
        else if gc_RetryMax c < 0 then Some (ErrorString ''FINE_RAG_GATEWAY_RETRY_MAX must be >= 0'')
        else if gc_CircuitFailureThreshold c \<le> 0
        then Some (ErrorString ''FINE_RAG_GATEWAY_CIRCUIT_FAILURE_THRESHOLD must be > 0'')
        else runtime_validateFallbackMode U (gc_FallbackMode c)
      else Some (ErrorString (''unsupported FINE_RAG_GATEWAY_PROVIDER '' @ Quote U (gc_Provider c))))"

definition GatewayConfig_RedactedAPIKey :: "GatewayConfig \<Rightarrow> string" where
  "GatewayConfig_RedactedAPIKey c = (if TrimSpace (gc_PortkeyAPIKey c) = [] then [] else ''REDACTED'')"

datatype reranker = PortkeyReranker RerankerAdapter | Cohere CohereReranker | StubReranker

definition gateway_portkey_config :: "GatewayConfig \<Rightarrow> portkey_config" where
  "gateway_portkey_config c =
     \<lparr>pk_BaseURL = gc_PortkeyBaseURL c, pk_APIKey = gc_PortkeyAPIKey c, pk_Timeout = gc_Timeout c,
      pk_RetryMax = gc_RetryMax c, pk_CircuitFailureThreshold = gc_CircuitFailureThreshold c,
      pk_FallbackMode = gc_FallbackMode c, pk_DirectAllowlist = gc_DirectAllowlist c, pk_Model = gc_RerankModel c,
      pk_ProviderKey = gc_PortkeyProviderKey c\<rparr>"

definition gateway_cohere_config :: "GatewayConfig \<Rightarrow> cohere_config" where
  "gateway_cohere_config c =
     \<lparr>ch_APIKey = gc_PortkeyProviderKey c, ch_Model = gc_RerankModel c, ch_Timeout = gc_Timeout c,
      ch_RetryMax = gc_RetryMax c, ch_CircuitFailureThreshold = gc_CircuitFailureThreshold c\<rparr>"

definition BuildGatewayReranker :: "unicode_tables \<Rightarrow> GatewayConfig \<Rightarrow> (reranker \<times> string) result" where
  "BuildGatewayReranker U c =
     (case GatewayConfig_Validate U c of
        Some e \<Rightarrow> Inl e
      | None \<Rightarrow>
          let named = ToLower U (TrimSpace (gc_RerankerProvider c));
              provider = (if named = [] then ToLower U (TrimSpace (gc_Provider c)) else named)
          in if provider = ''portkey'' then
               (case NewRerankerAdapter U (gateway_portkey_config c) of
                  Inl e \<Rightarrow> Inl e
                | Inr a \<Rightarrow> Inr (PortkeyReranker a, ''portkey''))
             else if provider = ''cohere'' then
               (case NewCohereReranker (gateway_cohere_config c) of
                  Inl e \<Rightarrow> Inl e
                | Inr a \<Rightarrow> Inr (Cohere a, ''cohere''))
             else Inr (StubReranker, ''stub''))"

section \<open>Vector store\<close>

record VectorConfig =
  vc_Provider :: string
  vc_Endpoint :: string
  vc_Database :: string
  vc_Collection :: string
  vc_Username :: string
  vc_Password :: string
  vc_Token :: string
  vc_TLS :: bool

definition LoadVectorConfigFromEnv :: "unicode_tables \<Rightarrow> environment \<Rightarrow> VectorConfig" where
  "LoadVectorConfigFromEnv U en =
     \<lparr>vc_Provider = provider_setting U en ''FINE_RAG_VECTOR_PROVIDER'' ''milvus'',
      vc_Endpoint = TrimSpace (runtime_getEnv en ''FINE_RAG_MILVUS_ENDPOINT''),
      vc_Database = TrimSpace (runtime_getEnv en ''FINE_RAG_MILVUS_DATABASE''),
      vc_Collection = TrimSpace (runtime_getEnv en ''FINE_RAG_MILVUS_COLLECTION''),
      vc_Username = TrimSpace (runtime_getEnv en ''FINE_RAG_MILVUS_USERNAME''),
      vc_Password = TrimSpace (runtime_getEnv en ''FINE_RAG_MILVUS_PASSWORD''),
      vc_Token = TrimSpace (runtime_getEnv en ''FINE_RAG_MILVUS_TOKEN''),
      vc_TLS = (case en_lookup en ''FINE_RAG_MILVUS_TLS'' of
                  Some v \<Rightarrow> \<not> EqualFold_ascii (TrimSpace v) ''false'' | None \<Rightarrow> True)\<rparr>"

definition VectorConfig_Validate :: "unicode_tables \<Rightarrow> VectorConfig \<Rightarrow> error option" where
  "VectorConfig_Validate U c =
     (if vc_Provider c = ''milvus'' then
        if vc_Endpoint c = [] then Some (required_error ''FINE_RAG_MILVUS_ENDPOINT'')
        else if vc_Database c = [] then Some (required_error ''FINE_RAG_MILVUS_DATABASE'')
        else if vc_Collection c = [] then Some (required_error ''FINE_RAG_MILVUS_COLLECTION'')
        else if \<not> vc_TLS c then Some (ErrorString ''FINE_RAG_MILVUS_TLS must be true for milvus provider'')
        else None
      else if vc_Provider c = ''stub'' then None
      else Some (ErrorString (''unsupported FINE_RAG_VECTOR_PROVIDER '' @ Quote U (vc_Provider c))))"

definition RedactedPassword :: "VectorConfig \<Rightarrow> string" where
  "RedactedPassword c = (if TrimSpace (vc_Password c) = [] then [] else ''REDACTED'')"

definition RedactedToken :: "VectorConfig \<Rightarrow> string" where
  "RedactedToken c = (if TrimSpace (vc_Token c) = [] then [] else ''REDACTED'')"

datatype vector_adapter = StubStore Adapter | MilvusStore MilvusAdapter

definition vector_milvus_config :: "VectorConfig \<Rightarrow> milvus_config" where
  "vector_milvus_config c =
     \<lparr>mi_Endpoint = vc_Endpoint c, mi_Database = vc_Database c, mi_Collection = vc_Collection c,
      mi_Username = vc_Username c, mi_Password = vc_Password c, mi_Token = vc_Token c, mi_TLS = vc_TLS c\<rparr>"

definition BuildVectorAdapters ::
  "unicode_tables \<Rightarrow> 'w milvus_client \<Rightarrow> (string \<Rightarrow> string result) \<Rightarrow> VectorConfig \<Rightarrow> 'w \<Rightarrow>
   (vector_adapter \<times> string) result \<times> 'w" where
  "BuildVectorAdapters U client parse_host c w =
     (case VectorConfig_Validate U c of
        Some e \<Rightarrow> (Inl e, w)
      | None \<Rightarrow>
          if vc_Provider c = ''stub'' then (Inr (StubStore NewAdapter, ''stub''), w)
          else (case Milvus_NewAdapter U client parse_host (vector_milvus_config c) w of
              (Inl e, w1) \<Rightarrow> (Inl e, w1)
            | (Inr a, w1) \<Rightarrow> (Inr (MilvusStore a, ''milvus''), w1)))"

section \<open>Database\<close>

record DatabaseConfig =
  dc_Provider :: string
  dc_URL :: string
  dc_ConnectTimeout :: duration
  dc_MaxOpenConns :: int
  dc_MaxIdleConns :: int
  dc_MaxConnLifetime :: duration

definition DatabaseConfig_withDefaults :: "DatabaseConfig \<Rightarrow> DatabaseConfig" where
  "DatabaseConfig_withDefaults c =
     c\<lparr>dc_Provider := (if dc_Provider c = [] then ''memory'' else dc_Provider c),
       dc_ConnectTimeout := (if dc_ConnectTimeout c \<le> 0 then 5 * nanos_per_second else dc_ConnectTimeout c),
       dc_MaxOpenConns := (if dc_MaxOpenConns c \<le> 0 then 10 else dc_MaxOpenConns c),
       dc_MaxIdleConns := (if dc_MaxIdleConns c < 0 then 0 else dc_MaxIdleConns c),
       dc_MaxConnLifetime := (if dc_MaxConnLifetime c \<le> 0 then 1800 * nanos_per_second else dc_MaxConnLifetime c)\<rparr>"

text \<open>\<^verbatim>\<open>fmt.Sscanf(v, "%d", &n)\<close>: an optional sign and the digits after it; anything else leaves the number alone.\<close>

definition Sscanf_d :: "string \<Rightarrow> int \<Rightarrow> int" where
  "Sscanf_d v n =
     (let sign = takeWhile (\<lambda>c. c = CHR ''+'' \<or> c = CHR ''-'') (take 1 v);
          digits = takeWhile is_digit (drop (length sign) v)
      in case Atoi (sign @ digits) of Some m \<Rightarrow> m | None \<Rightarrow> n)"

definition scan_setting :: "string \<Rightarrow> int" where
  "scan_setting value = (let v = TrimSpace value in if v \<noteq> [] then Sscanf_d v 0 else 0)"

definition LoadDatabaseConfigFromEnv :: "unicode_tables \<Rightarrow> environment \<Rightarrow> DatabaseConfig" where
  "LoadDatabaseConfigFromEnv U en =
     DatabaseConfig_withDefaults
       \<lparr>dc_Provider = provider_setting U en ''FINE_RAG_DB_PROVIDER'' ''memory'',
        dc_URL = TrimSpace (runtime_getEnv en ''FINE_RAG_DATABASE_URL''),
        dc_ConnectTimeout = setting ParseDuration (\<lambda>_. True) (runtime_getEnv en ''FINE_RAG_DB_CONNECT_TIMEOUT'') 0,
        dc_MaxOpenConns = scan_setting (runtime_getEnv en ''FINE_RAG_DB_MAX_OPEN_CONNS''),
        dc_MaxIdleConns = scan_setting (runtime_getEnv en ''FINE_RAG_DB_MAX_IDLE_CONNS''),
        dc_MaxConnLifetime = setting ParseDuration (\<lambda>_. True) (runtime_getEnv en ''FINE_RAG_DB_MAX_CONN_LIFETIME'') 0\<rparr>"

text \<open>What \<^verbatim>\<open>url.Parse\<close> finds in a URL, as far as the code reads it; the rest is kept for \<^verbatim>\<open>URL.String\<close>.\<close>

record parsed_url =
  pu_Scheme :: string
  pu_Host :: string
  pu_User :: "(string \<times> string option) option"
  pu_Rest :: string

definition DatabaseConfig_Validate ::
  "unicode_tables \<Rightarrow> (string \<Rightarrow> parsed_url result) \<Rightarrow> DatabaseConfig \<Rightarrow> error option" where
  "DatabaseConfig_Validate U parse c =
     (let provider = ToLower U (TrimSpace (dc_Provider c))
      in if provider = ''memory'' then None
         else if provider = ''postgres'' then
           if TrimSpace (dc_URL c) = []
           then Some (ErrorString ''FINE_RAG_DATABASE_URL is required when FINE_RAG_DB_PROVIDER=postgres'')
           else (case parse (dc_URL c) of
               Inl e \<Rightarrow> Some (WrapError (''invalid FINE_RAG_DATABASE_URL: '' @ error_text e) e)
             | Inr u \<Rightarrow>
                 if pu_Scheme u \<noteq> ''postgres'' \<and> pu_Scheme u \<noteq> ''postgresql''
                 then Some (ErrorString (''invalid DB URL scheme '' @ Quote U (pu_Scheme u)))
                 else if pu_Host u = [] then Some (ErrorString ''database host is required in FINE_RAG_DATABASE_URL'')
                 else None)
         else Some (ErrorString (''unsupported FINE_RAG_DB_PROVIDER '' @ Quote U (dc_Provider c))))"

definition RedactedURL ::
  "(string \<Rightarrow> parsed_url result) \<Rightarrow> (parsed_url \<Rightarrow> string) \<Rightarrow> DatabaseConfig \<Rightarrow> string" where
  "RedactedURL parse render c =
     (case parse (dc_URL c) of
        Inl _ \<Rightarrow> []
      | Inr u \<Rightarrow>
          render (case pu_User u of
                    None \<Rightarrow> u
                  | Some (username, _) \<Rightarrow> u\<lparr>pu_User := Some (username, Some ''REDACTED'')\<rparr>))"

definition postgres_dsn :: "string \<Rightarrow> string" where
  "postgres_dsn dsn =
     (if (Contains dsn ''supabase'' \<or> Contains dsn ''pgbouncer'' \<or> Contains dsn ''6543'') \<and>
         \<not> Contains dsn ''default_query_exec_mode''
      then dsn @ (if Contains dsn ''?'' then ''&'' else ''?'') @ ''default_query_exec_mode=simple_protocol''
      else dsn)"

text \<open>A pool: the data source it was opened for and the limits set on it.\<close>

record db_pool =
  po_dsn :: string
  po_MaxOpenConns :: int
  po_MaxIdleConns :: int
  po_MaxConnLifetime :: duration

definition OpenPostgresDB ::
  "unicode_tables \<Rightarrow> (string \<Rightarrow> parsed_url result) \<Rightarrow> (string \<Rightarrow> error option) \<Rightarrow> (string \<Rightarrow> duration \<Rightarrow> error option) \<Rightarrow>
   DatabaseConfig \<Rightarrow> db_pool result" where
  "OpenPostgresDB U parse open_fn ping cfg0 =
     (let cfg = DatabaseConfig_withDefaults cfg0
      in case DatabaseConfig_Validate U parse cfg of
           Some e \<Rightarrow> Inl e
         | None \<Rightarrow>
             if ToLower U (dc_Provider cfg) = ''memory'' then
               (case open_fn ''postgres://localhost/memory?sslmode=disable'' of
                  Some e \<Rightarrow> Inl e
                | None \<Rightarrow> Inr \<lparr>po_dsn = ''postgres://localhost/memory?sslmode=disable'', po_MaxOpenConns = 0,
                              po_MaxIdleConns = 2, po_MaxConnLifetime = 0\<rparr>)
             else if ToLower U (dc_Provider cfg) \<noteq> ''postgres''
             then Inl (ErrorString (''unsupported database provider '' @ Quote U (dc_Provider cfg)))
             else let dsn = postgres_dsn (dc_URL cfg)
                  in case open_fn dsn of
                       Some e \<Rightarrow> Inl (WrapError (''open database with pgx driver: '' @ error_text e) e)
                     | None \<Rightarrow>
                         (case ping dsn (dc_ConnectTimeout cfg) of
                            Some e \<Rightarrow> Inl e
                          | None \<Rightarrow> Inr \<lparr>po_dsn = dsn, po_MaxOpenConns = dc_MaxOpenConns cfg,
                                       po_MaxIdleConns = dc_MaxIdleConns cfg,
                                       po_MaxConnLifetime = dc_MaxConnLifetime cfg\<rparr>))"

section \<open>Lemmas\<close>

lemma setting_ok: "ok d \<Longrightarrow> ok (setting parse ok value d)"
  by (simp add: setting_def Let_def split: option.split)

lemma SplitCSV_nonblank: "[] \<notin> set (SplitCSV raw)"
  by (auto simp: SplitCSV_def)

lemma EnvOrSecret_runtime: "EnvOrSecret en key [] = TrimSpace (runtime_getEnv en key)"
  by (auto simp: EnvOrSecret_def runtime_getEnv_def Getenv_def file_value_def Let_def split: option.splits)

lemma EnvOr_trimmed: "EnvOr en key d = (if TrimSpace (Getenv en key) = [] then d else TrimSpace (Getenv en key))"
  by (simp add: EnvOr_def Let_def)

section \<open>Properties\<close>

text \<open>C40: whatever the environment holds, the configuration of the server is usable: limits, sizes, timeouts and
  intervals are positive, retries and the overlap are not negative, there is an allowed origin and none is blank, and a
  custom object store is addressed by path. (The time to live of a token is the one duration taken as it is; zero and
  negative values pass.)\<close>

theorem config_ranges:
  "let c = ConfigFromEnv U en in
   0 < cf_RateLimitPerMin c \<and> 0 < cf_PresignTTL c \<and> 0 < cf_MaxObjectBytes c \<and> 0 < cf_LLMTimeout c \<and>
   0 < cf_OpenRouterMinInterval c \<and> 0 \<le> cf_OpenRouterRetryMax c \<and> 0 < cf_ChunkSizeChars c \<and>
   0 \<le> cf_ChunkOverlapWords c \<and> cf_AllowedOrigins c \<noteq> [] \<and> [] \<notin> set (cf_AllowedOrigins c) \<and>
   (TrimSpace (cf_S3Endpoint c) = [] \<or> cf_S3UsePathStyle c)"
  using SplitCSV_nonblank [of "Getenv en ''FINE_RAG_ALLOWED_ORIGINS''"]
  by (auto simp: ConfigFromEnv_def Let_def nanos_per_second_def
      intro!: setting_ok [of "\<lambda>n. n > 0", simplified] setting_ok [of "\<lambda>n. n \<ge> 0", simplified]
      simp del: EnvOrSecretAny.simps EnvBoolAny.simps)

text \<open>The readers of the environment agree. The server and the gateway see the same provider and the same API key, whether
  it comes from a file or a variable. They differ in the base URL: without one the server falls back to the public
  address, and the gateway refuses to start.\<close>

theorem config_readers_agree:
  "cf_GatewayProvider (ConfigFromEnv U en) = gc_Provider (LoadGatewayConfigFromEnv U en) \<and>
   cf_PortkeyAPIKey (ConfigFromEnv U en) = gc_PortkeyAPIKey (LoadGatewayConfigFromEnv U en) \<and>
   (gc_Provider (LoadGatewayConfigFromEnv U en) = ''portkey'' \<and>
    TrimSpace (runtime_getEnv en ''FINE_RAG_PORTKEY_BASE_URL'') = [] \<longrightarrow>
      cf_PortkeyBaseURL (ConfigFromEnv U en) = ''https://api.portkey.ai'' \<and>
      GatewayConfig_Validate U (LoadGatewayConfigFromEnv U en) =
        Some (ErrorString ''FINE_RAG_PORTKEY_BASE_URL is required when FINE_RAG_GATEWAY_PROVIDER=portkey''))"
proof (intro conjI impI)
  have stub: "ToLower U ''stub'' = ''stub''" by (simp add: ToLower_ascii is_ascii_def ascii_lower_def byte_def)
  show "cf_GatewayProvider (ConfigFromEnv U en) = gc_Provider (LoadGatewayConfigFromEnv U en)"
    by (simp add: ConfigFromEnv_def LoadGatewayConfigFromEnv_def Let_def EnvOr_trimmed provider_setting_def Getenv_def stub
        split: option.split)
  show "cf_PortkeyAPIKey (ConfigFromEnv U en) = gc_PortkeyAPIKey (LoadGatewayConfigFromEnv U en)"
    by (simp add: ConfigFromEnv_def LoadGatewayConfigFromEnv_def Let_def EnvOrSecret_runtime)
next
  assume no: "gc_Provider (LoadGatewayConfigFromEnv U en) = ''portkey'' \<and>
    TrimSpace (runtime_getEnv en ''FINE_RAG_PORTKEY_BASE_URL'') = []"
  then have "TrimSpace (Getenv en ''FINE_RAG_PORTKEY_BASE_URL'') = []"
    by (auto simp: runtime_getEnv_def file_value_def split: option.splits if_splits)
  then show "cf_PortkeyBaseURL (ConfigFromEnv U en) = ''https://api.portkey.ai''"
    by (simp add: ConfigFromEnv_def Let_def EnvOr_trimmed)
  from no show "GatewayConfig_Validate U (LoadGatewayConfigFromEnv U en) =
      Some (ErrorString ''FINE_RAG_PORTKEY_BASE_URL is required when FINE_RAG_GATEWAY_PROVIDER=portkey'')"
    by (simp add: GatewayConfig_Validate_def) (simp add: LoadGatewayConfigFromEnv_def Let_def)
qed

text \<open>What a valid gateway configuration builds. Without a separate reranker the provider decides, and the portkey adapter
  takes every value of the configuration unchanged; a reranker name that is neither \<^verbatim>\<open>portkey\<close> nor
  \<^verbatim>\<open>cohere\<close> is no error, it gives the stub.\<close>

theorem valid_gateway_builds:
  assumes "GatewayConfig_Validate U c = None"
  shows "(TrimSpace (gc_RerankerProvider c) = [] \<and> gc_Provider c = ''portkey'' \<longrightarrow>
      (\<exists>a. BuildGatewayReranker U c = Inr (PortkeyReranker a, ''portkey'') \<and> ra_cfg a = gateway_portkey_config c \<and>
           ra_failures a = 0)) \<and>
    (TrimSpace (gc_RerankerProvider c) = [] \<and> gc_Provider c = ''stub'' \<longrightarrow>
      BuildGatewayReranker U c = Inr (StubReranker, ''stub'')) \<and>
    (ToLower U (TrimSpace (gc_RerankerProvider c)) \<notin> {[], ''portkey'', ''cohere''} \<longrightarrow>
      BuildGatewayReranker U c = Inr (StubReranker, ''stub''))"
proof (intro conjI impI)
  have nil: "ToLower U [] = []" by (simp add: ToLower_def)
  have names: "TrimSpace ''portkey'' = ''portkey''" "TrimSpace ''stub'' = ''stub''"
    "ToLower U ''portkey'' = ''portkey''" "ToLower U ''stub'' = ''stub''"
    by (simp_all add: ToLower_ascii is_ascii_def ascii_lower_def byte_def string_eval)
  {
    assume p: "TrimSpace (gc_RerankerProvider c) = [] \<and> gc_Provider c = ''portkey''"
    with assms have "TrimSpace (gc_PortkeyBaseURL c) \<noteq> []" "TrimSpace (gc_PortkeyAPIKey c) \<noteq> []" "0 < gc_Timeout c"
      "0 \<le> gc_RetryMax c" "0 < gc_CircuitFailureThreshold c"
      "gc_FallbackMode c \<in> {''fail_closed'', ''direct_allowlist'', ''retrieval_only''}"
      by (auto simp: GatewayConfig_Validate_def runtime_validateFallbackMode_def split: if_splits)
    with p assms show "\<exists>a. BuildGatewayReranker U c = Inr (PortkeyReranker a, ''portkey'') \<and>
        ra_cfg a = gateway_portkey_config c \<and> ra_failures a = 0"
      by (auto simp: BuildGatewayReranker_def Let_def nil names NewRerankerAdapter_def gateway_portkey_config_def
          validateFallbackMode_def)
  next
    assume "TrimSpace (gc_RerankerProvider c) = [] \<and> gc_Provider c = ''stub''"
    with assms show "BuildGatewayReranker U c = Inr (StubReranker, ''stub'')"
      by (simp add: BuildGatewayReranker_def nil names)
  next
    assume "ToLower U (TrimSpace (gc_RerankerProvider c)) \<notin> {[], ''portkey'', ''cohere''}"
    with assms show "BuildGatewayReranker U c = Inr (StubReranker, ''stub'')"
      by (simp add: BuildGatewayReranker_def Let_def)
  }
qed

text \<open>No secret is printed. The redacted database URL is the same for every password, and the redacted forms of key,
  password and token say only whether there is one.\<close>

theorem redaction_hides_secrets:
  assumes "parse (dc_URL c) = Inr (u\<lparr>pu_User := Some (name, pw)\<rparr>)" and "parse (dc_URL c') = Inr (u\<lparr>pu_User := Some (name, pw')\<rparr>)"
  shows "RedactedURL parse render c = RedactedURL parse render c' \<and>
    (TrimSpace (vc_Password v) = [] \<longleftrightarrow> TrimSpace (vc_Password v') = []) =
      (RedactedPassword v = RedactedPassword v') \<and>
    (TrimSpace (vc_Token v) = [] \<longleftrightarrow> TrimSpace (vc_Token v') = []) = (RedactedToken v = RedactedToken v') \<and>
    (TrimSpace (gc_PortkeyAPIKey g) = [] \<longleftrightarrow> TrimSpace (gc_PortkeyAPIKey g') = []) =
      (GatewayConfig_RedactedAPIKey g = GatewayConfig_RedactedAPIKey g')"
  using assms by (simp add: RedactedURL_def RedactedPassword_def RedactedToken_def GatewayConfig_RedactedAPIKey_def)

lemma postgres_dsn_idem: "postgres_dsn (postgres_dsn dsn) = postgres_dsn dsn"
proof -
  have "Contains (dsn @ x @ ''default_query_exec_mode=simple_protocol'') ''default_query_exec_mode''" for x
    unfolding Contains_iff by (rule exI [of _ "dsn @ x"], rule exI [of _ "''=simple_protocol''"]) simp
  then show ?thesis by (simp add: postgres_dsn_def)
qed

lemma length_sextets_ge: "length s \<le> length (sextets s)"
  by (induction s rule: sextets.induct) simp_all

lemma b64_char_mem: "n < 64 \<Longrightarrow> b64_char n \<in> set b64_alphabet"
proof -
  have "length b64_alphabet = 64" by (simp add: b64_alphabet_def)
  then show "n < 64 \<Longrightarrow> b64_char n \<in> set b64_alphabet" unfolding b64_char_def by (metis nth_mem)
qed

lemma EncodeToString_hd: "EncodeToString (c # s) ! 0 = digit_char (int (byte c div 16))"
proof -
  have "int (byte c) div 16 mod 16 = int (byte c div 16)" using byte_less [of c] by (simp add: zdiv_int)
  moreover have "(of_char c :: int) = int (byte c)" by (simp add: byte_def of_nat_of_char)
  ultimately show ?thesis by (simp add: EncodeToString_def numeral_2_eq_2)
qed

lemma byte_set_bits: "byte c mod k + m < 256 \<Longrightarrow> byte (set_bits k m c) = byte c mod k + m"
  by (simp add: set_bits_def byte_char_of)

lemma hex_digits: "digit_char 4 = CHR ''4''" "digit_char (int d) \<in> set ''89ab''" if "8 \<le> d" "d < 12"
proof -
  show "digit_char 4 = CHR ''4''" by code_simp
  from that have "d = 8 \<or> d = 9 \<or> d = 10 \<or> d = 11" by auto
  moreover have "digit_char 8 = CHR ''8''" "digit_char 9 = CHR ''9''" "digit_char 10 = CHR ''a''" "digit_char 11 = CHR ''b''"
    by code_simp+
  ultimately show "digit_char (int d) \<in> set ''89ab''" by auto
qed

text \<open>The identifiers the server makes up. When the random source yields the bytes asked for, \<^verbatim>\<open>RandomString\<close> has
  exactly the length asked for (8 when none is), in letters, digits, dash and underscore, and the request identifier
  has the form of a version 4 UUID: 36 characters, the version digit 4, and a variant digit from 8 to b.\<close>

theorem random_identifiers:
  assumes "\<forall>n. \<exists>buf. read n = Some buf \<and> length buf = n"
  shows "length (RandomString read now n) = nat (if n \<le> 0 then 8 else n) \<and>
    set (RandomString read now n) \<subseteq> set b64_alphabet \<and>
    length (RandomUUIDv4Like read now) = 36 \<and> RandomUUIDv4Like read now ! 14 = CHR ''4'' \<and>
    RandomUUIDv4Like read now ! 19 \<in> set ''89ab''"
proof (intro conjI)
  obtain buf where buf: "read (nat (if n \<le> 0 then 8 else n)) = Some buf" "length buf = nat (if n \<le> 0 then 8 else n)"
    using assms by blast
  show "length (RandomString read now n) = nat (if n \<le> 0 then 8 else n)"
    using buf length_sextets_ge [of buf] by (simp add: RandomString_def Let_def RawURL_EncodeToString_def)
  have "set (RawURL_EncodeToString buf) \<subseteq> set b64_alphabet"
    using b64_char_mem sextets_less by (auto simp: RawURL_EncodeToString_def)
  then show "set (RandomString read now n) \<subseteq> set b64_alphabet"
    using buf by (auto simp: RandomString_def Let_def dest: in_set_takeD)
  obtain b where b: "read 16 = Some b" "length b = 16" using assms by blast
  let ?b = "b[6 := set_bits 16 64 (b ! 6), 8 := set_bits 64 128 (b ! 8)]"
  let ?p = "EncodeToString (take 4 ?b)" and ?q = "EncodeToString (take 2 (drop 4 ?b))"
    and ?r = "EncodeToString (take 2 (drop 6 ?b))" and ?s = "EncodeToString (take 2 (drop 8 ?b))"
    and ?t = "EncodeToString (take 6 (drop 10 ?b))"
  have uuid: "RandomUUIDv4Like read now = ?p @ ''-'' @ ?q @ ''-'' @ ?r @ ''-'' @ ?s @ ''-'' @ ?t"
    using b by (simp add: RandomUUIDv4Like_def Let_def)
  have len: "length ?p = 8" "length ?q = 4" "length ?r = 4" "length ?s = 4" "length ?t = 12" using b by simp_all
  show "length (RandomUUIDv4Like read now) = 36" using len by (simp only: uuid length_append) simp
  have "RandomUUIDv4Like read now ! 14 = ?r ! 0" "RandomUUIDv4Like read now ! 19 = ?s ! 0"
    unfolding uuid using len by (simp_all add: nth_append)
  moreover have "?r ! 0 = CHR ''4''"
  proof -
    have "take 2 (drop 6 ?b) = set_bits 16 64 (b ! 6) # take 1 (drop 7 ?b)"
      using b(2) by (simp add: Cons_nth_drop_Suc [symmetric] numeral_2_eq_2)
    moreover have "byte (set_bits 16 64 (b ! 6)) div 16 = 4" by (subst byte_set_bits) simp_all
    ultimately show ?thesis using hex_digits(1) [of 8] by (simp add: EncodeToString_hd)
  qed
  moreover have "?s ! 0 \<in> set ''89ab''"
  proof -
    have "take 2 (drop 8 ?b) = set_bits 64 128 (b ! 8) # take 1 (drop 9 ?b)"
      using b(2) by (simp add: Cons_nth_drop_Suc [symmetric] numeral_2_eq_2)
    moreover have "byte (set_bits 64 128 (b ! 8)) div 16 = 8 + byte (b ! 8) mod 64 div 16"
      by (subst byte_set_bits) (use mod_less_divisor [of 64 "byte (b ! 8)"] in simp_all)
    moreover have "byte (b ! 8) mod 64 div 16 < 4" by (simp add: less_mult_imp_div_less)
    ultimately show ?thesis using hex_digits(2) [of "8 + byte (b ! 8) mod 64 div 16"] by (simp only: EncodeToString_hd)
  qed
  ultimately show "RandomUUIDv4Like read now ! 14 = CHR ''4''" "RandomUUIDv4Like read now ! 19 \<in> set ''89ab''" by simp_all
qed

section \<open>Witnesses\<close>

definition demo_environment :: environment where
  "demo_environment =
     \<lparr>en_lookup = [''FINE_RAG_GATEWAY_PROVIDER'' \<mapsto> '' Portkey '', ''FINE_RAG_PORTKEY_API_KEY_FILE'' \<mapsto> ''/run/key''],
      en_file = [''/run/key'' \<mapsto> ''secret'']\<rparr>"

theorem config_readers_agree_witness:
  "gc_Provider (LoadGatewayConfigFromEnv ascii_tables demo_environment) = ''portkey'' \<and>
   cf_PortkeyBaseURL (ConfigFromEnv ascii_tables demo_environment) = ''https://api.portkey.ai''"
proof -
  have "gc_Provider (LoadGatewayConfigFromEnv ascii_tables demo_environment) = ''portkey''"
    and "TrimSpace (runtime_getEnv demo_environment ''FINE_RAG_PORTKEY_BASE_URL'') = []"
    by code_simp+
  with config_readers_agree [of ascii_tables demo_environment] show ?thesis by simp
qed

definition demo_gateway :: GatewayConfig where
  "demo_gateway =
     \<lparr>gc_Provider = ''portkey'', gc_PortkeyBaseURL = ''https://p'', gc_PortkeyAPIKey = ''k'', gc_Timeout = 1,
      gc_RetryMax = 1, gc_CircuitFailureThreshold = 3, gc_FallbackMode = ''retrieval_only'', gc_DirectAllowlist = [],
      gc_RerankModel = [], gc_PortkeyProviderKey = [], gc_RerankerProvider = []\<rparr>"

theorem valid_gateway_builds_witness:
  "\<exists>a. BuildGatewayReranker ascii_tables demo_gateway = Inr (PortkeyReranker a, ''portkey'') \<and>
       ra_cfg a = gateway_portkey_config demo_gateway"
proof -
  have valid: "GatewayConfig_Validate ascii_tables demo_gateway = None"
    by (simp add: GatewayConfig_Validate_def demo_gateway_def runtime_validateFallbackMode_def string_eval)
  from valid_gateway_builds [OF valid] show ?thesis by (simp add: demo_gateway_def) blast
qed

definition demo_parse :: "string \<Rightarrow> parsed_url result" where
  "demo_parse s = Inr \<lparr>pu_Scheme = ''postgres'', pu_Host = ''h'', pu_User = Some (''u'', Some s), pu_Rest = []\<rparr>"

definition demo_database :: "string \<Rightarrow> DatabaseConfig" where
  "demo_database url =
     \<lparr>dc_Provider = ''postgres'', dc_URL = url, dc_ConnectTimeout = 1, dc_MaxOpenConns = 1, dc_MaxIdleConns = 1,
      dc_MaxConnLifetime = 1\<rparr>"

theorem redaction_hides_secrets_witness:
  "RedactedURL demo_parse (\<lambda>u. the (snd (the (pu_User u)))) (demo_database ''a'') =
   RedactedURL demo_parse (\<lambda>u. the (snd (the (pu_User u)))) (demo_database ''b'')"
  using redaction_hides_secrets [where parse = demo_parse and c = "demo_database ''a''" and c' = "demo_database ''b''"
      and u = "\<lparr>pu_Scheme = ''postgres'', pu_Host = ''h'', pu_User = None, pu_Rest = []\<rparr>" and name = "''u''"
      and pw = "Some ''a''" and pw' = "Some ''b''"]
  by (simp add: demo_parse_def demo_database_def)

theorem random_identifiers_witness:
  "length (RandomString (\<lambda>n. Some (replicate n (CHR ''x''))) 0 12) = 12 \<and>
   length (RandomUUIDv4Like (\<lambda>n. Some (replicate n (CHR ''x''))) 0) = 36"
  using random_identifiers [of "\<lambda>n. Some (replicate n (CHR ''x''))" 0 12] by simp

end
