(* ===== verification/Bootstrap.thy ===== *)
theory Bootstrap
  imports Tenant_Manager Runtime_Config
begin

text \<open>
  The users and tenants the backend starts with: \<^verbatim>\<open>EnsureBootstrapData\<close> and \<^verbatim>\<open>ensureBootstrapUser\<close> of
  \<^verbatim>\<open>backend/util/serverUtil.go\<close>, \<^verbatim>\<open>fetchUserByUsername\<close> of \<^verbatim>\<open>backend/managers/auth.go\<close>, through which a login sees
  them, and the tool \<^verbatim>\<open>cmd/bootstrap-reset\<close>. The table \<^verbatim>\<open>app_users\<close> joins the tables of the tenant manager; a
  statement that fails in the driver has no effect.
\<close>

section \<open>Users\<close>

record app_user =
  au_id :: int
  au_username :: string
  au_password_hash :: string
  au_api_key_hash :: "string option"
  au_active :: bool

record 'v boot_world =
  bw_users :: "app_user list"
  bw_nextID :: int
  bw_tenants :: "'v tenant_world"

definition boot_fails :: "'v tenant_db \<Rightarrow> 'v boot_world \<Rightarrow> error option \<times> 'v boot_world" where
  "boot_fails db w = (case driver_fails db (bw_tenants w) of (e, t) \<Rightarrow> (e, w\<lparr>bw_tenants := t\<rparr>))"

definition find_user :: "string \<Rightarrow> app_user list \<Rightarrow> app_user option" where
  "find_user username users = List.find (\<lambda>u. au_username u = username) users"

text \<open>\<^verbatim>\<open>Scan\<close> cannot store \<^verbatim>\<open>NULL\<close> in a string: the row of a user without API key is an error.\<close>

definition fetchUserByUsername :: "app_user list \<Rightarrow> string \<Rightarrow> dbUser result" where
  "fetchUserByUsername users username =
     (case find_user username users of
        None \<Rightarrow> Inl (ErrorString ''sql: no rows in result set'')
      | Some u \<Rightarrow>
          (case au_api_key_hash u of
             None \<Rightarrow> Inl (ErrorString ''sql: Scan error: converting NULL to string is unsupported'')
           | Some h \<Rightarrow> Inr \<lparr>du_ID = au_id u, du_Username = au_username u, du_PasswordHash = au_password_hash u,
                           du_APIKeyHash = h, du_Active = au_active u\<rparr>))"

text \<open>\<^verbatim>\<open>INSERT ... ON CONFLICT (username) DO UPDATE\<close>: the row of the user gets the new password hash, the new key hash if
  there is one, and is active; the identifier stays. The identifier of a new row is drawn from the sequence of the
  table, which advances in either case.\<close>

definition set_credentials :: "app_user \<Rightarrow> app_user \<Rightarrow> app_user" where
  "set_credentials u x =
     x\<lparr>au_password_hash := au_password_hash u,
       au_api_key_hash := (case au_api_key_hash u of Some h \<Rightarrow> Some h | None \<Rightarrow> au_api_key_hash x),
       au_active := True\<rparr>"

fun upsert_row :: "app_user \<Rightarrow> app_user list \<Rightarrow> app_user list" where
  "upsert_row u [] = [u]"
| "upsert_row u (x # xs) = (if au_username x = au_username u then set_credentials u x # xs else x # upsert_row u xs)"

definition upsert_user :: "string \<Rightarrow> string \<Rightarrow> string option \<Rightarrow> 'v boot_world \<Rightarrow> int \<times> 'v boot_world" where
  "upsert_user username password_hash api_key_hash w =
     (let users = upsert_row \<lparr>au_id = bw_nextID w, au_username = username, au_password_hash = password_hash,
                              au_api_key_hash = api_key_hash, au_active = True\<rparr> (bw_users w)
      in (case find_user username users of Some u \<Rightarrow> au_id u | None \<Rightarrow> 0,
          w\<lparr>bw_users := users, bw_nextID := bw_nextID w + 1\<rparr>))"

definition ensureBootstrapUser ::
  "'v tenant_db \<Rightarrow> string \<Rightarrow> string \<Rightarrow> string \<Rightarrow> 'v boot_world \<Rightarrow> int result \<times> 'v boot_world" where
  "ensureBootstrapUser db username password apiKey w =
     (let apiKeyHash = (if TrimSpace apiKey \<noteq> [] then Some (HashSecret apiKey) else None)
      in case boot_fails db w of
           (Some e, w1) \<Rightarrow> (Inl e, w1)
         | (None, w1) \<Rightarrow>
             (case upsert_user username (HashSecret password) apiKeyHash w1 of (userID, w2) \<Rightarrow> (Inr userID, w2)))"

section \<open>Bootstrap data\<close>

text \<open>\<^verbatim>\<open>LIKE '% %'\<close>: the identifier contains a blank.\<close>

definition like_blank :: "string \<Rightarrow> bool" where
  "like_blank t \<longleftrightarrow> CHR '' '' \<in> set t"

definition delete_members :: "(int \<times> string \<Rightarrow> bool) \<Rightarrow> 'v boot_world \<Rightarrow> 'v boot_world" where
  "delete_members p w =
     w\<lparr>bw_tenants := (bw_tenants w)\<lparr>tw_members := filter (\<lambda>m. \<not> p m) (tw_members (bw_tenants w))\<rparr>\<rparr>"

definition delete_tenants :: "(string \<Rightarrow> bool) \<Rightarrow> 'v boot_world \<Rightarrow> 'v boot_world" where
  "delete_tenants p w =
     w\<lparr>bw_tenants := (bw_tenants w)\<lparr>tw_registry := filter (\<lambda>r. \<not> p (tr_TenantID r)) (tw_registry (bw_tenants w))\<rparr>\<rparr>"

text \<open>A statement without result: it fails in the driver, or takes effect.\<close>

definition exec_boot ::
  "'v tenant_db \<Rightarrow> ('v boot_world \<Rightarrow> 'v boot_world) \<Rightarrow> 'v boot_world \<Rightarrow> error option \<times> 'v boot_world" where
  "exec_boot db stmt w =
     (case boot_fails db w of (Some e, w1) \<Rightarrow> (Some e, w1) | (None, w1) \<Rightarrow> (None, stmt w1))"

text \<open>The loop over the tenants of a user; \<open>now t\<close> is the reading of the clock at the turn of \<open>t\<close>.\<close>

fun assign_tenants ::
  "'v tenant_db \<Rightarrow> Context \<Rightarrow> (string \<Rightarrow> time) \<Rightarrow> string \<Rightarrow> int \<Rightarrow> (string \<times> string) list \<Rightarrow> 'v boot_world \<Rightarrow>
   error option \<times> 'v boot_world" where
  "assign_tenants db ctx now requestID uid [] w = (None, w)"
| "assign_tenants db ctx now requestID uid ((tid, name) # ts) w =
     (case exec_boot db (\<lambda>w. w\<lparr>bw_tenants := insert_member (uid, tid) (bw_tenants w)\<rparr>) w of
        (Some e, w1) \<Rightarrow> (Some e, w1)
      | (None, w1) \<Rightarrow>
          (case WithTenantContext (Some ctx) \<lparr>tc_TenantID = tid, tc_RequestID = requestID\<rparr> of
             Inl e \<Rightarrow> (Some e, w1)
           | Inr tctx \<Rightarrow>
               (case TenantRegistry_Upsert (NewPostgresRepository (Some (td_registry db)) \<lparr>pg_QueryTimeout = 0\<rparr>) (Some tctx)
                       \<lparr>tr_TenantID = tid, tr_DisplayName = name, tr_PlanTier = ''starter'', tr_Active = True,
                        tr_UpdatedAt = now tid\<rparr> (bw_tenants w1) of
                  (Some e, t) \<Rightarrow> (Some e, w1\<lparr>bw_tenants := t\<rparr>)
                | (None, t) \<Rightarrow> assign_tenants db ctx now requestID uid ts (w1\<lparr>bw_tenants := t\<rparr>))))"

text \<open>A user with its tenants: the row, the removal of its assignments, the new ones.\<close>

definition bootstrap_user ::
  "'v tenant_db \<Rightarrow> Context \<Rightarrow> (string \<Rightarrow> time) \<Rightarrow> string \<Rightarrow> string \<Rightarrow> string \<Rightarrow> string \<Rightarrow> (string \<times> string) list \<Rightarrow>
   'v boot_world \<Rightarrow> error option \<times> 'v boot_world" where
  "bootstrap_user db ctx now requestID username password apiKey tenants w =
     (case ensureBootstrapUser db username password apiKey w of
        (Inl e, w1) \<Rightarrow> (Some e, w1)
      | (Inr uid, w1) \<Rightarrow>
          (case exec_boot db (delete_members (\<lambda>(u, t). u = uid)) w1 of
             (Some e, w2) \<Rightarrow> (Some e, w2)
           | (None, w2) \<Rightarrow> assign_tenants db ctx now requestID uid tenants w2))"

definition adminTenants :: "(string \<times> string) list" where
  "adminTenants = [(''tenant-a'', ''Tenant A''), (''tenant-secondary'', ''Secondary Tenant'')]"

definition jeetuTenants :: "(string \<times> string) list" where
  "jeetuTenants = [(''tenant-lalita'', ''Lalita Tenant''), (''tenant-jeetu'', ''Jeetu Tenant'')]"

definition EnsureBootstrapData ::
  "environment \<Rightarrow> 'v tenant_db \<Rightarrow> Context \<Rightarrow> (string \<Rightarrow> time) \<Rightarrow> 'v boot_world \<Rightarrow> error option \<times> 'v boot_world" where
  "EnsureBootstrapData en db ctx now w =
     (let adminUser = EnvOrSecret en ''FINE_RAG_BOOTSTRAP_ADMIN_USERNAME'' [];
          adminPass = EnvOrSecret en ''FINE_RAG_BOOTSTRAP_ADMIN_PASSWORD'' [];
          adminAPIKey = EnvOrSecret en ''FINE_RAG_BOOTSTRAP_ADMIN_API_KEY'' []
      in if adminUser = [] \<or> adminPass = [] \<or> adminAPIKey = []
         then (Some (ErrorString ''bootstrap admin secrets are required via *_FILE or env''), w)
         else let w1 = snd (exec_boot db (delete_members (\<lambda>(u, t). like_blank t)) w);
                  w2 = snd (exec_boot db (delete_tenants like_blank) w1)
              in case bootstrap_user db ctx now ''bootstrap-admin'' adminUser adminPass adminAPIKey adminTenants w2 of
                   (Some e, w3) \<Rightarrow> (Some e, w3)
                 | (None, w3) \<Rightarrow>
                     let secondaryUsername = EnvOrSecret en ''FINE_RAG_BOOTSTRAP_SECONDARY_USERNAME'' [];
                         secondaryPass = EnvOrSecret en ''FINE_RAG_BOOTSTRAP_SECONDARY_PASSWORD'' [];
                         secondaryAPIKey = EnvOrSecret en ''FINE_RAG_BOOTSTRAP_SECONDARY_API_KEY'' []
                     in if secondaryUsername \<noteq> [] \<or> secondaryPass \<noteq> []
                        then bootstrap_user db ctx now ''bootstrap-jeetu'' secondaryUsername secondaryPass
                               secondaryAPIKey jeetuTenants w3
                        else (None, w3))"

section \<open>The reset tool\<close>

datatype reset_outcome = Exit int | Panic error | Inserted | Updated int

definition hs :: "string \<Rightarrow> string" where
  "hs v = ''sha256$'' @ EncodeToString (Sum256 v)"

definition bootstrap_reset ::
  "(string \<Rightarrow> error option) \<Rightarrow> environment \<Rightarrow> 'v tenant_db \<Rightarrow> 'v boot_world \<Rightarrow> reset_outcome \<times> 'v boot_world" where
  "bootstrap_reset open_db en db w =
     (let dsn = Getenv en ''DATABASE_URL''; user = Getenv en ''BOOTSTRAP_USER'';
          pass = Getenv en ''BOOTSTRAP_PASS''; api = Getenv en ''BOOTSTRAP_API''
      in if dsn = [] \<or> user = [] \<or> pass = [] \<or> api = [] then (Exit 1, w)
         else case open_db dsn of
             Some e \<Rightarrow> (Panic e, w)
           | None \<Rightarrow>
               let row = \<lparr>au_id = bw_nextID w, au_username = user, au_password_hash = hs pass,
                          au_api_key_hash = Some (hs api), au_active = True\<rparr>;
                   hit = (\<lambda>u. au_username u = user);
                   update = (\<lambda>w. w\<lparr>bw_users := map (\<lambda>u. if hit u then set_credentials row u else u) (bw_users w)\<rparr>);
                   insert_row = (\<lambda>w. w\<lparr>bw_users := bw_users w @ [row], bw_nextID := bw_nextID w + 1\<rparr>);
                   n = length (filter hit (bw_users w))
               in case exec_boot db update w of
                    (Some e, w1) \<Rightarrow> (Panic e, w1)
                  | (None, w1) \<Rightarrow>
                      if n = 0 then
                        (case exec_boot db insert_row w1 of
                           (Some e, w2) \<Rightarrow> (Panic e, w2)
                         | (None, w2) \<Rightarrow> (Inserted, w2))
                      else (Updated (int n), w1))"

section \<open>Lemmas\<close>

text \<open>A database that works: no statement fails, and the statement of the tenant repository inserts the record or replaces
  the one with the same identifier.\<close>

fun upsert_tenant :: "TenantRecord \<Rightarrow> TenantRecord list \<Rightarrow> TenantRecord list" where
  "upsert_tenant t [] = [t]"
| "upsert_tenant t (x # xs) = (if tr_TenantID x = tr_TenantID t then t # xs else x # upsert_tenant t xs)"

definition working :: "'v tenant_db \<Rightarrow> bool" where
  "working db \<longleftrightarrow>
     (\<forall>v. fst (jd_fails (td_jobs db) v) = None) \<and>
     (\<forall>d t w. \<exists>w'. exec_tenant_upsert (td_registry db) d t w = (None, w') \<and> tw_members w' = tw_members w \<and>
        tw_registry w' = upsert_tenant t (tw_registry w))"

text \<open>Two worlds with the same tables.\<close>

definition same_tables :: "'v boot_world \<Rightarrow> 'v boot_world \<Rightarrow> bool" where
  "same_tables w w' \<longleftrightarrow>
     bw_users w' = bw_users w \<and> bw_nextID w' = bw_nextID w \<and>
     tw_members (bw_tenants w') = tw_members (bw_tenants w) \<and> tw_registry (bw_tenants w') = tw_registry (bw_tenants w)"

abbreviation members :: "'v boot_world \<Rightarrow> (int \<times> string) set" where
  "members w \<equiv> set (tw_members (bw_tenants w))"

abbreviation registry :: "'v boot_world \<Rightarrow> TenantRecord list" where
  "registry w \<equiv> tw_registry (bw_tenants w)"

lemma boot_fails_working:
  assumes "working db"
  obtains w1 where "boot_fails db w = (None, w1)" "same_tables w w1"
proof -
  obtain e v where e: "jd_fails (td_jobs db) (app_outer (tw_app (bw_tenants w))) = (e, v)"
    by (cases "jd_fails (td_jobs db) (app_outer (tw_app (bw_tenants w)))")
  moreover have "e = None" using assms e unfolding working_def by (metis fst_conv)
  ultimately show thesis using that by (simp add: boot_fails_def driver_fails_def same_tables_def)
qed

lemma exec_boot_working:
  assumes "working db"
  obtains w1 where "exec_boot db stmt w = (None, stmt w1)" "same_tables w w1"
proof -
  obtain w1 where "boot_fails db w = (None, w1)" "same_tables w w1" using boot_fails_working [OF assms] .
  then show thesis using that by (simp add: exec_boot_def)
qed

lemma find_upsert:
  "find_user (au_username u) (upsert_row u xs) =
   Some (case find_user (au_username u) xs of None \<Rightarrow> u | Some x \<Rightarrow> set_credentials u x)"
  by (induction xs) (auto simp: find_user_def set_credentials_def)

lemma find_upsert_other: "n \<noteq> au_username u \<Longrightarrow> find_user n (upsert_row u xs) = find_user n xs"
  by (induction xs) (auto simp: find_user_def set_credentials_def)

lemma upsert_keeps: "x \<in> set xs \<Longrightarrow> au_username x \<noteq> au_username u \<Longrightarrow> x \<in> set (upsert_row u xs)"
  by (induction xs) auto

lemma find_user_Some: "find_user n xs = Some x \<Longrightarrow> x \<in> set xs \<and> au_username x = n"
  by (auto simp: find_user_def find_Some_iff)

lemma upsert_names: "au_username ` set (upsert_row u xs) = insert (au_username u) (au_username ` set xs)"
  by (induction xs) (auto simp: set_credentials_def)

lemma upsert_ids: "au_id ` set (upsert_row u xs) \<subseteq> insert (au_id u) (au_id ` set xs)"
  by (induction xs) (auto simp: set_credentials_def)

definition users_ok :: "'v boot_world \<Rightarrow> bool" where
  "users_ok w \<longleftrightarrow> distinct (map au_username (bw_users w)) \<and> distinct (map au_id (bw_users w)) \<and>
     (\<forall>u \<in> set (bw_users w). au_id u < bw_nextID w)"

lemma upsert_distinct:
  "distinct (map au_username xs) \<Longrightarrow> distinct (map au_username (upsert_row u xs))"
  "distinct (map au_id xs) \<Longrightarrow> au_id u \<notin> au_id ` set xs \<Longrightarrow> distinct (map au_id (upsert_row u xs))"
proof (induction xs)
  case (Cons x xs)
  {
    case 1
    then show ?case using Cons.IH(1) upsert_names [of u xs] by (auto simp: set_credentials_def)
  next
    case 2
    then show ?case using Cons.IH(2) upsert_ids [of u xs] by (auto simp: set_credentials_def)
  }
qed simp_all

lemma upsert_again: "upsert_row \<lparr>au_id = j, au_username = n, au_password_hash = p, au_api_key_hash = k, au_active = True\<rparr>
    (upsert_row \<lparr>au_id = i, au_username = n, au_password_hash = p, au_api_key_hash = k, au_active = True\<rparr> xs) =
  upsert_row \<lparr>au_id = i, au_username = n, au_password_hash = p, au_api_key_hash = k, au_active = True\<rparr> xs"
  by (induction xs) (auto simp: set_credentials_def split: option.split)

lemma upsert_commute:
  assumes "au_username u \<noteq> au_username v" and "au_username u \<in> au_username ` set xs"
  shows "upsert_row u (upsert_row v xs) = upsert_row v (upsert_row u xs)"
  using assms by (induction xs) (auto simp: set_credentials_def)

lemma ensure_user_run:
  assumes "working db"
  obtains uid w1 where "ensureBootstrapUser db n p k w = (Inr uid, w1)"
    "bw_users w1 = upsert_row \<lparr>au_id = bw_nextID w, au_username = n, au_password_hash = HashSecret p,
       au_api_key_hash = (if TrimSpace k \<noteq> [] then Some (HashSecret k) else None), au_active = True\<rparr> (bw_users w)"
    "bw_nextID w1 = bw_nextID w + 1" "tw_members (bw_tenants w1) = tw_members (bw_tenants w)" "registry w1 = registry w"
    "\<exists>u. find_user n (bw_users w1) = Some u \<and> uid = au_id u"
proof -
  let ?u = "\<lparr>au_id = bw_nextID w, au_username = n, au_password_hash = HashSecret p,
       au_api_key_hash = (if TrimSpace k \<noteq> [] then Some (HashSecret k) else None), au_active = True\<rparr>"
  obtain w0 where w0: "boot_fails db w = (None, w0)" "same_tables w w0" using boot_fails_working [OF assms] .
  obtain x where x: "find_user n (upsert_row ?u (bw_users w)) = Some x" using find_upsert [of ?u] by simp
  let ?w = "w0\<lparr>bw_users := upsert_row ?u (bw_users w), bw_nextID := bw_nextID w + 1\<rparr>"
  have "ensureBootstrapUser db n p k w = (Inr (au_id x), ?w)"
    using w0 x by (simp add: ensureBootstrapUser_def upsert_user_def same_tables_def Let_def)
  then show thesis by (rule that) (use w0(2) x in \<open>simp_all add: same_tables_def\<close>)
qed

definition tenant_records :: "(string \<Rightarrow> time) \<Rightarrow> (string \<times> string) list \<Rightarrow> TenantRecord list" where
  "tenant_records now ts =
     map (\<lambda>(t, name). \<lparr>tr_TenantID = t, tr_DisplayName = name, tr_PlanTier = ''starter'', tr_Active = True,
       tr_UpdatedAt = now t\<rparr>) ts"

lemma assign_tenants_run:
  assumes "working db" and "requestID \<noteq> []" and "\<forall>(t, n) \<in> set ts. t \<noteq> [] \<and> TrimSpace n \<noteq> [] \<and> now t \<noteq> 0"
  shows "\<exists>w'. assign_tenants db ctx now requestID uid ts w = (None, w') \<and> bw_users w' = bw_users w \<and>
    bw_nextID w' = bw_nextID w \<and> members w' = members w \<union> {uid} \<times> fst ` set ts \<and>
    registry w' = fold upsert_tenant (tenant_records now ts) (registry w)"
  using assms(3)
proof (induction ts arbitrary: w)
  case Nil
  then show ?case by (simp add: tenant_records_def)
next
  case (Cons x ts)
  obtain t n where x: "x = (t, n)" by (cases x)
  with Cons.prems have ok: "t \<noteq> []" "TrimSpace n \<noteq> []" "now t \<noteq> 0" by auto
  let ?rec = "\<lparr>tr_TenantID = t, tr_DisplayName = n, tr_PlanTier = ''starter'', tr_Active = True, tr_UpdatedAt = now t\<rparr>"
  have starter: "TrimSpace ''starter'' \<noteq> []" by code_simp
  obtain w1 where w1: "exec_boot db (\<lambda>w. w\<lparr>bw_tenants := insert_member (uid, t) (bw_tenants w)\<rparr>) w =
      (None, w1\<lparr>bw_tenants := insert_member (uid, t) (bw_tenants w1)\<rparr>)" "same_tables w w1"
    by (rule exec_boot_working [OF assms(1), where w = w and stmt = "\<lambda>w. w\<lparr>bw_tenants := insert_member (uid, t) (bw_tenants w)\<rparr>"])
  obtain tctx where tctx: "WithTenantContext (Some ctx) \<lparr>tc_TenantID = t, tc_RequestID = requestID\<rparr> = Inr tctx"
    using ok(1) assms(2) by (auto simp: WithTenantContext_Inr)
  have guard: "GuardWriteScope (Some tctx) t = None"
    using in_scope_WithTenantContext [OF tctx, of t] by (simp add: in_scope_def GuardWriteScope_None)
  obtain w2 where w2: "exec_tenant_upsert (td_registry db) (3 * nanos_per_second) ?rec (insert_member (uid, t) (bw_tenants w1)) = (None, w2)"
    "tw_members w2 = tw_members (insert_member (uid, t) (bw_tenants w1))"
    "tw_registry w2 = upsert_tenant ?rec (tw_registry (insert_member (uid, t) (bw_tenants w1)))"
    using assms(1) unfolding working_def by blast
  have valid: "TenantRecord_Validate ?rec = None"
    using ok starter by (simp add: time_IsZero_def)
  have up: "TenantRegistry_Upsert (NewPostgresRepository (Some (td_registry db)) \<lparr>pg_QueryTimeout = 0\<rparr>) (Some tctx) ?rec
      (insert_member (uid, t) (bw_tenants w1)) = (None, w2)"
    using valid guard w2(1)
    by (simp add: TenantRegistry_Upsert_def NewPostgresRepository_def withDefaults_def del: TenantRecord_Validate_None)
  have "assign_tenants db ctx now requestID uid (x # ts) w =
      assign_tenants db ctx now requestID uid ts (w1\<lparr>bw_tenants := w2\<rparr>)"
    using x w1(1) tctx up by simp
  moreover obtain w' where "assign_tenants db ctx now requestID uid ts (w1\<lparr>bw_tenants := w2\<rparr>) = (None, w')"
    "bw_users w' = bw_users w1" "bw_nextID w' = bw_nextID w1" "members w' = set (tw_members w2) \<union> {uid} \<times> fst ` set ts"
    "registry w' = fold upsert_tenant (tenant_records now ts) (tw_registry w2)"
    using Cons.IH [of "w1\<lparr>bw_tenants := w2\<rparr>"] Cons.prems by auto
  ultimately show ?case using x w1(2) w2(2,3)
    by (auto simp: same_tables_def insert_member_def tenant_records_def)
qed

lemma bootstrap_user_run:
  assumes "working db" and "requestID \<noteq> []" and "\<forall>(t, n) \<in> set ts. t \<noteq> [] \<and> TrimSpace n \<noteq> [] \<and> now t \<noteq> 0"
  shows "\<exists>w' u. bootstrap_user db ctx now requestID n p k ts w = (None, w') \<and>
    bw_users w' = upsert_row \<lparr>au_id = bw_nextID w, au_username = n, au_password_hash = HashSecret p,
       au_api_key_hash = (if TrimSpace k \<noteq> [] then Some (HashSecret k) else None), au_active = True\<rparr> (bw_users w) \<and>
    bw_nextID w' = bw_nextID w + 1 \<and> find_user n (bw_users w') = Some u \<and>
    members w' = {m \<in> members w. fst m \<noteq> au_id u} \<union> {au_id u} \<times> fst ` set ts \<and>
    registry w' = fold upsert_tenant (tenant_records now ts) (registry w)"
proof -
  obtain uid w1 where w1: "ensureBootstrapUser db n p k w = (Inr uid, w1)"
    "bw_users w1 = upsert_row \<lparr>au_id = bw_nextID w, au_username = n, au_password_hash = HashSecret p,
       au_api_key_hash = (if TrimSpace k \<noteq> [] then Some (HashSecret k) else None), au_active = True\<rparr> (bw_users w)"
    "bw_nextID w1 = bw_nextID w + 1" "tw_members (bw_tenants w1) = tw_members (bw_tenants w)" "registry w1 = registry w"
    "\<exists>u. find_user n (bw_users w1) = Some u \<and> uid = au_id u"
    using ensure_user_run [OF assms(1)] .
  from w1(6) obtain u where u: "find_user n (bw_users w1) = Some u" "uid = au_id u" by blast
  obtain w2 where w2: "exec_boot db (delete_members (\<lambda>(u, t). u = uid)) w1 = (None, delete_members (\<lambda>(u, t). u = uid) w2)"
    "same_tables w1 w2" by (rule exec_boot_working [OF assms(1), where w = w1 and stmt = "delete_members (\<lambda>(u, t). u = uid)"])
  obtain w' where w': "assign_tenants db ctx now requestID uid ts (delete_members (\<lambda>(u, t). u = uid) w2) = (None, w')"
    "bw_users w' = bw_users w2" "bw_nextID w' = bw_nextID w2"
    "members w' = members (delete_members (\<lambda>(u, t). u = uid) w2) \<union> {uid} \<times> fst ` set ts"
    "registry w' = fold upsert_tenant (tenant_records now ts) (registry w2)"
    using assign_tenants_run [OF assms, of ctx uid "delete_members (\<lambda>(u, t). u = uid) w2"] by (auto simp: delete_members_def)
  have "bootstrap_user db ctx now requestID n p k ts w = (None, w')"
    using w1(1) w2(1) w'(1) by (simp add: bootstrap_user_def)
  moreover have "members w' = {m \<in> members w. fst m \<noteq> au_id u} \<union> {au_id u} \<times> fst ` set ts"
    using w'(4) w1(4) w2(2) u(2) by (auto simp: delete_members_def same_tables_def)
  ultimately show ?thesis using w1 w2(2) w' u by (intro exI [of _ w'] exI [of _ u]) (simp add: same_tables_def)
qed

lemma registry_fold:
  "tr_TenantID ` set (fold upsert_tenant rs xs) = tr_TenantID ` set rs \<union> tr_TenantID ` set xs"
proof (induction rs arbitrary: xs)
  case (Cons r rs)
  have "tr_TenantID ` set (upsert_tenant r ys) = insert (tr_TenantID r) (tr_TenantID ` set ys)" for ys
    by (induction ys) auto
  then show ?case using Cons.IH by auto
qed simp

lemma upsert_tenant_last: "r \<in> set (upsert_tenant r xs)"
  by (induction xs) auto

lemma upsert_tenant_keeps: "x \<in> set xs \<Longrightarrow> tr_TenantID x \<noteq> tr_TenantID r \<Longrightarrow> x \<in> set (upsert_tenant r xs)"
  by (induction xs) auto

lemma fold_keeps: "x \<in> set xs \<Longrightarrow> tr_TenantID x \<notin> tr_TenantID ` set rs \<Longrightarrow> x \<in> set (fold upsert_tenant rs xs)"
  by (induction rs arbitrary: xs) (auto simp: upsert_tenant_keeps)

lemma fold_holds: "r \<in> set rs \<Longrightarrow> distinct (map tr_TenantID rs) \<Longrightarrow> r \<in> set (fold upsert_tenant rs xs)"
proof (induction rs arbitrary: xs)
  case (Cons a rs)
  then show ?case using fold_keeps [OF upsert_tenant_last [of a xs], of rs] by auto
qed simp

lemma tenant_names:
  "\<forall>(t, n) \<in> set adminTenants. t \<noteq> [] \<and> TrimSpace n \<noteq> []" "\<forall>(t, n) \<in> set jeetuTenants. t \<noteq> [] \<and> TrimSpace n \<noteq> []"
  by code_simp+

text \<open>The two cleanup statements and the removal of blank identifiers.\<close>

definition secondary_configured :: "environment \<Rightarrow> bool" where
  "secondary_configured en \<longleftrightarrow>
     EnvOrSecret en ''FINE_RAG_BOOTSTRAP_SECONDARY_USERNAME'' [] \<noteq> [] \<or>
     EnvOrSecret en ''FINE_RAG_BOOTSTRAP_SECONDARY_PASSWORD'' [] \<noteq> []"

definition admin_row :: "environment \<Rightarrow> int \<Rightarrow> app_user" where
  "admin_row en i =
     (let k = EnvOrSecret en ''FINE_RAG_BOOTSTRAP_ADMIN_API_KEY'' []
      in \<lparr>au_id = i, au_username = EnvOrSecret en ''FINE_RAG_BOOTSTRAP_ADMIN_USERNAME'' [],
          au_password_hash = HashSecret (EnvOrSecret en ''FINE_RAG_BOOTSTRAP_ADMIN_PASSWORD'' []),
          au_api_key_hash = (if TrimSpace k \<noteq> [] then Some (HashSecret k) else None), au_active = True\<rparr>)"

definition secondary_row :: "environment \<Rightarrow> int \<Rightarrow> app_user" where
  "secondary_row en i =
     (let k = EnvOrSecret en ''FINE_RAG_BOOTSTRAP_SECONDARY_API_KEY'' []
      in \<lparr>au_id = i, au_username = EnvOrSecret en ''FINE_RAG_BOOTSTRAP_SECONDARY_USERNAME'' [],
          au_password_hash = HashSecret (EnvOrSecret en ''FINE_RAG_BOOTSTRAP_SECONDARY_PASSWORD'' []),
          au_api_key_hash = (if TrimSpace k \<noteq> [] then Some (HashSecret k) else None), au_active = True\<rparr>)"

abbreviation admin_name :: "environment \<Rightarrow> string" where
  "admin_name en \<equiv> EnvOrSecret en ''FINE_RAG_BOOTSTRAP_ADMIN_USERNAME'' []"

abbreviation admin_pass :: "environment \<Rightarrow> string" where
  "admin_pass en \<equiv> EnvOrSecret en ''FINE_RAG_BOOTSTRAP_ADMIN_PASSWORD'' []"

abbreviation admin_key :: "environment \<Rightarrow> string" where
  "admin_key en \<equiv> EnvOrSecret en ''FINE_RAG_BOOTSTRAP_ADMIN_API_KEY'' []"

abbreviation secondary_name :: "environment \<Rightarrow> string" where
  "secondary_name en \<equiv> EnvOrSecret en ''FINE_RAG_BOOTSTRAP_SECONDARY_USERNAME'' []"

text \<open>The tables after a bootstrap: \<open>a\<close> is the row of the administrator and \<open>b\<close> that of the secondary user, if one is
  configured.\<close>

definition boot_tables ::
  "environment \<Rightarrow> (string \<Rightarrow> time) \<Rightarrow> 'v boot_world \<Rightarrow> 'v boot_world \<Rightarrow> app_user \<Rightarrow> app_user \<Rightarrow> bool" where
  "boot_tables en now w w' a b \<longleftrightarrow>
     (let us1 = upsert_row (admin_row en (bw_nextID w)) (bw_users w);
          m1 = {m \<in> members w. \<not> like_blank (snd m) \<and> fst m \<noteq> au_id a} \<union> {au_id a} \<times> fst ` set adminTenants
      in find_user (admin_name en) us1 = Some a \<and>
         registry w' = fold upsert_tenant
           (tenant_records now (if secondary_configured en then adminTenants @ jeetuTenants else adminTenants))
           (filter (\<lambda>r. \<not> like_blank (tr_TenantID r)) (registry w)) \<and>
         (if secondary_configured en
          then bw_users w' = upsert_row (secondary_row en (bw_nextID w + 1)) us1 \<and> bw_nextID w' = bw_nextID w + 2 \<and>
            find_user (secondary_name en) (bw_users w') = Some b \<and>
            members w' = {m \<in> m1. fst m \<noteq> au_id b} \<union> {au_id b} \<times> fst ` set jeetuTenants
          else bw_users w' = us1 \<and> bw_nextID w' = bw_nextID w + 1 \<and> members w' = m1))"

lemma bootstrap_run:
  assumes "working db" and "\<forall>t. now t \<noteq> 0" and "admin_name en \<noteq> []" and "admin_pass en \<noteq> []" and "admin_key en \<noteq> []"
  obtains w' a b where "EnsureBootstrapData en db ctx now w = (None, w')" "boot_tables en now w w' a b"
proof -
  let ?e = "\<lambda>s. EnvOrSecret en s []"
  obtain w1 where w1: "exec_boot db (delete_members (\<lambda>(u, t). like_blank t)) w =
      (None, delete_members (\<lambda>(u, t). like_blank t) w1)" "same_tables w w1"
    by (rule exec_boot_working [OF assms(1), where w = w and stmt = "delete_members (\<lambda>(u, t). like_blank t)"])
  obtain w2 where w2: "exec_boot db (delete_tenants like_blank) (delete_members (\<lambda>(u, t). like_blank t) w1) =
      (None, delete_tenants like_blank w2)" "same_tables (delete_members (\<lambda>(u, t). like_blank t) w1) w2"
    by (rule exec_boot_working [OF assms(1), where w = "delete_members (\<lambda>(u, t). like_blank t) w1" and stmt = "delete_tenants like_blank"])
  let ?w2 = "delete_tenants like_blank w2"
  have t2: "bw_users ?w2 = bw_users w" "bw_nextID ?w2 = bw_nextID w" "members ?w2 = {m \<in> members w. \<not> like_blank (snd m)}"
    "registry ?w2 = filter (\<lambda>r. \<not> like_blank (tr_TenantID r)) (registry w)"
    using w1(2) w2(2) by (auto simp: same_tables_def delete_members_def delete_tenants_def case_prod_beta)
  have clock: "\<forall>(t, n) \<in> set adminTenants. t \<noteq> [] \<and> TrimSpace n \<noteq> [] \<and> now t \<noteq> 0"
    "\<forall>(t, n) \<in> set jeetuTenants. t \<noteq> [] \<and> TrimSpace n \<noteq> [] \<and> now t \<noteq> 0" using tenant_names assms(2) by auto
  obtain w3 a where w3: "bootstrap_user db ctx now ''bootstrap-admin'' (?e ''FINE_RAG_BOOTSTRAP_ADMIN_USERNAME'')
      (?e ''FINE_RAG_BOOTSTRAP_ADMIN_PASSWORD'') (?e ''FINE_RAG_BOOTSTRAP_ADMIN_API_KEY'') adminTenants ?w2 = (None, w3)"
    "bw_users w3 = upsert_row (admin_row en (bw_nextID w)) (bw_users w)" "bw_nextID w3 = bw_nextID w + 1"
    "find_user (?e ''FINE_RAG_BOOTSTRAP_ADMIN_USERNAME'') (bw_users w3) = Some a"
    "members w3 = {m \<in> members w. \<not> like_blank (snd m) \<and> fst m \<noteq> au_id a} \<union> {au_id a} \<times> fst ` set adminTenants"
    "registry w3 = fold upsert_tenant (tenant_records now adminTenants) (registry ?w2)"
    using bootstrap_user_run [OF assms(1) _ clock(1), of "''bootstrap-admin''" ctx "?e ''FINE_RAG_BOOTSTRAP_ADMIN_USERNAME''"
        "?e ''FINE_RAG_BOOTSTRAP_ADMIN_PASSWORD''" "?e ''FINE_RAG_BOOTSTRAP_ADMIN_API_KEY''" ?w2] t2
    by (auto simp: admin_row_def Let_def)
  obtain w4 b where w4: "bootstrap_user db ctx now ''bootstrap-jeetu'' (?e ''FINE_RAG_BOOTSTRAP_SECONDARY_USERNAME'')
      (?e ''FINE_RAG_BOOTSTRAP_SECONDARY_PASSWORD'') (?e ''FINE_RAG_BOOTSTRAP_SECONDARY_API_KEY'') jeetuTenants w3 = (None, w4)"
    "bw_users w4 = upsert_row (secondary_row en (bw_nextID w + 1)) (bw_users w3)" "bw_nextID w4 = bw_nextID w + 2"
    "find_user (?e ''FINE_RAG_BOOTSTRAP_SECONDARY_USERNAME'') (bw_users w4) = Some b"
    "members w4 = {m \<in> members w3. fst m \<noteq> au_id b} \<union> {au_id b} \<times> fst ` set jeetuTenants"
    "registry w4 = fold upsert_tenant (tenant_records now jeetuTenants) (registry w3)"
    using bootstrap_user_run [OF assms(1) _ clock(2), of "''bootstrap-jeetu''" ctx "?e ''FINE_RAG_BOOTSTRAP_SECONDARY_USERNAME''"
        "?e ''FINE_RAG_BOOTSTRAP_SECONDARY_PASSWORD''" "?e ''FINE_RAG_BOOTSTRAP_SECONDARY_API_KEY''" w3] w3(3)
    by (auto simp: secondary_row_def Let_def)
  have "EnsureBootstrapData en db ctx now w = (None, if secondary_configured en then w4 else w3)"
    using assms(3-5) w1(1) w2(1) w3(1) w4(1) by (simp add: EnsureBootstrapData_def secondary_configured_def Let_def)
  moreover have "boot_tables en now w (if secondary_configured en then w4 else w3) a b"
    using w3(2-6) w4(2-6) t2(4) by (simp add: boot_tables_def tenant_records_def)
  ultimately show ?thesis by (rule that)
qed

lemma EnvOrSecret_trimmed: "TrimSpace (EnvOrSecret en k []) = EnvOrSecret en k []"
  by (simp add: EnvOrSecret_def file_value_def Let_def split: option.split)

lemma row_names [simp]:
  "au_username (admin_row en i) = admin_name en" "au_username (secondary_row en i) = secondary_name en"
  "au_id (admin_row en i) = i" "au_id (secondary_row en i) = i"
  by (simp_all add: admin_row_def secondary_row_def Let_def)

lemma users_ok_upsert:
  assumes "distinct (map au_username us)" "distinct (map au_id us)" "\<forall>u \<in> set us. au_id u < i" "au_id r = i"
  shows "distinct (map au_username (upsert_row r us)) \<and> distinct (map au_id (upsert_row r us)) \<and>
    (\<forall>u \<in> set (upsert_row r us). au_id u < i + 1)"
  using upsert_distinct(1) [OF assms(1), of r] upsert_distinct(2) [OF assms(2), of r] upsert_ids [of r us] assms(3,4)
  by fastforce

lemma tenant_records_ids: "map tr_TenantID (tenant_records now ts) = map fst ts"
  by (simp add: tenant_records_def comp_def case_prod_beta)

lemma tenant_records_set: "tr_TenantID ` set (tenant_records now ts) = fst ` set ts"
  using arg_cong [OF tenant_records_ids, of set] by simp

lemma tenant_records_active: "r \<in> set (tenant_records now ts) \<Longrightarrow> tr_Active r"
  by (auto simp: tenant_records_def)

lemma registry_ids:
  "tr_TenantID ` set (fold upsert_tenant (tenant_records now ts) (filter (\<lambda>r. \<not> like_blank (tr_TenantID r)) rs)) =
   fst ` set ts \<union> {t \<in> tr_TenantID ` set rs. \<not> like_blank t}"
  unfolding registry_fold tenant_records_set by auto

lemma registry_after:
  assumes "distinct (map fst ts)" and "\<forall>t \<in> fst ` set ts. \<not> like_blank t"
  shows "fst ` set ts \<subseteq> tr_TenantID ` {r \<in> set (fold upsert_tenant (tenant_records now ts)
      (filter (\<lambda>r. \<not> like_blank (tr_TenantID r)) rs)). tr_Active r} \<and>
    (\<forall>r \<in> set (fold upsert_tenant (tenant_records now ts) (filter (\<lambda>r. \<not> like_blank (tr_TenantID r)) rs)).
      \<not> like_blank (tr_TenantID r))" (is "_ \<subseteq> _ ` {r \<in> set ?reg. _} \<and> _")
proof
  have "set (tenant_records now ts) \<subseteq> {r \<in> set ?reg. tr_Active r}"
    using fold_holds [of _ "tenant_records now ts"] assms(1) tenant_records_active by (auto simp: tenant_records_ids)
  then show "fst ` set ts \<subseteq> tr_TenantID ` {r \<in> set ?reg. tr_Active r}"
    unfolding tenant_records_set [of now ts, symmetric] by (rule image_mono)
  show "\<forall>r \<in> set ?reg. \<not> like_blank (tr_TenantID r)" using registry_ids [of now ts rs] assms(2) by blast
qed

lemma same_user: "distinct (map au_id us) \<Longrightarrow> u \<in> set us \<Longrightarrow> v \<in> set us \<Longrightarrow> au_id u = au_id v \<Longrightarrow> u = v"
  by (metis distinct_map inj_onD)

lemma admin_after:
  assumes "admin_key en \<noteq> []" and "find_user (admin_name en) (upsert_row (admin_row en i) us) = Some a"
  shows "au_active a \<and> au_password_hash a = HashSecret (admin_pass en) \<and> au_api_key_hash a = Some (HashSecret (admin_key en))"
proof -
  have "au_api_key_hash (admin_row en i) = Some (HashSecret (admin_key en))"
    using assms(1) by (simp add: admin_row_def Let_def EnvOrSecret_trimmed)
  then show ?thesis using assms(2) find_upsert [of "admin_row en i" us]
    by (auto simp: set_credentials_def admin_row_def Let_def split: option.splits)
qed

lemma tables_always:
  assumes "boot_tables en now w w' a b"
  shows "find_user (admin_name en) (upsert_row (admin_row en (bw_nextID w)) (bw_users w)) = Some a"
    and "registry w' = fold upsert_tenant
      (tenant_records now (if secondary_configured en then adminTenants @ jeetuTenants else adminTenants))
      (filter (\<lambda>r. \<not> like_blank (tr_TenantID r)) (registry w))"
  using assms unfolding boot_tables_def Let_def by blast+

lemma tables_one:
  assumes "boot_tables en now w w' a b" and "\<not> secondary_configured en"
  shows "bw_users w' = upsert_row (admin_row en (bw_nextID w)) (bw_users w)" and "bw_nextID w' = bw_nextID w + 1"
    and "members w' = {m \<in> members w. \<not> like_blank (snd m) \<and> fst m \<noteq> au_id a} \<union> {au_id a} \<times> fst ` set adminTenants"
  using assms(1) unfolding boot_tables_def Let_def if_not_P [OF assms(2)] by blast+

lemma tables_two:
  assumes "boot_tables en now w w' a b" and "secondary_configured en"
  shows "bw_users w' = upsert_row (secondary_row en (bw_nextID w + 1)) (upsert_row (admin_row en (bw_nextID w)) (bw_users w))"
    and "bw_nextID w' = bw_nextID w + 2" and "find_user (secondary_name en) (bw_users w') = Some b"
    and "members w' = {m \<in> {m \<in> members w. \<not> like_blank (snd m) \<and> fst m \<noteq> au_id a} \<union> {au_id a} \<times> fst ` set adminTenants.
      fst m \<noteq> au_id b} \<union> {au_id b} \<times> fst ` set jeetuTenants"
  using assms(1) unfolding boot_tables_def Let_def if_P [OF assms(2)] by blast+

text \<open>The rows of the users: the administrator and the users that are not configured.\<close>

lemma tables_users:
  assumes "boot_tables en now w w' a b" and "users_ok w" and "secondary_name en \<noteq> admin_name en"
  shows "users_ok w'" and "find_user (admin_name en) (bw_users w') = Some a"
    and "u \<in> set (bw_users w) \<Longrightarrow> au_username u \<notin> {admin_name en, secondary_name en} \<Longrightarrow> u \<in> set (bw_users w')"
proof -
  let ?us1 = "upsert_row (admin_row en (bw_nextID w)) (bw_users w)"
  let ?us2 = "upsert_row (secondary_row en (bw_nextID w + 1)) ?us1"
  have w': "bw_users w' = (if secondary_configured en then ?us2 else ?us1)"
    "bw_nextID w' = bw_nextID w + (if secondary_configured en then 2 else 1)" "find_user (admin_name en) ?us1 = Some a"
    using tables_always(1) [OF assms(1)] tables_one(1,2) [OF assms(1)] tables_two(1,2) [OF assms(1)] by auto
  have ok1: "distinct (map au_username ?us1) \<and> distinct (map au_id ?us1) \<and> (\<forall>u \<in> set ?us1. au_id u < bw_nextID w + 1)"
    by (rule users_ok_upsert) (use assms(2) in \<open>simp_all add: users_ok_def\<close>)
  have "distinct (map au_username ?us2) \<and> distinct (map au_id ?us2) \<and> (\<forall>u \<in> set ?us2. au_id u < bw_nextID w + 1 + 1)"
    by (rule users_ok_upsert) (use ok1 in simp_all)
  with ok1 w' show "users_ok w'" by (simp add: users_ok_def add.assoc)
  show "find_user (admin_name en) (bw_users w') = Some a"
    using w'(1,3) assms(3) find_upsert_other [of "admin_name en" "secondary_row en (bw_nextID w + 1)" ?us1] by auto
  assume "u \<in> set (bw_users w)" "au_username u \<notin> {admin_name en, secondary_name en}"
  then show "u \<in> set (bw_users w')"
    using w'(1) upsert_keeps [of u "bw_users w" "admin_row en (bw_nextID w)"]
      upsert_keeps [of u ?us1 "secondary_row en (bw_nextID w + 1)"] by auto
qed

lemma users_differ:
  assumes "users_ok w" and "u \<in> set (bw_users w)" and "find_user n (bw_users w) = Some v" and "au_username u \<noteq> n"
  shows "au_id u \<noteq> au_id v"
  using assms same_user [of "bw_users w" u v] find_user_Some [OF assms(3)] by (auto simp: users_ok_def)

text \<open>The assignments: those of the administrator, and those of a user that is not configured.\<close>

lemma tables_members:
  assumes "boot_tables en now w w' a b" and "users_ok w" and "secondary_name en \<noteq> admin_name en"
  shows "{t. (au_id a, t) \<in> members w'} = {''tenant-a'', ''tenant-secondary''}"
    and "u \<in> set (bw_users w) \<Longrightarrow> au_username u \<notin> {admin_name en, secondary_name en} \<Longrightarrow>
      (au_id u, t) \<in> members w' \<longleftrightarrow> (au_id u, t) \<in> members w \<and> \<not> like_blank t"
proof -
  note users = tables_users [OF assms]
  have ids: "fst ` set adminTenants = {''tenant-a'', ''tenant-secondary''}" by (auto simp: adminTenants_def)
  have b: "secondary_configured en \<longrightarrow> find_user (secondary_name en) (bw_users w') = Some b"
    using tables_two(3) [OF assms(1)] by blast
  have "secondary_configured en \<longrightarrow> au_id a \<noteq> au_id b"
    using b users_differ [OF users(1), of a "secondary_name en" b] find_user_Some [OF users(2)] assms(3) by auto
  then show "{t. (au_id a, t) \<in> members w'} = {''tenant-a'', ''tenant-secondary''}"
    using tables_one(3) [OF assms(1)] tables_two(4) [OF assms(1)] unfolding ids by (cases "secondary_configured en") auto
  assume u: "u \<in> set (bw_users w)" "au_username u \<notin> {admin_name en, secondary_name en}"
  have "au_id u \<noteq> au_id a" "secondary_configured en \<longrightarrow> au_id u \<noteq> au_id b"
    using b users_differ [OF users(1) users(3) [OF u]] users(2) u(2) by auto
  then show "(au_id u, t) \<in> members w' \<longleftrightarrow> (au_id u, t) \<in> members w \<and> \<not> like_blank t"
    using tables_one(3) [OF assms(1)] tables_two(4) [OF assms(1)] by (cases "secondary_configured en") auto
qed

lemma boot_tenants:
  "distinct (map fst (if s then adminTenants @ jeetuTenants else adminTenants))"
  "\<forall>t \<in> fst ` set (if s then adminTenants @ jeetuTenants else adminTenants). \<not> like_blank t"
  "{''tenant-a'', ''tenant-secondary''} \<subseteq> fst ` set (if s then adminTenants @ jeetuTenants else adminTenants)"
  by (simp_all add: adminTenants_def jeetuTenants_def like_blank_def)

lemma tables_registry:
  assumes "boot_tables en now w w' a b"
  shows "{''tenant-a'', ''tenant-secondary''} \<subseteq> tr_TenantID ` {r \<in> set (registry w'). tr_Active r}"
    and "\<forall>r \<in> set (registry w'). \<not> like_blank (tr_TenantID r)"
proof -
  let ?ts = "if secondary_configured en then adminTenants @ jeetuTenants else adminTenants"
  have reg: "registry w' = fold upsert_tenant (tenant_records now ?ts) (filter (\<lambda>r. \<not> like_blank (tr_TenantID r)) (registry w))"
    by (rule tables_always(2) [OF assms])
  note after = registry_after [OF boot_tenants(1,2), of "secondary_configured en" now "registry w", folded reg]
  show "{''tenant-a'', ''tenant-secondary''} \<subseteq> tr_TenantID ` {r \<in> set (registry w'). tr_Active r}"
    by (rule subset_trans [OF boot_tenants(3) conjunct1 [OF after]])
  show "\<forall>r \<in> set (registry w'). \<not> like_blank (tr_TenantID r)" by (rule conjunct2 [OF after])
qed

lemma tables_admin:
  assumes "boot_tables en now w w' a b" and "admin_key en \<noteq> []"
  shows "au_active a \<and> au_password_hash a = HashSecret (admin_pass en) \<and> au_api_key_hash a = Some (HashSecret (admin_key en))"
  by (rule admin_after [OF assms(2) tables_always(1) [OF assms(1)]])

lemma rows_again:
  "upsert_row (admin_row en j) (upsert_row (admin_row en i) us) = upsert_row (admin_row en i) us"
  "upsert_row (secondary_row en j) (upsert_row (secondary_row en i) us) = upsert_row (secondary_row en i) us"
  by (simp_all add: admin_row_def secondary_row_def Let_def upsert_again)

lemma rows_commute:
  assumes "secondary_name en \<noteq> admin_name en"
  shows "upsert_row (admin_row en k) (upsert_row (secondary_row en j) (upsert_row (admin_row en i) us)) =
    upsert_row (secondary_row en j) (upsert_row (admin_row en i) us)"
proof -
  have "admin_name en \<in> au_username ` set (upsert_row (admin_row en i) us)" by (simp add: upsert_names)
  then show ?thesis using assms upsert_commute [of "admin_row en k" "secondary_row en j" "upsert_row (admin_row en i) us"]
    by (simp add: rows_again eq_commute)
qed

text \<open>A second bootstrap finds the tables of the first.\<close>

lemma tables_again:
  assumes "boot_tables en now w w1 a1 b1" and "boot_tables en later w1 w2 a2 b2" and "secondary_name en \<noteq> admin_name en"
  shows "bw_users w2 = bw_users w1 \<and> members w2 = members w1 \<and> tr_TenantID ` set (registry w2) = tr_TenantID ` set (registry w1)"
proof -
  let ?ts = "if secondary_configured en then adminTenants @ jeetuTenants else adminTenants"
  have blank: "\<forall>t \<in> fst ` set (adminTenants @ jeetuTenants). \<not> like_blank t" using boot_tenants(2) [of True] by simp
  have reg: "registry w1 = fold upsert_tenant (tenant_records now ?ts) (filter (\<lambda>r. \<not> like_blank (tr_TenantID r)) (registry w))"
    "registry w2 = fold upsert_tenant (tenant_records later ?ts) (filter (\<lambda>r. \<not> like_blank (tr_TenantID r)) (registry w1))"
    using tables_always(2) [OF assms(1)] tables_always(2) [OF assms(2)] by simp_all
  have ids: "tr_TenantID ` set (registry w2) = tr_TenantID ` set (registry w1)"
    unfolding reg(2) registry_ids unfolding reg(1) registry_ids using boot_tenants(2) [of "secondary_configured en"] by blast
  show ?thesis
  proof (cases "secondary_configured en")
    case False
    note t1 = tables_one [OF assms(1) False] and t2 = tables_one [OF assms(2) False]
    have us: "bw_users w2 = bw_users w1" unfolding t2(1) t1(1) by (rule rows_again)
    have "find_user (admin_name en) (bw_users w1) = Some a1" "find_user (admin_name en) (bw_users w2) = Some a2"
      unfolding t1(1) t2(1) by (rule tables_always(1) [OF assms(1)], rule tables_always(1) [OF assms(2), unfolded t1(1)])
    with us have "a2 = a1" by simp
    then have "members w2 = members w1" unfolding t2(3) t1(3) using blank by auto
    with us ids show ?thesis by simp
  next
    case True
    note t1 = tables_two [OF assms(1) True] and t2 = tables_two [OF assms(2) True]
    have us: "bw_users w2 = bw_users w1"
      unfolding t2(1) unfolding t1(1) rows_commute [OF assms(3)] by (rule rows_again)
    have "b2 = b1" using t1(3) t2(3) unfolding us by simp
    moreover have "a2 = a1"
      using tables_always(1) [OF assms(1)] tables_always(1) [OF assms(2), unfolded t1(1) rows_commute [OF assms(3)]] assms(3)
      by (simp add: find_upsert_other)
    ultimately have "members w2 = members w1" unfolding t2(4) t1(4) using blank by auto
    with us ids show ?thesis by simp
  qed
qed

text \<open>A bootstrap that reports success has written the users, whatever statement may have failed before: only the two
  insertions write the table, and each of them must have succeeded.\<close>

lemma boot_fails_users: "boot_fails db w = (e, w') \<Longrightarrow> bw_users w' = bw_users w"
  by (auto simp: boot_fails_def split: prod.splits)

lemma exec_boot_users:
  assumes "exec_boot db stmt w = (e, w')" and "\<And>w. bw_users (stmt w) = bw_users w"
  shows "bw_users w' = bw_users w"
proof -
  obtain e1 w1 where "boot_fails db w = (e1, w1)" by (cases "boot_fails db w")
  then show ?thesis using boot_fails_users [of db w e1 w1] assms by (cases e1) (auto simp: exec_boot_def)
qed

lemma assign_tenants_users:
  "assign_tenants db ctx now requestID uid ts w = (e, w') \<Longrightarrow> bw_users w' = bw_users w"
proof (induction ts arbitrary: w)
  case Nil
  then show ?case by simp
next
  case (Cons x ts)
  obtain t n where x: "x = (t, n)" by (cases x)
  let ?stmt = "\<lambda>w. w\<lparr>bw_tenants := insert_member (uid, t) (bw_tenants w)\<rparr>"
  obtain e1 w1 where e1: "exec_boot db ?stmt w = (e1, w1)" by (cases "exec_boot db ?stmt w")
  have "bw_users w1 = bw_users w" using e1 by (rule exec_boot_users) simp
  then show ?case using Cons.prems Cons.IH e1 x
    by (auto split: option.splits sum.splits prod.splits)
qed

lemma bootstrap_user_users:
  assumes "bootstrap_user db ctx now requestID n p k ts w = (None, w')"
  shows "\<exists>i. bw_users w' = upsert_row \<lparr>au_id = i, au_username = n, au_password_hash = HashSecret p,
       au_api_key_hash = (if TrimSpace k \<noteq> [] then Some (HashSecret k) else None), au_active = True\<rparr> (bw_users w)"
proof -
  obtain e1 w1 where e1: "boot_fails db w = (e1, w1)" by (cases "boot_fails db w")
  obtain uid w2 where u: "ensureBootstrapUser db n p k w = (Inr uid, w2)"
    using assms by (auto simp: bootstrap_user_def split: prod.splits sum.splits)
  obtain w3 where d: "exec_boot db (delete_members (\<lambda>(u, t). u = uid)) w2 = (None, w3)"
    and a: "assign_tenants db ctx now requestID uid ts w3 = (None, w')"
    using assms u by (auto simp: bootstrap_user_def split: prod.splits option.splits)
  have "bw_users w' = bw_users w2"
    using assign_tenants_users [OF a] exec_boot_users [OF d] by (simp add: delete_members_def)
  then show ?thesis
    using u e1 boot_fails_users [OF e1]
    by (cases e1) (auto simp: ensureBootstrapUser_def upsert_user_def Let_def)
qed

lemma bootstrap_success_users:
  assumes "EnsureBootstrapData en db ctx now w = (None, w')"
  shows "\<exists>i j. bw_users w' = (if secondary_configured en
    then upsert_row (secondary_row en j) (upsert_row (admin_row en i) (bw_users w)) else upsert_row (admin_row en i) (bw_users w))"
proof -
  let ?w1 = "snd (exec_boot db (delete_members (\<lambda>(u, t). like_blank t)) w)"
  let ?w2 = "snd (exec_boot db (delete_tenants like_blank) ?w1)"
  have w2: "bw_users ?w2 = bw_users w"
    using exec_boot_users [where db = db and stmt = "delete_tenants like_blank" and w = ?w1, OF surjective_pairing]
      exec_boot_users [where db = db and stmt = "delete_members (\<lambda>(u, t). like_blank t)" and w = w, OF surjective_pairing]
    by (simp add: delete_tenants_def delete_members_def)
  obtain w3 where w3: "bootstrap_user db ctx now ''bootstrap-admin'' (admin_name en) (admin_pass en) (admin_key en) adminTenants ?w2 = (None, w3)"
    and rest: "(if secondary_configured en
      then bootstrap_user db ctx now ''bootstrap-jeetu'' (secondary_name en) (EnvOrSecret en ''FINE_RAG_BOOTSTRAP_SECONDARY_PASSWORD'' [])
        (EnvOrSecret en ''FINE_RAG_BOOTSTRAP_SECONDARY_API_KEY'' []) jeetuTenants w3 else (None, w3)) = (None, w')"
    using assms by (auto simp: EnsureBootstrapData_def secondary_configured_def Let_def split: if_splits prod.splits option.splits)
  obtain i where i: "bw_users w3 = upsert_row (admin_row en i) (bw_users w)"
    using bootstrap_user_users [OF w3] w2 by (auto simp: admin_row_def Let_def)
  show ?thesis
  proof (cases "secondary_configured en")
    case True
    then obtain j where "bw_users w' = upsert_row (secondary_row en j) (bw_users w3)"
      using bootstrap_user_users [of db ctx now "''bootstrap-jeetu''" "secondary_name en"] rest
      by (fastforce simp: secondary_row_def Let_def)
    then show ?thesis using True i by auto
  next
    case False
    then show ?thesis using rest i by auto
  qed
qed

text \<open>Hence the administrator is stored and active, with the configured secrets unless the secondary user has the same
  name and overwrites them.\<close>

lemma bootstrap_success_admin:
  assumes "EnsureBootstrapData en db ctx now w = (None, w')" and "admin_key en \<noteq> []"
  shows "\<exists>a. find_user (admin_name en) (bw_users w') = Some a \<and> au_active a \<and>
    (secondary_name en \<noteq> admin_name en \<longrightarrow> au_password_hash a = HashSecret (admin_pass en) \<and>
       au_api_key_hash a = Some (HashSecret (admin_key en)))"
proof -
  obtain i j where us: "bw_users w' = (if secondary_configured en
      then upsert_row (secondary_row en j) (upsert_row (admin_row en i) (bw_users w)) else upsert_row (admin_row en i) (bw_users w))"
    using bootstrap_success_users [OF assms(1)] by blast
  let ?us = "upsert_row (admin_row en i) (bw_users w)"
  obtain a where a: "find_user (admin_name en) ?us = Some a"
    using find_upsert [of "admin_row en i" "bw_users w"] by simp
  note a' = admin_after [OF assms(2) a]
  show ?thesis
  proof (cases "secondary_name en = admin_name en \<and> secondary_configured en")
    case True
    then have "find_user (admin_name en) (bw_users w') = Some (set_credentials (secondary_row en j) a)"
      using us a find_upsert [of "secondary_row en j" ?us] by simp
    then show ?thesis using True by (simp add: set_credentials_def)
  next
    case False
    then have "find_user (admin_name en) (bw_users w') = Some a"
      using us a find_upsert_other [of "admin_name en" "secondary_row en j" ?us] by auto
    then show ?thesis using a' by blast
  qed
qed

lemma bootstrap_admin_tenants:
  assumes "working db" and "users_ok w" and "\<forall>t. now t \<noteq> 0"
    and "admin_name en \<noteq> []" and "admin_pass en \<noteq> []" and "admin_key en \<noteq> []" and "secondary_name en \<noteq> admin_name en"
    and "EnsureBootstrapData en db ctx now w = (None, w')" and "find_user (admin_name en) (bw_users w') = Some a"
  shows "{t. (au_id a, t) \<in> members w'} = {''tenant-a'', ''tenant-secondary''}"
proof -
  obtain v a' b where run: "EnsureBootstrapData en db ctx now w = (None, v)" and tables: "boot_tables en now w v a' b"
    by (rule bootstrap_run [OF assms(1,3-6)])
  then have "v = w'" using assms(8) by simp
  then show ?thesis
    using tables_users(2) [OF tables assms(2,7)] tables_members(1) [OF tables assms(2,7)] assms(9) by simp
qed

section \<open>Properties\<close>

text \<open>What a start leaves in the tables. With the secrets of the administrator configured and a working database the
  bootstrap succeeds; the administrator is active, has the configured secrets and belongs to exactly the two default
  tenants, which are registered. Every other tenant the administrator had created or joined is taken away. Users that
  are not configured are untouched, but whoever belonged to a tenant whose identifier contains a blank belongs to it no
  more, and the tenant is no longer registered: the API accepts such identifiers, and the next start removes them.\<close>

theorem bootstrap_establishes_access:
  assumes "working db" and "users_ok w" and "\<forall>t. now t \<noteq> 0"
    and "admin_name en \<noteq> []" and "admin_pass en \<noteq> []" and "admin_key en \<noteq> []" and "secondary_name en \<noteq> admin_name en"
  shows "\<exists>w' a. EnsureBootstrapData en db ctx now w = (None, w') \<and> users_ok w' \<and>
    find_user (admin_name en) (bw_users w') = Some a \<and> au_active a \<and>
    au_password_hash a = HashSecret (admin_pass en) \<and> au_api_key_hash a = Some (HashSecret (admin_key en)) \<and>
    {t. (au_id a, t) \<in> members w'} = {''tenant-a'', ''tenant-secondary''} \<and>
    {''tenant-a'', ''tenant-secondary''} \<subseteq> tr_TenantID ` {r \<in> set (registry w'). tr_Active r} \<and>
    (\<forall>r \<in> set (registry w'). \<not> like_blank (tr_TenantID r)) \<and>
    (\<forall>u \<in> set (bw_users w). au_username u \<notin> {admin_name en, secondary_name en} \<longrightarrow>
       u \<in> set (bw_users w') \<and> (\<forall>t. (au_id u, t) \<in> members w' \<longleftrightarrow> (au_id u, t) \<in> members w \<and> \<not> like_blank t))"
proof -
  obtain w' a b where run: "EnsureBootstrapData en db ctx now w = (None, w')" and tables: "boot_tables en now w w' a b"
    by (rule bootstrap_run [OF assms(1,3-6)])
  show ?thesis
    using run tables_users [OF tables assms(2,7)] tables_admin [OF tables assms(6)] tables_members [OF tables assms(2,7)]
      tables_registry [OF tables]
    by (intro exI [of _ w'] exI [of _ a] conjI) simp_all
qed

text \<open>C39: a restart changes nothing. Bootstrapping again from the tables a bootstrap has left, at any later time, gives the
  same users with the same identifiers, the same assignments and the same registered tenants.\<close>

theorem bootstrap_idempotent:
  assumes "working db" and "\<forall>t. now t \<noteq> 0" and "\<forall>t. later t \<noteq> 0"
    and "admin_name en \<noteq> []" and "admin_pass en \<noteq> []" and "admin_key en \<noteq> []" and "secondary_name en \<noteq> admin_name en"
  shows "let w1 = snd (EnsureBootstrapData en db ctx now w); w2 = snd (EnsureBootstrapData en db ctx later w1) in
    bw_users w2 = bw_users w1 \<and> members w2 = members w1 \<and> tr_TenantID ` set (registry w2) = tr_TenantID ` set (registry w1)"
proof -
  obtain w1 a1 b1 where r1: "EnsureBootstrapData en db ctx now w = (None, w1)" "boot_tables en now w w1 a1 b1"
    by (rule bootstrap_run [OF assms(1,2,4-6)])
  obtain w2 a2 b2 where r2: "EnsureBootstrapData en db ctx later w1 = (None, w2)" "boot_tables en later w1 w2 a2 b2"
    by (rule bootstrap_run [OF assms(1,3-6)])
  from tables_again [OF r1(2) r2(2) assms(7)] r1(1) r2(1) show ?thesis by simp
qed

lemma update_is_upsert:
  "distinct (map au_username us) \<Longrightarrow> find_user (au_username r) us \<noteq> None \<Longrightarrow>
   map (\<lambda>u. if au_username u = au_username r then set_credentials r u else u) us = upsert_row r us"
proof (induction us)
  case (Cons u us)
  have "map (\<lambda>u. if au_username u = au_username r then set_credentials r u else u) us = us"
    if "au_username u = au_username r" using that Cons.prems(1) by (intro map_idI) (auto simp: image_iff)
  then show ?case using Cons by (auto simp: find_user_def)
qed (simp add: find_user_def)

lemma insert_is_upsert: "find_user (au_username r) us = None \<Longrightarrow> upsert_row r us = us @ [r]"
  by (induction us) (auto simp: find_user_def split: if_splits)

lemma find_user_count: "find_user n us = None \<longleftrightarrow> length (filter (\<lambda>u. au_username u = n) us) = 0"
  by (auto simp: find_user_def find_None_iff filter_empty_conv)

text \<open>The reset tool and the bootstrap write the same row. For an API key that is not blank the tool leaves in the table of
  users exactly what \<^verbatim>\<open>ensureBootstrapUser\<close> leaves there for the same name, password and key, whether the user exists
  or not, and it says which of the two it was.\<close>

theorem reset_equals_bootstrap_user:
  assumes "working db" and "users_ok w" and "open_db (Getenv en ''DATABASE_URL'') = None"
    and "Getenv en ''DATABASE_URL'' \<noteq> []" and "Getenv en ''BOOTSTRAP_USER'' = n" and "Getenv en ''BOOTSTRAP_PASS'' = p"
    and "Getenv en ''BOOTSTRAP_API'' = k" and "n \<noteq> []" and "p \<noteq> []" and "TrimSpace k \<noteq> []"
  shows "\<exists>w1 uid w2. ensureBootstrapUser db n p k w = (Inr uid, w2) \<and>
    bootstrap_reset open_db en db w = (if find_user n (bw_users w) = None then Inserted else Updated 1, w1) \<and>
    bw_users w1 = bw_users w2 \<and> users_ok w1 \<and> members w1 = members w"
proof -
  obtain uid w2 where w2: "ensureBootstrapUser db n p k w = (Inr uid, w2)"
    "bw_users w2 = upsert_row \<lparr>au_id = bw_nextID w, au_username = n, au_password_hash = HashSecret p,
       au_api_key_hash = (if TrimSpace k \<noteq> [] then Some (HashSecret k) else None), au_active = True\<rparr> (bw_users w)"
    by (rule ensure_user_run [OF assms(1)])
  let ?r = "\<lparr>au_id = bw_nextID w, au_username = n, au_password_hash = hs p, au_api_key_hash = Some (hs k), au_active = True\<rparr>"
  have row: "bw_users w2 = upsert_row ?r (bw_users w)" using w2(2) assms(10) by (simp add: hs_def HashSecret_def)
  have ok: "users_ok (u\<lparr>bw_users := upsert_row ?r (bw_users w), bw_nextID := bw_nextID w + 1\<rparr>)" for u :: "'a boot_world"
    using users_ok_upsert [of "bw_users w" "bw_nextID w" ?r] assms(2) by (simp add: users_ok_def)
  let ?up = "\<lambda>w :: 'a boot_world. w\<lparr>bw_users := map (\<lambda>u. if au_username u = n then set_credentials ?r u else u) (bw_users w)\<rparr>"
  let ?ins = "\<lambda>w :: 'a boot_world. w\<lparr>bw_users := bw_users w @ [?r], bw_nextID := bw_nextID w + 1\<rparr>"
  obtain v1 where v1: "exec_boot db ?up w = (None, ?up v1)" "same_tables w v1"
    by (rule exec_boot_working [OF assms(1), where w = w and stmt = ?up])
  obtain v2 where v2: "exec_boot db ?ins (?up v1) = (None, ?ins v2)" "same_tables (?up v1) v2"
    by (rule exec_boot_working [OF assms(1), where w = "?up v1" and stmt = ?ins])
  have k: "k \<noteq> []" using assms(10) by auto
  have run: "bootstrap_reset open_db en db w =
      (if length (filter (\<lambda>u. au_username u = n) (bw_users w)) = 0 then (Inserted, ?ins v2)
       else (Updated (int (length (filter (\<lambda>u. au_username u = n) (bw_users w)))), ?up v1))"
    using assms(3-9) k v1(1) v2(1) by (simp add: bootstrap_reset_def Let_def)
  show ?thesis
  proof (cases "find_user n (bw_users w)")
    case None
    have "bw_users (?up v1) = bw_users w"
      using None v1(2) by (auto simp: same_tables_def find_user_def find_None_iff intro!: map_idI)
    then have users: "bw_users (?ins v2) = upsert_row ?r (bw_users w)"
      using None v2(2) insert_is_upsert [of ?r "bw_users w"] by (simp add: same_tables_def)
    moreover have "bw_nextID v2 = bw_nextID w" "members v2 = members w" using v1(2) v2(2) by (simp_all add: same_tables_def)
    ultimately have "bootstrap_reset open_db en db w = (Inserted, ?ins v2)" "users_ok (?ins v2)" "members (?ins v2) = members w"
      using run None find_user_count [of n "bw_users w"] ok [of v2] by (simp_all add: users_ok_def)
    then show ?thesis using None w2(1) users row by auto
  next
    case (Some u)
    then have users: "bw_users (?up v1) = upsert_row ?r (bw_users w)"
      using v1(2) update_is_upsert [of "bw_users w" ?r] assms(2) by (simp add: same_tables_def users_ok_def)
    have "distinct (map au_username (filter (\<lambda>u. au_username u = n) (bw_users w)))"
      using assms(2) by (simp add: users_ok_def distinct_map_filter)
    moreover have "set (map au_username (filter (\<lambda>u. au_username u = n) (bw_users w))) \<subseteq> {n}" by auto
    ultimately have "length (map au_username (filter (\<lambda>u. au_username u = n) (bw_users w))) \<le> 1"
      by (metis card_mono distinct_card finite.emptyI finite.insertI is_singletonI is_singleton_altdef)
    then have one: "length (filter (\<lambda>u. au_username u = n) (bw_users w)) = 1"
      using Some find_user_count [of n "bw_users w"] by (simp add: le_Suc_eq)
    have "au_id ` set (upsert_row ?r (bw_users w)) \<subseteq> au_id ` set (bw_users w)"
      using v1(2) unfolding users [symmetric] by (auto simp: same_tables_def set_credentials_def)
    then have "\<forall>x \<in> set (upsert_row ?r (bw_users w)). au_id x < bw_nextID w"
      using assms(2) by (force simp: users_ok_def)
    then have "users_ok (?up v1)" "members (?up v1) = members w"
      using ok [of v1] users v1(2) by (simp_all add: users_ok_def same_tables_def)
    then show ?thesis using Some run one w2(1) users row by auto
  qed
qed

text \<open>A user without API key cannot log in. \<^verbatim>\<open>ensureBootstrapUser\<close> writes \<^verbatim>\<open>NULL\<close> for a blank key, and the query of the
  login cannot scan it: whatever the password, the answer is that the credentials are invalid. The secondary user, whose
  key is optional, is created this way.\<close>

theorem keyless_user_locked_out:
  assumes "working db" and "ensureBootstrapUser db n p k w = (Inr uid, w')" and "TrimSpace k = []"
    and "find_user n (bw_users w) = None" and "n \<noteq> []" and "TrimSpace (lr_Username req) = n"
  shows "HandleLogin marshal m (fetchUserByUsername (bw_users w')) now (Inr req) = invalid_credentials"
proof -
  let ?r = "\<lparr>au_id = bw_nextID w, au_username = n, au_password_hash = HashSecret p, au_api_key_hash = None, au_active = True\<rparr>"
  obtain uid' w2 where "ensureBootstrapUser db n p k w = (Inr uid', w2)"
    "bw_users w2 = upsert_row \<lparr>au_id = bw_nextID w, au_username = n, au_password_hash = HashSecret p,
       au_api_key_hash = (if TrimSpace k \<noteq> [] then Some (HashSecret k) else None), au_active = True\<rparr> (bw_users w)"
    by (rule ensure_user_run [OF assms(1)])
  then have "bw_users w' = upsert_row ?r (bw_users w)" using assms(2,3) by simp
  then have "find_user n (bw_users w') = Some ?r" using find_upsert [of ?r "bw_users w"] assms(4) by simp
  then show ?thesis using assms(5,6) by (simp add: HandleLogin_def fetchUserByUsername_def Let_def)
qed

section \<open>Witnesses\<close>

definition demo_boot_db :: "unit tenant_db" where
  "demo_boot_db =
     \<lparr>td_jobs = \<lparr>jd_fails = (\<lambda>v. (None, v)), jd_NOW = (\<lambda>v. 1), jd_newest_first = (\<lambda>rows. rows)\<rparr>,
      td_registry = \<lparr>exec_tenant_upsert = (\<lambda>d t w. (None, w\<lparr>tw_registry := upsert_tenant t (tw_registry w)\<rparr>)),
        query_tenant = (\<lambda>d t w. (Inr None, w)), exec_metadata_upsert = (\<lambda>d m w. (None, w)),
        query_metadata = (\<lambda>d t c w. (Inr None, w)), exec_audit_insert = (\<lambda>d e w. (None, w)),
        query_audit = (\<lambda>d t n w. (Inr ([], None), w))\<rparr>,
      td_recent_first = (\<lambda>ts. ts)\<rparr>"

definition demo_boot_env :: environment where
  "demo_boot_env =
     \<lparr>en_lookup = [''FINE_RAG_BOOTSTRAP_ADMIN_USERNAME'' \<mapsto> ''root'', ''FINE_RAG_BOOTSTRAP_ADMIN_PASSWORD'' \<mapsto> ''pw'',
        ''FINE_RAG_BOOTSTRAP_ADMIN_API_KEY'' \<mapsto> ''key'', ''DATABASE_URL'' \<mapsto> ''db'', ''BOOTSTRAP_USER'' \<mapsto> ''root'',
        ''BOOTSTRAP_PASS'' \<mapsto> ''pw'', ''BOOTSTRAP_API'' \<mapsto> ''key''],
      en_file = Map.empty\<rparr>"

definition demo_boot_world :: "unit boot_world" where
  "demo_boot_world =
     \<lparr>bw_users = [\<lparr>au_id = 1, au_username = ''root'', au_password_hash = ''old'', au_api_key_hash = None, au_active = False\<rparr>],
      bw_nextID = 2,
      bw_tenants = \<lparr>tw_registry = [], tw_members = [(1, ''mine'')],
        tw_app = \<lparr>app_jobs = [], app_tasks = [], app_outer = ()\<rparr>\<rparr>\<rparr>"

lemma demo_boot:
  "working demo_boot_db" "users_ok demo_boot_world" "admin_name demo_boot_env \<noteq> []" "admin_pass demo_boot_env \<noteq> []"
  "admin_key demo_boot_env \<noteq> []" "secondary_name demo_boot_env \<noteq> admin_name demo_boot_env"
proof -
  show "working demo_boot_db" by (simp add: working_def demo_boot_db_def)
  show "users_ok demo_boot_world" by (simp add: users_ok_def demo_boot_world_def)
qed code_simp+

theorem bootstrap_establishes_access_witness:
  "\<exists>w' a. EnsureBootstrapData demo_boot_env demo_boot_db Background (\<lambda>t. 1) demo_boot_world = (None, w') \<and>
     find_user (admin_name demo_boot_env) (bw_users w') = Some a \<and>
     {t. (au_id a, t) \<in> members w'} = {''tenant-a'', ''tenant-secondary''}"
proof -
  have clock: "\<forall>t :: string. (\<lambda>t. 1 :: time) t \<noteq> 0" by simp
  from bootstrap_establishes_access [OF demo_boot(1,2) clock demo_boot(3-6), of Background]
  show ?thesis by (elim exE conjE) (intro exI conjI)
qed

theorem bootstrap_idempotent_witness:
  "let w1 = snd (EnsureBootstrapData demo_boot_env demo_boot_db Background (\<lambda>t. 1) demo_boot_world)
   in bw_users (snd (EnsureBootstrapData demo_boot_env demo_boot_db Background (\<lambda>t. 2) w1)) = bw_users w1"
proof -
  have clock: "\<forall>t :: string. (\<lambda>t. 1 :: time) t \<noteq> 0" "\<forall>t :: string. (\<lambda>t. 2 :: time) t \<noteq> 0" by simp_all
  from bootstrap_idempotent [OF demo_boot(1) clock demo_boot(3-6), of Background demo_boot_world] show ?thesis
    by (simp add: Let_def)
qed

theorem reset_equals_bootstrap_user_witness:
  "\<exists>w1. bootstrap_reset (\<lambda>s. None) demo_boot_env demo_boot_db demo_boot_world = (Updated 1, w1) \<and>
     bw_users w1 = bw_users (snd (ensureBootstrapUser demo_boot_db ''root'' ''pw'' ''key'' demo_boot_world))"
proof -
  have e: "Getenv demo_boot_env ''DATABASE_URL'' \<noteq> []" "Getenv demo_boot_env ''BOOTSTRAP_USER'' = ''root''"
    "Getenv demo_boot_env ''BOOTSTRAP_PASS'' = ''pw''" "Getenv demo_boot_env ''BOOTSTRAP_API'' = ''key''"
    "''root'' \<noteq> []" "''pw'' \<noteq> []" "TrimSpace ''key'' \<noteq> []" "find_user ''root'' (bw_users demo_boot_world) \<noteq> None"
    by code_simp+
  from reset_equals_bootstrap_user [where open_db = "\<lambda>s. None", OF demo_boot(1,2) refl e(1-7)] e(8)
  show ?thesis by (elim exE conjE) simp
qed

theorem keyless_user_locked_out_witness:
  "\<exists>uid w'. ensureBootstrapUser demo_boot_db ''jeetu'' ''pw'' [] demo_boot_world = (Inr uid, w') \<and>
     HandleLogin demo_marshal demo_manager (fetchUserByUsername (bw_users w')) 0
       (Inr \<lparr>lr_Username = ''jeetu'', lr_Password = ''pw'', lr_APIKey = []\<rparr>) = invalid_credentials"
proof -
  obtain uid w' where w': "ensureBootstrapUser demo_boot_db ''jeetu'' ''pw'' [] demo_boot_world = (Inr uid, w')"
    by (rule ensure_user_run [OF demo_boot(1)])
  have new: "find_user ''jeetu'' (bw_users demo_boot_world) = None" "TrimSpace ''jeetu'' = ''jeetu''" by code_simp+
  from keyless_user_locked_out [OF demo_boot(1) w' TrimSpace_Nil new(1),
      of "\<lparr>lr_Username = ''jeetu'', lr_Password = ''pw'', lr_APIKey = []\<rparr>" demo_marshal demo_manager 0] new(2)
  show ?thesis using w' by (intro exI [of _ uid] exI [of _ w']) simp
qed

end
