(* ===== verification/Migrations.thy ===== *)
theory Migrations
  imports Go_Unicode Contracts "HOL-Library.Char_ord" "HOL-Library.List_Lexorder"
begin

text \<open>
  Database migrations: \<^verbatim>\<open>MigrationRunner.Apply\<close> of \<^verbatim>\<open>internal/repository/migration_bootstrap.go\<close>, which records the
  applied versions in the table \<^verbatim>\<open>schema_migrations\<close>, and \<^verbatim>\<open>applyMigrations\<close> of
  \<^verbatim>\<open>cmd/finerag-backend/main.go\<close>, which runs every file at every start. The file system and the database are
  arguments: the statements are operations on the database state \<open>'w\<close>. \<^verbatim>\<open>sort.Strings\<close> orders byte strings
  lexicographically, and equal strings cannot be told apart, so its result is \<open>sort\<close>.
\<close>

section \<open>Paths\<close>

text \<open>\<^verbatim>\<open>filepath.Ext\<close>: the suffix from the last dot of the last element of the path.\<close>

definition Ext :: "string \<Rightarrow> string" where
  "Ext path =
     (let suffix = rev (takeWhile (\<lambda>c. c \<noteq> CHR ''.'' \<and> c \<noteq> CHR ''/'') (rev path));
          k = length path - length suffix
      in if 0 < k \<and> path ! (k - 1) = CHR ''.'' then CHR ''.'' # suffix else [])"

text \<open>\<^verbatim>\<open>filepath.Clean\<close> on the elements of a path, innermost first, and \<^verbatim>\<open>filepath.Join\<close> of two non-empty elements.\<close>

definition clean_step :: "bool \<Rightarrow> string list \<Rightarrow> string \<Rightarrow> string list" where
  "clean_step rooted stack e =
     (if e = [] \<or> e = ''.'' then stack
      else if e = ''..'' then
        (case stack of
           [] \<Rightarrow> if rooted then [] else [''..'']
         | x # xs \<Rightarrow> if x = ''..'' then ''..'' # stack else xs)
      else e # stack)"

definition Clean :: "string \<Rightarrow> string" where
  "Clean path =
     (let rooted = (path \<noteq> [] \<and> hd path = CHR ''/'');
          out = Join (rev (foldl (clean_step rooted) [] (Split path (CHR ''/'')))) ''/''
      in if rooted then CHR ''/'' # out else if out = [] then ''.'' else out)"

definition path_Join :: "string \<Rightarrow> string \<Rightarrow> string" where
  "path_Join dir name = Clean (dir @ ''/'' @ name)"

section \<open>The migration runner\<close>

text \<open>The file system: a directory gives its entries, each a name and whether it is a directory.\<close>

record file_system =
  fs_ReadDir :: "string \<Rightarrow> (string \<times> bool) list result"
  fs_ReadFile :: "string \<Rightarrow> string result"

text \<open>The statements of the runner: \<^verbatim>\<open>CREATE TABLE IF NOT EXISTS\<close>, the lookup of a version, the text of a migration,
  and the insertion of its version.\<close>

record 'w migration_db =
  mg_create :: "'w \<Rightarrow> error option \<times> 'w"
  mg_exists :: "string \<Rightarrow> 'w \<Rightarrow> bool result \<times> 'w"
  mg_exec :: "string \<Rightarrow> 'w \<Rightarrow> error option \<times> 'w"
  mg_record :: "string \<Rightarrow> 'w \<Rightarrow> error option \<times> 'w"

record MigrationRunner =
  mr_Filesystem :: "file_system option"
  mr_Dir :: string

definition migration_files :: "unicode_tables \<Rightarrow> (string \<times> bool) list \<Rightarrow> string list" where
  "migration_files U entries =
     sort (map fst (filter (\<lambda>(name, isDir). \<not> isDir \<and> ToLower U (Ext name) = ''.sql'') entries))"

definition version_of :: "string \<Rightarrow> string" where
  "version_of fileName = TrimSuffix fileName ''.sql''"

definition annotated :: "string \<Rightarrow> error \<Rightarrow> error" where
  "annotated what e = WrapError (what @ '': '' @ error_text e) e"

fun apply_files ::
  "'w migration_db \<Rightarrow> file_system \<Rightarrow> string \<Rightarrow> string list \<Rightarrow> string list \<Rightarrow> 'w \<Rightarrow> string list result \<times> 'w" where
  "apply_files db fsys dir [] applied w = (Inr applied, w)"
| "apply_files db fsys dir (f # fs) applied w =
     (case mg_exists db (version_of f) w of
        (Inl e, w1) \<Rightarrow> (Inl (annotated (''lookup migration version '' @ version_of f) e), w1)
      | (Inr True, w1) \<Rightarrow> apply_files db fsys dir fs applied w1
      | (Inr False, w1) \<Rightarrow>
          (case fs_ReadFile fsys (path_Join dir f) of
             Inl e \<Rightarrow> (Inl (annotated (''read migration file '' @ f) e), w1)
           | Inr raw \<Rightarrow>
               if TrimSpace raw = [] then apply_files db fsys dir fs applied w1
               else (case mg_exec db (TrimSpace raw) w1 of
                   (Some e, w2) \<Rightarrow> (Inl (annotated (''apply migration '' @ f) e), w2)
                 | (None, w2) \<Rightarrow>
                     (case mg_record db (version_of f) w2 of
                        (Some e, w3) \<Rightarrow> (Inl (annotated (''record migration '' @ f) e), w3)
                      | (None, w3) \<Rightarrow> apply_files db fsys dir fs (applied @ [f]) w3))))"

definition Apply ::
  "unicode_tables \<Rightarrow> MigrationRunner \<Rightarrow> 'w migration_db option \<Rightarrow> 'w \<Rightarrow> string list result \<times> 'w" where
  "Apply U r db_option w =
     (case db_option of
        None \<Rightarrow> (Inl (ErrorString ''postgres db is required''), w)
      | Some db \<Rightarrow>
          (case mr_Filesystem r of
             None \<Rightarrow> (Inl (ErrorString ''migration filesystem is required''), w)
           | Some fsys \<Rightarrow>
               let dir = (if TrimSpace (mr_Dir r) = [] then ''.'' else TrimSpace (mr_Dir r))
               in case mg_create db w of
                    (Some e, w1) \<Rightarrow> (Inl (annotated ''ensure schema_migrations table'' e), w1)
                  | (None, w1) \<Rightarrow>
                      (case fs_ReadDir fsys dir of
                         Inl e \<Rightarrow> (Inl (annotated ''read migrations dir'' e), w1)
                       | Inr entries \<Rightarrow> apply_files db fsys dir (migration_files U entries) [] w1)))"

section \<open>The start of the backend\<close>

text \<open>\<^verbatim>\<open>filepath.Glob\<close> and \<^verbatim>\<open>os.ReadFile\<close> are arguments; a pattern that cannot be matched is skipped.\<close>

fun add_matches :: "string list \<Rightarrow> string list \<Rightarrow> string list" where
  "add_matches files [] = files"
| "add_matches files (m # ms) = add_matches (if m \<in> set files then files else files @ [m]) ms"

definition glob_files :: "(string \<Rightarrow> string list result) \<Rightarrow> string list \<Rightarrow> string list" where
  "glob_files glob patterns =
     foldl (\<lambda>files p. case glob p of Inl _ \<Rightarrow> files | Inr matches \<Rightarrow> add_matches files matches) [] patterns"

definition tolerated :: "unicode_tables \<Rightarrow> error \<Rightarrow> bool" where
  "tolerated U e \<longleftrightarrow>
     Contains (ToLower U (error_text e)) ''already exists'' \<or> Contains (ToLower U (error_text e)) ''duplicate''"

fun run_files ::
  "unicode_tables \<Rightarrow> (string \<Rightarrow> string result) \<Rightarrow> (string \<Rightarrow> 'w \<Rightarrow> error option \<times> 'w) \<Rightarrow> string list \<Rightarrow> 'w \<Rightarrow>
   error option \<times> 'w" where
  "run_files U read exec [] w = (None, w)"
| "run_files U read exec (path # paths) w =
     (case read path of
        Inl e \<Rightarrow> (Some e, w)
      | Inr sql \<Rightarrow>
          (case exec sql w of
             (None, w1) \<Rightarrow> run_files U read exec paths w1
           | (Some e, w1) \<Rightarrow>
               if tolerated U e then run_files U read exec paths w1
               else (Some (annotated (''apply migration '' @ path) e), w1)))"

definition migration_patterns :: "string list" where
  "migration_patterns = [''migrations/*.sql'', ''/app/migrations/*.sql'']"

definition applyMigrations ::
  "unicode_tables \<Rightarrow> (string \<Rightarrow> string list result) \<Rightarrow> (string \<Rightarrow> string result) \<Rightarrow>
   (string \<Rightarrow> 'w \<Rightarrow> error option \<times> 'w) \<Rightarrow> 'w \<Rightarrow> error option \<times> 'w" where
  "applyMigrations U glob read exec w =
     (let files = glob_files glob migration_patterns
      in if files = []
         then (Some (ErrorString
                ''migration files not found in expected patterns: [migrations/*.sql /app/migrations/*.sql]''), w)
         else run_files U read exec (sort files) w)"

section \<open>The table of versions\<close>

text \<open>The table \<^verbatim>\<open>schema_migrations\<close>: its rows, the texts executed so far, and the rest of the database. A statement of the
  runner may fail in the driver; the text of a migration acts on the rest of the database; a second insertion of a
  version violates the primary key.\<close>

record 'v migrated =
  ms_versions :: "string list"
  ms_executed :: "string list"
  ms_outer :: 'v

definition duplicate_key :: error where
  "duplicate_key = ErrorString ''duplicate key value violates unique constraint schema_migrations_pkey''"

definition schema_db ::
  "('v \<Rightarrow> error option \<times> 'v) \<Rightarrow> (string \<Rightarrow> 'v \<Rightarrow> error option \<times> 'v) \<Rightarrow> 'v migrated migration_db" where
  "schema_db fails run =
     \<lparr>mg_create = (\<lambda>s. case fails (ms_outer s) of (e, v) \<Rightarrow> (e, s\<lparr>ms_outer := v\<rparr>)),
      mg_exists = (\<lambda>version s. case fails (ms_outer s) of
          (Some e, v) \<Rightarrow> (Inl e, s\<lparr>ms_outer := v\<rparr>)
        | (None, v) \<Rightarrow> (Inr (version \<in> set (ms_versions s)), s\<lparr>ms_outer := v\<rparr>)),
      mg_exec = (\<lambda>sql s. case run sql (ms_outer s) of
          (Some e, v) \<Rightarrow> (Some e, s\<lparr>ms_outer := v\<rparr>)
        | (None, v) \<Rightarrow> (None, s\<lparr>ms_executed := ms_executed s @ [sql], ms_outer := v\<rparr>)),
      mg_record = (\<lambda>version s. case fails (ms_outer s) of
          (Some e, v) \<Rightarrow> (Some e, s\<lparr>ms_outer := v\<rparr>)
        | (None, v) \<Rightarrow>
            if version \<in> set (ms_versions s)
            then (Some duplicate_key, s\<lparr>ms_outer := v\<rparr>)
            else (None, s\<lparr>ms_versions := ms_versions s @ [version], ms_outer := v\<rparr>))\<rparr>"

text \<open>What the runner relies on: a lookup tells what is recorded, a recorded version stays, and nothing else writes the
  table.\<close>

locale version_table =
  fixes db :: "'w migration_db" and versions :: "'w \<Rightarrow> string set" and executed :: "'w \<Rightarrow> string list"
  assumes create: "mg_create db w = (e, w') \<Longrightarrow> versions w' = versions w \<and> executed w' = executed w"
    and exists: "mg_exists db v w = (res, w') \<Longrightarrow>
      versions w' = versions w \<and> executed w' = executed w \<and> (\<forall>b. res = Inr b \<longrightarrow> b = (v \<in> versions w))"
    and exec: "mg_exec db s w = (e, w') \<Longrightarrow>
      versions w' = versions w \<and> executed w' = executed w @ (if e = None then [s] else [])"
    and insertion: "mg_record db v w = (e, w') \<Longrightarrow>
      versions w' = (if e = None then insert v (versions w) else versions w) \<and> executed w' = executed w"

interpretation schema: version_table "schema_db fails run" "set \<circ> ms_versions" ms_executed
  by unfold_locales (auto simp: schema_db_def split: prod.splits option.splits if_splits)

definition contents :: "file_system \<Rightarrow> string \<Rightarrow> string \<Rightarrow> string" where
  "contents fsys dir f = TrimSpace (case fs_ReadFile fsys (path_Join dir f) of Inr raw \<Rightarrow> raw | Inl _ \<Rightarrow> [])"

text \<open>A run over files, from \<open>w\<close> to \<open>w'\<close>: the files applied and recorded, and at most one applied without being
  recorded.\<close>

context version_table
begin

definition outstanding :: "file_system \<Rightarrow> string \<Rightarrow> 'w \<Rightarrow> string \<Rightarrow> bool" where
  "outstanding fsys dir w f \<longleftrightarrow> version_of f \<notin> versions w \<and> contents fsys dir f \<noteq> []"

definition run_ok :: "file_system \<Rightarrow> string \<Rightarrow> string list \<Rightarrow> 'w \<Rightarrow> string list \<Rightarrow> string list \<Rightarrow> 'w \<Rightarrow> bool" where
  "run_ok fsys dir fs w recorded unrecorded w' \<longleftrightarrow>
     subseq (recorded @ unrecorded) fs \<and> distinct (map version_of recorded) \<and>
     (\<forall>f \<in> set (recorded @ unrecorded). outstanding fsys dir w f) \<and>
     versions w' = versions w \<union> version_of ` set recorded \<and>
     executed w' = executed w @ map (contents fsys dir) (recorded @ unrecorded)"

lemma run_ok_keep:
  assumes "versions w1 = versions w" "executed w1 = executed w"
  shows "run_ok fsys dir fs w1 xs ys w' \<Longrightarrow> run_ok fsys dir (f # fs) w xs ys w'"
  using assms by (simp add: run_ok_def outstanding_def) blast

lemma run_ok_step:
  assumes "outstanding fsys dir w f" "versions w1 = insert (version_of f) (versions w)"
    "executed w1 = executed w @ [contents fsys dir f]" "run_ok fsys dir fs w1 xs ys w'"
  shows "run_ok fsys dir (f # fs) w (f # xs) ys w'"
  using assms by (auto simp: run_ok_def outstanding_def)

lemma apply_files_run:
  "apply_files db fsys dir fs applied w = (res, w') \<Longrightarrow>
   \<exists>recorded unrecorded. run_ok fsys dir fs w recorded unrecorded w' \<and>
     (\<forall>out. res = Inr out \<longrightarrow> out = applied @ recorded \<and> unrecorded = [] \<and> (\<forall>f \<in> set fs. \<not> outstanding fsys dir w' f)) \<and>
     length unrecorded \<le> 1"
proof (induction fs arbitrary: applied w)
  case Nil
  then show ?case by (intro exI [of _ "[]"]) (auto simp: run_ok_def)
next
  case (Cons f fs)
  note ih = Cons.IH
  have keeps: "versions w \<subseteq> versions w'" if "run_ok fsys dir fs w xs ys w'" for w xs ys
    using that by (auto simp: run_ok_def)
  have done_f: "\<not> outstanding fsys dir w' f"
    if "run_ok fsys dir fs w xs ys w'" "version_of f \<in> versions w \<or> contents fsys dir f = []" for w xs ys
    using that keeps [OF that(1)] by (auto simp: outstanding_def)
  have stop: ?case if "executed w' = executed w" "versions w' = versions w" "\<forall>out. res \<noteq> Inr out"
    using that by (intro exI [of _ "[]"]) (auto simp: run_ok_def)
  have go: ?case
    if "apply_files db fsys dir fs applied w1 = (res, w')" and w1: "versions w1 = versions w" "executed w1 = executed w"
      and f: "version_of f \<in> versions w1 \<or> contents fsys dir f = []" for w1
  proof -
    from ih [OF that(1)] obtain xs ys where r: "run_ok fsys dir fs w1 xs ys w'" "length ys \<le> 1"
      and o: "\<forall>out. res = Inr out \<longrightarrow> out = applied @ xs \<and> ys = [] \<and> (\<forall>f \<in> set fs. \<not> outstanding fsys dir w' f)"
      by blast
    show ?case using run_ok_keep [OF w1 r(1)] r(2) o done_f [OF r(1) f] by - (rule exI [of _ xs], rule exI [of _ ys], auto)
  qed
  obtain b w1 where look: "mg_exists db (version_of f) w = (b, w1)" by (cases "mg_exists db (version_of f) w")
  have k1: "versions w1 = versions w" "executed w1 = executed w" using exists [OF look] by simp_all
  show ?case
  proof (cases b)
    case (Inl e)
    then show ?thesis using Cons.prems look k1 by (intro stop) auto
  next
    case (Inr known)
    with exists [OF look] have known: "known \<longleftrightarrow> version_of f \<in> versions w" by simp
    show ?thesis
    proof (cases "known \<or> contents fsys dir f = []")
      case True
      show ?thesis
      proof (cases "known \<or> (\<exists>raw. fs_ReadFile fsys (path_Join dir f) = Inr raw)")
        case ok: True
        then have "apply_files db fsys dir fs applied w1 = (res, w')"
          using Cons.prems look Inr True by (cases known) (auto simp: contents_def)
        then show ?thesis using k1 True known by (intro go [of w1]) simp_all
      next
        case False
        then obtain e where "\<not> known" "fs_ReadFile fsys (path_Join dir f) = Inl e" by (metis sum.exhaust)
        then show ?thesis using Cons.prems look Inr k1 by (intro stop) auto
      qed
    next
      case False
      then have out: "outstanding fsys dir w f" using known by (simp add: outstanding_def)
      from False obtain raw where raw: "fs_ReadFile fsys (path_Join dir f) = Inr raw" "TrimSpace raw = contents fsys dir f"
        by (cases "fs_ReadFile fsys (path_Join dir f)") (auto simp: contents_def)
      obtain e2 w2 where ex: "mg_exec db (contents fsys dir f) w1 = (e2, w2)"
        by (cases "mg_exec db (contents fsys dir f) w1")
      note k2 = exec [OF ex]
      obtain e3 w3 where rc: "mg_record db (version_of f) w2 = (e3, w3)" by (cases "mg_record db (version_of f) w2")
      note k3 = insertion [OF rc]
      show ?thesis
      proof (cases e2)
        case (Some e)
        then show ?thesis using Cons.prems look Inr False raw ex k1 k2 by (intro stop) auto
      next
        case None
        show ?thesis
        proof (cases e3)
          case (Some e)
          then have "w' = w3" "\<forall>out. res \<noteq> Inr out" using Cons.prems look Inr False raw ex rc None by auto
          then show ?thesis using Some None k1 k2 k3 out
            by - (rule exI [of _ "[]"], rule exI [of _ "[f]"], auto simp: run_ok_def)
        next
          case e3: None
          then have "apply_files db fsys dir fs (applied @ [f]) w3 = (res, w')"
            using Cons.prems look Inr False raw ex rc None by auto
          from ih [OF this] obtain xs ys where r: "run_ok fsys dir fs w3 xs ys w'" "length ys \<le> 1"
            and o: "\<forall>out. res = Inr out \<longrightarrow> out = (applied @ [f]) @ xs \<and> ys = [] \<and> (\<forall>f \<in> set fs. \<not> outstanding fsys dir w' f)"
            by blast
          have "run_ok fsys dir (f # fs) w (f # xs) ys w'"
            using None e3 k1 k2 k3 by (intro run_ok_step [OF out _ _ r(1)]) auto
          moreover have "\<not> outstanding fsys dir w' f" using done_f [OF r(1)] k3 e3 by simp
          ultimately show ?thesis using r(2) o by - (rule exI [of _ "f # xs"], rule exI [of _ ys], auto)
        qed
      qed
    qed
  qed
qed

lemma apply_files_complete:
  "apply_files db fsys dir fs applied w = (Inr out, w') \<Longrightarrow> f \<in> set fs \<Longrightarrow>
   version_of f \<in> versions w' \<or> (\<exists>raw. fs_ReadFile fsys (path_Join dir f) = Inr raw \<and> TrimSpace raw = [])"
proof (induction fs arbitrary: applied w)
  case Nil
  then show ?case by simp
next
  case (Cons g fs)
  have keeps: "versions w1 \<subseteq> versions w'" if "apply_files db fsys dir fs a w1 = (Inr out, w')" for a w1
    using apply_files_run [OF that] by (auto simp: run_ok_def)
  obtain res w1 where look: "mg_exists db (version_of g) w = (res, w1)" by (cases "mg_exists db (version_of g) w")
  note k1 = exists [OF look]
  obtain a w2 where rest: "apply_files db fsys dir fs a w2 = (Inr out, w')"
    and g: "version_of g \<in> versions w2 \<or> (\<exists>raw. fs_ReadFile fsys (path_Join dir g) = Inr raw \<and> TrimSpace raw = [])"
    using Cons.prems(1) look k1
    by (auto split: sum.splits bool.splits prod.splits option.splits if_splits dest: insertion)
  show ?case using Cons.IH [OF rest] Cons.prems(2) keeps [OF rest] g by auto
qed

lemma Apply_complete:
  assumes "mr_Filesystem r = Some fsys" and "dir = (if TrimSpace (mr_Dir r) = [] then ''.'' else TrimSpace (mr_Dir r))"
    and "fs_ReadDir fsys dir = Inr entries" and "Apply U r (Some db) w = (Inr out, w')" and "f \<in> set (migration_files U entries)"
  shows "version_of f \<in> versions w' \<or> (\<exists>raw. fs_ReadFile fsys (path_Join dir f) = Inr raw \<and> TrimSpace raw = [])"
proof -
  obtain e w1 where "mg_create db w = (e, w1)" by (cases "mg_create db w")
  then have "apply_files db fsys dir (migration_files U entries) [] w1 = (Inr out, w')"
    using assms(1-4) by (cases e) (auto simp: Apply_def)
  then show ?thesis using assms(5) by (rule apply_files_complete)
qed

lemma Apply_run:
  assumes "mr_Filesystem r = Some fsys" and "dir = (if TrimSpace (mr_Dir r) = [] then ''.'' else TrimSpace (mr_Dir r))"
    and "fs_ReadDir fsys dir = Inr entries" and "Apply U r (Some db) w = (res, w')"
  shows "\<exists>recorded unrecorded. run_ok fsys dir (migration_files U entries) w recorded unrecorded w' \<and> length unrecorded \<le> 1 \<and>
    (\<forall>out. res = Inr out \<longrightarrow> out = recorded \<and> unrecorded = [] \<and>
       (\<forall>f \<in> set (migration_files U entries). \<not> outstanding fsys dir w' f))"
proof -
  obtain e w1 where c: "mg_create db w = (e, w1)" by (cases "mg_create db w")
  note k = create [OF c]
  show ?thesis
  proof (cases e)
    case (Some x)
    then have "w' = w1" "\<forall>out. res \<noteq> Inr out" using assms c by (auto simp: Apply_def)
    then show ?thesis using k by (intro exI [of _ "[]"]) (simp add: run_ok_def)
  next
    case None
    then have "apply_files db fsys dir (migration_files U entries) [] w1 = (res, w')" using assms c by (auto simp: Apply_def)
    from apply_files_run [OF this] obtain xs ys where "run_ok fsys dir (migration_files U entries) w1 xs ys w'" "length ys \<le> 1"
      "\<forall>out. res = Inr out \<longrightarrow> out = xs \<and> ys = [] \<and> (\<forall>f \<in> set (migration_files U entries). \<not> outstanding fsys dir w' f)"
      by auto
    then show ?thesis using k by - (rule exI [of _ xs], rule exI [of _ ys], auto simp: run_ok_def outstanding_def)
  qed
qed

end

section \<open>Properties\<close>

lemma subseq_set: "subseq xs ys \<Longrightarrow> set xs \<subseteq> set ys"
  by (induction rule: list_emb.induct) auto

lemma sorted_subseq: "subseq xs ys \<Longrightarrow> sorted ys \<Longrightarrow> sorted (xs :: 'a::linorder list)"
  by (induction rule: list_emb.induct) (auto dest: subseq_set)

text \<open>Where no statement fails and every file can be read, a run goes through; and after a run that goes through, every
  file has its version recorded or was read and found blank.\<close>

lemma apply_files_goes_through:
  assumes "\<And>v. fst (fails v) = None" "\<And>sql v. fst (run sql v) = None"
    "\<And>f. f \<in> set fs \<Longrightarrow> \<exists>raw. fs_ReadFile fsys (path_Join dir f) = Inr raw"
  shows "\<exists>out s'. apply_files (schema_db fails run) fsys dir fs applied s = (Inr out, s')"
  using assms(3)
proof (induction fs arbitrary: applied s)
  case Nil
  then show ?case by simp
next
  case (Cons f fs)
  have fails: "fails v = (None, snd (fails v))" for v using assms(1) [of v] by (cases "fails v") simp
  have run: "run sql v = (None, snd (run sql v))" for sql v using assms(2) [of sql v] by (cases "run sql v") simp
  obtain raw where raw: "fs_ReadFile fsys (path_Join dir f) = Inr raw" using Cons.prems by auto
  have ih: "\<exists>out s'. apply_files (schema_db fails run) fsys dir fs applied s = (Inr out, s')" for applied s
    using Cons.IH Cons.prems by simp
  have ex: "mg_exists (schema_db fails run) v s = (Inr (v \<in> set (ms_versions s)), s\<lparr>ms_outer := snd (fails (ms_outer s))\<rparr>)" for v s
    by (simp add: schema_db_def, subst fails, simp)
  have go: "mg_exec (schema_db fails run) sql s =
      (None, s\<lparr>ms_executed := ms_executed s @ [sql], ms_outer := snd (run sql (ms_outer s))\<rparr>)" for sql s
    by (simp add: schema_db_def, subst run, simp)
  have rc: "v \<notin> set (ms_versions s) \<Longrightarrow> mg_record (schema_db fails run) v s =
      (None, s\<lparr>ms_versions := ms_versions s @ [v], ms_outer := snd (fails (ms_outer s))\<rparr>)" for v s
    by (simp add: schema_db_def, subst fails, simp)
  show ?case
    by (cases "version_of f \<in> set (ms_versions s)"; cases "TrimSpace raw = []") (simp_all add: ex go rc raw ih)
qed

lemma Apply_goes_through:
  assumes "mr_Filesystem r = Some fsys" and "dir = (if TrimSpace (mr_Dir r) = [] then ''.'' else TrimSpace (mr_Dir r))"
    and "fs_ReadDir fsys dir = Inr entries"
    and "\<And>v. fst (fails v) = None" "\<And>sql v. fst (run sql v) = None"
    "\<And>f. f \<in> set (migration_files U entries) \<Longrightarrow> \<exists>raw. fs_ReadFile fsys (path_Join dir f) = Inr raw"
  shows "\<exists>out s'. Apply U r (Some (schema_db fails run)) s = (Inr out, s')"
proof -
  have "mg_create (schema_db fails run) s = (None, s\<lparr>ms_outer := snd (fails (ms_outer s))\<rparr>)"
    using assms(4) [of "ms_outer s"] by (cases "fails (ms_outer s)") (simp add: schema_db_def)
  then show ?thesis
    using apply_files_goes_through [OF assms(4-6)] assms(1-3) by (simp add: Apply_def)
qed

text \<open>C38: migrations are applied once, in order and completely. The files a successful run reports are \<^verbatim>\<open>.sql\<close> files of the
  directory in the order of their names, none of them recorded before; exactly their texts were executed and exactly their
  versions added to the table, and none is left: every \<^verbatim>\<open>.sql\<close> file of the directory has its version in the table
  afterwards, or was read and is blank. Running again afterwards executes nothing and reports nothing, whatever fails on
  the way. A run that fails has executed at most one text whose version it did not record: that one is executed again by
  the next run. A run fails only for a reason: when every statement succeeds and every file can be read, it
  succeeds.\<close>

theorem migrations_applied_once:
  assumes "mr_Filesystem r = Some fsys" and "dir = (if TrimSpace (mr_Dir r) = [] then ''.'' else TrimSpace (mr_Dir r))"
    and "fs_ReadDir fsys dir = Inr entries"
    and "Apply U r (Some (schema_db fails run)) s = (res, s')"
  shows "(\<exists>recorded unrecorded.
      set (ms_versions s') = set (ms_versions s) \<union> version_of ` set recorded \<and>
      ms_executed s' = ms_executed s @ map (contents fsys dir) (recorded @ unrecorded) \<and>
      sorted recorded \<and> distinct (map version_of recorded) \<and> length unrecorded \<le> 1 \<and>
      (\<forall>f \<in> set (recorded @ unrecorded). (f, False) \<in> set entries \<and> ToLower U (Ext f) = ''.sql'' \<and>
         version_of f \<notin> set (ms_versions s)) \<and>
      (\<forall>applied. res = Inr applied \<longrightarrow> applied = recorded \<and> unrecorded = [] \<and>
         (\<forall>f. (f, False) \<in> set entries \<longrightarrow> ToLower U (Ext f) = ''.sql'' \<longrightarrow>
            version_of f \<in> set (ms_versions s') \<or>
            (\<exists>raw. fs_ReadFile fsys (path_Join dir f) = Inr raw \<and> TrimSpace raw = [])))) \<and>
    ((\<forall>v. fst (fails v) = None) \<longrightarrow> (\<forall>sql v. fst (run sql v) = None) \<longrightarrow>
      (\<forall>f. (f, False) \<in> set entries \<longrightarrow> (\<exists>raw. fs_ReadFile fsys (path_Join dir f) = Inr raw)) \<longrightarrow>
      (\<exists>applied. res = Inr applied)) \<and>
    (\<forall>applied again s''. res = Inr applied \<longrightarrow> Apply U r (Some (schema_db fails run)) s' = (again, s'') \<longrightarrow>
      ms_executed s'' = ms_executed s' \<and> set (ms_versions s'') = set (ms_versions s') \<and> (\<forall>out. again = Inr out \<longrightarrow> out = []))"
proof -
  let ?db = "schema_db fails run" and ?fs = "migration_files U entries"
  have files: "(f, False) \<in> set entries \<and> ToLower U (Ext f) = ''.sql''" if "f \<in> set ?fs" for f
    using that by (auto simp: migration_files_def)
  have sorted: "sorted ?fs" by (simp add: migration_files_def)
  note run = schema.Apply_run [OF assms(1-3)]
  from run [OF assms(4)] obtain xs ys where r: "schema.run_ok fsys dir ?fs s xs ys s'" "length ys \<le> 1"
    and o: "\<forall>out. res = Inr out \<longrightarrow> out = xs \<and> ys = [] \<and> (\<forall>f \<in> set ?fs. \<not> schema.outstanding fsys dir s' f)"
    by blast
  have ss: "subseq (xs @ ys) ?fs" using r(1) by (simp add: schema.run_ok_def)
  note sub = subseq_set [OF ss]
  have complete: "version_of f \<in> set (ms_versions s') \<or> (\<exists>raw. fs_ReadFile fsys (path_Join dir f) = Inr raw \<and> TrimSpace raw = [])"
    if "res = Inr applied" "(f, False) \<in> set entries" "ToLower U (Ext f) = ''.sql''" for applied f
  proof -
    have "f \<in> set ?fs" using that by (force simp: migration_files_def)
    then show ?thesis using schema.Apply_complete [OF assms(1-3) assms(4) [unfolded that(1)]] by simp
  qed
  have "sorted xs" using sorted_subseq [OF ss sorted] by (simp add: sorted_append)
  have "ms_executed s'' = ms_executed s' \<and> set (ms_versions s'') = set (ms_versions s') \<and> (\<forall>out. again = Inr out \<longrightarrow> out = [])"
    if "res = Inr applied" and ap: "Apply U r (Some ?db) s' = (again, s'')" for applied again s''
  proof -
    from run [OF ap] obtain vs us where v: "schema.run_ok fsys dir ?fs s' vs us s''" "\<forall>out. again = Inr out \<longrightarrow> out = vs"
      by blast
    then have "set (vs @ us) \<subseteq> set ?fs" by (intro subseq_set) (simp add: schema.run_ok_def)
    moreover have "\<forall>f \<in> set (vs @ us). schema.outstanding fsys dir s' f" using v(1) by (simp add: schema.run_ok_def)
    ultimately have "vs @ us = []" using o that(1) by (cases "vs @ us") auto
    then show ?thesis using v by (simp add: schema.run_ok_def)
  qed
  moreover have "\<exists>recorded unrecorded.
      set (ms_versions s') = set (ms_versions s) \<union> version_of ` set recorded \<and>
      ms_executed s' = ms_executed s @ map (contents fsys dir) (recorded @ unrecorded) \<and>
      sorted recorded \<and> distinct (map version_of recorded) \<and> length unrecorded \<le> 1 \<and>
      (\<forall>f \<in> set (recorded @ unrecorded). (f, False) \<in> set entries \<and> ToLower U (Ext f) = ''.sql'' \<and>
         version_of f \<notin> set (ms_versions s)) \<and>
      (\<forall>applied. res = Inr applied \<longrightarrow> applied = recorded \<and> unrecorded = [] \<and>
         (\<forall>f. (f, False) \<in> set entries \<longrightarrow> ToLower U (Ext f) = ''.sql'' \<longrightarrow>
            version_of f \<in> set (ms_versions s') \<or>
            (\<exists>raw. fs_ReadFile fsys (path_Join dir f) = Inr raw \<and> TrimSpace raw = [])))"
    using r o sub files complete \<open>sorted xs\<close>
    by - (rule exI [of _ xs], rule exI [of _ ys], auto simp: schema.run_ok_def schema.outstanding_def)
  moreover have "\<exists>applied. res = Inr applied"
    if "\<forall>v. fst (fails v) = None" "\<forall>sql v. fst (run sql v) = None"
      "\<forall>f. (f, False) \<in> set entries \<longrightarrow> (\<exists>raw. fs_ReadFile fsys (path_Join dir f) = Inr raw)"
    using Apply_goes_through [OF assms(1-3), where U = U and fails = fails and run = run and s = s] that files assms(4) by auto
  ultimately show ?thesis by blast
qed

lemma set_add_matches: "set (add_matches fs ms) = set fs \<union> set ms"
  by (induction fs ms rule: add_matches.induct) auto

lemma distinct_add_matches: "distinct fs \<Longrightarrow> distinct (add_matches fs ms)"
  by (induction fs ms rule: add_matches.induct) auto

lemma distinct_glob_files: "distinct (glob_files glob ps)"
proof -
  have "distinct fs \<Longrightarrow>
    distinct (foldl (\<lambda>files p. case glob p of Inl _ \<Rightarrow> files | Inr ms \<Rightarrow> add_matches files ms) fs ps)" for fs
    by (induction ps arbitrary: fs) (auto simp: distinct_add_matches split: sum.split)
  then show ?thesis by (simp add: glob_files_def)
qed

text \<open>The execution of a text, with the texts attempted so far beside the state.\<close>

definition logged :: "(string \<Rightarrow> 'w \<Rightarrow> error option \<times> 'w) \<Rightarrow> string \<Rightarrow> 'w \<times> string list \<Rightarrow> error option \<times> 'w \<times> string list" where
  "logged exec sql wl = (case exec sql (fst wl) of (e, w1) \<Rightarrow> (e, (w1, snd wl @ [sql])))"

lemma logged_apply: "logged exec sql (w, l) = (fst (exec sql w), (snd (exec sql w), l @ [sql]))"
  by (simp add: logged_def split: prod.split)

lemma run_files_log:
  "run_files U read (logged exec) paths (w, l) = (err, (w', l')) \<Longrightarrow>
   \<exists>k. map Inr l' = map Inr l @ map read (take k paths) \<and> k \<le> length paths \<and> (err = None \<longrightarrow> k = length paths)"
proof (induction paths arbitrary: w l)
  case Nil
  then show ?case by auto
next
  case (Cons p ps)
  show ?case
  proof (cases "read p")
    case (Inl e)
    then show ?thesis using Cons.prems by (intro exI [of _ 0]) auto
  next
    case (Inr sql)
    obtain e w1 where e: "exec sql w = (e, w1)" by (cases "exec sql w")
    show ?thesis
    proof (cases "e = None \<or> (\<exists>x. e = Some x \<and> tolerated U x)")
      case True
      then have "run_files U read (logged exec) ps (w1, l @ [sql]) = (err, (w', l'))"
        using Cons.prems Inr e by (auto simp: logged_apply)
      from Cons.IH [OF this] obtain k where "map Inr l' = map Inr (l @ [sql]) @ map read (take k ps)" "k \<le> length ps"
        "err = None \<longrightarrow> k = length ps" by blast
      then show ?thesis using Inr by (intro exI [of _ "Suc k"]) auto
    next
      case False
      then obtain x where "e = Some x" "\<not> tolerated U x" by auto
      then show ?thesis using Cons.prems Inr e by (intro exI [of _ 1]) (auto simp: logged_apply)
    qed
  qed
qed

text \<open>A start of the backend runs every migration file. Each file found is run once, in the order of the paths, and the
  run stops at the first file that cannot be read or fails with an error that does not speak of an existing object or a
  duplicate; without such an error all of them were run. Nothing is remembered: the next start runs them again.\<close>

theorem start_runs_every_migration:
  assumes "applyMigrations U glob read (logged exec) (w, []) = (err, (w', texts))"
  shows "map Inr texts = map read (take (length texts) (sort (glob_files glob migration_patterns))) \<and>
    distinct (sort (glob_files glob migration_patterns)) \<and>
    (err = None \<longrightarrow> texts \<noteq> [] \<and> length texts = length (glob_files glob migration_patterns))"
proof (cases "glob_files glob migration_patterns = []")
  case True
  then show ?thesis using assms by (auto simp: applyMigrations_def)
next
  case False
  then have "run_files U read (logged exec) (sort (glob_files glob migration_patterns)) (w, []) = (err, (w', texts))"
    using assms by (simp add: applyMigrations_def)
  from run_files_log [OF this] obtain k where k: "map Inr texts = map read (take k (sort (glob_files glob migration_patterns)))"
    "k \<le> length (glob_files glob migration_patterns)" "err = None \<longrightarrow> k = length (glob_files glob migration_patterns)"
    by auto
  moreover have "length texts = k" using k(1,2) by (metis length_map length_take length_sort min.absorb2)
  ultimately show ?thesis using False distinct_glob_files [of glob migration_patterns] by auto
qed

section \<open>Witnesses\<close>

definition demo_files :: file_system where
  "demo_files =
     \<lparr>fs_ReadDir = (\<lambda>_. Inr [(''b.sql'', False), (''a.sql'', False), (''old'', True), (''n.txt'', False)]),
      fs_ReadFile = (\<lambda>p. Inr p)\<rparr>"

definition demo_migrations :: "unit migrated migration_db" where
  "demo_migrations = schema_db (\<lambda>v. (None, v)) (\<lambda>sql v. (None, v))"

theorem migrations_applied_once_witness:
  "\<exists>s. Apply ascii_tables \<lparr>mr_Filesystem = Some demo_files, mr_Dir = []\<rparr> (Some demo_migrations)
      \<lparr>ms_versions = [], ms_executed = [], ms_outer = ()\<rparr> = (Inr [''a.sql'', ''b.sql''], s) \<and>
    ms_executed s = [''a.sql'', ''b.sql''] \<and>
    ms_executed (snd (Apply ascii_tables \<lparr>mr_Filesystem = Some demo_files, mr_Dir = []\<rparr> (Some demo_migrations) s)) = ms_executed s"
proof -
  let ?r = "\<lparr>mr_Filesystem = Some demo_files, mr_Dir = []\<rparr>"
  let ?s = "\<lparr>ms_versions = [''a'', ''b''], ms_executed = [''a.sql'', ''b.sql''], ms_outer = ()\<rparr>"
  have one: "Apply ascii_tables ?r (Some demo_migrations) \<lparr>ms_versions = [], ms_executed = [], ms_outer = ()\<rparr> =
      (Inr [''a.sql'', ''b.sql''], ?s)" by code_simp
  obtain again s'' where two: "Apply ascii_tables ?r (Some demo_migrations) ?s = (again, s'')"
    by (cases "Apply ascii_tables ?r (Some demo_migrations) ?s")
  have "ms_executed s'' = ms_executed ?s"
    using migrations_applied_once [where r = ?r and fsys = demo_files and dir = "''.''"
        and entries = "[(''b.sql'', False), (''a.sql'', False), (''old'', True), (''n.txt'', False)]",
        OF _ _ _ one [unfolded demo_migrations_def]] two [unfolded demo_migrations_def]
    by (simp add: demo_files_def)
  with one two show ?thesis by auto
qed

theorem start_runs_every_migration_witness:
  "length (snd (snd (applyMigrations ascii_tables (\<lambda>p. Inr [p]) Inr (logged (\<lambda>sql w. (None, w))) ((), [])))) =
     length (glob_files (\<lambda>p. Inr [p]) migration_patterns)"
proof -
  have run: "applyMigrations ascii_tables (\<lambda>p. Inr [p]) Inr (logged (\<lambda>sql w. (None, w))) ((), []) =
      (None, ((), [''/app/migrations/*.sql'', ''migrations/*.sql'']))" by code_simp
  have "length [''/app/migrations/*.sql'', ''migrations/*.sql''] = length (glob_files (\<lambda>p. Inr [p]) migration_patterns)"
    using start_runs_every_migration [OF run] by blast
  with run show ?thesis by simp
qed

end
