(* ===== verification/Embedding_Client.thy ===== *)
theory Embedding_Client
  imports Go_Parse Contracts
begin

text \<open>
  \<^verbatim>\<open>internal/adapters/gateway/portkey/embeddings.go\<close>: the embedding client, with its pacing of requests, its
  retries and the fallback model. The HTTP transport, the decoder of a response, the clock and the timer of
  \<^verbatim>\<open>sleepContext\<close> are operations on the outside state \<open>'w\<close>.
\<close>

record EmbeddingConfig =
  ec_BaseURL :: string
  ec_PortkeyAPIKey :: string
  ec_OpenRouterKey :: string
  ec_Model :: string
  ec_FallbackModel :: string
  ec_Timeout :: duration
  ec_ProviderHeader :: string
  ec_MinInterval :: duration
  ec_RetryMax :: int

definition requiresOpenRouterAuth :: "string \<Rightarrow> bool" where
  "requiresOpenRouterAuth model \<longleftrightarrow> \<not> HasPrefix (TrimSpace model) ''@''"

definition embedding_defaults :: "EmbeddingConfig \<Rightarrow> EmbeddingConfig" where
  "embedding_defaults cfg0 =
     (let cfg1 = (if TrimSpace (ec_Model cfg0) = []
                  then cfg0\<lparr>ec_Model := ''@openrouter-key/nvidia/llama-nemotron-embed-vl-1b-v2:free''\<rparr> else cfg0);
          cfg2 = (if ec_Timeout cfg1 \<le> 0 then cfg1\<lparr>ec_Timeout := 12 * nanos_per_second\<rparr> else cfg1);
          cfg3 = (if ec_MinInterval cfg2 \<le> 0 then cfg2\<lparr>ec_MinInterval := 900000000\<rparr> else cfg2);
          cfg4 = (if ec_RetryMax cfg3 < 0 then cfg3\<lparr>ec_RetryMax := 0\<rparr> else cfg3)
      in if TrimSpace (ec_ProviderHeader cfg4) = [] \<and> requiresOpenRouterAuth (ec_Model cfg4)
         then cfg4\<lparr>ec_ProviderHeader := ''openrouter''\<rparr> else cfg4)"

record EmbeddingClient =
  em_cfg :: EmbeddingConfig
  em_lastRequest :: time

definition NewEmbeddingClient :: "EmbeddingConfig \<Rightarrow> EmbeddingClient result" where
  "NewEmbeddingClient cfg =
     (if TrimSpace (ec_BaseURL cfg) = [] then Inl (ErrorString ''portkey base url is required'')
      else if TrimSpace (ec_PortkeyAPIKey cfg) = [] then Inl (ErrorString ''portkey api key is required'')
      else if requiresOpenRouterAuth (ec_Model cfg) \<and> TrimSpace (ec_OpenRouterKey cfg) = []
      then Inl (ErrorString ''openrouter api key is required'')
      else let c = embedding_defaults cfg
           in if TrimSpace (ec_FallbackModel c) \<noteq> [] \<and> requiresOpenRouterAuth (ec_FallbackModel c) \<and>
                 TrimSpace (ec_OpenRouterKey c) = []
              then Inl (ErrorString ''openrouter api key is required for embedding fallback model'')
              else Inr \<lparr>em_cfg = c, em_lastRequest = 0\<rparr>)"

section \<open>Requests\<close>

record embedding_request =
  er_url :: string
  er_model :: string
  er_input :: "string list"
  er_user :: "string option"
  er_headers :: strmap

text \<open>What the transport yields: an error, or a status, the \<^verbatim>\<open>Retry-After\<close> header and the body, as bytes and the
  error that ends their reading, if any.\<close>

datatype http_result = TransportError error | Response int string "string \<times> error option"

record 'w embedding_env =
  ee_now :: "'w \<Rightarrow> time \<times> 'w"
  ee_sleep :: "duration \<Rightarrow> 'w \<Rightarrow> error option \<times> 'w"
  ee_newRequest :: "string \<Rightarrow> error option"
  ee_do :: "embedding_request \<Rightarrow> 'w \<Rightarrow> http_result \<times> 'w"
  ee_decode :: "string \<times> error option \<Rightarrow> embedding list result"
  ee_parseTime :: "string \<Rightarrow> time option"

text \<open>The timer and the context of \<^verbatim>\<open>sleepContext\<close> are outside; no sleep for a duration that is not positive.\<close>

definition sleepContext :: "'w embedding_env \<Rightarrow> duration \<Rightarrow> 'w \<Rightarrow> error option \<times> 'w" where
  "sleepContext env d w = (if d \<le> 0 then (None, w) else ee_sleep env d w)"

definition waitTurn :: "'w embedding_env \<Rightarrow> EmbeddingClient \<Rightarrow> 'w \<Rightarrow> error option \<times> EmbeddingClient \<times> 'w" where
  "waitTurn env c w =
     (let (now, w1) = ee_now env w;
          next_time = time_Add (em_lastRequest c) (ec_MinInterval (em_cfg c));
          (slept, w2) = (if next_time > now then sleepContext env (time_Sub next_time now) w1 else (None, w1))
      in case slept of
           Some e \<Rightarrow> (Some e, c, w2)
         | None \<Rightarrow> (case ee_now env w2 of (t, w3) \<Rightarrow> (None, c\<lparr>em_lastRequest := t\<rparr>, w3)))"

definition shift_left :: "int \<Rightarrow> int" where
  "shift_left k = wrap64 (2 ^ nat k)"

definition backoff :: "int \<Rightarrow> duration" where
  "backoff attempt =
     (let base = (if attempt > 0 then wrap64 (900000000 * shift_left attempt) else 900000000)
      in if base > 8 * nanos_per_second then 8 * nanos_per_second else base)"

definition retryDelay :: "'w embedding_env \<Rightarrow> string \<Rightarrow> int \<Rightarrow> 'w \<Rightarrow> duration \<times> 'w" where
  "retryDelay env retryAfterHeader attempt w =
     (let parsed = TrimSpace retryAfterHeader
      in if parsed = [] then (backoff attempt, w)
         else case Atoi parsed of
             Some secs \<Rightarrow>
               if secs > 0 then (wrap64 (secs * nanos_per_second), w)
               else (case ee_parseTime env parsed of
                   Some t \<Rightarrow> (case ee_now env w of (now, w1) \<Rightarrow>
                      if time_Sub t now > 0 then (time_Sub t now, w1) else (backoff attempt, w1))
                 | None \<Rightarrow> (backoff attempt, w))
           | None \<Rightarrow>
               (case ee_parseTime env parsed of
                  Some t \<Rightarrow> (case ee_now env w of (now, w1) \<Rightarrow>
                      if time_Sub t now > 0 then (time_Sub t now, w1) else (backoff attempt, w1))
                | None \<Rightarrow> (backoff attempt, w)))"

definition truncateErrorBody :: "string \<Rightarrow> string" where
  "truncateErrorBody body = (if length body \<le> 240 then body else take 240 body @ ''...'')"

definition providerHeaderForModel :: "string \<Rightarrow> string \<Rightarrow> string" where
  "providerHeaderForModel model configured =
     (if requiresOpenRouterAuth model
      then (if TrimSpace configured \<noteq> [] then TrimSpace configured else ''openrouter'')
      else [])"

definition isEmbeddingUnsupportedError :: "unicode_tables \<Rightarrow> error \<Rightarrow> bool" where
  "isEmbeddingUnsupportedError U err =
     (let msg = ToLower U (error_text err)
      in Contains msg ''embed is not supported'' \<or> Contains msg ''embedding is not supported'')"

definition build_request :: "Context option \<Rightarrow> EmbeddingConfig \<Rightarrow> string list \<Rightarrow> string \<Rightarrow> embedding_request" where
  "build_request ctx cfg input model =
     \<lparr>er_url = trim_right_slash (ec_BaseURL cfg) @ ''/v1/embeddings'', er_model = model, er_input = input,
      er_user = ProviderUserIDFromContext ctx,
      er_headers =
        [(''Content-Type'', ''application/json''), (''x-portkey-api-key'', TrimSpace (ec_PortkeyAPIKey cfg))] @
        (if requiresOpenRouterAuth model \<and> TrimSpace (ec_OpenRouterKey cfg) \<noteq> []
         then [(''Authorization'', ''Bearer '' @ TrimSpace (ec_OpenRouterKey cfg))] else []) @
        (let provider = providerHeaderForModel model (ec_ProviderHeader cfg)
         in if provider \<noteq> [] then [(''x-portkey-provider'', provider)] else [])\<rparr>"

section \<open>The attempts\<close>

definition rate_limited_error :: error where
  "rate_limited_error = ErrorString ''portkey embedding request rate-limited: status=429''"

definition status_error :: "string \<Rightarrow> int \<Rightarrow> string \<Rightarrow> error" where
  "status_error model status raw =
     (let msg = TrimSpace raw
      in if msg \<noteq> []
         then ErrorString (''portkey embedding request failed: model='' @ model @ '' status='' @ Itoa status @
                '' body='' @ truncateErrorBody msg)
         else ErrorString (''portkey embedding request failed: model='' @ model @ '' status='' @ Itoa status))"

text \<open>The loop over the attempts: a transport error or a 429 leads to the next one, everything else ends it.\<close>

function attempts_from ::
  "'w embedding_env \<Rightarrow> int \<Rightarrow> embedding_request \<Rightarrow> int \<Rightarrow> error option \<Rightarrow> EmbeddingClient \<Rightarrow> 'w \<Rightarrow>
   embedding list result \<times> EmbeddingClient \<times> 'w" where
  "attempts_from env retryMax req attempt lastErr c w =
     (if attempt > retryMax then ((case lastErr of Some e \<Rightarrow> Inl e | None \<Rightarrow> Inr []), c, w)
      else case waitTurn env c w of
          (Some e, c1, w1) \<Rightarrow> (Inl e, c1, w1)
        | (None, c1, w1) \<Rightarrow>
            (case ee_newRequest env (er_url req) of
               Some e \<Rightarrow> (Inl e, c1, w1)
             | None \<Rightarrow>
                 (case ee_do env req w1 of
                    (TransportError e, w2) \<Rightarrow> attempts_from env retryMax req (attempt + 1) (Some e) c1 w2
                  | (Response status retryAfter body, w2) \<Rightarrow>
                      if status = 429 then
                        (case retryDelay env retryAfter attempt w2 of
                           (delay, w3) \<Rightarrow>
                             if attempt < retryMax then
                               (case sleepContext env delay w3 of
                                  (Some e, w4) \<Rightarrow> (Inl e, c1, w4)
                                | (None, w4) \<Rightarrow>
                                    attempts_from env retryMax req (attempt + 1) (Some rate_limited_error) c1 w4)
                             else (Inl rate_limited_error, c1, w3))
                      else if status < 200 \<or> status \<ge> 300
                      then (Inl (status_error (er_model req) status (fst body)), c1, w2)
                      else (ee_decode env body, c1, w2))))"
  by pat_completeness auto
termination
  by (relation "measure (\<lambda>(env, retryMax, req, attempt, rest). nat (retryMax + 1 - attempt))") auto

declare attempts_from.simps [simp del]

definition count_mismatch :: "nat \<Rightarrow> nat \<Rightarrow> error" where
  "count_mismatch got want =
     ErrorString (''embedding count mismatch: got='' @ Itoa (int got) @ '' want='' @ Itoa (int want))"

definition embedWithModel ::
  "'w embedding_env \<Rightarrow> Context option \<Rightarrow> string list \<Rightarrow> string \<Rightarrow> EmbeddingClient \<Rightarrow> 'w \<Rightarrow>
   embedding list result \<times> EmbeddingClient \<times> 'w" where
  "embedWithModel env ctx input model c w =
     (case attempts_from env (ec_RetryMax (em_cfg c)) (build_request ctx (em_cfg c) input model) 0 None c w of
        (Inl e, c1, w1) \<Rightarrow> (Inl e, c1, w1)
      | (Inr vectors, c1, w1) \<Rightarrow>
          if length vectors \<noteq> length input then (Inl (count_mismatch (length vectors) (length input)), c1, w1)
          else if [] \<in> set vectors then (Inl (ErrorString ''empty embedding in response''), c1, w1)
          else (Inr vectors, c1, w1))"

definition embed_input :: "string list \<Rightarrow> string list" where
  "embed_input chunks = filter (\<lambda>s. s \<noteq> []) (map TrimSpace chunks)"

definition checked :: "string list \<Rightarrow> embedding list \<Rightarrow> embedding list result" where
  "checked input vectors =
     (if length vectors \<noteq> length input then Inl (count_mismatch (length vectors) (length input)) else Inr vectors)"

definition fallback_applies :: "unicode_tables \<Rightarrow> EmbeddingConfig \<Rightarrow> error \<Rightarrow> bool" where
  "fallback_applies U cfg err \<longleftrightarrow>
     (let fallback = TrimSpace (ec_FallbackModel cfg)
      in \<not> (fallback = [] \<or> fallback = TrimSpace (ec_Model cfg) \<or> \<not> isEmbeddingUnsupportedError U err))"

definition fallback_error :: "EmbeddingConfig \<Rightarrow> error \<Rightarrow> error" where
  "fallback_error cfg err =
     WrapError (''primary embedding failed and fallback failed: primary_model='' @ ec_Model cfg @ '' fallback_model='' @
                TrimSpace (ec_FallbackModel cfg) @ '' err='' @ error_text err) err"

definition Embed ::
  "unicode_tables \<Rightarrow> 'w embedding_env \<Rightarrow> Context option \<Rightarrow> TenantID \<Rightarrow> string list \<Rightarrow> EmbeddingClient \<Rightarrow> 'w \<Rightarrow>
   embedding list result \<times> EmbeddingClient \<times> 'w" where
  "Embed U env ctx tenantID chunks c w =
     (case TenantID_Validate tenantID of
        Some e \<Rightarrow> (Inl e, c, w)
      | None \<Rightarrow>
          if chunks = [] then (Inl (ErrorString ''at least one chunk is required''), c, w)
          else let input = embed_input chunks
               in if input = [] then (Inl (ErrorString ''at least one non-empty chunk is required''), c, w)
                  else (case embedWithModel env ctx input (ec_Model (em_cfg c)) c w of
                      (Inr vectors, c1, w1) \<Rightarrow> (checked input vectors, c1, w1)
                    | (Inl err, c1, w1) \<Rightarrow>
                        if \<not> fallback_applies U (em_cfg c) err then (Inl err, c1, w1)
                        else (case embedWithModel env ctx input (TrimSpace (ec_FallbackModel (em_cfg c))) c1 w1 of
                            (Inl e, c2, w2) \<Rightarrow> (Inl (fallback_error (em_cfg c) e), c2, w2)
                          | (Inr vectors, c2, w2) \<Rightarrow> (checked input vectors, c2, w2))))"

section \<open>Lemmas\<close>

lemma embedWithModel_Inr:
  assumes "embedWithModel env ctx input model c w = (Inr vs, c', w')"
  shows "length vs = length input \<and> [] \<notin> set vs"
  using assms by (auto simp: embedWithModel_def split: prod.splits sum.splits if_splits)

text \<open>An instrument that counts the calls of the transport.\<close>

definition counts_calls :: "'w embedding_env \<Rightarrow> ('w \<Rightarrow> nat) \<Rightarrow> bool" where
  "counts_calls env calls \<longleftrightarrow>
     (\<forall>req w. calls (snd (ee_do env req w)) = Suc (calls w)) \<and>
     (\<forall>w. calls (snd (ee_now env w)) = calls w) \<and> (\<forall>d w. calls (snd (ee_sleep env d w)) = calls w)"

lemma waitTurn_calls:
  assumes "counts_calls env calls" and "waitTurn env c w = (r, c', w')"
  shows "calls w' = calls w \<and> em_cfg c' = em_cfg c"
proof -
  have "calls (snd (ee_now env w)) = calls w" "calls (snd (ee_sleep env d w)) = calls w" for d w
    using assms(1) by (simp_all add: counts_calls_def)
  with assms(2) show ?thesis
    by (auto simp: waitTurn_def sleepContext_def Let_def split: prod.splits option.splits if_splits)
       (metis snd_conv)+
qed

lemma retryDelay_calls:
  "counts_calls env calls \<Longrightarrow> calls (snd (retryDelay env h k w)) = calls w"
  by (auto simp: retryDelay_def counts_calls_def Let_def split: prod.splits option.splits) (metis snd_conv)+

lemma sleepContext_calls: "counts_calls env calls \<Longrightarrow> calls (snd (sleepContext env d w)) = calls w"
  by (simp add: sleepContext_def counts_calls_def)

text \<open>One round of the loop: it sends at most one request, and ends or goes on with the next attempt.\<close>

lemma attempts_round:
  assumes count: "counts_calls env calls" and less: "\<not> k > n"
    and run: "attempts_from env n req k e c w = (r, c', w')"
  shows "calls w' \<le> Suc (calls w) \<and> em_cfg c' = em_cfg c \<or>
    (\<exists>e' c1 w1. calls w1 = Suc (calls w) \<and> em_cfg c1 = em_cfg c \<and>
                attempts_from env n req (k + 1) e' c1 w1 = (r, c', w'))"
proof -
  have do_calls: "calls w2 = Suc (calls w1)" if "ee_do env req w1 = (x, w2)" for w1 x w2
    using count that by (simp add: counts_calls_def) (metis snd_conv)
  have delay_calls: "calls w2 = calls w1" if "retryDelay env h k w1 = (x, w2)" for w1 x w2 h
    using retryDelay_calls [OF count, of h k w1] that by simp
  have sleep_calls: "calls w2 = calls w1" if "sleepContext env d w1 = (x, w2)" for w1 x w2 d
    using sleepContext_calls [OF count, of d w1] that by simp
  obtain x c1 w1 where turn: "waitTurn env c w = (x, c1, w1)" by (metis prod_cases3)
  note c1 = waitTurn_calls [OF count turn]
  show ?thesis
    using run less turn c1
    by (subst (asm) attempts_from.simps)
       (auto split: option.splits prod.splits http_result.splits if_splits dest: do_calls delay_calls sleep_calls,
        (metis do_calls delay_calls sleep_calls order_refl)+)
qed

lemma attempts_calls:
  assumes count: "counts_calls env calls"
  shows "attempts_from env n req k e c w = (r, c', w') \<Longrightarrow>
    calls w' \<le> calls w + nat (n + 1 - k) \<and> em_cfg c' = em_cfg c"
proof (induction "nat (n + 1 - k)" arbitrary: k e c w)
  case 0
  then show ?case by (auto simp: attempts_from.simps [of env n req k])
next
  case (Suc m)
  then have less: "\<not> k > n" and m: "m = nat (n + 1 - (k + 1))" by auto
  from attempts_round [OF count less Suc.prems] Suc.hyps(1) [OF m] m less show ?case by fastforce
qed


lemma embedWithModel_calls:
  assumes "counts_calls env calls" and "embedWithModel env ctx input model c w = (r, c', w')"
  shows "calls w' \<le> calls w + nat (ec_RetryMax (em_cfg c) + 1) \<and> em_cfg c' = em_cfg c"
proof -
  obtain r1 c1 w1 where run:
    "attempts_from env (ec_RetryMax (em_cfg c)) (build_request ctx (em_cfg c) input model) 0 None c w = (r1, c1, w1)"
    by (metis prod_cases3)
  from attempts_calls [OF assms(1) run] assms(2) run show ?thesis
    by (auto simp: embedWithModel_def split: sum.splits if_splits)
qed

lemma checked_Inr: "checked input vs = Inr us \<longleftrightarrow> us = vs \<and> length vs = length input"
  by (auto simp: checked_def)

lemma Embed_cases:
  assumes run: "Embed U env ctx t chunks c w = (r, c', w')"
  obtains (refused) e where "r = Inl e" "c' = c" "w' = w" "t = [] \<or> embed_input chunks = []"
  | (primary) "embedWithModel env ctx (embed_input chunks) (ec_Model (em_cfg c)) c w = (r, c', w')"
      "t \<noteq> []" "embed_input chunks \<noteq> []"
  | (fallback) e1 c1 w1 r2
      where "embedWithModel env ctx (embed_input chunks) (ec_Model (em_cfg c)) c w = (Inl e1, c1, w1)"
        "embedWithModel env ctx (embed_input chunks) (TrimSpace (ec_FallbackModel (em_cfg c))) c1 w1 = (r2, c', w')"
        "r = (case r2 of Inl e \<Rightarrow> Inl (fallback_error (em_cfg c) e) | Inr vs \<Rightarrow> Inr vs)"
        "fallback_applies U (em_cfg c) e1" "t \<noteq> []" "embed_input chunks \<noteq> []"
proof (cases "t = [] \<or> embed_input chunks = []")
  case True
  with run refused show thesis
    by (auto simp: Embed_def TenantID_Validate_def Let_def embed_input_def split: if_splits)
next
  case False
  then have ne: "chunks \<noteq> []" by (auto simp: embed_input_def)
  obtain r1 c1 w1 where first: "embedWithModel env ctx (embed_input chunks) (ec_Model (em_cfg c)) c w = (r1, c1, w1)"
    by (metis prod_cases3)
  show thesis
  proof (cases "\<exists>e. r1 = Inl e \<and> fallback_applies U (em_cfg c) e")
    case True
    then obtain e where e: "r1 = Inl e" "fallback_applies U (em_cfg c) e" by blast
    obtain r2 c2 w2 where second:
      "embedWithModel env ctx (embed_input chunks) (TrimSpace (ec_FallbackModel (em_cfg c))) c1 w1 = (r2, c2, w2)"
      by (metis prod_cases3)
    have "checked (embed_input chunks) vs = Inr vs" if "r2 = Inr vs" for vs
      using second that by (auto simp: checked_Inr dest: embedWithModel_Inr)
    with run False ne first e second fallback show thesis
      by (auto simp: Embed_def TenantID_Validate_def Let_def split: sum.splits)
  next
    case no: False
    have "checked (embed_input chunks) vs = Inr vs" if "r1 = Inr vs" for vs
      using first that by (auto simp: checked_Inr dest: embedWithModel_Inr)
    with run False ne first no primary show thesis
      by (auto simp: Embed_def TenantID_Validate_def Let_def split: sum.splits if_splits)
  qed
qed

text \<open>A clock that does not run backwards, and a timer that does not fire early.\<close>

definition honest_clock :: "'w embedding_env \<Rightarrow> ('w \<Rightarrow> time) \<Rightarrow> bool" where
  "honest_clock env clk \<longleftrightarrow>
     (\<forall>w. clk w \<le> fst (ee_now env w) \<and> fst (ee_now env w) \<le> clk (snd (ee_now env w))) \<and>
     (\<forall>d w. fst (ee_sleep env d w) = None \<longrightarrow> clk w + d \<le> clk (snd (ee_sleep env d w)))"

section \<open>A transport for the examples\<close>

text \<open>A clock, and a provider that refuses its first request with a 429 and answers the others; the state is the time
  and the number of requests.\<close>

definition sample_env :: "(time \<times> nat) embedding_env" where
  "sample_env =
     \<lparr>ee_now = \<lambda>w. (fst w, w), ee_sleep = \<lambda>d w. (None, (fst w + d, snd w)), ee_newRequest = \<lambda>url. None,
      ee_do = \<lambda>req w. ((if snd w = 0 then Response 429 [] ([], None) else Response 200 [] (''{}'', None)),
                       (fst w, Suc (snd w))),
      ee_decode = \<lambda>body. Inr [[1]], ee_parseTime = \<lambda>s. None\<rparr>"

definition sample_client :: EmbeddingClient where
  "sample_client =
     \<lparr>em_cfg = \<lparr>ec_BaseURL = ''http://p/'', ec_PortkeyAPIKey = ''k'', ec_OpenRouterKey = [], ec_Model = ''@m'',
                 ec_FallbackModel = [], ec_Timeout = 1, ec_ProviderHeader = [], ec_MinInterval = 900000000,
                 ec_RetryMax = 2\<rparr>,
      em_lastRequest = 0\<rparr>"

lemma sample_counts: "counts_calls sample_env snd"
  by (simp add: counts_calls_def sample_env_def)

lemma sample_clock: "honest_clock sample_env fst"
  by (simp add: honest_clock_def sample_env_def)

section \<open>What the client promises\<close>

text \<open>C32: the contract of \<^verbatim>\<open>Embed\<close>. It returns one non-empty vector for every chunk that is not blank after trimming
  (so fewer than the chunks it is given when some of them are blank), sends at most \<^verbatim>\<open>RetryMax + 1\<close> requests in all
  when no fallback model is set and at most twice as many with one, sends nothing for an empty tenant or when no
  chunk has text, and never changes its configuration.\<close>

theorem embed_contract:
  assumes "counts_calls env calls" and "Embed U env ctx t chunks c w = (r, c', w')"
  shows "(\<forall>vs. r = Inr vs \<longrightarrow> length vs = length (embed_input chunks) \<and> [] \<notin> set vs) \<and>
    calls w' \<le> calls w + (if TrimSpace (ec_FallbackModel (em_cfg c)) = [] then 1 else 2) * nat (ec_RetryMax (em_cfg c) + 1) \<and>
    (t = [] \<or> embed_input chunks = [] \<longrightarrow> isl r \<and> calls w' = calls w) \<and> em_cfg c' = em_cfg c"
  using assms(2)
proof (cases rule: Embed_cases)
  case primary
  from embedWithModel_calls [OF assms(1) primary(1)] primary show ?thesis
    by (auto dest: embedWithModel_Inr)
next
  case (fallback e1 c1 w1 r2)
  from embedWithModel_calls [OF assms(1) fallback(1)] embedWithModel_calls [OF assms(1) fallback(2)] fallback
  show ?thesis by (auto simp: fallback_applies_def Let_def dest!: embedWithModel_Inr split: sum.splits)
qed auto

theorem embed_contract_witness:
  "counts_calls sample_env snd \<and>
   (case Embed ascii_tables sample_env None ''t'' [''a'', '' ''] sample_client (1000000000000, 0) of
      (r, c', w') \<Rightarrow> r = Inr [[1]] \<and> length [[1::rat]] = length (embed_input [''a'', '' '']) \<and> snd w' = 2 \<and>
        snd w' \<le> 3)"
proof -
  let ?run = "Embed ascii_tables sample_env None ''t'' [''a'', '' ''] sample_client (1000000000000, 0)"
  have run: "?run = (Inr [[1]], sample_client\<lparr>em_lastRequest := 1000900000000\<rparr>, (1000900000000, 2))"
    by code_simp
  from embed_contract [OF sample_counts run] sample_counts run show ?thesis
    by (simp add: sample_client_def)
qed

section \<open>Pacing and retries\<close>

lemma wrap64_small: "0 \<le> i \<Longrightarrow> i < 2 ^ 63 \<Longrightarrow> wrap64 i = i"
  by (rule wrap64_id) (simp add: is_int64_def)

text \<open>The pacing of the requests. With a clock that does not run backwards and a timer that does not fire early, two
  consecutive turns of the client lie at least \<^verbatim>\<open>MinInterval\<close> apart, and a request that got its turn is sent no earlier than
  the time recorded for it. (The mutex is released during the sleep: this is the guarantee for one caller after
  another.)\<close>

theorem turns_spaced:
  assumes "honest_clock env clk" and "0 \<le> ec_MinInterval (em_cfg c)" and "ec_MinInterval (em_cfg c) < 2 ^ 62"
    and "em_lastRequest c \<le> clk w" and "waitTurn env c w = (None, c', w')"
  shows "em_lastRequest c + ec_MinInterval (em_cfg c) \<le> em_lastRequest c' \<and> em_lastRequest c' \<le> clk w'"
proof -
  have now: "clk w \<le> t" "t \<le> clk w1" if "ee_now env w = (t, w1)" for w t w1
    using assms(1) that by (auto simp: honest_clock_def) (metis fst_conv snd_conv)+
  have sleep: "clk w + d \<le> clk w1" if "ee_sleep env d w = (None, w1)" for w d w1
    using assms(1) that by (auto simp: honest_clock_def) (metis fst_conv snd_conv)
  obtain t w1 where t: "ee_now env w = (t, w1)" by (metis surj_pair)
  let ?next = "em_lastRequest c + ec_MinInterval (em_cfg c)"
  have sub: "time_Sub ?next t = ?next - t" if "?next > t"
    using now(1) [OF t] assms(2-4) that by (simp add: time_Sub_def)
  from assms(5) t sub now [OF t] show ?thesis
    by (auto simp: waitTurn_def sleepContext_def Let_def time_Add_def split: option.splits prod.splits if_splits
        dest!: sleep dest: now)
qed

theorem turns_spaced_witness:
  "waitTurn sample_env (sample_client\<lparr>em_lastRequest := 5\<rparr>) (10, 0) =
     (None, sample_client\<lparr>em_lastRequest := 900000005\<rparr>, (900000005, 0)) \<and>
   (5::int) + 900000000 \<le> 900000005"
proof -
  have run: "waitTurn sample_env (sample_client\<lparr>em_lastRequest := 5\<rparr>) (10, 0) =
     (None, sample_client\<lparr>em_lastRequest := 900000005\<rparr>, (900000005, 0))"
    by code_simp
  from turns_spaced [OF sample_clock _ _ _ run] run show ?thesis by (simp add: sample_client_def)
qed

text \<open>The delay before a retry. For the first 34 attempts (0 to 33) it lies between 0.9 s and 8 s when the response names
  no delay of its own; at the 35th the shift overflows and the delay is negative, which \<^verbatim>\<open>sleepContext\<close> takes as no delay at
  all.\<close>

theorem retry_delay_bounds:
  assumes "TrimSpace header = []" and "0 \<le> k"
  shows "(k \<le> 33 \<longrightarrow> 900000000 \<le> fst (retryDelay env header k w) \<and>
                      fst (retryDelay env header k w) \<le> 8 * nanos_per_second) \<and>
    (k = 34 \<longrightarrow> fst (retryDelay env header k w) < 0 \<and>
                 sleepContext env (fst (retryDelay env header k w)) w = (None, w))"
proof -
  have pow: "1 \<le> (2::int) ^ nat k \<and> (2::int) ^ nat k \<le> 2 ^ 33" if "k \<le> 33"
  proof -
    from that have "nat k \<le> 33" by simp
    then show ?thesis by (metis one_le_numeral one_le_power power_increasing)
  qed
  have "900000000 \<le> backoff k \<and> backoff k \<le> 8 * nanos_per_second" if "k \<le> 33"
    using pow [OF that] by (simp add: backoff_def shift_left_def Let_def wrap64_small nanos_per_second_def)
  moreover have "backoff 34 < 0"
    by (simp add: backoff_def shift_left_def wrap64_def Let_def nanos_per_second_def)
  ultimately show ?thesis using assms by (auto simp: retryDelay_def Let_def sleepContext_def)
qed

theorem retry_delay_bounds_witness:
  "fst (retryDelay sample_env '' '' 3 (0, 0)) \<le> 8 * nanos_per_second \<and> fst (retryDelay sample_env [] 34 (0, 0)) < 0"
proof -
  have "TrimSpace '' '' = []" "TrimSpace [] = []" by code_simp+
  then show ?thesis
    using retry_delay_bounds [of "'' ''" 3 sample_env "(0, 0)"] retry_delay_bounds [of "[]" 34 sample_env "(0, 0)"]
    by simp
qed

end
