(* ===== verification/Chat_Client.thy ===== *)
theory Chat_Client
  imports Embedding_Client
begin

text \<open>
  \<^verbatim>\<open>internal/adapters/gateway/portkey/chat.go\<close>: the chat client behind the answers of the search and the
  rewriting of queries. The HTTP transport and the JSON decoders of the response are parameters; the content of a
  message is a JSON value.
\<close>

record ChatConfig =
  ct_BaseURL :: string
  ct_PortkeyAPIKey :: string
  ct_OpenRouterKey :: string
  ct_Model :: string
  ct_Timeout :: duration
  ct_ProviderHeader :: string

definition chatRequiresOpenRouterAuth :: "string \<Rightarrow> bool" where
  "chatRequiresOpenRouterAuth model \<longleftrightarrow> \<not> HasPrefix (TrimSpace model) ''@''"

definition chat_defaults :: "ChatConfig \<Rightarrow> ChatConfig" where
  "chat_defaults cfg0 =
     (let cfg1 = (if TrimSpace (ct_Model cfg0) = [] then cfg0\<lparr>ct_Model := ''@groq-key/openai/gpt-oss-120b''\<rparr> else cfg0);
          cfg2 = (if ct_Timeout cfg1 \<le> 0 then cfg1\<lparr>ct_Timeout := 12 * nanos_per_second\<rparr> else cfg1)
      in if TrimSpace (ct_ProviderHeader cfg2) = [] \<and> chatRequiresOpenRouterAuth (ct_Model cfg2)
         then cfg2\<lparr>ct_ProviderHeader := ''openrouter''\<rparr> else cfg2)"

definition NewChatClient :: "ChatConfig \<Rightarrow> ChatConfig result" where
  "NewChatClient cfg =
     (if TrimSpace (ct_BaseURL cfg) = [] then Inl (ErrorString ''portkey base url is required'')
      else if TrimSpace (ct_PortkeyAPIKey cfg) = [] then Inl (ErrorString ''portkey api key is required'')
      else if chatRequiresOpenRouterAuth (ct_Model cfg) \<and> TrimSpace (ct_OpenRouterKey cfg) = []
      then Inl (ErrorString ''openrouter api key is required'')
      else Inr (chat_defaults cfg))"

section \<open>Requests\<close>

record chat_request =
  cr_url :: string
  cr_model :: string
  cr_messages :: "(string \<times> string) list"
  cr_temperature :: rat
  cr_max_tokens :: int
  cr_user :: "string option"
  cr_headers :: strmap

text \<open>A choice of the response: the content of its message and its text.\<close>

record chat_choice =
  ch_Content :: json
  ch_Text :: string

record 'w chat_env =
  ce_newRequest :: "string \<Rightarrow> error option"
  ce_do :: "chat_request \<Rightarrow> 'w \<Rightarrow> http_result \<times> 'w"
  ce_choices :: "string \<Rightarrow> chat_choice list result"
  ce_structured :: "string \<Rightarrow> StructuredQuery result"

definition lf :: string where
  "lf = [CHR 0x0A]"

definition lines :: "string list \<Rightarrow> string" where
  "lines ls = concat (map (\<lambda>l. l @ lf) ls)"

definition system_prompt :: string where
  "system_prompt =
     ''You are a RAG answer generator. Use only the provided Context. Do not use outside knowledge. If Context is insufficient, clearly say so. Return output in this exact order and format:'' @ lf @
     ''1. ANSWER: <one concise factual answer>'' @ lf @
     ''2. CONFIDENCE: <High|Medium|Low>'' @ lf @
     ''3. GAPS: <what is missing, or 'None'>'' @ lf @
     ''Rules: keep facts grounded to context, do not invent values, do not reorder sections, and do not add extra sections.''"

definition answer_prompt :: "string \<Rightarrow> string \<Rightarrow> string" where
  "answer_prompt query prompt =
     ''Question:'' @ lf @ TrimSpace query @ lf @ lf @ ''Context:'' @ lf @ prompt @ lf @ lf @
     ''Return strictly in the required 3-section order.''"

definition rewrite_prompt :: "string \<Rightarrow> string" where
  "rewrite_prompt query =
     lines
      [''You are a Search Optimization Expert. Your goal is to take a raw user query and transform it into a structured search request for a Retrieval-Augmented Generation (RAG) system.'',
       [], ''Instructions:'', [],
       ''Decompose/Expand: Generate 3 distinct search queries that capture different facets of the user's intent (e.g., technical, conceptual, and summary-based).'',
       [],
       ''Extract Metadata: Identify constraints mentioned in the query (e.g., date, author, category, status) and map them to the provided metadata schema.'',
       [], ''Format: Output ONLY a valid JSON object.'', [], ''Metadata Schema:'', [],
       ''category: (e.g., 'financial', 'legal', 'technical')'', [],
       ''date_range: (e.g., 'last_24h', '2024', 'none')'', [], ''priority: (1 to 5)'', [],
       ''User Input: \"'' @ query @ ''\"'', [], ''JSON Output Format:'', ''{'',
       ''\"expanded_queries\": [\"query 1\", \"query 2\", \"query 3\"],'', ''\"metadata_filters\": {'',
       ''\"category\": \"value\",'', ''\"date_range\": \"value\",'', ''\"priority\": integer or null'', ''}'', ''}'']"

definition chat_url :: "ChatConfig \<Rightarrow> string" where
  "chat_url cfg = trim_right_slash (ct_BaseURL cfg) @ ''/v1/chat/completions''"

definition provider_headers :: "ChatConfig \<Rightarrow> strmap" where
  "provider_headers cfg =
     (let provider = TrimSpace (ct_ProviderHeader cfg)
      in if provider \<noteq> [] then [(''x-portkey-provider'', provider)] else [])"

definition answer_request :: "Context option \<Rightarrow> ChatConfig \<Rightarrow> string \<Rightarrow> string \<Rightarrow> chat_request" where
  "answer_request ctx cfg query prompt =
     \<lparr>cr_url = chat_url cfg, cr_model = ct_Model cfg,
      cr_messages = [(''system'', system_prompt), (''user'', answer_prompt query prompt)],
      cr_temperature = 1 / 10, cr_max_tokens = 512, cr_user = ProviderUserIDFromContext ctx,
      cr_headers =
        [(''Content-Type'', ''application/json''), (''x-portkey-api-key'', TrimSpace (ct_PortkeyAPIKey cfg))] @
        (if chatRequiresOpenRouterAuth (ct_Model cfg) \<and> TrimSpace (ct_OpenRouterKey cfg) \<noteq> []
         then [(''Authorization'', ''Bearer '' @ TrimSpace (ct_OpenRouterKey cfg))] else []) @
        provider_headers cfg\<rparr>"

definition rewrite_request :: "Context option \<Rightarrow> ChatConfig \<Rightarrow> string \<Rightarrow> chat_request" where
  "rewrite_request ctx cfg query =
     \<lparr>cr_url = chat_url cfg, cr_model = ''@google-gemini/gemini-2.5-flash'',
      cr_messages = [(''user'', rewrite_prompt query)], cr_temperature = 0, cr_max_tokens = 512,
      cr_user = ProviderUserIDFromContext ctx,
      cr_headers =
        [(''Content-Type'', ''application/json''), (''x-portkey-api-key'', TrimSpace (ct_PortkeyAPIKey cfg))] @
        provider_headers cfg\<rparr>"

section \<open>Responses\<close>

definition truncateChatBody :: "string \<Rightarrow> string" where
  "truncateChatBody body = (if length body \<le> 240 then body else take 240 body @ ''...'')"

lemma size_field: "map_of obj k = Some v \<Longrightarrow> size v < Suc (size_list (size_prod (\<lambda>_. 0) size) obj)"
  by (induction obj) (auto split: if_splits)

text \<open>\<^verbatim>\<open>flattenMessageContent\<close>: the text of a message content; a number of a JSON value is a \<^verbatim>\<open>float64\<close>.\<close>

function flattenMessageContent :: "json \<Rightarrow> string" where
  "flattenMessageContent (JString s) = TrimSpace s"
| "flattenMessageContent (JArray xs) =
     TrimSpace (Join (filter (\<lambda>s. s \<noteq> []) (map (\<lambda>x. TrimSpace (flattenMessageContent x)) xs)) '' '')"
| "flattenMessageContent (JObject obj) =
     (case map_of obj ''text'' of
        Some v \<Rightarrow> flattenMessageContent v
      | None \<Rightarrow>
          (case map_of obj ''content'' of
             Some v \<Rightarrow> flattenMessageContent v
           | None \<Rightarrow> (case map_of obj ''value'' of Some v \<Rightarrow> flattenMessageContent v | None \<Rightarrow> [])))"
| "flattenMessageContent (JNumber q) = TrimSpace (FormatFloat q)"
| "flattenMessageContent (JBool b) = []"
| "flattenMessageContent JNull = []"
  by pat_completeness auto
termination
proof (relation "measure size", goal_cases)
  case (2 xs x)
  then show ?case by (simp add: size_list_estimation less_Suc_eq_le size_list_estimation')
qed (auto dest: size_field)

definition empty_response :: error where
  "empty_response = ErrorString ''empty query rewrite response''"

definition extractChatChoiceText :: "'w chat_env \<Rightarrow> string \<Rightarrow> string result" where
  "extractChatChoiceText env rawBody =
     (case ce_choices env rawBody of
        Inl e \<Rightarrow> Inl e
      | Inr [] \<Rightarrow> Inl empty_response
      | Inr (choice # _) \<Rightarrow>
          if TrimSpace (ch_Text choice) \<noteq> [] then Inr (TrimSpace (ch_Text choice))
          else let t = TrimSpace (flattenMessageContent (ch_Content choice))
               in if t = [] then Inl empty_response else Inr t)"

section \<open>Answers\<close>

definition chat_status_error :: "string \<Rightarrow> int \<Rightarrow> string \<Rightarrow> error" where
  "chat_status_error model status raw =
     (let msg = TrimSpace raw
      in if msg = []
         then ErrorString (''portkey chat request failed: model='' @ model @ '' status='' @ Itoa status)
         else ErrorString (''portkey chat request failed: model='' @ model @ '' status='' @ Itoa status @ '' body='' @
                truncateChatBody msg))"

definition GenerateAnswer ::
  "'w chat_env \<Rightarrow> ChatConfig \<Rightarrow> Context option \<Rightarrow> string \<Rightarrow> string \<Rightarrow> 'w \<Rightarrow> string result \<times> 'w" where
  "GenerateAnswer env cfg ctx query contextText w =
     (let prompt = TrimSpace contextText
      in if prompt = [] then (Inl (ErrorString ''empty retrieval context''), w)
         else case ce_newRequest env (chat_url cfg) of
             Some e \<Rightarrow> (Inl e, w)
           | None \<Rightarrow>
               (case ce_do env (answer_request ctx cfg query prompt) w of
                  (TransportError e, w1) \<Rightarrow> (Inl e, w1)
                | (Response status _ (rawBody, readErr), w1) \<Rightarrow>
                    ((case readErr of
                        Some e \<Rightarrow> Inl e
                      | None \<Rightarrow>
                          if status < 200 \<or> status \<ge> 300 then Inl (chat_status_error (ct_Model cfg) status rawBody)
                          else (case extractChatChoiceText env rawBody of
                              Inl e \<Rightarrow> Inl e
                            | Inr content \<Rightarrow>
                                if TrimSpace content = [] then Inl (ErrorString ''empty llm response'')
                                else Inr (TrimSpace content))),
                     w1)))"

section \<open>Query rewriting\<close>

definition fence :: string where
  "fence = ''```''"

definition strip_fence :: "string \<Rightarrow> string" where
  "strip_fence responseText =
     (let t = TrimSpace responseText
      in TrimSpace
          (if HasPrefix t (fence @ ''json'') then TrimSuffix (TrimPrefix t (fence @ ''json'')) fence
           else if HasPrefix t fence then TrimSuffix (TrimPrefix t fence) fence
           else t))"

definition rewrite_result :: "'w chat_env \<Rightarrow> string \<Rightarrow> int \<Rightarrow> string \<Rightarrow> StructuredQuery result" where
  "rewrite_result env trimmed status rawBody =
     (if status < 200 \<or> status \<ge> 300
      then Inl (ErrorString (''portkey query rewrite failed: status='' @ Itoa status @ '' body='' @ truncateChatBody rawBody))
      else case extractChatChoiceText env rawBody of
          Inl e \<Rightarrow> Inl e
        | Inr responseText \<Rightarrow>
            (case ce_structured env (strip_fence responseText) of
               Inl e \<Rightarrow> Inl (WrapError (''failed to parse structured query JSON: '' @ error_text e) e)
             | Inr sq \<Rightarrow>
                 Inr (if sq_ExpandedQueries sq = [] then sq\<lparr>sq_ExpandedQueries := [trimmed]\<rparr> else sq)))"

definition RewriteQuery ::
  "'w chat_env \<Rightarrow> ChatConfig \<Rightarrow> Context option \<Rightarrow> TenantID \<Rightarrow> string \<Rightarrow> 'w \<Rightarrow> StructuredQuery result \<times> 'w" where
  "RewriteQuery env cfg ctx tenantID originalQuery w =
     (case TenantID_Validate tenantID of
        Some e \<Rightarrow> (Inl e, w)
      | None \<Rightarrow>
          let trimmed = TrimSpace originalQuery
          in if trimmed = [] then (Inl (ErrorString ''query is required''), w)
             else case ce_newRequest env (chat_url cfg) of
                 Some e \<Rightarrow> (Inl e, w)
               | None \<Rightarrow>
                   (case ce_do env (rewrite_request ctx cfg trimmed) w of
                      (TransportError e, w1) \<Rightarrow> (Inl e, w1)
                    | (Response status _ (rawBody, readErr), w1) \<Rightarrow>
                        ((case readErr of Some e \<Rightarrow> Inl e | None \<Rightarrow> rewrite_result env trimmed status rawBody), w1)))"

section \<open>Properties\<close>

lemma flatten_trimmed: "TrimSpace (flattenMessageContent j) = flattenMessageContent j"
  by (induction j rule: flattenMessageContent.induct) (auto split: option.splits)

lemma extract_trimmed: "extractChatChoiceText env raw = Inr t \<Longrightarrow> t \<noteq> [] \<and> TrimSpace t = t"
  by (cases "ce_choices env raw"; cases "projr (ce_choices env raw)")
     (auto simp: extractChatChoiceText_def Let_def split: if_splits)

text \<open>C35: what an answer is. A successful \<^verbatim>\<open>GenerateAnswer\<close> has sent exactly one request, to the configured model,
  whose user message holds the question and the whole trimmed context, and returns a non-empty trimmed text taken
  from the first choice of a response with a 2xx status; with a blank context nothing is sent.\<close>

theorem generate_answer_contract:
  "(TrimSpace contextText = [] \<longrightarrow> GenerateAnswer env cfg ctx q contextText w = (Inl (ErrorString ''empty retrieval context''), w)) \<and>
   (\<forall>ans w'. GenerateAnswer env cfg ctx q contextText w = (Inr ans, w') \<longrightarrow>
      ans \<noteq> [] \<and> TrimSpace ans = ans \<and>
      (\<exists>req status h raw. ce_do env req w = (Response status h (raw, None), w') \<and> 200 \<le> status \<and> status < 300 \<and>
         extractChatChoiceText env raw = Inr ans \<and> cr_model req = ct_Model cfg \<and>
         (\<exists>pre mid post. (''user'', pre @ TrimSpace q @ mid @ TrimSpace contextText @ post) \<in> set (cr_messages req))))"
proof (intro conjI allI impI)
  show "TrimSpace contextText = [] \<Longrightarrow>
      GenerateAnswer env cfg ctx q contextText w = (Inl (ErrorString ''empty retrieval context''), w)"
    by (simp add: GenerateAnswer_def)
next
  fix ans w'
  assume run: "GenerateAnswer env cfg ctx q contextText w = (Inr ans, w')"
  let ?req = "answer_request ctx cfg q (TrimSpace contextText)"
  from run obtain status h raw content where sent: "ce_do env ?req w = (Response status h (raw, None), w')"
    and ok: "200 \<le> status" "status < 300" and c: "extractChatChoiceText env raw = Inr content" "ans = TrimSpace content"
    by (auto simp: GenerateAnswer_def Let_def split: if_splits option.splits prod.splits http_result.splits sum.splits)
  from c extract_trimmed have choice: "extractChatChoiceText env raw = Inr ans" by force
  have "(''user'', (''Question:'' @ lf) @ TrimSpace q @ (lf @ lf @ ''Context:'' @ lf) @ TrimSpace contextText @
      (lf @ lf @ ''Return strictly in the required 3-section order.'')) \<in> set (cr_messages ?req)"
    by (simp add: answer_request_def answer_prompt_def)
  moreover have "cr_model ?req = ct_Model cfg" by (simp add: answer_request_def)
  ultimately show "\<exists>req status h raw. ce_do env req w = (Response status h (raw, None), w') \<and> 200 \<le> status \<and> status < 300 \<and>
         extractChatChoiceText env raw = Inr ans \<and> cr_model req = ct_Model cfg \<and>
         (\<exists>pre mid post. (''user'', pre @ TrimSpace q @ mid @ TrimSpace contextText @ post) \<in> set (cr_messages req))"
    using sent ok choice by blast
  from extract_trimmed [OF choice] show "ans \<noteq> []" and "TrimSpace ans = ans" by simp_all
qed

lemma TrimSpace_fenced: "TrimSpace (fence @ s @ fence) = fence @ s @ fence"
proof -
  have left: "trim_left (fence @ s @ fence) = fence @ s @ fence"
    by (subst trim_left.simps) (simp add: fence_def ascii_space_def space2_def space3_def byte_def)
  have "tail_space (fence @ s @ fence) = 0"
    by (simp add: tail_space_def fence_def ascii_space_def space2_def space3_def byte_def)
  then have "trim_right (fence @ s @ fence) = fence @ s @ fence" by (subst trim_right.simps) simp
  with left show ?thesis by (simp add: TrimSpace_def)
qed

lemma TrimSuffix_append [simp]: "TrimSuffix (s @ x) x = s"
  by (simp add: TrimSuffix_def HasSuffix_def)

lemma TrimPrefix_append [simp]: "TrimPrefix (x @ s) x = s"
  by (simp add: TrimPrefix_def HasPrefix_def)

lemma HasPrefix_append [simp]: "HasPrefix (x @ s) x"
  by (simp add: HasPrefix_def)

lemma strip_fence_TrimSpace [simp]: "strip_fence (TrimSpace s) = strip_fence s"
  by (simp add: strip_fence_def)

lemma rewrite_result_Inr:
  "rewrite_result env trimmed status raw = Inr sq \<longleftrightarrow>
    200 \<le> status \<and> status < 300 \<and>
    (\<exists>reply sq0. extractChatChoiceText env raw = Inr reply \<and> ce_structured env (strip_fence reply) = Inr sq0 \<and>
       sq = (if sq_ExpandedQueries sq0 = [] then sq0\<lparr>sq_ExpandedQueries := [trimmed]\<rparr> else sq0))"
  by (auto simp: rewrite_result_def split: sum.splits)

lemma RewriteQuery_Inr:
  "RewriteQuery env cfg ctx t q w = (Inr sq, w') \<longleftrightarrow>
    TenantID_Validate t = None \<and> TrimSpace q \<noteq> [] \<and> ce_newRequest env (chat_url cfg) = None \<and>
    (\<exists>status h raw. ce_do env (rewrite_request ctx cfg (TrimSpace q)) w = (Response status h (raw, None), w') \<and>
       rewrite_result env (TrimSpace q) status raw = Inr sq)"
  by (cases "t = []") (auto simp: RewriteQuery_def TenantID_Validate_def Let_def split: option.splits prod.splits http_result.splits)

text \<open>C36: what a rewriting is. \<^verbatim>\<open>RewriteQuery\<close> succeeds exactly for a valid tenant and a query that is not blank, when the one
  request it sends got a response with a 2xx status whose text can be decoded, and the rewritten query is the decoded
  one as it is, filters and expansions, except that a decoded query without expansions gets the trimmed original
  query as its only one: there is always a query to search for. The decoder gets the text of the response without
  white space and without the markdown fence around it, with or without the \<^verbatim>\<open>json\<close> tag. The model named in the
  configuration plays no part: the request names a model of its own.\<close>

theorem rewrite_query_contract:
  "(\<forall>sq w'. RewriteQuery env cfg ctx t q w = (Inr sq, w') \<longleftrightarrow>
      TenantID_Validate t = None \<and> TrimSpace q \<noteq> [] \<and> ce_newRequest env (chat_url cfg) = None \<and>
      (\<exists>status h raw reply sq0. ce_do env (rewrite_request ctx cfg (TrimSpace q)) w = (Response status h (raw, None), w') \<and>
         200 \<le> status \<and> status < 300 \<and> extractChatChoiceText env raw = Inr reply \<and>
         ce_structured env (strip_fence reply) = Inr sq0 \<and>
         sq = (if sq_ExpandedQueries sq0 = [] then sq0\<lparr>sq_ExpandedQueries := [TrimSpace q]\<rparr> else sq0))) \<and>
   (\<forall>sq w'. RewriteQuery env cfg ctx t q w = (Inr sq, w') \<longrightarrow> sq_ExpandedQueries sq \<noteq> []) \<and>
   strip_fence (fence @ ''json'' @ body @ fence) = TrimSpace body \<and>
   (\<not> HasPrefix (body @ fence) ''json'' \<longrightarrow> strip_fence (fence @ body @ fence) = TrimSpace body) \<and>
   (\<not> HasPrefix (TrimSpace body) fence \<longrightarrow> strip_fence body = TrimSpace body) \<and>
   RewriteQuery env (cfg\<lparr>ct_Model := m\<rparr>) ctx t q w = RewriteQuery env cfg ctx t q w"
proof (intro conjI)
  show "\<forall>sq w'. RewriteQuery env cfg ctx t q w = (Inr sq, w') \<longleftrightarrow>
      TenantID_Validate t = None \<and> TrimSpace q \<noteq> [] \<and> ce_newRequest env (chat_url cfg) = None \<and>
      (\<exists>status h raw reply sq0. ce_do env (rewrite_request ctx cfg (TrimSpace q)) w = (Response status h (raw, None), w') \<and>
         200 \<le> status \<and> status < 300 \<and> extractChatChoiceText env raw = Inr reply \<and>
         ce_structured env (strip_fence reply) = Inr sq0 \<and>
         sq = (if sq_ExpandedQueries sq0 = [] then sq0\<lparr>sq_ExpandedQueries := [TrimSpace q]\<rparr> else sq0))"
    unfolding RewriteQuery_Inr rewrite_result_Inr by blast
  show "\<forall>sq w'. RewriteQuery env cfg ctx t q w = (Inr sq, w') \<longrightarrow> sq_ExpandedQueries sq \<noteq> []"
    by (auto simp: RewriteQuery_Inr rewrite_result_Inr dest: arg_cong [where f = sq_ExpandedQueries] split: if_splits)
next
  have "TrimSpace (fence @ ''json'' @ body @ fence) = (fence @ ''json'') @ body @ fence"
    using TrimSpace_fenced [of "''json'' @ body"] by simp
  then show "strip_fence (fence @ ''json'' @ body @ fence) = TrimSpace body"
    unfolding strip_fence_def Let_def by (simp only: HasPrefix_append TrimPrefix_append TrimSuffix_append if_True)
  show "\<not> HasPrefix (body @ fence) ''json'' \<longrightarrow> strip_fence (fence @ body @ fence) = TrimSpace body"
  proof
    assume no: "\<not> HasPrefix (body @ fence) ''json''"
    then have "\<not> HasPrefix (fence @ body @ fence) (fence @ ''json'')"
      by (simp add: HasPrefix_iff fence_def)
    then show "strip_fence (fence @ body @ fence) = TrimSpace body"
      unfolding strip_fence_def Let_def
      by (simp only: TrimSpace_fenced HasPrefix_append TrimPrefix_append TrimSuffix_append if_True if_False)
  qed
  show "\<not> HasPrefix (TrimSpace body) fence \<longrightarrow> strip_fence body = TrimSpace body"
  proof
    assume no: "\<not> HasPrefix (TrimSpace body) fence"
    then have "\<not> HasPrefix (TrimSpace body) (fence @ ''json'')" by (auto simp: HasPrefix_iff prefix_def)
    with no show "strip_fence body = TrimSpace body" by (simp add: strip_fence_def)
  qed
  show "RewriteQuery env (cfg\<lparr>ct_Model := m\<rparr>) ctx t q w = RewriteQuery env cfg ctx t q w"
  proof -
    have "chat_url (cfg\<lparr>ct_Model := m\<rparr>) = chat_url cfg"
      and "rewrite_request ctx (cfg\<lparr>ct_Model := m\<rparr>) x = rewrite_request ctx cfg x" for x
      by (simp_all add: rewrite_request_def chat_url_def provider_headers_def)
    then show ?thesis unfolding RewriteQuery_def by (simp only:)
  qed
qed

section \<open>Witnesses\<close>

definition demo_chat :: "nat chat_env" where
  "demo_chat =
     \<lparr>ce_newRequest = \<lambda>url. None, ce_do = \<lambda>req w. (Response 200 [] (''{}'', None), Suc w),
      ce_choices = \<lambda>raw. Inr [\<lparr>ch_Content = JArray [JString '' hi '', JNull, JObject [(''text'', JString ''you'')]], ch_Text = []\<rparr>],
      ce_structured = \<lambda>s. Inr \<lparr>sq_ExpandedQueries = [],
        sq_MetadataFilters = \<lparr>mf_Category = [], mf_DateRange = [], mf_Priority = None\<rparr>\<rparr>\<rparr>"

definition demo_chat_config :: ChatConfig where
  "demo_chat_config =
     \<lparr>ct_BaseURL = ''http://p/'', ct_PortkeyAPIKey = ''k'', ct_OpenRouterKey = [], ct_Model = ''@m'', ct_Timeout = 1,
      ct_ProviderHeader = []\<rparr>"

theorem generate_answer_contract_witness:
  "GenerateAnswer demo_chat demo_chat_config None ''q'' ''context'' 0 = (Inr ''hi you'', 1) \<and> TrimSpace ''hi you'' = ''hi you''"
proof -
  have run: "GenerateAnswer demo_chat demo_chat_config None ''q'' ''context'' 0 = (Inr ''hi you'', 1)" by code_simp
  from conjunct2 [OF generate_answer_contract, rule_format, OF run] run show ?thesis by simp
qed

theorem rewrite_query_contract_witness:
  "\<exists>sq. RewriteQuery demo_chat demo_chat_config None ''t'' '' q '' 0 = (Inr sq, 1) \<and> sq_ExpandedQueries sq \<noteq> []"
proof -
  have run: "RewriteQuery demo_chat demo_chat_config None ''t'' '' q '' 0 =
      (Inr \<lparr>sq_ExpandedQueries = [''q''], sq_MetadataFilters = \<lparr>mf_Category = [], mf_DateRange = [], mf_Priority = None\<rparr>\<rparr>, 1)"
    by code_simp
  from conjunct1 [OF conjunct2 [OF rewrite_query_contract], rule_format, OF run] run show ?thesis by blast
qed

end
