(* ===== verification/Retrieval.thy ===== *)
theory Retrieval
  imports Rerank_Gateway
begin

text \<open>
  \<^verbatim>\<open>internal/services/retrieval/service.go\<close>: query rewriting, vector search with deduplication, the tenant
  filter, the ranking by identity terms, and reranking behind a timeout and a circuit breaker. The
  collaborators are interfaces: optional operations on a state \<open>'w\<close>. The race between the reranker and
  its timeout is resolved by the environment: a call reports which side of the \<^verbatim>\<open>select\<close> came first.
\<close>

section \<open>Identity terms\<close>

definition path_Base :: "string \<Rightarrow> string" where
  "path_Base p =
     (if p = [] then ''.''
      else let s = trim_slashes p;
               t = (case LastIndexByte s (CHR ''/'') of None \<Rightarrow> s | Some i \<Rightarrow> drop (i + 1) s)
           in if t = [] then ''/'' else t)"

definition stop_words :: "string list" where
  "stop_words =
     [''resume'', ''cv'', ''pdf'', ''skills'', ''skill'', ''top'', ''show'', ''list'',
      ''what'', ''who'', ''for'', ''of'', ''the'', ''and'', ''with'', ''from'',
      ''candidate'', ''profile'', ''about'', ''document'', ''documents'']"

definition tokenizeIdentityTerms :: "unicode_tables \<Rightarrow> string \<Rightarrow> string list" where
  "tokenizeIdentityTerms U input =
     (if TrimSpace input = [] then []
      else
        let b = concat (map (\<lambda>r. if rune_IsLetter U r \<or> rune_IsDigit U r \<or> rune_IsSpace r
                                 then encode_rune (rune_ToLower U r) else '' '') (runes input))
        in filter (\<lambda>word. word \<notin> set stop_words \<and>
                     \<not> (list_all (\<lambda>ch. 48 \<le> ch \<and> ch \<le> 57) (runes word) \<or> length word < 3))
             (Fields b))"

definition metadata_value :: "strmap \<Rightarrow> string \<Rightarrow> string" where
  "metadata_value m key = (case map_of m key of None \<Rightarrow> [] | Some v \<Rightarrow> v)"

definition identity_keys :: "string list" where
  "identity_keys = [''person_hint'', ''file_name'', ''relative_path'', ''source_uri'', ''object_key'']"

text \<open>The order-preserving deduplication by a set of seen terms.\<close>

fun dedup :: "'a list \<Rightarrow> 'a list \<Rightarrow> 'a list" where
  "dedup seen [] = []"
| "dedup seen (x # xs) = (if x \<in> set seen then dedup seen xs else x # dedup (x # seen) xs)"

definition documentIdentityTerms :: "unicode_tables \<Rightarrow> RetrievalDocument \<Rightarrow> string list" where
  "documentIdentityTerms U doc =
     (let terms =
            (if doc_SourceURI doc \<noteq> [] then tokenizeIdentityTerms U (path_Base (doc_SourceURI doc)) else []) @
            concat (map (\<lambda>key. let value = metadata_value (doc_Metadata doc) key
                              in if TrimSpace value \<noteq> [] then tokenizeIdentityTerms U value else [])
                      identity_keys)
      in dedup [] terms)"

definition countIdentityMatches :: "unicode_tables \<Rightarrow> string list \<Rightarrow> RetrievalDocument \<Rightarrow> nat" where
  "countIdentityMatches U targeted doc =
     length (filter (\<lambda>term. term \<in> set targeted) (documentIdentityTerms U doc))"

definition applyMetadataIntentRanking ::
  "unicode_tables \<Rightarrow> string \<Rightarrow> RetrievalDocument list \<Rightarrow> RetrievalDocument list" where
  "applyMetadataIntentRanking U queryText docs =
     (if length docs < 2 then docs
      else
        let queryTerms = tokenizeIdentityTerms U queryText
        in if queryTerms = [] then docs
           else
             let known = concat (map (documentIdentityTerms U) docs);
                 targeted = filter (\<lambda>term. term \<in> set known) queryTerms
             in if targeted = [] then docs
                else SliceStable
                  (\<lambda>x y. let leftMatches = countIdentityMatches U targeted x;
                             rightMatches = countIdentityMatches U targeted y
                         in if leftMatches = rightMatches then doc_Score x > doc_Score y
                            else leftMatches > rightMatches) docs)"

definition buildCitations :: "RetrievalDocument list \<Rightarrow> string list" where
  "buildCitations docs =
     map (\<lambda>doc. if doc_SourceURI doc \<noteq> [] then doc_SourceURI doc else ''doc:'' @ doc_DocumentID doc) docs"

text \<open>The query augmented with identity terms it does not cover yet.\<close>

fun augment :: "unicode_tables \<Rightarrow> string list \<Rightarrow> string \<Rightarrow> string list \<Rightarrow> string" where
  "augment U seen augmented [] = augmented"
| "augment U seen augmented (p # ps) =
     (let phrase = TrimSpace p
      in if phrase = [] then augment U seen augmented ps
         else let phraseTokens = Fields (ToLower U phrase)
              in if list_all (\<lambda>tok. tok \<in> set seen) phraseTokens then augment U seen augmented ps
                 else augment U (phraseTokens @ seen) (augmented @ '' '' @ phrase) ps)"

definition buildHeuristicRetrievalQuery :: "unicode_tables \<Rightarrow> string \<Rightarrow> string \<Rightarrow> string" where
  "buildHeuristicRetrievalQuery U originalQuery effectiveQuery =
     (let base = (if TrimSpace effectiveQuery = [] then TrimSpace originalQuery else TrimSpace effectiveQuery)
      in if base = [] then []
         else let extra = tokenizeIdentityTerms U originalQuery
              in if extra = [] then base
                 else let augmented = augment U (Fields (ToLower U base)) base extra
                      in if length augmented > 512 then take 512 augmented else augmented)"

section \<open>The service\<close>

record 'w vector_searcher =
  se_Search :: "TenantID \<Rightarrow> string \<Rightarrow> int \<Rightarrow> 'w \<Rightarrow> RetrievalDocument list result \<times> 'w"
  se_SearchByEmbedding ::
    "(TenantID \<Rightarrow> embedding \<Rightarrow> int \<Rightarrow> 'w \<Rightarrow> RetrievalDocument list result \<times> 'w) option"
  se_LastVectorTrace :: "('w \<Rightarrow> VectorCallTrace) option"

datatype rerank_outcome = Finished "RerankCandidate list result" | TimedOut error

record 'w reranker =
  rr_Rerank :: "RerankRequest \<Rightarrow> 'w \<Rightarrow> rerank_outcome \<times> 'w"
  rr_LastGatewayTrace :: "('w \<Rightarrow> GatewayCallTrace) option"

record 'w retrieval_service =
  rs_searcher :: "'w vector_searcher option"
  rs_reranker :: "'w reranker option"
  rs_embedder :: "(TenantID \<Rightarrow> string list \<Rightarrow> 'w \<Rightarrow> embedding list result \<times> 'w) option"
  rs_queryRewriter :: "(TenantID \<Rightarrow> string \<Rightarrow> 'w \<Rightarrow> StructuredQuery result \<times> 'w) option"
  rs_clock :: "'w \<Rightarrow> time \<times> 'w"
  rs_rerankTopK :: int
  rs_rerankTimeout :: duration
  rs_failureThreshold :: int
  rs_consecutiveRerankFailures :: int

text \<open>The settings of \<^verbatim>\<open>NewDeterministicRetrievalService\<close>; the collaborators are stored as given.\<close>

definition NewDeterministicRetrievalService ::
  "'w retrieval_service \<Rightarrow> int \<Rightarrow> duration \<Rightarrow> int \<Rightarrow> 'w retrieval_service" where
  "NewDeterministicRetrievalService deps topK timeout threshold =
     deps\<lparr>rs_rerankTopK := (if topK \<le> 0 then 5 else topK),
          rs_rerankTimeout := (if timeout \<le> 0 then 15 * nanos_per_second else timeout),
          rs_failureThreshold := (if threshold \<le> 0 then 3 else threshold),
          rs_consecutiveRerankFailures := 0\<rparr>"

definition rerankWithTimeout ::
  "'w reranker \<Rightarrow> RerankRequest \<Rightarrow> 'w \<Rightarrow> RerankCandidate list result \<times> 'w" where
  "rerankWithTimeout rk req w =
     (case rr_Rerank rk req w of
        (TimedOut e, w1) \<Rightarrow> (Inl e, w1)
      | (Finished out, w1) \<Rightarrow> (out, w1))"

text \<open>\<^verbatim>\<open>Rerank\<close> returns candidates beside the error; the pair is kept.\<close>

definition Rerank ::
  "RequestMetadata \<Rightarrow> RerankRequest \<Rightarrow> 'w retrieval_service \<Rightarrow> 'w \<Rightarrow>
   (RerankCandidate list \<times> error option) \<times> 'w retrieval_service \<times> 'w" where
  "Rerank metadata req s w =
     (case RequestMetadata_Validate metadata of
        Some e \<Rightarrow> (([], Some (validation_error ''request_metadata'' e)), s, w)
      | None \<Rightarrow>
     (case RerankRequest_Validate req of
        Some e \<Rightarrow> (([], Some (validation_error ''rerank_request'' e)), s, w)
      | None \<Rightarrow>
          if rm_TenantID metadata \<noteq> rk_TenantID req
          then (([], Some (ErrorString ''tenant mismatch between metadata and rerank request'')), s, w)
          else case rs_reranker s of
              None \<Rightarrow> ((TopCandidates req, None), s, w)
            | Some rk \<Rightarrow>
                if rs_consecutiveRerankFailures s \<ge> rs_failureThreshold s
                then ((TopCandidates req, Some (ErrorString ''rerank circuit breaker open'')), s, w)
                else (case rerankWithTimeout rk req w of
                        (Inl e, w1) \<Rightarrow>
                          ((TopCandidates req, Some e),
                           s\<lparr>rs_consecutiveRerankFailures := inc64 (rs_consecutiveRerankFailures s)\<rparr>, w1)
                      | (Inr ranked, w1) \<Rightarrow>
                          ((if rk_TopN req \<ge> int (length ranked) then ranked
                            else take (nat (rk_TopN req)) ranked, None),
                           s\<lparr>rs_consecutiveRerankFailures := 0\<rparr>, w1))))"

text \<open>The map from document to score that the reranked candidates define; a later candidate with the same
  document overwrites, a document without one has score zero.\<close>

definition score_by_document :: "RerankCandidate list \<Rightarrow> string \<Rightarrow> float64" where
  "score_by_document ranked =
     fold (\<lambda>(idx, c) m. m(rc_DocumentID c := fl (of_int (int (length ranked) - int idx) + rc_Score c)))
       (enumerate 0 ranked) (\<lambda>_. 0)"

definition order_by_rank :: "RerankCandidate list \<Rightarrow> RetrievalDocument list \<Rightarrow> RetrievalDocument list" where
  "order_by_rank ranked docs =
     SliceStable
       (\<lambda>x y. let leftScore = score_by_document ranked (doc_DocumentID x);
                  rightScore = score_by_document ranked (doc_DocumentID y)
              in if leftScore = rightScore then doc_Score x > doc_Score y else leftScore > rightScore) docs"

definition rerank_candidates :: "'w retrieval_service \<Rightarrow> RetrievalDocument list \<Rightarrow> RerankCandidate list" where
  "rerank_candidates s docs =
     (let limit = (if rs_rerankTopK s < int (length docs) then rs_rerankTopK s else int (length docs))
      in map (\<lambda>doc. \<lparr>rc_DocumentID = doc_DocumentID doc, rc_Text = doc_Content doc,
                     rc_Score = doc_Score doc\<rparr>) (take (nat limit) docs))"

definition rerank_request :: "RetrievalQuery \<Rightarrow> RerankCandidate list \<Rightarrow> RerankRequest" where
  "rerank_request query candidates =
     \<lparr>rk_TenantID = rq_TenantID query, rk_RequestID = rq_RequestID query, rk_QueryText = rq_Text query,
      rk_Candidates = candidates, rk_TopN = int (length candidates)\<rparr>"

definition rerankDocuments ::
  "RetrievalQuery \<Rightarrow> RetrievalDocument list \<Rightarrow> 'w retrieval_service \<Rightarrow> 'w \<Rightarrow>
   (RetrievalDocument list \<times> error option) \<times> 'w retrieval_service \<times> 'w" where
  "rerankDocuments query docs s w =
     (case rs_reranker s of
        None \<Rightarrow> ((docs, None), s, w)
      | Some rk \<Rightarrow>
          let candidates = rerank_candidates s docs
          in if candidates = [] then ((docs, None), s, w)
             else
               (case Rerank \<lparr>rm_TenantID = rq_TenantID query, rm_RequestID = rq_RequestID query,
                             rm_SourceIP = [], rm_UserAgent = []\<rparr> (rerank_request query candidates) s w of
                  ((ranked, Some e), s1, w1) \<Rightarrow> ((docs, Some e), s1, w1)
                | ((ranked, None), s1, w1) \<Rightarrow> ((order_by_rank ranked docs, None), s1, w1)))"

text \<open>The search for one query text: by vector when the searcher and an embedder support it, else by text.
  \<open>None\<close> means the query contributes nothing (\<^verbatim>\<open>continue\<close>).\<close>

definition search_one ::
  "'w retrieval_service \<Rightarrow> 'w vector_searcher \<Rightarrow> RetrievalQuery \<Rightarrow> string \<Rightarrow> 'w \<Rightarrow>
   RetrievalDocument list option \<times> 'w" where
  "search_one s se query qText w =
     (case (se_SearchByEmbedding se, rs_embedder s) of
        (Some byEmbedding, Some emb) \<Rightarrow>
          (case emb (rq_TenantID query) [qText] w of
             (Inl e, w1) \<Rightarrow> (None, w1)
           | (Inr vectors, w1) \<Rightarrow>
               (case vectors of
                  [v] \<Rightarrow> if v \<noteq> [] then
                           (case byEmbedding (rq_TenantID query) v (rq_TopK query) w1 of
                              (Inl e, w2) \<Rightarrow> (None, w2)
                            | (Inr docs, w2) \<Rightarrow> (Some docs, w2))
                         else (Some [], w1)
                | _ \<Rightarrow> (Some [], w1)))
      | _ \<Rightarrow>
          (case se_Search se (rq_TenantID query) qText (rq_TopK query) w of
             (Inl e, w1) \<Rightarrow> (None, w1)
           | (Inr docs, w1) \<Rightarrow> (Some docs, w1)))"

definition add_unseen :: "RetrievalDocument list \<Rightarrow> RetrievalDocument list \<Rightarrow> RetrievalDocument list" where
  "add_unseen allDocs docs =
     foldl (\<lambda>acc d. if doc_DocumentID d \<in> doc_DocumentID ` set acc then acc else acc @ [d]) allDocs docs"

fun search_queries ::
  "'w retrieval_service \<Rightarrow> 'w vector_searcher \<Rightarrow> RetrievalQuery \<Rightarrow> string list \<Rightarrow>
   RetrievalDocument list \<Rightarrow> 'w \<Rightarrow> RetrievalDocument list \<times> 'w" where
  "search_queries s se query [] allDocs w = (allDocs, w)"
| "search_queries s se query (qText # qs) allDocs w =
     (case search_one s se query qText w of
        (None, w1) \<Rightarrow> search_queries s se query qs allDocs w1
      | (Some docs, w1) \<Rightarrow> search_queries s se query qs (add_unseen allDocs docs) w1)"

definition expanded_queries ::
  "'w retrieval_service \<Rightarrow> RetrievalQuery \<Rightarrow> 'w \<Rightarrow> string list \<times> 'w" where
  "expanded_queries s query w =
     (case rs_queryRewriter s of
        None \<Rightarrow> ([rq_Text query], w)
      | Some rewrite \<Rightarrow>
          (case rewrite (rq_TenantID query) (rq_Text query) w of
             (Inl e, w1) \<Rightarrow> ([rq_Text query], w1)
           | (Inr rewritten, w1) \<Rightarrow> (sq_ExpandedQueries rewritten, w1)))"

definition searchDocuments ::
  "'w retrieval_service \<Rightarrow> 'w vector_searcher \<Rightarrow> RetrievalQuery \<Rightarrow> 'w \<Rightarrow>
   (RetrievalDocument list \<times> string list) \<times> 'w" where
  "searchDocuments s se query w =
     (let (queries, w1) = expanded_queries s query w;
          (docs, w2) = search_queries s se query queries [] w1
      in ((docs, queries), w2))"

definition vector_trace :: "'w vector_searcher \<Rightarrow> 'w \<Rightarrow> RetrievalTrace \<Rightarrow> RetrievalTrace" where
  "vector_trace se w tr =
     (case se_LastVectorTrace se of
        None \<Rightarrow> tr
      | Some last_trace \<Rightarrow>
          let vt = last_trace w
          in tr\<lparr>rt_VectorProvider := vt_Provider vt, rt_VectorStatus := vt_Status vt,
                rt_VectorLatencyMillis := vt_LatencyMillis vt\<rparr>)"

definition gateway_trace :: "'w reranker option \<Rightarrow> 'w \<Rightarrow> RetrievalTrace \<Rightarrow> RetrievalTrace" where
  "gateway_trace rko w tr =
     (case rko of
        None \<Rightarrow> tr
      | Some rk \<Rightarrow>
          (case rr_LastGatewayTrace rk of
             None \<Rightarrow> tr
           | Some last_trace \<Rightarrow>
               let gt = last_trace w
               in tr\<lparr>rt_GatewayProvider := gt_Provider gt, rt_GatewayStatus := gt_Status gt,
                     rt_GatewayModel := gt_Model gt, rt_GatewayLatencyMillis := gt_LatencyMillis gt,
                     rt_GatewayTokenInput := gt_TokenInput gt, rt_GatewayTokenOutput := gt_TokenOutput gt,
                     rt_GatewayTokenTotal := gt_TokenTotal gt,
                     rt_FallbackReason := (if rt_FallbackReason tr = [] then gt_FallbackReason gt
                                           else rt_FallbackReason tr)\<rparr>))"

definition base_trace :: "int \<Rightarrow> bool \<Rightarrow> string \<Rightarrow> int \<Rightarrow> RetrievalTrace" where
  "base_trace n applied reason millis =
     \<lparr>rt_TenantFilterApplied = True, rt_CandidateCount = n, rt_RerankApplied = applied,
      rt_FallbackReason = reason, rt_DurationMillis = millis, rt_VectorProvider = [],
      rt_VectorStatus = [], rt_VectorLatencyMillis = 0, rt_GatewayProvider = [], rt_GatewayStatus = [],
      rt_GatewayModel = [], rt_GatewayLatencyMillis = 0, rt_GatewayTokenInput = 0,
      rt_GatewayTokenOutput = 0, rt_GatewayTokenTotal = 0\<rparr>"

text \<open>The ranking of the filtered documents: by identity terms, then by the reranker. The result is the
  documents, whether the reranker's order was applied, and the reason for a fallback.\<close>

definition rank_documents ::
  "unicode_tables \<Rightarrow> RetrievalQuery \<Rightarrow> string list \<Rightarrow> RetrievalDocument list \<Rightarrow> 'w retrieval_service \<Rightarrow> 'w \<Rightarrow>
   (RetrievalDocument list \<times> bool \<times> string) \<times> 'w retrieval_service \<times> 'w" where
  "rank_documents U query effectiveQueries filtered s w =
     (let rankingQuery = (if effectiveQueries \<noteq> [] then hd effectiveQueries else rq_Text query);
          ordered = applyMetadataIntentRanking U rankingQuery filtered
      in if ordered = [] then ((ordered, False, []), s, w)
         else case rerankDocuments query ordered s w of
             ((ranked, None), s1, w1) \<Rightarrow> ((ranked, rs_reranker s \<noteq> None, []), s1, w1)
           | ((_, Some e), s1, w1) \<Rightarrow> ((ordered, False, error_text e), s1, w1))"

definition retrieve ::
  "unicode_tables \<Rightarrow> RetrievalQuery \<Rightarrow> 'w vector_searcher \<Rightarrow> time \<Rightarrow> 'w retrieval_service \<Rightarrow> 'w \<Rightarrow>
   RetrievalResult \<times> 'w retrieval_service \<times> 'w" where
  "retrieve U query se start s w =
     (let ((docs, effectiveQueries), w1) = searchDocuments s se query w;
          filtered = filter (\<lambda>doc. doc_TenantID doc = rq_TenantID query) docs;
          ((final, applied, reason), s1, w2) = rank_documents U query effectiveQueries filtered s w1;
          (now, w3) = rs_clock s w2
      in (\<lparr>res_TenantID = rq_TenantID query, res_RequestID = rq_RequestID query, res_Documents = final,
           res_Citations = buildCitations final,
           res_Trace = gateway_trace (rs_reranker s) w3 (vector_trace se w3
             (base_trace (int (length final)) applied reason (dur_Milliseconds (time_Sub now start))))\<rparr>, s1, w3))"

definition Service_Search ::
  "unicode_tables \<Rightarrow> RequestMetadata \<Rightarrow> RetrievalQuery \<Rightarrow> 'w retrieval_service \<Rightarrow> 'w \<Rightarrow>
   RetrievalResult result \<times> 'w retrieval_service \<times> 'w" where
  "Service_Search U metadata query s w0 =
     (let (start, w) = rs_clock s w0
      in case RequestMetadata_Validate metadata of
           Some e \<Rightarrow> (Inl (validation_error ''request_metadata'' e), s, w)
         | None \<Rightarrow>
        (case RetrievalQuery_Validate query of
           Some e \<Rightarrow> (Inl (validation_error ''retrieval_query'' e), s, w)
         | None \<Rightarrow>
             if rm_TenantID metadata \<noteq> rq_TenantID query
             then (Inl (ErrorString ''tenant mismatch between metadata and retrieval query''), s, w)
             else case rs_searcher s of
                 None \<Rightarrow> (Inl (ErrorString ''vector searcher is required''), s, w)
               | Some se \<Rightarrow>
                   let (res, s1, w1) = retrieve U query se start s w
                   in case RetrievalResult_Validate res of
                        Some e \<Rightarrow> (Inl (validation_error ''retrieval_result'' e), s1, w1)
                      | None \<Rightarrow> (Inr res, s1, w1)))"

section \<open>Lemmas\<close>

declare RequestMetadata_Validate_None [simp del] RetrievalQuery_Validate_None [simp del]

lemma rerank_request_simps [simp]:
  "rk_TenantID (rerank_request query cs) = rq_TenantID query"
  "rk_RequestID (rerank_request query cs) = rq_RequestID query"
  "rk_QueryText (rerank_request query cs) = rq_Text query"
  "rk_Candidates (rerank_request query cs) = cs"
  "rk_TopN (rerank_request query cs) = int (length cs)"
  by (simp_all add: rerank_request_def)

text \<open>Both sorts are by a key.\<close>

lemma order_by_rank_key:
  "order_by_rank ranked docs =
     SliceStable (by_key (\<lambda>d. (- score_by_document ranked (doc_DocumentID d), - doc_Score d))) docs"
proof -
  have "(\<lambda>x y. let leftScore = score_by_document ranked (doc_DocumentID x);
                  rightScore = score_by_document ranked (doc_DocumentID y)
              in if leftScore = rightScore then doc_Score x > doc_Score y else leftScore > rightScore)
      = by_key (\<lambda>d. (- score_by_document ranked (doc_DocumentID d), - doc_Score d))"
    by (intro ext) (auto simp: Let_def less_prod_def)
  then show ?thesis
    unfolding order_by_rank_def by (rule arg_cong [where f = "\<lambda>lt. SliceStable lt docs"])
qed

lemma mset_order_by_rank [simp]: "mset (order_by_rank ranked docs) = mset docs"
  by (simp add: order_by_rank_def)

lemma mset_intent_ranking [simp]: "mset (applyMetadataIntentRanking U q docs) = mset docs"
  by (simp add: applyMetadataIntentRanking_def Let_def)

lemma set_intent_ranking [simp]: "set (applyMetadataIntentRanking U q docs) = set docs"
  by (rule mset_eq_setD) simp

lemma intent_ranking_Nil [simp]: "applyMetadataIntentRanking U q docs = [] \<longleftrightarrow> docs = []"
  by (metis mset_intent_ranking mset_zero_iff)

lemma add_unseen_props:
  "distinct (map doc_DocumentID acc) \<Longrightarrow>
   distinct (map doc_DocumentID (add_unseen acc docs)) \<and>
   set (add_unseen acc docs) \<subseteq> set acc \<union> set docs \<and>
   doc_DocumentID ` set (add_unseen acc docs) = doc_DocumentID ` (set acc \<union> set docs)"
  unfolding add_unseen_def
proof (induction docs arbitrary: acc)
  case (Cons d docs)
  let ?acc = "if doc_DocumentID d \<in> doc_DocumentID ` set acc then acc else acc @ [d]"
  have "distinct (map doc_DocumentID ?acc)" using Cons.prems by simp
  from Cons.IH [OF this] show ?case by (auto split: if_splits)
qed simp

lemma search_queries_distinct:
  "distinct (map doc_DocumentID acc) \<Longrightarrow>
   distinct (map doc_DocumentID (fst (search_queries s se query qs acc w)))"
proof (induction qs arbitrary: acc w)
  case (Cons q qs)
  then show ?case using add_unseen_props by (auto split: prod.split option.split)
qed simp

lemma searchDocuments_distinct: "distinct (map doc_DocumentID (fst (fst (searchDocuments s se query w))))"
  by (simp add: searchDocuments_def Let_def case_prod_beta search_queries_distinct)

lemma rerankDocuments_mset:
  "mset (fst (fst (rerankDocuments query docs s w))) = mset docs"
  by (auto simp: rerankDocuments_def Let_def split: option.split prod.split)

lemma rerankDocuments_error:
  "rerankDocuments query docs s w = ((final, Some e), s', w') \<Longrightarrow> final = docs"
  by (auto simp: rerankDocuments_def Let_def split: option.splits prod.splits if_splits)

lemma rank_documents_mset: "mset (fst (fst (rank_documents U query qs docs s w))) = mset docs"
proof -
  let ?o = "applyMetadataIntentRanking U (if qs \<noteq> [] then hd qs else rq_Text query) docs"
  show ?thesis
    using rerankDocuments_mset [of query ?o s w] mset_intent_ranking [of U _ docs]
    by (auto simp: rank_documents_def Let_def split: prod.splits option.splits)
qed

text \<open>The documents of a run: the found ones of the tenant, each document once.\<close>

lemma retrieve_documents:
  assumes "retrieve U query se start s w = (res, s', w')"
  shows "mset (res_Documents res) =
      mset (filter (\<lambda>d. doc_TenantID d = rq_TenantID query) (fst (fst (searchDocuments s se query w))))"
    and "res_TenantID res = rq_TenantID query" and "res_RequestID res = rq_RequestID query"
    and "res_Citations res = buildCitations (res_Documents res)"
    and "rt_TenantFilterApplied (res_Trace res)"
proof -
  obtain docs qs w1 where search: "searchDocuments s se query w = ((docs, qs), w1)"
    by (metis prod.collapse)
  obtain final ap re s1 w2 where rank: "rank_documents U query qs
      (filter (\<lambda>d. doc_TenantID d = rq_TenantID query) docs) s w1 = ((final, ap, re), s1, w2)"
    by (metis prod.collapse)
  show "mset (res_Documents res) =
      mset (filter (\<lambda>d. doc_TenantID d = rq_TenantID query) (fst (fst (searchDocuments s se query w))))"
    using assms rank_documents_mset [of U query qs "filter (\<lambda>d. doc_TenantID d = rq_TenantID query) docs" s w1]
    by (auto simp: retrieve_def search rank Let_def split: prod.splits)
  show "res_TenantID res = rq_TenantID query" "res_RequestID res = rq_RequestID query"
    "res_Citations res = buildCitations (res_Documents res)" "rt_TenantFilterApplied (res_Trace res)"
    using assms by (auto simp: retrieve_def search rank Let_def gateway_trace_def
        vector_trace_def base_trace_def split: option.splits prod.splits)
qed

lemma Service_Search_Inr:
  assumes "Service_Search U metadata query s w0 = (Inr res, s', w')"
  shows "\<exists>se start w. rs_searcher s = Some se \<and> retrieve U query se start s w = (res, s', w') \<and>
    RequestMetadata_Validate metadata = None \<and> RetrievalQuery_Validate query = None \<and>
    rm_TenantID metadata = rq_TenantID query \<and> RetrievalResult_Validate res = None"
  using assms
  by (auto simp: Service_Search_def Let_def split: prod.splits option.splits if_splits)

section \<open>The order of reranked documents\<close>

text \<open>The position of a document among the reranked candidates, their number for a document without
  one.\<close>

fun rank_of :: "RerankCandidate list \<Rightarrow> string \<Rightarrow> nat" where
  "rank_of [] d = 0"
| "rank_of (c # cs) d = (if rc_DocumentID c = d then 0 else Suc (rank_of cs d))"

lemma rank_of_le: "rank_of cs d \<le> length cs"
  by (induction cs) auto

lemma rank_of_nth: "rank_of cs d < length cs \<Longrightarrow> rc_DocumentID (cs ! rank_of cs d) = d"
  by (induction cs) auto

lemma rank_of_absent: "rank_of cs d = length cs \<longleftrightarrow> d \<notin> rc_DocumentID ` set cs"
  by (induction cs) auto

text \<open>The value the loop stores for a document.\<close>

lemma fold_scores:
  "distinct (map rc_DocumentID cs) \<Longrightarrow>
   fold (\<lambda>(idx, c) m. m(rc_DocumentID c := f idx c)) (enumerate k cs) m d =
     (if rank_of cs d < length cs then f (k + rank_of cs d) (cs ! rank_of cs d) else m d)"
proof (induction cs arbitrary: k m)
  case (Cons c cs)
  show ?case
  proof (cases "rc_DocumentID c = d")
    case True
    with Cons.prems have "rank_of cs d = length cs" by (auto simp: rank_of_absent)
    with True Cons show ?thesis by simp
  next
    case False
    with Cons show ?thesis by simp
  qed
qed simp

lemma score_by_document_eq:
  "distinct (map rc_DocumentID ranked) \<Longrightarrow>
   score_by_document ranked d =
     (if rank_of ranked d < length ranked
      then fl (of_int (int (length ranked) - int (rank_of ranked d)) + rc_Score (ranked ! rank_of ranked d))
      else 0)"
  unfolding score_by_document_def by (subst fold_scores) simp_all

text \<open>Candidates in order of non-negative scores keep their order through the rounded sums.\<close>

definition ranked_ok :: "RerankCandidate list \<Rightarrow> bool" where
  "ranked_ok ranked \<longleftrightarrow>
     distinct (map rc_DocumentID ranked) \<and> sorted_wrt (\<lambda>c d. rc_Score d \<le> rc_Score c) ranked \<and>
     (\<forall>c \<in> set ranked. 0 \<le> rc_Score c \<and> rc_Score c + of_int (int (length ranked)) < 2 ^ 50)"

lemma score_antitone:
  assumes ok: "ranked_ok ranked" and lt: "rank_of ranked d < rank_of ranked d'"
  shows "score_by_document ranked d' < score_by_document ranked d"
proof -
  let ?n = "length ranked" and ?i = "rank_of ranked d" and ?j = "rank_of ranked d'"
  have i: "?i < ?n" using lt rank_of_le [of ranked d'] by simp
  let ?y = "of_int (int ?n - int ?i) + rc_Score (ranked ! ?i)"
  have s: "score_by_document ranked d = fl ?y"
    using ok i by (simp add: ranked_ok_def score_by_document_eq)
  show ?thesis
  proof (cases "?j < ?n")
    case True
    let ?x = "of_int (int ?n - int ?j) + rc_Score (ranked ! ?j)"
    have "rc_Score (ranked ! ?j) \<le> rc_Score (ranked ! ?i)"
      using ok lt True by (auto simp: ranked_ok_def sorted_wrt_iff_nth_less)
    moreover have "(of_int (int ?i) :: rat) + 1 \<le> of_int (int ?j)" using lt by simp
    ultimately have "?x + 1 \<le> ?y" by simp
    moreover have "\<bar>?x\<bar> < 2 ^ 50"
    proof -
      have "ranked ! ?j \<in> set ranked" using True by simp
      then have "0 \<le> rc_Score (ranked ! ?j)" "rc_Score (ranked ! ?j) + of_int (int ?n) < 2 ^ 50"
        using ok unfolding ranked_ok_def by blast+
      moreover have "(0::rat) \<le> of_int (int ?n - int ?j)" "(of_int (int ?n - int ?j) :: rat) \<le> of_int (int ?n)"
        using True by simp_all
      ultimately show ?thesis by linarith
    qed
    ultimately have "fl ?x < fl ?y" by (rule fl64.rnd_unit_apart)
    then show ?thesis using ok True s by (simp add: ranked_ok_def score_by_document_eq)
  next
    case False
    have "0 \<le> rc_Score (ranked ! ?i)" using ok i by (simp add: ranked_ok_def)
    moreover have "(1::rat) \<le> of_int (int ?n - int ?i)" using i by (subst of_int_1_le_iff) linarith
    ultimately have "0 + 1 \<le> ?y" by linarith
    then have "fl 0 < fl ?y" by (rule fl64.rnd_unit_apart) simp
    moreover have "fl 0 = 0" by (simp add: fl_def)
    ultimately show ?thesis using ok False s by (simp add: ranked_ok_def score_by_document_eq)
  qed
qed

lemma order_by_rank_sorted:
  assumes "ranked_ok ranked"
  shows "sorted (map (\<lambda>d. rank_of ranked (doc_DocumentID d)) (order_by_rank ranked docs))"
proof -
  have "sorted_wrt (\<lambda>x y. (- score_by_document ranked (doc_DocumentID x), - doc_Score x)
      \<le> (- score_by_document ranked (doc_DocumentID y), - doc_Score y)) (order_by_rank ranked docs)"
    using sorted_SliceStable [of "\<lambda>d. (- score_by_document ranked (doc_DocumentID d), - doc_Score d)" docs]
    by (simp add: order_by_rank_key sorted_map)
  then have "sorted_wrt (\<lambda>x y. rank_of ranked (doc_DocumentID x) \<le> rank_of ranked (doc_DocumentID y))
      (order_by_rank ranked docs)"
  proof (rule sorted_wrt_mono_rel [rotated])
    fix x y
    assume "(- score_by_document ranked (doc_DocumentID x), - doc_Score x)
      \<le> (- score_by_document ranked (doc_DocumentID y), - doc_Score y)"
    then have "score_by_document ranked (doc_DocumentID y) \<le> score_by_document ranked (doc_DocumentID x)"
      by auto
    then show "rank_of ranked (doc_DocumentID x) \<le> rank_of ranked (doc_DocumentID y)"
      using score_antitone [OF assms, of "doc_DocumentID y" "doc_DocumentID x"] by (meson not_le)
  qed
  then show ?thesis by (simp add: sorted_map)
qed

section \<open>The breaker of the service\<close>

definition service_step ::
  "RequestMetadata \<times> RerankRequest \<times> 'w \<Rightarrow> 'w retrieval_service \<Rightarrow> 'w retrieval_service" where
  "service_step i s = (case i of (metadata, req, w) \<Rightarrow> fst (snd (Rerank metadata req s w)))"

lemma Rerank_failures:
  "rs_failureThreshold (fst (snd (Rerank metadata req s w))) = rs_failureThreshold s \<and>
   (rs_failureThreshold s \<le> rs_consecutiveRerankFailures s \<longrightarrow>
      rs_consecutiveRerankFailures (fst (snd (Rerank metadata req s w))) = rs_consecutiveRerankFailures s) \<and>
   rs_consecutiveRerankFailures (fst (snd (Rerank metadata req s w)))
     \<in> {0, rs_consecutiveRerankFailures s, inc64 (rs_consecutiveRerankFailures s)}"
  by (auto simp: Rerank_def split: option.split prod.split sum.split)

interpretation service_breaker: circuit_breaker service_step rs_consecutiveRerankFailures rs_failureThreshold
proof
  fix s :: "'a retrieval_service" and i :: "RequestMetadata \<times> RerankRequest \<times> 'a"
  obtain metadata req w where i: "i = (metadata, req, w)" by (metis prod_cases3)
  note f = Rerank_failures [of metadata req s w]
  show "rs_failureThreshold s \<le> rs_consecutiveRerankFailures s \<Longrightarrow>
      rs_consecutiveRerankFailures (service_step i s) = rs_consecutiveRerankFailures s"
    using f by (simp add: service_step_def i)
  show "rs_failureThreshold (service_step i s) = rs_failureThreshold s"
    using f by (simp add: service_step_def i)
  assume "rs_consecutiveRerankFailures s < rs_failureThreshold s" and "0 \<le> rs_consecutiveRerankFailures s"
    and "is_int64 (rs_failureThreshold s)"
  then have "inc64 (rs_consecutiveRerankFailures s) = rs_consecutiveRerankFailures s + 1" by (intro inc64_small)
  with f show "rs_consecutiveRerankFailures (service_step i s)
      \<in> {0, rs_consecutiveRerankFailures s, rs_consecutiveRerankFailures s + 1}"
    by (simp add: service_step_def i)
qed

section \<open>Properties\<close>

text \<open>C3: tenant isolation of retrieval. Whatever the rewriter, embedder, vector searcher and reranker
  return, a successful \<^verbatim>\<open>Search\<close> yields only documents of the requesting tenant, every one a document the
  search found, no document identifier twice, with one citation per document.\<close>

theorem search_tenant_isolation:
  assumes "Service_Search U metadata query s w = (Inr res, s', w')"
  shows "res_TenantID res = rm_TenantID metadata \<and>
    (\<forall>d \<in> set (res_Documents res). doc_TenantID d = rm_TenantID metadata \<and> doc_DocumentID d \<noteq> []) \<and>
    distinct (map doc_DocumentID (res_Documents res)) \<and>
    length (res_Citations res) = length (res_Documents res) \<and>
    (\<exists>se w1. rs_searcher s = Some se \<and>
       set (res_Documents res) \<subseteq> set (fst (fst (searchDocuments s se query w1))))"
proof -
  obtain se start w1 where se: "rs_searcher s = Some se"
    and run: "retrieve U query se start s w1 = (res, s', w')"
    and t: "rm_TenantID metadata = rq_TenantID query" and valid: "RetrievalResult_Validate res = None"
    using Service_Search_Inr [OF assms] by blast
  let ?found = "fst (fst (searchDocuments s se query w1))"
  note docs = retrieve_documents [OF run]
  have set: "set (res_Documents res) = set (filter (\<lambda>d. doc_TenantID d = rq_TenantID query) ?found)"
    by (rule mset_eq_setD [OF docs(1)])
  have "distinct (map doc_DocumentID (filter (\<lambda>d. doc_TenantID d = rq_TenantID query) ?found))"
    using searchDocuments_distinct [of s se query w1] by (simp add: distinct_map_filter)
  then have "distinct (map doc_DocumentID (res_Documents res))"
    using docs(1) by (metis mset_eq_imp_distinct_iff mset_map)
  moreover have "\<forall>d \<in> set (res_Documents res). doc_TenantID d = rm_TenantID metadata \<and> doc_DocumentID d \<noteq> []"
    using valid docs(2) t by (auto simp: RetrievalResult_Validate_None)
  ultimately show ?thesis
    using se set docs(2,4) t by (auto simp: buildCitations_def)
qed

text \<open>C18: retrieval degrades, it does not fail. With valid metadata and query of one tenant and a searcher,
  \<^verbatim>\<open>Search\<close> succeeds whatever fails behind it (rewriting, embedding, any or all vector searches, the
  reranker, its timeout, the breaker), provided the documents found carry identifiers; and it returns
  every document found for the tenant.\<close>

theorem search_degrades_gracefully:
  assumes "RequestMetadata_Validate metadata = None" and "RetrievalQuery_Validate query = None"
    and "rm_TenantID metadata = rq_TenantID query" and "rs_searcher s = Some se"
    and "\<forall>d \<in> set (fst (fst (searchDocuments s se query (snd (rs_clock s w))))).
      doc_TenantID d = rq_TenantID query \<longrightarrow> doc_DocumentID d \<noteq> []"
  shows "\<exists>res s' w'. Service_Search U metadata query s w = (Inr res, s', w') \<and>
    mset (res_Documents res) = mset (filter (\<lambda>d. doc_TenantID d = rq_TenantID query)
      (fst (fst (searchDocuments s se query (snd (rs_clock s w))))))"
proof -
  obtain start w1 where clock: "rs_clock s w = (start, w1)" by (cases "rs_clock s w")
  obtain res s' w' where run: "retrieve U query se start s w1 = (res, s', w')" by (metis prod_cases3)
  note docs = retrieve_documents [OF run]
  have "set (res_Documents res) =
      set (filter (\<lambda>d. doc_TenantID d = rq_TenantID query) (fst (fst (searchDocuments s se query w1))))"
    by (rule mset_eq_setD [OF docs(1)])
  then have "RetrievalResult_Validate res = None"
    using assms(2,5) docs(2,3) clock by (auto simp: RetrievalResult_Validate_None RetrievalQuery_Validate_None)
  then have "Service_Search U metadata query s w = (Inr res, s', w')"
    using assms(1-4) clock run by (simp add: Service_Search_def)
  with docs(1) clock show ?thesis by simp
qed

text \<open>The reranker's order reaches the result. When the reranker answers in time with candidates in
  order of non-negative scores, the documents come out in that order, those it did not rank last, and
  no document is lost or added. The rounding of the \<^verbatim>\<open>float64\<close> sums cannot swap two ranks.\<close>

theorem reranked_order:
  assumes "rs_reranker s = Some rk" and "rs_consecutiveRerankFailures s < rs_failureThreshold s"
    and "RetrievalQuery_Validate query = None" and "docs \<noteq> []" and "0 < rs_rerankTopK s"
    and "rr_Rerank rk (rerank_request query (rerank_candidates s docs)) w = (Finished (Inr ranked), w')"
    and "length ranked \<le> length (rerank_candidates s docs)" and "ranked_ok ranked"
  shows "\<exists>final s'. rerankDocuments query docs s w = ((final, None), s', w') \<and>
    mset final = mset docs \<and>
    sorted (map (\<lambda>d. rank_of ranked (doc_DocumentID d)) final) \<and>
    rs_consecutiveRerankFailures s' = 0"
proof -
  let ?c = "rerank_candidates s docs"
  have c: "?c \<noteq> []" using assms(4,5) by (simp add: rerank_candidates_def Let_def)
  let ?meta = "\<lparr>rm_TenantID = rq_TenantID query, rm_RequestID = rq_RequestID query,
      rm_SourceIP = [], rm_UserAgent = []\<rparr>"
  have "RerankRequest_Validate (rerank_request query ?c) = None"
    using assms(3) c by (simp add: RerankRequest_Validate_None RetrievalQuery_Validate_None)
  moreover have "RequestMetadata_Validate ?meta = None"
    using assms(3) by (simp add: RequestMetadata_Validate_None RetrievalQuery_Validate_None)
  moreover have "rerankWithTimeout rk (rerank_request query ?c) w = (Inr ranked, w')"
    using assms(6) by (simp add: rerankWithTimeout_def)
  ultimately have "Rerank ?meta (rerank_request query ?c) s w =
      ((ranked, None), s\<lparr>rs_consecutiveRerankFailures := 0\<rparr>, w')"
    using assms(1,2,7) by (simp add: Rerank_def)
  then have "rerankDocuments query docs s w =
      ((order_by_rank ranked docs, None), s\<lparr>rs_consecutiveRerankFailures := 0\<rparr>, w')"
    using assms(1) c by (simp add: rerankDocuments_def)
  with order_by_rank_sorted [OF assms(8), of docs] show ?thesis by simp
qed

text \<open>The retrieval breaker never closes. From the constructor on, for calls made one after another, the counter of consecutive rerank
  failures stays between zero and the threshold, it takes at least threshold many calls to open the
  breaker, and once open every later call answers with the retrieval order and the error
  \<^verbatim>\<open>rerank circuit breaker open\<close>, without calling the reranker.\<close>

theorem retrieval_breaker_never_closes:
  assumes "s = NewDeterministicRetrievalService deps topK timeout threshold" and "is_int64 threshold"
  shows "0 \<le> rs_consecutiveRerankFailures (fold service_step is s) \<and>
    rs_consecutiveRerankFailures (fold service_step is s) \<le> rs_failureThreshold s \<and>
    (rs_failureThreshold s \<le> rs_consecutiveRerankFailures (fold service_step is s) \<longrightarrow>
       rs_failureThreshold s \<le> int (length is) \<and>
       (\<forall>is' metadata req w rk. let s' = fold service_step is' (fold service_step is s) in
          RequestMetadata_Validate metadata = None \<and> RerankRequest_Validate req = None \<and>
          rm_TenantID metadata = rk_TenantID req \<and> rs_reranker s' = Some rk \<longrightarrow>
          Rerank metadata req s' w =
            ((TopCandidates req, Some (ErrorString ''rerank circuit breaker open'')), s', w)))"
proof -
  have s: "rs_consecutiveRerankFailures s = 0" "0 < rs_failureThreshold s" "is_int64 (rs_failureThreshold s)"
    using assms by (simp_all add: NewDeterministicRetrievalService_def is_int64_def)
  have th: "rs_failureThreshold (fold service_step js t) = rs_failureThreshold t"
    for js and t :: "'a retrieval_service" by (rule service_breaker.threshold_run)
  have "0 \<le> rs_consecutiveRerankFailures (fold service_step is s) \<and>
    rs_consecutiveRerankFailures (fold service_step is s) \<le> rs_failureThreshold s"
    by (rule service_breaker.counter_bounds) (use s in simp_all)
  moreover have "rs_failureThreshold s \<le> int (length is)"
    if "rs_failureThreshold s \<le> rs_consecutiveRerankFailures (fold service_step is s)"
    using service_breaker.opens_late [OF s that] .
  moreover have "Rerank metadata req s' w =
      ((TopCandidates req, Some (ErrorString ''rerank circuit breaker open'')), s', w)"
    if "rs_failureThreshold s \<le> rs_consecutiveRerankFailures (fold service_step is s)"
      and "s' = fold service_step is' (fold service_step is s)"
      and "RequestMetadata_Validate metadata = None" "RerankRequest_Validate req = None"
        "rm_TenantID metadata = rk_TenantID req" "rs_reranker s' = Some rk"
    for is' metadata req w rk s'
  proof -
    have "rs_failureThreshold s' \<le> rs_consecutiveRerankFailures s'"
      using service_breaker.open_forever [of "fold service_step is s" is'] that(1,2) by (simp add: th)
    with that(3-6) show ?thesis by (simp add: Rerank_def)
  qed
  ultimately show ?thesis by (simp add: Let_def)
qed

section \<open>Witnesses\<close>

definition demo_doc :: "string \<Rightarrow> TenantID \<Rightarrow> RetrievalDocument" where
  "demo_doc i t =
     \<lparr>doc_DocumentID = i, doc_TenantID = t, doc_Content = ''text'', doc_Score = 0, doc_SourceURI = [],
      doc_Metadata = []\<rparr>"

definition demo_searcher :: "unit vector_searcher" where
  "demo_searcher =
     \<lparr>se_Search = (\<lambda>t q k w. (Inr [demo_doc ''d1'' ''acme'', demo_doc ''d2'' ''evil''], w)),
      se_SearchByEmbedding = None, se_LastVectorTrace = None\<rparr>"

definition demo_reranker :: "unit reranker" where
  "demo_reranker =
     \<lparr>rr_Rerank = (\<lambda>req w. (Finished (Inr [\<lparr>rc_DocumentID = ''d1'', rc_Text = ''text'', rc_Score = 0\<rparr>]), w)),
      rr_LastGatewayTrace = None\<rparr>"

definition demo_service :: "unit reranker option \<Rightarrow> unit retrieval_service" where
  "demo_service rk =
     \<lparr>rs_searcher = Some demo_searcher, rs_reranker = rk, rs_embedder = None, rs_queryRewriter = None,
      rs_clock = (\<lambda>w. (1, w)), rs_rerankTopK = 5, rs_rerankTimeout = 1, rs_failureThreshold = 3,
      rs_consecutiveRerankFailures = 0\<rparr>"

definition demo_query :: RetrievalQuery where
  "demo_query = \<lparr>rq_TenantID = ''acme'', rq_RequestID = ''r'', rq_Text = ''q'', rq_TopK = 3\<rparr>"

definition demo_metadata :: RequestMetadata where
  "demo_metadata = \<lparr>rm_TenantID = ''acme'', rm_RequestID = ''r'', rm_SourceIP = [], rm_UserAgent = []\<rparr>"

lemma demo_inputs:
  "RequestMetadata_Validate demo_metadata = None" "RetrievalQuery_Validate demo_query = None"
  "rm_TenantID demo_metadata = rq_TenantID demo_query"
  by (simp_all add: RequestMetadata_Validate_None RetrievalQuery_Validate_None demo_metadata_def demo_query_def)

lemma demo_found:
  "searchDocuments (demo_service rk) demo_searcher demo_query w =
     (([demo_doc ''d1'' ''acme'', demo_doc ''d2'' ''evil''], [''q'']), w)"
  by (simp add: searchDocuments_def expanded_queries_def demo_service_def demo_searcher_def demo_query_def
      search_one_def add_unseen_def demo_doc_def)

lemma demo_search:
  "\<exists>res s' w'. Service_Search ascii_tables demo_metadata demo_query (demo_service None) () = (Inr res, s', w') \<and>
     res_Documents res = [demo_doc ''d1'' ''acme'']"
proof -
  have f: "filter (\<lambda>d. doc_TenantID d = rq_TenantID demo_query) [demo_doc ''d1'' ''acme'', demo_doc ''d2'' ''evil'']
      = [demo_doc ''d1'' ''acme'']"
    by (simp add: demo_doc_def demo_query_def)
  have r: "rank_documents ascii_tables demo_query [''q''] [demo_doc ''d1'' ''acme''] (demo_service None) () =
      (([demo_doc ''d1'' ''acme''], False, []), demo_service None, ())"
    by (simp add: rank_documents_def applyMetadataIntentRanking_def rerankDocuments_def demo_service_def)
  obtain res s' w' where run: "retrieve ascii_tables demo_query demo_searcher 1 (demo_service None) () = (res, s', w')"
    by (metis prod_cases3)
  then have res: "res_Documents res = [demo_doc ''d1'' ''acme'']" "res_TenantID res = ''acme''" "res_RequestID res = ''r''"
    unfolding retrieve_def Let_def demo_found prod.case f r
    by (auto simp: demo_query_def split: prod.splits)
  then have "RetrievalResult_Validate res = None" by (simp add: RetrievalResult_Validate_None demo_doc_def)
  moreover have "rs_clock (demo_service None) () = (1, ())" "rs_searcher (demo_service None) = Some demo_searcher"
    by (simp_all add: demo_service_def)
  ultimately show ?thesis using res run demo_inputs by (simp add: Service_Search_def)
qed

theorem search_tenant_isolation_witness:
  "\<exists>res s' w'. Service_Search ascii_tables demo_metadata demo_query (demo_service None) () = (Inr res, s', w') \<and>
     res_Documents res \<noteq> [] \<and> (\<forall>d \<in> set (res_Documents res). doc_TenantID d = ''acme'')"
proof -
  obtain res s' w' where run: "Service_Search ascii_tables demo_metadata demo_query (demo_service None) () = (Inr res, s', w')"
    and docs: "res_Documents res = [demo_doc ''d1'' ''acme'']" using demo_search by blast
  have "rm_TenantID demo_metadata = ''acme''" by (simp add: demo_metadata_def)
  with search_tenant_isolation [OF run] run docs show ?thesis by (intro exI [of _ res]) auto
qed

theorem search_degrades_gracefully_witness:
  "\<exists>res s' w'. Service_Search ascii_tables demo_metadata demo_query (demo_service None) () = (Inr res, s', w')"
proof -
  let ?found = "fst (fst (searchDocuments (demo_service None) demo_searcher demo_query
      (snd (rs_clock (demo_service None) ()))))"
  have searcher: "rs_searcher (demo_service None) = Some demo_searcher" by (simp add: demo_service_def)
  have "\<forall>d \<in> set ?found. doc_TenantID d = rq_TenantID demo_query \<longrightarrow> doc_DocumentID d \<noteq> []"
    by (simp add: demo_found) (simp add: demo_doc_def)
  from search_degrades_gracefully [OF demo_inputs searcher this, of ascii_tables] show ?thesis by blast
qed

theorem reranked_order_witness:
  "\<exists>final s'. rerankDocuments demo_query [demo_doc ''d1'' ''acme''] (demo_service (Some demo_reranker)) () =
     ((final, None), s', ()) \<and> mset final = mset [demo_doc ''d1'' ''acme'']"
proof -
  let ?s = "demo_service (Some demo_reranker)" and ?d = "[demo_doc ''d1'' ''acme'']"
  let ?ranked = "[\<lparr>rc_DocumentID = ''d1'', rc_Text = ''text'', rc_Score = 0\<rparr>]"
  have c: "rerank_candidates ?s ?d = ?ranked" by (simp add: rerank_candidates_def demo_service_def demo_doc_def)
  have "\<exists>final s'. rerankDocuments demo_query ?d ?s () = ((final, None), s', ()) \<and> mset final = mset ?d \<and>
      sorted (map (\<lambda>d. rank_of ?ranked (doc_DocumentID d)) final) \<and> rs_consecutiveRerankFailures s' = 0"
    by (rule reranked_order [where rk = demo_reranker])
      (simp_all add: c demo_inputs, simp_all add: demo_service_def demo_reranker_def ranked_ok_def)
  then show ?thesis by blast
qed

theorem retrieval_breaker_never_closes_witness:
  "rs_consecutiveRerankFailures (fold service_step [(demo_metadata, demo_request, ())]
     (NewDeterministicRetrievalService (demo_service (Some demo_reranker)) 5 1 3)) \<le> 3"
proof -
  have "is_int64 3" by (simp add: is_int64_def)
  from retrieval_breaker_never_closes [OF refl this, of "[(demo_metadata, demo_request, ())]"
      "demo_service (Some demo_reranker)" 5 1]
  show ?thesis by (simp add: NewDeterministicRetrievalService_def)
qed

end
