(* ===== verification/Search_Manager.thy ===== *)
theory Search_Manager
  imports Retrieval Text_Quality Http_Pipeline
begin

text \<open>
  \<^verbatim>\<open>backend/managers/search.go\<close>: the search handlers, which retrieve documents, rank them by the intent of the
  query, and let a language model answer from the best of them. The model is an operation on the outside
  world \<open>'w\<close>; \<open>None\<close> as the outcome of a handler is a panic, which the slice in \<^verbatim>\<open>BuildAnswerSnippet\<close> can
  cause.
\<close>

definition TruncateForDebugLog :: "string \<Rightarrow> int \<Rightarrow> string" where
  "TruncateForDebugLog input maxLen =
     (let value = TrimSpace input
      in if maxLen \<le> 0 \<or> int (length value) \<le> maxLen then value else take (nat maxLen) value @ ''...'')"

record 'w SearchManager =
  sm_LLM :: "(string \<Rightarrow> string \<Rightarrow> 'w \<Rightarrow> string result \<times> 'w) option"
  sm_random :: "int \<Rightarrow> 'w \<Rightarrow> string \<times> 'w"

text \<open>The request as the handlers read it: the header and context of the route, the peer and its agent.\<close>

record search_http = server_request +
  sh_RemoteAddr :: string
  sh_UserAgent :: string

record search_body =
  sb_QueryText :: string
  sb_TopK :: int

section \<open>Top vectors\<close>

record top_vector =
  tv_rank :: int
  tv_documentId :: string
  tv_sourceUri :: string
  tv_score :: float64
  tv_snippet :: string
  tv_metadata :: strmap

fun top_vectors :: "unicode_tables \<Rightarrow> string \<Rightarrow> int \<Rightarrow> RetrievalDocument list \<Rightarrow> top_vector list option" where
  "top_vectors U query i [] = Some []"
| "top_vectors U query i (d # ds) =
     (case BuildAnswerSnippet U query (doc_Content d) of
        None \<Rightarrow> None
      | Some snippet \<Rightarrow>
          map_option (\<lambda>rest. \<lparr>tv_rank = i + 1, tv_documentId = doc_DocumentID d, tv_sourceUri = doc_SourceURI d,
                              tv_score = doc_Score d, tv_snippet = snippet, tv_metadata = doc_Metadata d\<rparr> # rest)
            (top_vectors U query (i + 1) ds))"

definition buildTopFilteredVectors ::
  "unicode_tables \<Rightarrow> string \<Rightarrow> RetrievalDocument list \<Rightarrow> int \<Rightarrow> top_vector list option" where
  "buildTopFilteredVectors U query docs limit0 =
     (if docs = [] then Some []
      else let limit = (if limit0 \<le> 0 then 5 else limit0);
               ranked0 = RankDocumentsByQueryIntent U query docs;
               ranked = (if int (length ranked0) > limit then take (nat limit) ranked0 else ranked0)
           in top_vectors U query 0 ranked)"

section \<open>The answer\<close>

fun context_parts :: "unicode_tables \<Rightarrow> string \<Rightarrow> RetrievalDocument list \<Rightarrow> string list option" where
  "context_parts U query [] = Some []"
| "context_parts U query (d # ds) =
     (case BuildContextPart U query (doc_Content d) of
        None \<Rightarrow> None
      | Some cleaned \<Rightarrow> map_option (\<lambda>rest. if cleaned \<noteq> [] then cleaned # rest else rest) (context_parts U query ds))"

definition context_text :: "string list \<Rightarrow> string" where
  "context_text parts =
     (let contextText = TrimSpace (Join parts [char_of (10 :: nat), char_of (10 :: nat)])
      in if contextText = [] then ''No retrieved documents found for this query.'' else contextText)"

definition clean_answer :: "string \<Rightarrow> string result" where
  "clean_answer generated =
     (let answer = TrimSpace generated
      in if answer = [] then Inl (ErrorString ''empty llm answer'')
         else let collapsed = TrimSpace (single_spaced answer)
              in if HasReadableSignal collapsed then Inr (TruncateForDebugLog collapsed 1200)
                 else Inl (ErrorString ''unreadable llm answer''))"

definition generateFinalAnswerStrict ::
  "unicode_tables \<Rightarrow> 'w SearchManager \<Rightarrow> string \<Rightarrow> RetrievalDocument list \<Rightarrow> 'w \<Rightarrow> (string result \<times> 'w) option" where
  "generateFinalAnswerStrict U m queryText rankedDocs w =
     (case sm_LLM m of
        None \<Rightarrow> Some (Inl (ErrorString ''llm client is not configured''), w)
      | Some llm \<Rightarrow>
          (case context_parts U queryText (take 4 rankedDocs) of
             None \<Rightarrow> None
           | Some parts \<Rightarrow>
               (case llm queryText (context_text parts) w of
                  (Inl e, w1) \<Rightarrow> Some (Inl e, w1)
                | (Inr generated, w1) \<Rightarrow> Some (clean_answer generated, w1))))"

section \<open>The handlers\<close>

record search_response =
  sr_Result :: RetrievalResult
  sr_AnswerText :: string
  sr_TopVectors :: "top_vector list"

type_synonym 'w search_state = "'w retrieval_service \<times> 'w"

definition request_id :: "'w SearchManager \<Rightarrow> Context \<Rightarrow> 'w \<Rightarrow> string \<times> 'w" where
  "request_id m ctx w =
     (let requestID = RequestIDFromContext ctx
      in if requestID = [] then (case sm_random m 8 w of (x, w1) \<Rightarrow> (''req-'' @ x, w1)) else (requestID, w))"

definition search_query :: "string \<Rightarrow> string \<Rightarrow> string \<Rightarrow> int \<Rightarrow> RetrievalQuery" where
  "search_query tenantID requestID queryText topK =
     \<lparr>rq_TenantID = tenantID, rq_RequestID = requestID, rq_Text = queryText, rq_TopK = topK\<rparr>"

definition search_meta :: "string \<Rightarrow> string \<Rightarrow> search_http \<Rightarrow> RequestMetadata" where
  "search_meta tenantID requestID r =
     \<lparr>rm_TenantID = tenantID, rm_RequestID = requestID, rm_SourceIP = sh_RemoteAddr r, rm_UserAgent = sh_UserAgent r\<rparr>"

definition HandleSearch ::
  "unicode_tables \<Rightarrow> 'w SearchManager \<Rightarrow> search_body result \<Rightarrow> search_http \<Rightarrow> 'w search_state \<Rightarrow>
   search_response http_reply option \<times> 'w search_state" where
  "HandleSearch U m body r sw =
     (let tenantID = TrimSpace (req_header r ''X-Tenant-ID''); (s, w) = sw
      in case body of
           Inl e \<Rightarrow> (Some (HttpError 400 ''invalid_json'' (error_text e)), sw)
         | Inr req \<Rightarrow>
             let topK = (if sb_TopK req \<le> 0 then 5 else sb_TopK req);
                 queryText = TrimSpace (sb_QueryText req)
             in if queryText = [] then (Some (HttpError 400 ''query_required'' ''queryText is required''), sw)
                else
                  let (requestID, w1) = request_id m (req_context r) w
                  in case Service_Search U (search_meta tenantID requestID r)
                            (search_query tenantID requestID queryText topK) s w1 of
                       (Inl e, s1, w2) \<Rightarrow> (Some (HttpError 400 ''search_failed'' (error_text e)), s1, w2)
                     | (Inr result, s1, w2) \<Rightarrow>
                         let rankedDocs = RankDocumentsByQueryIntent U queryText (res_Documents result)
                         in case buildTopFilteredVectors U queryText rankedDocs 5 of
                              None \<Rightarrow> (None, s1, w2)
                            | Some topVectors \<Rightarrow>
                                (case generateFinalAnswerStrict U m queryText rankedDocs w2 of
                                   None \<Rightarrow> (None, s1, w2)
                                 | Some (Inl e, w3) \<Rightarrow>
                                     (Some (HttpError 503 ''llm_unavailable'' ''final answer generation is unavailable''), s1, w3)
                                 | Some (Inr answer, w3) \<Rightarrow>
                                     (Some (HttpOK \<lparr>sr_Result = result, sr_AnswerText = answer, sr_TopVectors = topVectors\<rparr>),
                                      s1, w3)))"

datatype search_event =
    TopVectorsEvent "top_vector list"
  | TokenEvent string
  | CitationEvent string string
  | TraceEvent string int bool
  | SearchDoneEvent "(string \<times> string) list" "string \<times> int \<times> bool" "top_vector list"

definition HandleSearchStream ::
  "unicode_tables \<Rightarrow> 'w SearchManager \<Rightarrow> bool \<Rightarrow> string result \<Rightarrow> search_http \<Rightarrow> 'w search_state \<Rightarrow>
   search_event list http_reply option \<times> 'w search_state" where
  "HandleSearchStream U m flushable body r sw =
     (let tenantID = TrimSpace (req_header r ''X-Tenant-ID''); (s, w) = sw
      in case body of
           Inl e \<Rightarrow> (Some (HttpError 400 ''invalid_json'' (error_text e)), sw)
         | Inr rawQuery \<Rightarrow>
             let (requestID, w1) = request_id m (req_context r) w;
                 queryText = TrimSpace rawQuery
             in if queryText = [] then (Some (HttpError 400 ''query_required'' ''queryText is required''), s, w1)
                else case Service_Search U (search_meta tenantID requestID r)
                            (search_query tenantID requestID queryText 5) s w1 of
                       (Inl e, s1, w2) \<Rightarrow> (Some (HttpError 400 ''search_failed'' (error_text e)), s1, w2)
                     | (Inr result, s1, w2) \<Rightarrow>
                         let rankedDocs = RankDocumentsByQueryIntent U queryText (res_Documents result)
                         in case buildTopFilteredVectors U queryText rankedDocs 5 of
                              None \<Rightarrow> (None, s1, w2)
                            | Some topVectors \<Rightarrow>
                                (case generateFinalAnswerStrict U m queryText rankedDocs w2 of
                                   None \<Rightarrow> (None, s1, w2)
                                 | Some (Inl e, w3) \<Rightarrow>
                                     (Some (HttpError 503 ''llm_unavailable'' ''final answer generation is unavailable''), s1, w3)
                                 | Some (Inr answer, w3) \<Rightarrow>
                                     if \<not> flushable
                                     then (Some (HttpError 500 ''sse_unsupported'' ''stream unsupported''), s1, w3)
                                     else (Some (HttpOK
                                            ([TopVectorsEvent topVectors] @
                                             map (\<lambda>tok. TokenEvent (tok @ '' '')) (Fields answer) @
                                             map (\<lambda>d. CitationEvent (doc_DocumentID d) (doc_SourceURI d)) rankedDocs @
                                             [TraceEvent (res_RequestID result) (rt_DurationMillis (res_Trace result))
                                                (rt_RerankApplied (res_Trace result)),
                                              SearchDoneEvent (map (\<lambda>d. (doc_DocumentID d, doc_SourceURI d)) rankedDocs)
                                                (res_RequestID result, rt_DurationMillis (res_Trace result),
                                                 rt_RerankApplied (res_Trace result)) topVectors])), s1, w3)))"

section \<open>Lemmas\<close>

lemma set_RankDocumentsByQueryIntent [simp]: "set (RankDocumentsByQueryIntent U q docs) = set docs"
  by (simp add: RankDocumentsByQueryIntent_def Let_def)

lemma Service_Search_documents:
  assumes "Service_Search U metadata query s w = (Inr res, s', w')"
  shows "\<forall>d \<in> set (res_Documents res). doc_TenantID d = rm_TenantID metadata"
proof -
  from Service_Search_Inr [OF assms] obtain se start w1 where run: "retrieve U query se start s w1 = (res, s', w')"
    and t: "rm_TenantID metadata = rq_TenantID query" by blast
  from mset_eq_setD [OF retrieve_documents(1) [OF run]] show ?thesis unfolding t by simp
qed

lemma top_vectors_from:
  "top_vectors U q i ds = Some tvs \<Longrightarrow>
   map tv_documentId tvs = map doc_DocumentID ds \<and> map tv_rank tvs = map (\<lambda>k. i + 1 + int k) [0..<length ds]"
proof (induction ds arbitrary: i tvs)
  case (Cons d ds)
  then obtain snippet rest where "top_vectors U q (i + 1) ds = Some rest"
    and tvs: "tvs = \<lparr>tv_rank = i + 1, tv_documentId = doc_DocumentID d, tv_sourceUri = doc_SourceURI d,
        tv_score = doc_Score d, tv_snippet = snippet, tv_metadata = doc_Metadata d\<rparr> # rest"
    by (auto split: option.splits)
  from Cons.IH [OF this(1)] show ?case
    unfolding tvs by (simp add: map_upt_Suc comp_def add.assoc del: upt_Suc)
qed simp

text \<open>The context handed to the model is made of at most four documents.\<close>

definition context_of :: "unicode_tables \<Rightarrow> string \<Rightarrow> RetrievalDocument list \<Rightarrow> string \<Rightarrow> bool" where
  "context_of U q docs ctx \<longleftrightarrow>
     (\<exists>parts. ctx = context_text parts \<and> length parts \<le> 4 \<and>
        (\<forall>p \<in> set parts. \<exists>d \<in> set docs. BuildContextPart U q (doc_Content d) = Some p))"

lemma context_parts_from:
  "context_parts U q ds = Some parts \<Longrightarrow>
   length parts \<le> length ds \<and> (\<forall>p \<in> set parts. \<exists>d \<in> set ds. BuildContextPart U q (doc_Content d) = Some p)"
proof (induction ds arbitrary: parts)
  case (Cons d ds)
  then obtain cleaned rest where c: "BuildContextPart U q (doc_Content d) = Some cleaned" "context_parts U q ds = Some rest"
    "parts = (if cleaned \<noteq> [] then cleaned # rest else rest)" by (auto split: option.splits)
  from Cons.IH [OF c(2)] c show ?case by auto
qed simp

lemma clean_answer_shape:
  assumes "clean_answer g = Inr answer"
  shows "answer \<noteq> [] \<and> length answer \<le> 1203 \<and> (\<exists>collapsed. HasReadableSignal collapsed \<and>
    collapsed = TrimSpace (single_spaced (TrimSpace g)) \<and> answer = TruncateForDebugLog collapsed 1200)"
proof -
  let ?c = "TrimSpace (single_spaced (TrimSpace g))"
  have c: "HasReadableSignal ?c" "answer = TruncateForDebugLog ?c 1200"
    using assms by (auto simp: clean_answer_def Let_def split: if_splits)
  then have "?c \<noteq> []" by (auto simp: HasReadableSignal_def)
  then have "answer \<noteq> [] \<and> length answer \<le> 1203" using c(2) by (auto simp: TruncateForDebugLog_def Let_def)
  with c show ?thesis by blast
qed

lemma generateFinalAnswerStrict_Inr:
  assumes "generateFinalAnswerStrict U m q docs w = Some (Inr answer, w')"
  shows "\<exists>llm ctx g. sm_LLM m = Some llm \<and> context_of U q docs ctx \<and> llm q ctx w = (Inr g, w') \<and> clean_answer g = Inr answer"
proof -
  from assms obtain llm parts g where llm: "sm_LLM m = Some llm" and p: "context_parts U q (take 4 docs) = Some parts"
    and run: "llm q (context_text parts) w = (Inr g, w')" "clean_answer g = Inr answer"
    by (auto simp: generateFinalAnswerStrict_def split: option.splits prod.splits sum.splits)
  from context_parts_from [OF p] have "context_of U q docs (context_text parts)"
    unfolding context_of_def by (intro exI [of _ parts]) (auto dest: in_set_takeD)
  with llm run show ?thesis by blast
qed

lemma buildTopFilteredVectors_from:
  assumes "buildTopFilteredVectors U q docs 5 = Some tvs"
  shows "length tvs \<le> 5 \<and> map tv_rank tvs = map (\<lambda>k. 1 + int k) [0..<length tvs] \<and>
    set (map tv_documentId tvs) \<subseteq> set (map doc_DocumentID docs)"
proof (cases "docs = []")
  case False
  let ?r = "RankDocumentsByQueryIntent U q docs"
  from False assms have t: "top_vectors U q 0 (take 5 ?r) = Some tvs"
    by (auto simp: buildTopFilteredVectors_def Let_def split: if_splits)
  note from_docs = top_vectors_from [OF t]
  then have len: "length tvs = length (take 5 ?r)" by (metis length_map)
  have "set (take 5 ?r) \<subseteq> set docs" using set_take_subset [of 5 ?r] by simp
  with from_docs len show ?thesis by (auto dest!: arg_cong [where f = set])
qed (use assms in \<open>simp add: buildTopFilteredVectors_def\<close>)

section \<open>Properties\<close>

text \<open>C29: what a successful search answers. Every document it returns and every top vector belongs to the
  tenant of the request; there are at most five top vectors, ranked from one on. The answer is the cleaned
  output of the language model, which was given the query and a context made of at most four documents of
  that tenant (or the note that there are none); it is readable, not empty and at most 1203 bytes long.\<close>

theorem search_answers_from_tenant:
  assumes "HandleSearch U m (Inr req) r (s, w) = (Some (HttpOK resp), s', w')"
  shows "(\<forall>d \<in> set (res_Documents (sr_Result resp)). doc_TenantID d = TrimSpace (req_header r ''X-Tenant-ID'')) \<and>
    length (sr_TopVectors resp) \<le> 5 \<and>
    map tv_rank (sr_TopVectors resp) = map (\<lambda>k. 1 + int k) [0..<length (sr_TopVectors resp)] \<and>
    set (map tv_documentId (sr_TopVectors resp)) \<subseteq> set (map doc_DocumentID (res_Documents (sr_Result resp))) \<and>
    (\<exists>llm ctx g w2. sm_LLM m = Some llm \<and> llm (TrimSpace (sb_QueryText req)) ctx w2 = (Inr g, w') \<and>
       context_of U (TrimSpace (sb_QueryText req)) (res_Documents (sr_Result resp)) ctx \<and>
       clean_answer g = Inr (sr_AnswerText resp)) \<and>
    sr_AnswerText resp \<noteq> [] \<and> length (sr_AnswerText resp) \<le> 1203"
proof -
  let ?t = "TrimSpace (req_header r ''X-Tenant-ID'')" and ?q = "TrimSpace (sb_QueryText req)"
  let ?k = "if sb_TopK req \<le> 0 then 5 else sb_TopK req"
  obtain i w1 where i: "request_id m (req_context r) w = (i, w1)" by fastforce
  have q: "?q \<noteq> []" using assms by (auto simp: HandleSearch_def Let_def)
  obtain out s1 w2 where srch: "Service_Search U (search_meta ?t i r) (search_query ?t i ?q ?k) s w1 = (out, s1, w2)"
    by (metis prod.collapse)
  with assms q i obtain res where out: "out = Inr res" by (cases out) (auto simp: HandleSearch_def Let_def)
  let ?docs = "RankDocumentsByQueryIntent U ?q (res_Documents res)"
  from assms q i srch out obtain tvs where tv: "buildTopFilteredVectors U ?q ?docs 5 = Some tvs"
    by (cases "buildTopFilteredVectors U ?q ?docs 5") (auto simp: HandleSearch_def Let_def)
  with assms q i srch out obtain answer where gen: "generateFinalAnswerStrict U m ?q ?docs w2 = Some (Inr answer, w')"
    and resp: "resp = \<lparr>sr_Result = res, sr_AnswerText = answer, sr_TopVectors = tvs\<rparr>"
    by (auto simp: HandleSearch_def Let_def split: option.splits prod.splits sum.splits)
  from generateFinalAnswerStrict_Inr [OF gen] obtain llm ctx g where llm: "sm_LLM m = Some llm"
    "context_of U ?q ?docs ctx" "llm ?q ctx w2 = (Inr g, w')" "clean_answer g = Inr answer" by blast
  have "context_of U ?q (res_Documents res) ctx" using llm(2) by (simp add: context_of_def)
  moreover have "\<forall>d \<in> set (res_Documents res). doc_TenantID d = ?t"
    using Service_Search_documents [OF srch [unfolded out]] by (simp add: search_meta_def)
  ultimately show ?thesis
    using resp buildTopFilteredVectors_from [OF tv] llm clean_answer_shape [OF llm(4)] by auto
qed

text \<open>The stream that corresponds to a response of the plain endpoint.\<close>

definition stream_of :: "unicode_tables \<Rightarrow> string \<Rightarrow> search_response \<Rightarrow> search_event list" where
  "stream_of U q resp =
     (let docs = RankDocumentsByQueryIntent U q (res_Documents (sr_Result resp))
      in [TopVectorsEvent (sr_TopVectors resp)] @ map (\<lambda>tok. TokenEvent (tok @ '' '')) (Fields (sr_AnswerText resp)) @
         map (\<lambda>d. CitationEvent (doc_DocumentID d) (doc_SourceURI d)) docs @
         [TraceEvent (res_RequestID (sr_Result resp)) (rt_DurationMillis (res_Trace (sr_Result resp)))
            (rt_RerankApplied (res_Trace (sr_Result resp))),
          SearchDoneEvent (map (\<lambda>d. (doc_DocumentID d, doc_SourceURI d)) docs)
            (res_RequestID (sr_Result resp), rt_DurationMillis (res_Trace (sr_Result resp)),
             rt_RerankApplied (res_Trace (sr_Result resp))) (sr_TopVectors resp)])"

fun stream_reply :: "unicode_tables \<Rightarrow> string \<Rightarrow> search_response http_reply \<Rightarrow> search_event list http_reply" where
  "stream_reply U q (HttpOK resp) = HttpOK (stream_of U q resp)"
| "stream_reply U q (HttpError status code msg) = HttpError status code msg"

text \<open>C30: the two search endpoints agree. On the same query, from the same state, the stream of a request
  whose plain form asks for the default number of documents answers with the same error, or emits the same
  top vectors, the words of the same answer in order, a citation for every document of the result, the
  trace and the end marker, and leaves the same state behind.\<close>

theorem stream_equals_search:
  assumes "sb_TopK req \<le> 0 \<or> sb_TopK req = 5" and "TrimSpace (sb_QueryText req) \<noteq> []"
  shows "HandleSearchStream U m True (Inr (sb_QueryText req)) r (s, w) =
    (case HandleSearch U m (Inr req) r (s, w) of
       (reply, sw') \<Rightarrow> (map_option (stream_reply U (TrimSpace (sb_QueryText req))) reply, sw'))"
proof -
  let ?t = "TrimSpace (req_header r ''X-Tenant-ID'')" and ?q = "TrimSpace (sb_QueryText req)"
  obtain i w1 where i: "request_id m (req_context r) w = (i, w1)" by fastforce
  have k: "(if sb_TopK req \<le> 0 then 5 else sb_TopK req) = 5" using assms(1) by auto
  obtain out s1 w2 where srch: "Service_Search U (search_meta ?t i r) (search_query ?t i ?q 5) s w1 = (out, s1, w2)"
    by (metis prod.collapse)
  show ?thesis
  proof (cases out)
    case (Inl e)
    then show ?thesis using i k srch assms(2) by (simp add: HandleSearch_def HandleSearchStream_def Let_def)
  next
    case (Inr res)
    let ?docs = "RankDocumentsByQueryIntent U ?q (res_Documents res)"
    show ?thesis
    proof (cases "buildTopFilteredVectors U ?q ?docs 5")
      case None
      then show ?thesis using i k srch assms(2) Inr by (simp add: HandleSearch_def HandleSearchStream_def Let_def)
    next
      case (Some tvs)
      then show ?thesis
        using i k srch assms(2) Inr
        by (cases "generateFinalAnswerStrict U m ?q ?docs w2")
           (auto simp: HandleSearch_def HandleSearchStream_def Let_def stream_of_def split: sum.splits)
    qed
  qed
qed

section \<open>Witnesses\<close>

definition demo_search_http :: search_http where
  "demo_search_http =
     \<lparr>req_header = (\<lambda>k. if k = ''X-Tenant-ID'' then ''acme'' else []),
      req_context = WithValue Background RequestIDKey (CtxString ''r''), req_method = ''POST'',
      req_path = ''/api/v1/search'', sh_RemoteAddr = [], sh_UserAgent = []\<rparr>"

definition demo_llm :: "unit SearchManager" where
  "demo_llm = \<lparr>sm_LLM = Some (\<lambda>q c w. (Inr '' Answer:  text '', w)), sm_random = (\<lambda>n w. (''x'', w))\<rparr>"

lemma demo_search_run:
  "\<exists>resp s' w'. HandleSearch ascii_tables demo_llm (Inr \<lparr>sb_QueryText = ''q'', sb_TopK = 3\<rparr>) demo_search_http
      (demo_service None, ()) = (Some (HttpOK resp), s', w')"
proof -
  obtain res s' w' where run: "Service_Search ascii_tables demo_metadata demo_query (demo_service None) () = (Inr res, s', w')"
    and docs: "res_Documents res = [Retrieval.demo_doc ''d1'' ''acme'']" using demo_search by blast
  have trim: "TrimSpace ''acme'' = ''acme''" "TrimSpace ''q'' = ''q''" "TrimSpace ''r'' = ''r''" by code_simp+
  have id: "request_id demo_llm (req_context demo_search_http) () = (''r'', ())"
    by (simp add: request_id_def demo_search_http_def RequestIDFromContext_def WithValue_def trim)
  have meta: "search_meta ''acme'' ''r'' demo_search_http = demo_metadata" "search_query ''acme'' ''r'' ''q'' 3 = demo_query"
    by (simp_all add: search_meta_def search_query_def demo_search_http_def demo_metadata_def demo_query_def)
  have rank: "RankDocumentsByQueryIntent ascii_tables ''q'' [d] = [d]" for d by (simp add: RankDocumentsByQueryIntent_def)
  have snip: "BuildAnswerSnippet ascii_tables ''q'' ''text'' = Some ''text''"
    "BuildContextPart ascii_tables ''q'' ''text'' = Some ''text''" by code_simp+
  have clean: "clean_answer '' Answer:  text '' = Inr ''Answer: text''" by code_simp
  have hdr: "req_header demo_search_http ''X-Tenant-ID'' = ''acme''" by (simp add: demo_search_http_def)
  obtain tvs where tv: "buildTopFilteredVectors ascii_tables ''q'' [Retrieval.demo_doc ''d1'' ''acme''] 5 = Some tvs"
    by (simp add: buildTopFilteredVectors_def rank Retrieval.demo_doc_def snip)
  have gen: "generateFinalAnswerStrict ascii_tables demo_llm ''q'' [Retrieval.demo_doc ''d1'' ''acme''] w' = Some (Inr ''Answer: text'', w')"
    by (simp add: generateFinalAnswerStrict_def demo_llm_def Retrieval.demo_doc_def snip clean)
  show ?thesis using run docs tv gen by (simp add: HandleSearch_def hdr trim id meta rank)
qed

theorem search_answers_from_tenant_witness:
  "\<exists>resp s' w'. HandleSearch ascii_tables demo_llm (Inr \<lparr>sb_QueryText = ''q'', sb_TopK = 3\<rparr>) demo_search_http
      (demo_service None, ()) = (Some (HttpOK resp), s', w') \<and> sr_AnswerText resp \<noteq> [] \<and> length (sr_TopVectors resp) \<le> 5"
  using demo_search_run search_answers_from_tenant [of ascii_tables demo_llm "\<lparr>sb_QueryText = ''q'', sb_TopK = 3\<rparr>"
      demo_search_http "demo_service None" "()"]
  by metis

theorem stream_equals_search_witness:
  "HandleSearchStream ascii_tables demo_llm True (Inr ''q'') demo_search_http (demo_service None, ()) =
    (case HandleSearch ascii_tables demo_llm (Inr \<lparr>sb_QueryText = ''q'', sb_TopK = 5\<rparr>) demo_search_http (demo_service None, ()) of
       (reply, sw') \<Rightarrow> (map_option (stream_reply ascii_tables ''q'') reply, sw'))"
proof -
  have "TrimSpace ''q'' = ''q''" by code_simp
  with stream_equals_search [of "\<lparr>sb_QueryText = ''q'', sb_TopK = 5\<rparr>" ascii_tables demo_llm demo_search_http "demo_service None" "()"]
  show ?thesis by simp
qed


end
