(* ===== verification/Governance.thy ===== *)
theory Governance
  imports Contracts Go_Format
begin

text \<open>
  \<^verbatim>\<open>internal/services/governance/service.go\<close>: the deterministic policy service that decides on an
  ingestion job and records an audit event for each decision. The audit sink is an interface; it is
  the argument \<open>sink\<close>, a state transformer on whatever state \<open>'w\<close> the sink keeps. The clock is
  read once per evaluation and is the argument \<open>now\<close>.
\<close>

record 'w DeterministicPolicyService =
  ps_auditSink :: "'w audit_sink option"
  ps_residencyRegion :: string

definition NewDeterministicPolicyServiceWithClock ::
  "'w audit_sink option \<Rightarrow> 'w DeterministicPolicyService" where
  "NewDeterministicPolicyServiceWithClock auditSink =
     \<lparr>ps_auditSink = auditSink, ps_residencyRegion = ''ap-south-1''\<rparr>"

definition auditRepositorySink_Write :: "'w audit_sink \<Rightarrow> 'w audit_sink" where
  "auditRepositorySink_Write save ctx event w = save ctx event w"

definition NewDeterministicPolicyServiceWithRepository ::
  "'w audit_sink option \<Rightarrow> 'w DeterministicPolicyService" where
  "NewDeterministicPolicyServiceWithRepository repo =
     (case repo of
        None \<Rightarrow> NewDeterministicPolicyServiceWithClock None
      | Some save \<Rightarrow> NewDeterministicPolicyServiceWithClock (Some (auditRepositorySink_Write save)))"

definition containsRequiredResidency :: "unicode_tables \<Rightarrow> string \<Rightarrow> string \<Rightarrow> bool" where
  "containsRequiredResidency U sourceURI requiredRegion =
     Contains (ToLower U sourceURI) (ToLower U requiredRegion)"

definition hasPIIMarker :: "unicode_tables \<Rightarrow> string \<Rightarrow> bool" where
  "hasPIIMarker U sourceURI =
     (let normalized = ToLower U sourceURI
      in Contains normalized ''pii'' \<or> Contains normalized ''ssn'' \<or> Contains normalized ''passport'')"

definition deterministicEventID ::
  "RequestMetadata \<Rightarrow> IngestionJob \<Rightarrow> IngestionStatus \<Rightarrow> string \<Rightarrow> string" where
  "deterministicEventID metadata job decision policyCode =
     (let raw = rm_TenantID metadata @ ''|'' @ rm_RequestID metadata @ ''|'' @ job_JobID job @ ''|'' @
                decision @ ''|'' @ policyCode
      in ''evt_'' @ EncodeToString (take 8 (Sum256 raw)))"

definition toAuditOutcome :: "IngestionStatus \<Rightarrow> AuditOutcome" where
  "toAuditOutcome decision =
     (if decision = IngestionStatusApproved then AuditOutcomeAllowed else AuditOutcomeDenied)"

definition RecordAuditEvent ::
  "'w DeterministicPolicyService \<Rightarrow> Context option \<Rightarrow> AuditEvent \<Rightarrow> 'w \<Rightarrow> error option \<times> 'w" where
  "RecordAuditEvent s ctx event w =
     (case AuditEvent_Validate event of
        Some e \<Rightarrow> (Some (validation_error ''audit_event'' e), w)
      | None \<Rightarrow> (case ps_auditSink s of None \<Rightarrow> (None, w) | Some write \<Rightarrow> write ctx event w))"

text \<open>The two local variables the \<^verbatim>\<open>if\<close> chain assigns: the decision and its code.\<close>

definition policy_decision ::
  "unicode_tables \<Rightarrow> string \<Rightarrow> string \<Rightarrow> IngestionStatus \<times> string" where
  "policy_decision U region sourceURI =
     (if \<not> containsRequiredResidency U sourceURI region
      then (IngestionStatusRejected, ''residency_lock_violation'')
      else if hasPIIMarker U sourceURI
      then (IngestionStatusQuarantine, ''pii_redaction_required'')
      else (IngestionStatusApproved, ''policy_approved''))"

definition decision_event ::
  "RequestMetadata \<Rightarrow> IngestionJob \<Rightarrow> IngestionStatus \<Rightarrow> string \<Rightarrow> time \<Rightarrow> AuditEvent" where
  "decision_event metadata job decision policyCode now =
     \<lparr>ae_EventID = deterministicEventID metadata job decision policyCode,
      ae_TenantID = rm_TenantID metadata,
      ae_EventType = ''governance.ingestion.policy_decision'',
      ae_Resource = job_SourceURI job,
      ae_Actor = ''governance.policy_engine'',
      ae_Outcome = toAuditOutcome decision,
      ae_OccurredAt = now,
      ae_Attributes =
        [(''request_id'', rm_RequestID metadata), (''job_id'', job_JobID job),
         (''source_uri'', job_SourceURI job), (''policy_code'', policyCode),
         (''decision'', decision), (''timestamp'', FormatRFC3339Nano now)]\<rparr>"

text \<open>\<^verbatim>\<open>EvaluateIngestion\<close> returns the status and the error, and the sink's state afterwards.\<close>

definition EvaluateIngestion ::
  "unicode_tables \<Rightarrow> 'w DeterministicPolicyService \<Rightarrow> Context option \<Rightarrow> time \<Rightarrow> RequestMetadata \<Rightarrow>
   IngestionJob \<Rightarrow> 'w \<Rightarrow> (IngestionStatus \<times> error option) \<times> 'w" where
  "EvaluateIngestion U s ctx now metadata job w =
     (case RequestMetadata_Validate metadata of
        Some e \<Rightarrow> ((IngestionStatusRejected, Some (validation_error ''request_metadata'' e)), w)
      | None \<Rightarrow>
     (case IngestionJob_Validate job of
        Some e \<Rightarrow> ((IngestionStatusRejected, Some (validation_error ''ingestion_job'' e)), w)
      | None \<Rightarrow>
          if rm_TenantID metadata \<noteq> job_TenantID job
          then ((IngestionStatusRejected,
                 Some (ErrorString (''tenant mismatch: metadata='' @ rm_TenantID metadata @
                        '' job='' @ job_TenantID job))), w)
          else let (decision, policyCode) = policy_decision U (ps_residencyRegion s) (job_SourceURI job);
                   auditEvent = decision_event metadata job decision policyCode now
               in case RecordAuditEvent s ctx auditEvent w of
                    (Some e, w') \<Rightarrow> ((IngestionStatusRejected, Some e), w')
                  | (None, w') \<Rightarrow> ((decision, None), w')))"

section \<open>Lemmas\<close>

lemma deterministicEventID_not_Nil [simp]: "deterministicEventID m j d c \<noteq> []"
  by (simp add: deterministicEventID_def Let_def)

lemma length_deterministicEventID: "length (deterministicEventID m j d c) = 20"
  by (simp add: deterministicEventID_def Let_def)

text \<open>An evaluation that passes the three checks is the sink's answer to the decision's event.\<close>

definition admissible :: "RequestMetadata \<Rightarrow> IngestionJob \<Rightarrow> bool" where
  "admissible m j \<longleftrightarrow>
     RequestMetadata_Validate m = None \<and> IngestionJob_Validate j = None \<and>
     rm_TenantID m = job_TenantID j"

lemma decision_event_valid:
  "admissible m j \<Longrightarrow> now \<noteq> 0 \<Longrightarrow> AuditEvent_Validate (decision_event m j d c now) = None"
  by (simp add: admissible_def decision_event_def)

lemma EvaluateIngestion_refused:
  "\<not> admissible m j \<Longrightarrow>
   \<exists>e. EvaluateIngestion U s ctx now m j w = ((IngestionStatusRejected, Some e), w)"
  by (cases "RequestMetadata_Validate m"; cases "IngestionJob_Validate j")
    (simp_all add: EvaluateIngestion_def admissible_def del: RequestMetadata_Validate_None
      IngestionJob_Validate_None)

lemma EvaluateIngestion_admissible:
  assumes "admissible m j" and "now \<noteq> 0"
  shows "EvaluateIngestion U s ctx now m j w =
    (let (d, c) = policy_decision U (ps_residencyRegion s) (job_SourceURI j)
     in case (case ps_auditSink s of None \<Rightarrow> (None, w)
              | Some write \<Rightarrow> write ctx (decision_event m j d c now) w) of
          (Some e, w') \<Rightarrow> ((IngestionStatusRejected, Some e), w')
        | (None, w') \<Rightarrow> ((d, None), w'))"
proof -
  have "RequestMetadata_Validate m = None" "IngestionJob_Validate j = None"
    using assms(1) by (simp_all only: admissible_def)
  moreover have "RecordAuditEvent s ctx (decision_event m j d c now) w =
      (case ps_auditSink s of None \<Rightarrow> (None, w) | Some write \<Rightarrow> write ctx (decision_event m j d c now) w)"
    for d c
    using decision_event_valid [OF assms]
    by (simp add: RecordAuditEvent_def del: AuditEvent_Validate_None)
  ultimately show ?thesis
    using assms(1)
    by (simp add: EvaluateIngestion_def admissible_def
        del: RequestMetadata_Validate_None IngestionJob_Validate_None)
qed

lemma policy_decision_cases:
  "policy_decision U region uri = (d, c) \<Longrightarrow>
   (d = IngestionStatusApproved \<longleftrightarrow> containsRequiredResidency U uri region \<and> \<not> hasPIIMarker U uri) \<and>
   (d = IngestionStatusQuarantine \<longleftrightarrow> containsRequiredResidency U uri region \<and> hasPIIMarker U uri) \<and>
   (d = IngestionStatusRejected \<longleftrightarrow> \<not> containsRequiredResidency U uri region)"
  by (auto simp: policy_decision_def split: if_splits)

section \<open>Properties\<close>

text \<open>C17: approval is fail-closed. \<^verbatim>\<open>EvaluateIngestion\<close> answers \<^verbatim>\<open>approved\<close> only without an error, only
  for a valid request and job of one tenant whose source lies in the required region and carries no
  PII marker, and only after the sink, when there is one, has accepted an audit event with outcome
  \<^verbatim>\<open>allowed\<close> for that tenant and resource. Every error comes with \<^verbatim>\<open>rejected\<close>.\<close>

theorem approval_fail_closed:
  assumes "EvaluateIngestion U s ctx now m j w = ((status, err), w')"
  shows "(err \<noteq> None \<longrightarrow> status = IngestionStatusRejected) \<and>
    (status = IngestionStatusApproved \<longrightarrow>
       rm_TenantID m = job_TenantID j \<and> rm_TenantID m \<noteq> [] \<and>
       containsRequiredResidency U (job_SourceURI j) (ps_residencyRegion s) \<and>
       \<not> hasPIIMarker U (job_SourceURI j) \<and>
       (case ps_auditSink s of
          None \<Rightarrow> w' = w
        | Some write \<Rightarrow>
            \<exists>ev. write ctx ev w = (None, w') \<and> ae_Outcome ev = AuditOutcomeAllowed \<and>
                 ae_TenantID ev = job_TenantID j \<and> ae_Resource ev = job_SourceURI j))"
proof (cases "admissible m j")
  case False
  from EvaluateIngestion_refused [OF this, of U s ctx now w] assms show ?thesis by auto
next
  case adm: True
  let ?p = "policy_decision U (ps_residencyRegion s) (job_SourceURI j)"
  let ?ev = "decision_event m j (fst ?p) (snd ?p) now"
  have checks: "RequestMetadata_Validate m = None" "IngestionJob_Validate j = None"
    "rm_TenantID m = job_TenantID j" "job_TenantID j \<noteq> []"
    using adm by (auto simp: admissible_def)
  have run: "((status, err), w') =
      (case RecordAuditEvent s ctx ?ev w of
         (Some e, w') \<Rightarrow> ((IngestionStatusRejected, Some e), w') | (None, w') \<Rightarrow> ((fst ?p, None), w'))"
    using assms checks(3) checks(1,2)
    by (simp add: EvaluateIngestion_def case_prod_beta Let_def
        del: RequestMetadata_Validate_None IngestionJob_Validate_None)
  show ?thesis
  proof (cases "fst (RecordAuditEvent s ctx ?ev w)")
    case (Some e)
    with run show ?thesis by (simp add: case_prod_beta)
  next
    case None
    with run have st: "status = fst ?p" "err = None" "RecordAuditEvent s ctx ?ev w = (None, w')"
      by (simp_all add: case_prod_beta prod_eq_iff)
    have sink: "case ps_auditSink s of None \<Rightarrow> w' = w | Some write \<Rightarrow> write ctx ?ev w = (None, w')"
      using st(3) by (auto simp: RecordAuditEvent_def split: option.splits)
    have "ae_Outcome ?ev = toAuditOutcome (fst ?p)" "ae_TenantID ?ev = job_TenantID j"
      "ae_Resource ?ev = job_SourceURI j"
      using checks by (simp_all add: decision_event_def)
    with sink st checks policy_decision_cases [of U "ps_residencyRegion s" "job_SourceURI j" "fst ?p" "snd ?p"]
    show ?thesis by (auto simp: toAuditOutcome_def split: option.splits)
  qed
qed

text \<open>The decision table. With a sink that accepts events, an admissible request gets \<^verbatim>\<open>rejected\<close>
  outside the required region, whatever markers the source carries, \<^verbatim>\<open>quarantine\<close> for a PII marker
  inside it and \<^verbatim>\<open>approved\<close> otherwise; exactly one event is written, and its outcome and attributes
  agree with the decision returned.\<close>

theorem evaluation_decision_table:
  assumes "ps_auditSink s = Some (\<lambda>ctx ev evs. (None, evs @ [ev]))"
    and "RequestMetadata_Validate m = None" and "IngestionJob_Validate j = None"
    and "rm_TenantID m = job_TenantID j" and "now \<noteq> 0"
  shows "\<exists>status ev.
    EvaluateIngestion U s ctx now m j evs = ((status, None), evs @ [ev]) \<and>
    status = (if \<not> containsRequiredResidency U (job_SourceURI j) (ps_residencyRegion s)
              then IngestionStatusRejected
              else if hasPIIMarker U (job_SourceURI j) then IngestionStatusQuarantine
              else IngestionStatusApproved) \<and>
    AuditEvent_Validate ev = None \<and> ae_OccurredAt ev = now \<and>
    (ae_Outcome ev = AuditOutcomeAllowed \<longleftrightarrow> status = IngestionStatusApproved) \<and>
    map_of (ae_Attributes ev) ''decision'' = Some status \<and>
    map_of (ae_Attributes ev) ''job_id'' = Some (job_JobID j) \<and>
    map_of (ae_Attributes ev) ''request_id'' = Some (rm_RequestID m)"
proof -
  let ?p = "policy_decision U (ps_residencyRegion s) (job_SourceURI j)"
  let ?ev = "decision_event m j (fst ?p) (snd ?p) now"
  have adm: "admissible m j" using assms(2-4) by (simp add: admissible_def)
  have "EvaluateIngestion U s ctx now m j evs = ((fst ?p, None), evs @ [?ev])"
    by (simp add: EvaluateIngestion_admissible [OF adm assms(5)] assms(1) case_prod_beta Let_def)
  moreover have "AuditEvent_Validate ?ev = None" by (rule decision_event_valid [OF adm assms(5)])
  ultimately show ?thesis
    by (intro exI [of _ "fst ?p"] exI [of _ ?ev])
      (simp add: policy_decision_def decision_event_def toAuditOutcome_def del: AuditEvent_Validate_None)
qed

definition sample_policy :: "AuditEvent list DeterministicPolicyService" where
  "sample_policy = NewDeterministicPolicyServiceWithClock (Some (\<lambda>ctx ev evs. (None, evs @ [ev])))"

definition sample_metadata :: RequestMetadata where
  "sample_metadata = \<lparr>rm_TenantID = ''acme'', rm_RequestID = ''r1'', rm_SourceIP = [], rm_UserAgent = []\<rparr>"

definition sample_job :: "string \<Rightarrow> IngestionJob" where
  "sample_job uri =
     \<lparr>job_JobID = ''j1'', job_TenantID = ''acme'', job_SourceURI = uri, job_Checksum = [],
      job_PolicyDecision = [], job_CreatedAt = 1\<rparr>"

lemma sample_policy_table:
  "policy_decision ascii_tables ''ap-south-1'' ''s3://AP-south-1/doc''
     = (IngestionStatusApproved, ''policy_approved'')"
  "policy_decision ascii_tables ''ap-south-1'' ''s3://ap-south-1/PII''
     = (IngestionStatusQuarantine, ''pii_redaction_required'')"
  "policy_decision ascii_tables ''ap-south-1'' ''s3://us/pii''
     = (IngestionStatusRejected, ''residency_lock_violation'')"
  by (simp_all add: policy_decision_def containsRequiredResidency_def hasPIIMarker_def ascii_eval
      string_eval)

theorem approval_fail_closed_witness:
  "\<exists>ev. EvaluateIngestion ascii_tables sample_policy None 5 sample_metadata
      (sample_job ''s3://AP-south-1/doc'') [] = ((IngestionStatusApproved, None), [ev]) \<and>
    ae_Outcome ev = AuditOutcomeAllowed"
proof -
  have run: "EvaluateIngestion ascii_tables sample_policy None 5 sample_metadata
      (sample_job ''s3://AP-south-1/doc'') [] = ((IngestionStatusApproved, None),
      [decision_event sample_metadata (sample_job ''s3://AP-south-1/doc'')
         IngestionStatusApproved ''policy_approved'' 5])"
    using sample_policy_table
    by (subst EvaluateIngestion_admissible)
      (simp_all add: admissible_def sample_policy_def NewDeterministicPolicyServiceWithClock_def
        sample_metadata_def sample_job_def)
  with approval_fail_closed [OF run] show ?thesis
    by (auto simp: sample_policy_def NewDeterministicPolicyServiceWithClock_def)
qed

theorem evaluation_decision_table_witness:
  "fst (EvaluateIngestion ascii_tables sample_policy None 5 sample_metadata
      (sample_job ''s3://us/pii'') []) = (IngestionStatusRejected, None)"
proof -
  have "\<not> containsRequiredResidency ascii_tables ''s3://us/pii'' ''ap-south-1''"
    by (simp add: containsRequiredResidency_def ascii_eval string_eval)
  with evaluation_decision_table [of sample_policy sample_metadata "sample_job ''s3://us/pii''" 5
      ascii_tables None "[]"]
  show ?thesis
    by (auto simp: sample_policy_def NewDeterministicPolicyServiceWithClock_def sample_metadata_def
        sample_job_def)
qed

end
