(* ===== verification/Ingestion_Queue.thy ===== *)
theory Ingestion_Queue
  imports Contracts Go_Format
begin

text \<open>
  \<^verbatim>\<open>internal/services/ingestion/queue_provider.go\<close>: the configuration of the queue provider, the
  in-memory adapter and the SQS adapter. The SQS client is an interface whose implementation is not
  part of the sources: it is a record of operations on a state \<open>'w\<close>. So is the codec of
  \<^verbatim>\<open>encoding/json\<close> for queue messages, of which the adapter needs only that it reads back what it
  wrote.
\<close>

section \<open>Configuration\<close>

record QueueProviderConfig =
  qc_Provider :: string
  qc_AWSRegion :: string
  qc_QueueURL :: string
  qc_DLQURL :: string
  qc_MessageGroupID :: string
  qc_LocalFallbackMode :: bool

text \<open>An environment lookup returns the value and whether it is set.\<close>

type_synonym env = "string \<Rightarrow> string \<times> bool"

definition getEnv :: "env option \<Rightarrow> string \<Rightarrow> string" where
  "getEnv lookupEnv key = (case lookupEnv of None \<Rightarrow> [] | Some f \<Rightarrow> fst (f key))"

definition LoadQueueProviderConfigFromEnv :: "unicode_tables \<Rightarrow> env \<Rightarrow> QueueProviderConfig" where
  "LoadQueueProviderConfigFromEnv U lookupEnv =
     (let provider =
            (case lookupEnv ''FINE_RAG_QUEUE_PROVIDER'' of
               (v, ok) \<Rightarrow> if ok \<and> TrimSpace v \<noteq> [] then ToLower U (TrimSpace v) else ''memory'');
          fallback =
            (case lookupEnv ''FINE_RAG_QUEUE_LOCAL_FALLBACK'' of
               (v, ok) \<Rightarrow> \<not> (ok \<and> EqualFold_ascii (TrimSpace v) ''false''));
          groupID = TrimSpace (getEnv (Some lookupEnv) ''FINE_RAG_SQS_MESSAGE_GROUP_ID'')
      in \<lparr>qc_Provider = provider,
          qc_AWSRegion = TrimSpace (getEnv (Some lookupEnv) ''AWS_REGION''),
          qc_QueueURL = TrimSpace (getEnv (Some lookupEnv) ''FINE_RAG_SQS_QUEUE_URL''),
          qc_DLQURL = TrimSpace (getEnv (Some lookupEnv) ''FINE_RAG_SQS_DLQ_URL''),
          qc_MessageGroupID = (if groupID = [] then ''ingestion-jobs'' else groupID),
          qc_LocalFallbackMode = fallback\<rparr>)"

definition QueueProviderConfig_Validate :: "unicode_tables \<Rightarrow> QueueProviderConfig \<Rightarrow> error option" where
  "QueueProviderConfig_Validate U c =
     (if qc_Provider c = [] \<or> qc_Provider c = ''memory'' then None
      else if qc_Provider c = ''sqs'' then
        if qc_AWSRegion c = []
        then Some (ErrorString ''AWS_REGION is required when FINE_RAG_QUEUE_PROVIDER=sqs'')
        else if qc_QueueURL c = []
        then Some (ErrorString ''FINE_RAG_SQS_QUEUE_URL is required when FINE_RAG_QUEUE_PROVIDER=sqs'')
        else if qc_DLQURL c = []
        then Some (ErrorString ''FINE_RAG_SQS_DLQ_URL is required when FINE_RAG_QUEUE_PROVIDER=sqs'')
        else None
      else Some (ErrorString (''unsupported FINE_RAG_QUEUE_PROVIDER '' @ Quote U (qc_Provider c))))"

section \<open>The in-memory adapter\<close>

definition ErrQueueEmpty :: error where
  "ErrQueueEmpty = ErrorString ''ingestion queue empty''"

record InMemoryQueueAdapter =
  mq_messages :: "QueueMessage list"
  mq_dlq :: "QueueMessage list"

definition NewInMemoryQueueAdapter :: InMemoryQueueAdapter where
  "NewInMemoryQueueAdapter = \<lparr>mq_messages = [], mq_dlq = []\<rparr>"

definition InMemory_Enqueue ::
  "QueueMessage \<Rightarrow> InMemoryQueueAdapter \<Rightarrow> error option \<times> InMemoryQueueAdapter" where
  "InMemory_Enqueue message q = (None, q\<lparr>mq_messages := mq_messages q @ [message]\<rparr>)"

definition InMemory_Dequeue ::
  "InMemoryQueueAdapter \<Rightarrow> QueueMessage result \<times> InMemoryQueueAdapter" where
  "InMemory_Dequeue q =
     (case mq_messages q of
        [] \<Rightarrow> (Inl ErrQueueEmpty, q)
      | msg # rest \<Rightarrow> (Inr msg, q\<lparr>mq_messages := rest\<rparr>))"

definition InMemory_Publish ::
  "QueueMessage \<Rightarrow> string \<Rightarrow> InMemoryQueueAdapter \<Rightarrow> error option \<times> InMemoryQueueAdapter" where
  "InMemory_Publish message reason q = (None, q\<lparr>mq_dlq := mq_dlq q @ [message]\<rparr>)"

section \<open>The SQS adapter\<close>

record SQSSendInput =
  si_QueueURL :: string
  si_Body :: string
  si_MessageGroupID :: string
  si_MessageDeduplicationID :: string

record SQSReceiveInput =
  ri_QueueURL :: string
  ri_MaxNumberOfMessages :: int
  ri_WaitTimeSeconds :: int

record SQSMessage =
  sm_MessageID :: string
  sm_Body :: string
  sm_ReceiptHandle :: string

record 'w SQSClient =
  sqs_SendMessage :: "SQSSendInput \<Rightarrow> 'w \<Rightarrow> string result \<times> 'w"
  sqs_ReceiveMessages :: "SQSReceiveInput \<Rightarrow> 'w \<Rightarrow> SQSMessage list result \<times> 'w"
  sqs_DeleteMessage :: "string \<Rightarrow> string \<Rightarrow> 'w \<Rightarrow> error option \<times> 'w"

record message_codec =
  mc_marshal :: "QueueMessage \<Rightarrow> string result"
  mc_marshal_dlq :: "QueueMessage \<Rightarrow> string \<Rightarrow> string result"
  mc_unmarshal :: "string \<Rightarrow> QueueMessage result"

record 'w SQSQueueAdapter =
  sa_client :: "'w SQSClient"
  sa_cfg :: QueueProviderConfig

definition NewSQSQueueAdapter ::
  "unicode_tables \<Rightarrow> 'w SQSClient option \<Rightarrow> QueueProviderConfig \<Rightarrow> 'w SQSQueueAdapter result" where
  "NewSQSQueueAdapter U client cfg =
     (case client of
        None \<Rightarrow> Inl (ErrorString ''sqs client is required'')
      | Some c \<Rightarrow>
          (case QueueProviderConfig_Validate U cfg of
             Some e \<Rightarrow> Inl e
           | None \<Rightarrow> Inr \<lparr>sa_client = c, sa_cfg = cfg\<rparr>))"

definition dedup_id :: "QueueMessage \<Rightarrow> string" where
  "dedup_id m = (if qm_IdempotencyKey m = [] then qm_MessageID m else qm_IdempotencyKey m)"

definition send :: "'w SQSQueueAdapter \<Rightarrow> string \<Rightarrow> string result \<Rightarrow> QueueMessage \<Rightarrow> 'w \<Rightarrow> error option \<times> 'w" where
  "send a url payload m w =
     (case payload of
        Inl e \<Rightarrow> (Some e, w)
      | Inr body \<Rightarrow>
          (case sqs_SendMessage (sa_client a)
                  \<lparr>si_QueueURL = url, si_Body = body,
                   si_MessageGroupID = qc_MessageGroupID (sa_cfg a),
                   si_MessageDeduplicationID = dedup_id m\<rparr> w of
             (Inl e, w') \<Rightarrow> (Some e, w')
           | (Inr _, w') \<Rightarrow> (None, w')))"

definition SQS_Enqueue ::
  "message_codec \<Rightarrow> 'w SQSQueueAdapter \<Rightarrow> QueueMessage \<Rightarrow> 'w \<Rightarrow> error option \<times> 'w" where
  "SQS_Enqueue J a message w =
     (case QueueMessage_Validate message of
        Some e \<Rightarrow> (Some (validation_error ''queue_message'' e), w)
      | None \<Rightarrow> send a (qc_QueueURL (sa_cfg a)) (mc_marshal J message) message w)"

definition SQS_Publish ::
  "message_codec \<Rightarrow> 'w SQSQueueAdapter \<Rightarrow> QueueMessage \<Rightarrow> string \<Rightarrow> 'w \<Rightarrow> error option \<times> 'w" where
  "SQS_Publish J a message reason w =
     (case QueueMessage_Validate message of
        Some e \<Rightarrow> (Some (validation_error ''queue_message'' e), w)
      | None \<Rightarrow> send a (qc_DLQURL (sa_cfg a)) (mc_marshal_dlq J message reason) message w)"

definition receive_input :: "QueueProviderConfig \<Rightarrow> SQSReceiveInput" where
  "receive_input cfg =
     \<lparr>ri_QueueURL = qc_QueueURL cfg, ri_MaxNumberOfMessages = 1, ri_WaitTimeSeconds = 5\<rparr>"

definition complete_message :: "time \<Rightarrow> SQSMessage \<Rightarrow> QueueMessage \<Rightarrow> QueueMessage" where
  "complete_message now raw decoded =
     (let d1 = (if time_IsZero (qm_EnqueuedAt decoded) then decoded\<lparr>qm_EnqueuedAt := now\<rparr> else decoded)
      in if qm_MessageID d1 = [] then d1\<lparr>qm_MessageID := sm_MessageID raw\<rparr> else d1)"

definition SQS_Dequeue ::
  "message_codec \<Rightarrow> 'w SQSQueueAdapter \<Rightarrow> time \<Rightarrow> 'w \<Rightarrow> QueueMessage result \<times> 'w" where
  "SQS_Dequeue J a now w =
     (case sqs_ReceiveMessages (sa_client a) (receive_input (sa_cfg a)) w of
        (Inl e, w1) \<Rightarrow> (Inl e, w1)
      | (Inr [], w1) \<Rightarrow> (Inl ErrQueueEmpty, w1)
      | (Inr (raw # _), w1) \<Rightarrow>
          (case mc_unmarshal J (sm_Body raw) of
             Inl e \<Rightarrow>
               (Inl (WrapError (''decode sqs message '' @ sm_MessageID raw @ '': '' @ error_text e) e), w1)
           | Inr decoded \<Rightarrow>
               (case sqs_DeleteMessage (sa_client a) (qc_QueueURL (sa_cfg a)) (sm_ReceiptHandle raw) w1 of
                  (Some e, w2) \<Rightarrow> (Inl e, w2)
                | (None, w2) \<Rightarrow> (Inr (complete_message now raw decoded), w2))))"

section \<open>Choice of the adapter\<close>

datatype 'w queue_adapters =
    UseMemory InMemoryQueueAdapter
  | UseSQS "'w SQSQueueAdapter"

definition BuildQueueAdapters ::
  "unicode_tables \<Rightarrow> QueueProviderConfig \<Rightarrow> 'w SQSClient option \<Rightarrow> InMemoryQueueAdapter option \<Rightarrow>
   ('w queue_adapters \<times> string) result" where
  "BuildQueueAdapters U cfg sqsClient fallback =
     (let fb = (case fallback of None \<Rightarrow> NewInMemoryQueueAdapter | Some q \<Rightarrow> q)
      in if qc_Provider cfg = [] \<or> qc_Provider cfg = ''memory'' then Inr (UseMemory fb, ''memory'')
         else if qc_Provider cfg \<noteq> ''sqs''
         then Inl (ErrorString (''unsupported queue provider '' @ Quote U (qc_Provider cfg)))
         else case QueueProviderConfig_Validate U cfg of
             Some e \<Rightarrow>
               if qc_LocalFallbackMode cfg then Inr (UseMemory fb, ''memory-fallback'') else Inl e
           | None \<Rightarrow>
               (case NewSQSQueueAdapter U sqsClient cfg of
                  Inl e \<Rightarrow>
                    if qc_LocalFallbackMode cfg then Inr (UseMemory fb, ''memory-fallback'') else Inl e
                | Inr adapter \<Rightarrow> Inr (UseSQS adapter, ''sqs'')))"

section \<open>The queue contract\<close>

text \<open>What the worker relies on: a first-in first-out queue of messages whose empty state is an
  error of its own.\<close>

locale message_queue =
  fixes enqueue :: "QueueMessage \<Rightarrow> 'q \<Rightarrow> error option \<times> 'q"
    and dequeue :: "'q \<Rightarrow> QueueMessage result \<times> 'q"
    and contents :: "'q \<Rightarrow> QueueMessage list"
  assumes enqueue_ok: "fst (enqueue m q) = None"
    and contents_enqueue: "contents (snd (enqueue m q)) = contents q @ [m]"
    and dequeue_empty: "contents q = [] \<Longrightarrow> dequeue q = (Inl ErrQueueEmpty, q)"
    and dequeue_first: "contents q = m # ms \<Longrightarrow>
      fst (dequeue q) = Inr m \<and> contents (snd (dequeue q)) = ms"
begin

lemma contents_enqueue_all:
  "contents (fold (\<lambda>m q. snd (enqueue m q)) ms q) = contents q @ ms"
  by (induction ms arbitrary: q) (simp_all add: contents_enqueue)

fun drain :: "nat \<Rightarrow> 'q \<Rightarrow> QueueMessage list \<times> 'q" where
  "drain 0 q = ([], q)"
| "drain (Suc n) q =
     (case dequeue q of
        (Inl _, q') \<Rightarrow> ([], q')
      | (Inr m, q') \<Rightarrow> (let (ms, q'') = drain n q' in (m # ms, q'')))"

lemma drain_contents:
  "fst (drain n q) = take n (contents q) \<and> contents (snd (drain n q)) = drop n (contents q)"
proof (induction n arbitrary: q)
  case (Suc n)
  show ?case
  proof (cases "contents q")
    case Nil
    then show ?thesis by (simp add: dequeue_empty)
  next
    case (Cons m ms)
    with dequeue_first [OF Cons] obtain q' where "dequeue q = (Inr m, q')" "contents q' = ms"
      by (cases "dequeue q") auto
    with Suc.IH [of q'] Cons show ?thesis by (simp add: case_prod_beta Let_def)
  qed
qed simp

text \<open>Whatever was in the queue, the messages come out once each, in the order they went in.\<close>

lemma fifo:
  "fst (drain (length (contents q) + length ms) (fold (\<lambda>m q. snd (enqueue m q)) ms q))
     = contents q @ ms"
  using drain_contents [of "length (contents q) + length ms" "fold (\<lambda>m q. snd (enqueue m q)) ms q"]
  by (simp add: contents_enqueue_all)

end

interpretation memory_queue: message_queue InMemory_Enqueue InMemory_Dequeue mq_messages
  by unfold_locales (auto simp: InMemory_Enqueue_def InMemory_Dequeue_def)

section \<open>Lemmas\<close>

lemma QueueProviderConfig_Validate_None:
  "QueueProviderConfig_Validate U c = None \<longleftrightarrow>
     qc_Provider c = [] \<or> qc_Provider c = ''memory'' \<or>
     qc_Provider c = ''sqs'' \<and> qc_AWSRegion c \<noteq> [] \<and> qc_QueueURL c \<noteq> [] \<and> qc_DLQURL c \<noteq> []"
  by (auto simp: QueueProviderConfig_Validate_def)

lemma complete_message_id:
  "QueueMessage_Validate m = None \<Longrightarrow> complete_message now raw m = m"
  by (simp add: complete_message_def time_IsZero_def)

text \<open>Draining the in-memory adapter, as iterated \<^verbatim>\<open>Dequeue\<close>.\<close>

fun InMemory_drain :: "nat \<Rightarrow> InMemoryQueueAdapter \<Rightarrow> QueueMessage list \<times> InMemoryQueueAdapter" where
  "InMemory_drain 0 q = ([], q)"
| "InMemory_drain (Suc n) q =
     (case InMemory_Dequeue q of
        (Inl _, q') \<Rightarrow> ([], q')
      | (Inr m, q') \<Rightarrow> (let (ms, q'') = InMemory_drain n q' in (m # ms, q'')))"

lemma InMemory_drain_eq: "InMemory_drain n q = memory_queue.drain n q"
  by (induction n arbitrary: q) (simp_all add: memory_queue.drain.simps split: prod.split sum.split)

section \<open>Properties\<close>

text \<open>The in-memory adapter is a first-in first-out queue: after enqueuing any messages onto any
  queue, dequeuing returns what was queued before and then these, in order, each once, and the dead
  letters are untouched.\<close>

theorem memory_queue_fifo:
  "fst (InMemory_drain (length (mq_messages q) + length ms)
          (fold (\<lambda>m q. snd (InMemory_Enqueue m q)) ms q)) = mq_messages q @ ms \<and>
   mq_dlq (fold (\<lambda>m q. snd (InMemory_Enqueue m q)) ms q) = mq_dlq q"
proof
  show "fst (InMemory_drain (length (mq_messages q) + length ms)
          (fold (\<lambda>m q. snd (InMemory_Enqueue m q)) ms q)) = mq_messages q @ ms"
    by (simp add: InMemory_drain_eq memory_queue.fifo)
  show "mq_dlq (fold (\<lambda>m q. snd (InMemory_Enqueue m q)) ms q) = mq_dlq q"
    by (induction ms arbitrary: q) (simp_all add: InMemory_Enqueue_def)
qed

text \<open>C24: the SQS adapter reads back what it sent. When \<^verbatim>\<open>Enqueue\<close> hands the client a body and a receive
  delivers that body, \<^verbatim>\<open>Dequeue\<close> returns the very message, after deleting it from the queue it was
  sent to. The codec is only assumed to read back what it wrote.\<close>

theorem sqs_roundtrip:
  assumes codec: "\<And>body. mc_marshal J m = Inr body \<Longrightarrow> mc_unmarshal J body = Inr m"
    and sent: "sqs_SendMessage (sa_client a) input w = (Inr i, wa)"
    and input: "mc_marshal J m = Inr (si_Body input)" "si_QueueURL input = qc_QueueURL (sa_cfg a)"
      "si_MessageGroupID input = qc_MessageGroupID (sa_cfg a)"
      "si_MessageDeduplicationID input =
         (if qm_IdempotencyKey m = [] then qm_MessageID m else qm_IdempotencyKey m)"
    and valid: "QueueMessage_Validate m = None"
    and delivered: "sqs_ReceiveMessages (sa_client a) (receive_input (sa_cfg a)) wb
        = (Inr (raw # others), wc)" "sm_Body raw = si_Body input"
    and deleted: "sqs_DeleteMessage (sa_client a) (qc_QueueURL (sa_cfg a)) (sm_ReceiptHandle raw) wc
        = (None, wd)"
  shows "SQS_Enqueue J a m w = (None, wa) \<and> SQS_Dequeue J a now wb = (Inr m, wd)"
proof
  have "input = \<lparr>si_QueueURL = qc_QueueURL (sa_cfg a), si_Body = si_Body input,
      si_MessageGroupID = qc_MessageGroupID (sa_cfg a), si_MessageDeduplicationID = dedup_id m\<rparr>"
    using input by (simp add: dedup_id_def)
  then have "sqs_SendMessage (sa_client a)
      \<lparr>si_QueueURL = qc_QueueURL (sa_cfg a), si_Body = si_Body input,
       si_MessageGroupID = qc_MessageGroupID (sa_cfg a), si_MessageDeduplicationID = dedup_id m\<rparr> w
      = (Inr i, wa)"
    using sent by simp
  then show "SQS_Enqueue J a m w = (None, wa)"
    using valid input(1) by (simp add: SQS_Enqueue_def send_def del: QueueMessage_Validate_None)
  show "SQS_Dequeue J a now wb = (Inr m, wd)"
    using delivered deleted codec [OF input(1)] complete_message_id [OF valid]
    by (simp add: SQS_Dequeue_def)
qed

text \<open>A message that cannot be decoded is not deleted: \<^verbatim>\<open>Dequeue\<close> fails with the client's state as the
  receive left it, whatever \<^verbatim>\<open>DeleteMessage\<close> would do; and whenever \<^verbatim>\<open>Dequeue\<close> returns a message, the
  client confirmed its deletion.\<close>

theorem sqs_delete_after_decode:
  "(sqs_ReceiveMessages (sa_client a) (receive_input (sa_cfg a)) w = (Inr (raw # others), w1) \<and>
    mc_unmarshal J (sm_Body raw) = Inl e \<longrightarrow>
      (\<exists>e'. SQS_Dequeue J a now w = (Inl e', w1) \<and> error_unwrap e' = Some e)) \<and>
   (SQS_Dequeue J a now w = (Inr m, w2) \<longrightarrow>
      (\<exists>raw others w1 d. sqs_ReceiveMessages (sa_client a) (receive_input (sa_cfg a)) w
           = (Inr (raw # others), w1) \<and> mc_unmarshal J (sm_Body raw) = Inr d \<and>
         sqs_DeleteMessage (sa_client a) (qc_QueueURL (sa_cfg a)) (sm_ReceiptHandle raw) w1
           = (None, w2) \<and> qm_Job m = qm_Job d))"
  by (auto simp: SQS_Dequeue_def complete_message_def Let_def
      split: prod.splits sum.splits list.splits option.splits if_splits)

text \<open>The provider choice. \<^verbatim>\<open>BuildQueueAdapters\<close> picks SQS exactly for a complete SQS configuration with
  a client; with the local fallback on, it fails only for an unknown provider; with the fallback off,
  an incomplete SQS configuration is an error and never silently the in-memory queue.\<close>

theorem queue_provider_choice:
  "((\<exists>a mode. BuildQueueAdapters U cfg client fb = Inr (UseSQS a, mode)) \<longleftrightarrow>
      qc_Provider cfg = ''sqs'' \<and> qc_AWSRegion cfg \<noteq> [] \<and> qc_QueueURL cfg \<noteq> [] \<and>
      qc_DLQURL cfg \<noteq> [] \<and> client \<noteq> None) \<and>
   (qc_LocalFallbackMode cfg \<longrightarrow>
      ((\<exists>e. BuildQueueAdapters U cfg client fb = Inl e) \<longleftrightarrow>
         qc_Provider cfg \<notin> {[], ''memory'', ''sqs''})) \<and>
   (\<not> qc_LocalFallbackMode cfg \<longrightarrow>
      ((\<exists>q mode. BuildQueueAdapters U cfg client fb = Inr (UseMemory q, mode)) \<longleftrightarrow>
         qc_Provider cfg \<in> {[], ''memory''}))"
  by (cases client; cases "QueueProviderConfig_Validate U cfg")
    (auto simp: BuildQueueAdapters_def NewSQSQueueAdapter_def QueueProviderConfig_Validate_None
      QueueProviderConfig_Validate_def split: if_splits)

section \<open>Witnesses\<close>

definition sample_message :: QueueMessage where
  "sample_message =
     \<lparr>qm_MessageID = ''m1'',
      qm_Job = \<lparr>job_JobID = ''j1'', job_TenantID = ''acme'', job_SourceURI = ''s3://doc'',
                job_Checksum = ''c'', job_PolicyDecision = ''approved'', job_CreatedAt = 1\<rparr>,
      qm_IdempotencyKey = ''k1'', qm_Attempt = 0, qm_EnqueuedAt = 2\<rparr>"

definition sample_client :: "SQSSendInput list SQSClient" where
  "sample_client =
     \<lparr>sqs_SendMessage = (\<lambda>i w. (Inr ''id'', w @ [i])),
      sqs_ReceiveMessages = (\<lambda>r w. (Inr (map (\<lambda>i. \<lparr>sm_MessageID = ''id'', sm_Body = si_Body i,
         sm_ReceiptHandle = ''h''\<rparr>) (take 1 w)), w)),
      sqs_DeleteMessage = (\<lambda>u h w. (None, drop 1 w))\<rparr>"

definition sample_config :: QueueProviderConfig where
  "sample_config =
     \<lparr>qc_Provider = ''sqs'', qc_AWSRegion = ''r'', qc_QueueURL = ''q'', qc_DLQURL = ''d'',
      qc_MessageGroupID = ''g'', qc_LocalFallbackMode = False\<rparr>"

definition sample_codec :: message_codec where
  "sample_codec =
     \<lparr>mc_marshal = (\<lambda>m. Inr (qm_MessageID m)), mc_marshal_dlq = (\<lambda>m r. Inr r),
      mc_unmarshal = (\<lambda>b. if b = ''m1'' then Inr sample_message else Inl (ErrorString ''bad''))\<rparr>"

definition sample_input :: "string \<Rightarrow> SQSSendInput" where
  "sample_input body =
     \<lparr>si_QueueURL = ''q'', si_Body = body, si_MessageGroupID = ''g'', si_MessageDeduplicationID = ''k1''\<rparr>"

lemmas sample_defs = sample_message_def sample_client_def sample_config_def sample_codec_def
  sample_input_def receive_input_def

theorem sqs_roundtrip_witness:
  "SQS_Enqueue sample_codec \<lparr>sa_client = sample_client, sa_cfg = sample_config\<rparr> sample_message []
     = (None, [sample_input ''m1'']) \<and>
   SQS_Dequeue sample_codec \<lparr>sa_client = sample_client, sa_cfg = sample_config\<rparr> 9 [sample_input ''m1'']
     = (Inr sample_message, [])"
  by (rule sqs_roundtrip [where input = "sample_input ''m1''" and i = "''id''" and others = "[]" and
        raw = "\<lparr>sm_MessageID = ''id'', sm_Body = ''m1'', sm_ReceiptHandle = ''h''\<rparr>" and
        wc = "[sample_input ''m1'']"]) (simp_all add: sample_defs)

theorem sqs_delete_after_decode_witness:
  "\<exists>e. SQS_Dequeue sample_codec \<lparr>sa_client = sample_client, sa_cfg = sample_config\<rparr> 9
     [sample_input ''zz''] = (Inl e, [sample_input ''zz''])"
  using sqs_delete_after_decode [of "\<lparr>sa_client = sample_client, sa_cfg = sample_config\<rparr>"
      "[sample_input ''zz'']" "\<lparr>sm_MessageID = ''id'', sm_Body = ''zz'', sm_ReceiptHandle = ''h''\<rparr>"
      "[]" "[sample_input ''zz'']" sample_codec "ErrorString ''bad''" 9]
  by (auto simp: sample_defs)

theorem queue_provider_choice_witness:
  "\<exists>a mode. BuildQueueAdapters ascii_tables sample_config (Some sample_client) None
     = Inr (UseSQS a, mode)"
  using queue_provider_choice [of ascii_tables sample_config "Some sample_client" None]
  by (simp add: sample_config_def)

end
