(* ===== verification/Ingestion_Worker.thy ===== *)
theory Ingestion_Worker
  imports Ingestion_Queue Chunking
begin

text \<open>
  \<^verbatim>\<open>internal/services/ingestion/service.go\<close> and \<^verbatim>\<open>metadata_recorder.go\<close>: the profiler of uploaded payloads and
  the asynchronous worker that takes approved jobs from the queue, chunks, embeds and indexes them,
  and retries or dead-letters what fails. The worker's collaborators are interfaces; each is an
  optional operation on one state \<open>'w\<close> that they may share, \<open>None\<close> being a \<^verbatim>\<open>nil\<close> interface value.
\<close>

section \<open>Profiles\<close>

record ProfileInput =
  pi_TenantID :: TenantID
  pi_SourceURI :: string
  pi_LifecycleClass :: string
  pi_ContentType :: string
  pi_Payload :: string

definition fallbackLifecycleClass :: "string \<Rightarrow> string" where
  "fallbackLifecycleClass v = (let t = TrimSpace v in if t = [] then ''standard'' else t)"

definition fallbackContentType :: "string \<Rightarrow> string" where
  "fallbackContentType v = (let t = TrimSpace v in if t = [] then ''application/octet-stream'' else t)"

definition countLines :: "string \<Rightarrow> int" where
  "countLines v = (if v = [] then 0 else int (Count_byte v (CHR 0x0A)) + 1)"

definition invalidProfile ::
  "time \<Rightarrow> ProfileInput \<Rightarrow> PayloadClassification \<Rightarrow> string \<Rightarrow> IngestionProfile" where
  "invalidProfile now i cls reason =
     \<lparr>ip_Metadata =
        \<lparr>im_TenantID = pi_TenantID i,
         im_ChecksumSHA256 = (if pi_Payload i \<noteq> [] then EncodeToString (Sum256 (pi_Payload i)) else []),
         im_SourceURI = pi_SourceURI i,
         im_LifecycleClass = fallbackLifecycleClass (pi_LifecycleClass i),
         im_CapturedAt = now\<rparr>,
      ip_PayloadBytes = int (length (pi_Payload i)),
      ip_ContentType = fallbackContentType (pi_ContentType i),
      ip_LineCount = countLines (pi_Payload i),
      ip_WordCount = int (length (Fields (pi_Payload i))),
      ip_Classification = cls,
      ip_ErrorReason = reason\<rparr>"

definition Profile :: "time \<Rightarrow> ProfileInput \<Rightarrow> IngestionProfile result" where
  "Profile now i =
     (if TenantID_Validate (pi_TenantID i) \<noteq> None
      then Inr (invalidProfile now i PayloadClassInvalidTenant ''tenant_id_missing'')
      else if TrimSpace (pi_SourceURI i) = []
      then Inr (invalidProfile now i PayloadClassInvalidSource ''source_uri_missing'')
      else if pi_Payload i = []
      then Inr (invalidProfile now i PayloadClassInvalidPayload ''payload_empty'')
      else
        let profile =
              \<lparr>ip_Metadata =
                 \<lparr>im_TenantID = pi_TenantID i,
                  im_ChecksumSHA256 = EncodeToString (Sum256 (pi_Payload i)),
                  im_SourceURI = pi_SourceURI i,
                  im_LifecycleClass = fallbackLifecycleClass (pi_LifecycleClass i),
                  im_CapturedAt = now\<rparr>,
               ip_PayloadBytes = int (length (pi_Payload i)),
               ip_ContentType = fallbackContentType (pi_ContentType i),
               ip_LineCount = countLines (pi_Payload i),
               ip_WordCount = int (length (Fields (pi_Payload i))),
               ip_Classification = PayloadClassValid,
               ip_ErrorReason = []\<rparr>
        in case IngestionProfile_Validate profile of
             Some e \<Rightarrow> Inl (WrapError (''profile validation failed: '' @ error_text e) e)
           | None \<Rightarrow> Inr profile)"

text \<open>\<^verbatim>\<open>MetadataRecorder.Record\<close>; the repository is the optional argument \<open>repo\<close>.\<close>

definition Record ::
  "(Context option \<Rightarrow> IngestionMetadata \<Rightarrow> 'w \<Rightarrow> error option \<times> 'w) option \<Rightarrow> Context option \<Rightarrow>
   IngestionProfile \<Rightarrow> 'w \<Rightarrow> error option \<times> 'w" where
  "Record repo ctx profile w =
     (case IngestionProfile_Validate profile of
        Some e \<Rightarrow> (Some (validation_error ''ingestion_profile'' e), w)
      | None \<Rightarrow>
          (case repo of
             None \<Rightarrow> (Some (ErrorString ''metadata repository is required''), w)
           | Some save \<Rightarrow> save ctx (ip_Metadata profile) w))"

section \<open>The worker\<close>

record 'w idempotency_store =
  idem_Exists :: "string \<Rightarrow> 'w \<Rightarrow> bool result \<times> 'w"
  idem_Save :: "string \<Rightarrow> duration \<Rightarrow> 'w \<Rightarrow> error option \<times> 'w"

record WorkerConfig =
  cfg_MaxRetries :: int
  cfg_ChunkSize :: int
  cfg_IdempotencyTTL :: duration

record 'w worker =
  wk_producer :: "(QueueMessage \<Rightarrow> 'w \<Rightarrow> error option \<times> 'w) option"
  wk_consumer :: "('w \<Rightarrow> QueueMessage result \<times> 'w) option"
  wk_dlq :: "(QueueMessage \<Rightarrow> string \<Rightarrow> 'w \<Rightarrow> error option \<times> 'w) option"
  wk_blobStore :: "(TenantID \<Rightarrow> string \<Rightarrow> 'w \<Rightarrow> string result \<times> 'w) option"
  wk_embedder :: "(TenantID \<Rightarrow> string list \<Rightarrow> 'w \<Rightarrow> embedding list result \<times> 'w) option"
  wk_index :: "(VectorRecord list \<Rightarrow> 'w \<Rightarrow> error option \<times> 'w) option"
  wk_idem :: "'w idempotency_store option"
  wk_retention :: "(RetentionRecord \<Rightarrow> 'w \<Rightarrow> error option \<times> 'w) option"
  wk_clock :: "'w \<Rightarrow> time \<times> 'w"
  wk_maxRetries :: int
  wk_chunkSize :: int
  wk_idempotencyTTL :: duration

text \<open>The numeric settings of \<^verbatim>\<open>NewDeterministicAsyncWorker\<close>; the collaborators are stored as given.\<close>

definition NewDeterministicAsyncWorker :: "'w worker \<Rightarrow> WorkerConfig \<Rightarrow> 'w worker" where
  "NewDeterministicAsyncWorker deps config =
     deps\<lparr>wk_maxRetries := (if cfg_MaxRetries config \<le> 0 then 3 else cfg_MaxRetries config),
          wk_chunkSize := (if cfg_ChunkSize config \<le> 0 then 200 else cfg_ChunkSize config),
          wk_idempotencyTTL :=
            (if cfg_IdempotencyTTL config \<le> 0 then 24 * 3600 * nanos_per_second
             else cfg_IdempotencyTTL config)\<rparr>"

definition hashParts :: "string list \<Rightarrow> string" where
  "hashParts parts = EncodeToString (Sum256 (Join parts ''|''))"

definition idempotencyKey :: "IngestionJob \<Rightarrow> string" where
  "idempotencyKey job = hashParts [''idem'', job_TenantID job, job_JobID job, job_Checksum job]"

definition EnqueueApprovedJob ::
  "'w worker \<Rightarrow> RequestMetadata \<Rightarrow> IngestionJob \<Rightarrow> 'w \<Rightarrow> QueueMessage result \<times> 'w" where
  "EnqueueApprovedJob wk metadata job w =
     (case RequestMetadata_Validate metadata of
        Some e \<Rightarrow> (Inl (validation_error ''request_metadata'' e), w)
      | None \<Rightarrow>
     (case IngestionJob_Validate job of
        Some e \<Rightarrow> (Inl (validation_error ''ingestion_job'' e), w)
      | None \<Rightarrow>
          if rm_TenantID metadata \<noteq> job_TenantID job
          then (Inl (ErrorString (''tenant mismatch: metadata='' @ rm_TenantID metadata @
                 '' job='' @ job_TenantID job)), w)
          else if job_PolicyDecision job \<noteq> IngestionStatusApproved
          then (Inl (ErrorString (''job policy decision must be approved, got '' @
                 job_PolicyDecision job)), w)
          else
            let (now, w1) = wk_clock wk w;
                message =
                  \<lparr>qm_MessageID =
                     hashParts [''msg'', job_TenantID job, job_JobID job, job_Checksum job],
                   qm_Job = job, qm_IdempotencyKey = idempotencyKey job, qm_Attempt = 0,
                   qm_EnqueuedAt = now\<rparr>
            in case QueueMessage_Validate message of
                 Some e \<Rightarrow> (Inl (validation_error ''queue_message'' e), w1)
               | None \<Rightarrow>
                   (case wk_producer wk of
                      None \<Rightarrow> (Inl (ErrorString ''queue producer is required''), w1)
                    | Some enqueue \<Rightarrow>
                        (case enqueue message w1 of
                           (Some e, w2) \<Rightarrow> (Inl e, w2)
                         | (None, w2) \<Rightarrow> (Inr message, w2)))))"

definition stage_error :: "string \<Rightarrow> error \<Rightarrow> error" where
  "stage_error reason cause = WrapError (reason @ '': '' @ error_text cause) cause"

definition retryOrDLQ ::
  "'w worker \<Rightarrow> QueueMessage \<Rightarrow> string \<Rightarrow> error \<Rightarrow> 'w \<Rightarrow> error option \<times> 'w" where
  "retryOrDLQ wk message reason cause w =
     (let nextAttempt = inc64 (qm_Attempt message)
      in case (if nextAttempt \<le> wk_maxRetries wk then wk_producer wk else None) of
           Some enqueue \<Rightarrow>
             (let (now, w1) = wk_clock wk w
              in case enqueue (message\<lparr>qm_Attempt := nextAttempt, qm_EnqueuedAt := now\<rparr>) w1 of
                   (Some e, w2) \<Rightarrow> (Some (stage_error reason e), w2)
                 | (None, w2) \<Rightarrow> (Some (stage_error reason cause), w2))
         | None \<Rightarrow>
             (case wk_dlq wk of
                None \<Rightarrow> (Some (stage_error reason cause), w)
              | Some publish \<Rightarrow>
                  (case publish message reason w of
                     (Some e, w1) \<Rightarrow> (Some (stage_error reason e), w1)
                   | (None, w1) \<Rightarrow> (Some (stage_error reason cause), w1))))"

definition loadPayload :: "'w worker \<Rightarrow> IngestionJob \<Rightarrow> 'w \<Rightarrow> string result \<times> 'w" where
  "loadPayload wk job w =
     (case wk_blobStore wk of
        None \<Rightarrow> (Inl (ErrorString ''artifact blob store is required''), w)
      | Some get \<Rightarrow> get (job_TenantID job) (job_SourceURI job) w)"

text \<open>The records of the chunks, from index \<open>i\<close> on; the first invalid one ends the message.\<close>

definition chunk_record ::
  "QueueMessage \<Rightarrow> time \<Rightarrow> int \<Rightarrow> string \<Rightarrow> embedding \<Rightarrow> VectorRecord" where
  "chunk_record m now i chunk vector =
     (let job = qm_Job m
      in \<lparr>vr_RecordID = hashParts [''vec'', job_TenantID job, job_JobID job, job_Checksum job, Itoa i],
          vr_TenantID = job_TenantID job,
          vr_JobID = job_JobID job,
          vr_ChunkText = chunk,
          vr_Embedding = vector,
          vr_Metadata =
            [(''tenant_id'', job_TenantID job), (''job_id'', job_JobID job),
             (''source_uri'', job_SourceURI job), (''idempotency_key'', qm_IdempotencyKey m)],
          vr_IndexedAt = now,
          vr_SourceURI = job_SourceURI job,
          vr_ObjectKey = job_SourceURI job,
          vr_Checksum = job_Checksum job,
          vr_RetryCount = qm_Attempt m\<rparr>)"

fun build_records ::
  "QueueMessage \<Rightarrow> time \<Rightarrow> int \<Rightarrow> (string \<times> embedding) list \<Rightarrow> VectorRecord list result" where
  "build_records m now i [] = Inr []"
| "build_records m now i ((chunk, vector) # rest) =
     (let rec = chunk_record m now i chunk vector
      in case VectorRecord_Validate rec of
           Some e \<Rightarrow> Inl (validation_error ''vector_record'' e)
         | None \<Rightarrow>
             (case build_records m now (i + 1) rest of
                Inl e \<Rightarrow> Inl e
              | Inr records \<Rightarrow> Inr (rec # records)))"

definition retention_set :: "IngestionJob \<Rightarrow> time \<Rightarrow> RetentionRecord list" where
  "retention_set job now =
     [\<lparr>rr_TenantID = job_TenantID job, rr_JobID = job_JobID job, rr_Class = RetentionClassRawBlob,
       rr_Resource = job_SourceURI job,
       rr_RetentionUntil = time_Add now (30 * 24 * 3600 * nanos_per_second)\<rparr>,
      \<lparr>rr_TenantID = job_TenantID job, rr_JobID = job_JobID job, rr_Class = RetentionClassChunk,
       rr_Resource = job_JobID job,
       rr_RetentionUntil = time_Add now (90 * 24 * 3600 * nanos_per_second)\<rparr>,
      \<lparr>rr_TenantID = job_TenantID job, rr_JobID = job_JobID job, rr_Class = RetentionClassAuditEvent,
       rr_Resource = ''governance.ingestion.policy_decision'',
       rr_RetentionUntil = time_Add now (365 * 24 * 3600 * nanos_per_second)\<rparr>]"

fun apply_retention ::
  "(RetentionRecord \<Rightarrow> 'w \<Rightarrow> error option \<times> 'w) \<Rightarrow> RetentionRecord list \<Rightarrow> 'w \<Rightarrow> error option \<times> 'w" where
  "apply_retention app [] w = (None, w)"
| "apply_retention app (r # rs) w =
     (case RetentionRecord_Validate r of
        Some e \<Rightarrow> (Some (validation_error ''retention_record'' e), w)
      | None \<Rightarrow>
          (case app r w of
             (Some e, w1) \<Rightarrow> (Some e, w1)
           | (None, w1) \<Rightarrow> apply_retention app rs w1))"

text \<open>\<^verbatim>\<open>ProcessMessage\<close> in its stages, each from the state the one before left: index and after, embed and
  after, load and after.\<close>

definition finish_message ::
  "'w worker \<Rightarrow> QueueMessage \<Rightarrow> time \<Rightarrow> 'w \<Rightarrow> error option \<times> 'w" where
  "finish_message wk message now w =
     (case (case wk_idem wk of
              None \<Rightarrow> (None, w)
            | Some idem \<Rightarrow> idem_Save idem (qm_IdempotencyKey message) (wk_idempotencyTTL wk) w) of
        (Some e, w1) \<Rightarrow> (Some e, w1)
      | (None, w1) \<Rightarrow>
          (case wk_retention wk of
             None \<Rightarrow> (None, w1)
           | Some app \<Rightarrow> apply_retention app (retention_set (qm_Job message) now) w1))"

definition index_chunks ::
  "'w worker \<Rightarrow> QueueMessage \<Rightarrow> string list \<Rightarrow> embedding list \<Rightarrow> 'w \<Rightarrow> error option \<times> 'w" where
  "index_chunks wk message chunks vectors w =
     (let (now, w1) = wk_clock wk w
      in case build_records message now 0 (zip chunks vectors) of
           Inl e \<Rightarrow> (Some e, w1)
         | Inr records \<Rightarrow>
             (case wk_index wk of
                None \<Rightarrow> (Some (ErrorString ''vector index is required''), w1)
              | Some upsert \<Rightarrow>
                  (case upsert records w1 of
                     (Some e, w2) \<Rightarrow> retryOrDLQ wk message ''vector_upsert_failed'' e w2
                   | (None, w2) \<Rightarrow> finish_message wk message now w2)))"

definition embed_chunks :: "'w worker \<Rightarrow> QueueMessage \<Rightarrow> string list \<Rightarrow> 'w \<Rightarrow> error option \<times> 'w" where
  "embed_chunks wk message chunks w =
     (if chunks = []
      then retryOrDLQ wk message ''chunking_failed'' (ErrorString ''no chunks generated'') w
      else case wk_embedder wk of
          None \<Rightarrow> (Some (ErrorString ''embedding provider is required''), w)
        | Some emb \<Rightarrow>
            (case emb (job_TenantID (qm_Job message)) chunks w of
               (Inl e, w1) \<Rightarrow> retryOrDLQ wk message ''embedding_failed'' e w1
             | (Inr vectors, w1) \<Rightarrow>
                 if length vectors \<noteq> length chunks
                 then retryOrDLQ wk message ''embedding_count_mismatch''
                        (ErrorString (''got='' @ Itoa (int (length vectors)) @
                           '' want='' @ Itoa (int (length chunks)))) w1
                 else index_chunks wk message chunks vectors w1))"

definition load_and_index :: "'w worker \<Rightarrow> QueueMessage \<Rightarrow> 'w \<Rightarrow> error option \<times> 'w" where
  "load_and_index wk message w =
     (case loadPayload wk (qm_Job message) w of
        (Inl e, w1) \<Rightarrow> retryOrDLQ wk message ''blob_fetch_failed'' e w1
      | (Inr payload, w1) \<Rightarrow> embed_chunks wk message (chunkPayload payload (wk_chunkSize wk)) w1)"

definition with_key :: "QueueMessage \<Rightarrow> QueueMessage" where
  "with_key m =
     (if qm_IdempotencyKey m = [] then m\<lparr>qm_IdempotencyKey := idempotencyKey (qm_Job m)\<rparr> else m)"

definition ProcessMessage :: "'w worker \<Rightarrow> QueueMessage \<Rightarrow> 'w \<Rightarrow> error option \<times> 'w" where
  "ProcessMessage wk message0 w =
     (case QueueMessage_Validate message0 of
        Some e \<Rightarrow> (Some (validation_error ''queue_message'' e), w)
      | None \<Rightarrow>
          let message = with_key message0
          in case wk_idem wk of
               None \<Rightarrow> load_and_index wk message w
             | Some idem \<Rightarrow>
                 (case idem_Exists idem (qm_IdempotencyKey message) w of
                    (Inl e, w1) \<Rightarrow> (Some e, w1)
                  | (Inr True, w1) \<Rightarrow> (None, w1)
                  | (Inr False, w1) \<Rightarrow> load_and_index wk message w1))"

definition ProcessNext :: "'w worker \<Rightarrow> 'w \<Rightarrow> error option \<times> 'w" where
  "ProcessNext wk w =
     (case wk_consumer wk of
        None \<Rightarrow> (Some (ErrorString ''queue consumer is required''), w)
      | Some dequeue \<Rightarrow>
          (case dequeue w of
             (Inl e, w1) \<Rightarrow> (Some e, w1)
           | (Inr message, w1) \<Rightarrow> ProcessMessage wk message w1))"

definition ReplayDLQMessage :: "'w worker \<Rightarrow> QueueMessage \<Rightarrow> 'w \<Rightarrow> error option \<times> 'w" where
  "ReplayDLQMessage wk message0 w =
     (case wk_producer wk of
        None \<Rightarrow> (Some (ErrorString ''queue producer is required''), w)
      | Some enqueue \<Rightarrow>
          let (now, w1) = wk_clock wk w;
              message = with_key (message0\<lparr>qm_Attempt := 0, qm_EnqueuedAt := now\<rparr>)
          in case QueueMessage_Validate message of
               Some e \<Rightarrow> (Some (validation_error ''queue_message'' e), w1)
             | None \<Rightarrow> enqueue message w1)"

section \<open>Lemmas on the stages\<close>

lemma hashParts_not_Nil [simp]: "hashParts ps \<noteq> []"
proof -
  have "length (hashParts ps) = 64" by (simp add: hashParts_def)
  then show ?thesis by auto
qed

lemma idempotencyKey_not_Nil [simp]: "idempotencyKey j \<noteq> []"
  by (simp add: idempotencyKey_def)

lemma with_key_simps [simp]:
  "qm_Job (with_key m) = qm_Job m" "qm_Attempt (with_key m) = qm_Attempt m"
  "qm_MessageID (with_key m) = qm_MessageID m" "qm_EnqueuedAt (with_key m) = qm_EnqueuedAt m"
  "qm_IdempotencyKey (with_key m) \<noteq> []"
  by (simp_all add: with_key_def)

lemma with_key_idem [simp]: "with_key (with_key m) = with_key m"
  by (simp add: with_key_def)

lemma chunk_record_simps [simp]:
  "vr_TenantID (chunk_record m now i c v) = job_TenantID (qm_Job m)"
  "vr_JobID (chunk_record m now i c v) = job_JobID (qm_Job m)"
  "vr_ChunkText (chunk_record m now i c v) = c" "vr_Embedding (chunk_record m now i c v) = v"
  "vr_SourceURI (chunk_record m now i c v) = job_SourceURI (qm_Job m)"
  "vr_IndexedAt (chunk_record m now i c v) = now"
  "vr_Checksum (chunk_record m now i c v) = job_Checksum (qm_Job m)"
  "vr_RetryCount (chunk_record m now i c v) = qm_Attempt m"
  "vr_RecordID (chunk_record m now i c v) \<noteq> []"
  by (simp_all add: chunk_record_def Let_def)

lemma build_records_Inr:
  "build_records m now i cvs = Inr rs \<longleftrightarrow>
     rs = map (\<lambda>(k, c, v). chunk_record m now (i + int k) c v) (enumerate 0 cvs) \<and>
     (\<forall>r \<in> set rs. VectorRecord_Validate r = None)"
proof (induction cvs arbitrary: i rs)
  case (Cons cv cvs)
  obtain c v where cv: "cv = (c, v)" by (cases cv)
  have shift: "map (\<lambda>(k, c, v). chunk_record m now (i + int k) c v) (enumerate (Suc 0) cvs)
      = map (\<lambda>(k, c, v). chunk_record m now (i + 1 + int k) c v) (enumerate 0 cvs)"
    by (simp add: enumerate_Suc_eq [of 0] ac_simps case_prod_beta)
  show ?case by (auto simp: cv Let_def Cons.IH shift)
qed auto

lemma enumerate_fst_zip: "length ys = length xs \<Longrightarrow>
    map (\<lambda>p. fst (snd p)) (enumerate n (zip xs ys)) = xs"
  by (induction xs arbitrary: ys n) (auto simp: length_Suc_conv)

lemma enumerate_snd_zip: "length ys = length xs \<Longrightarrow>
    map (\<lambda>p. snd (snd p)) (enumerate n (zip xs ys)) = ys"
  by (induction xs arbitrary: ys n) (auto simp: length_Suc_conv)

lemma chunks_words: "concat (map Fields (chunkPayload payload m)) = Fields payload"
proof -
  let ?gs = "groups (if m \<le> 0 then 200 else m) [] (Fields payload)"
  have "map Fields (chunkPayload payload m) = ?gs"
    using groups_words by (auto simp: chunkPayload_groups Fields_Join intro!: map_idI)
  then show ?thesis by (simp add: concat_groups)
qed



section \<open>The worker on the in-memory queue\<close>

text \<open>The wiring of \<^verbatim>\<open>BuildQueueAdapters\<close> for the memory provider: one adapter is producer, consumer and
  dead-letter queue. The rest of the world belongs to the other collaborators.\<close>

record 'x queue_world =
  qw_queue :: InMemoryQueueAdapter
  qw_rest :: 'x

definition on_queue ::
  "(InMemoryQueueAdapter \<Rightarrow> 'a \<times> InMemoryQueueAdapter) \<Rightarrow> 'x queue_world \<Rightarrow> 'a \<times> 'x queue_world" where
  "on_queue f w = (let (a, q) = f (qw_queue w) in (a, w\<lparr>qw_queue := q\<rparr>))"

definition memory_wired :: "'x queue_world worker \<Rightarrow> bool" where
  "memory_wired wk \<longleftrightarrow>
     wk_producer wk = Some (\<lambda>m. on_queue (InMemory_Enqueue m)) \<and>
     wk_consumer wk = Some (on_queue InMemory_Dequeue) \<and>
     wk_dlq wk = Some (\<lambda>m reason. on_queue (InMemory_Publish m reason))"

definition keeps_queue :: "('x queue_world \<Rightarrow> 'a \<times> 'x queue_world) \<Rightarrow> bool" where
  "keeps_queue f \<longleftrightarrow> (\<forall>w. qw_queue (snd (f w)) = qw_queue w)"

text \<open>Collaborators that leave the queue alone.\<close>

definition queue_frame :: "'x queue_world worker \<Rightarrow> bool" where
  "queue_frame wk \<longleftrightarrow>
     keeps_queue (wk_clock wk) \<and>
     (\<forall>get t u. wk_blobStore wk = Some get \<longrightarrow> keeps_queue (get t u)) \<and>
     (\<forall>emb t cs. wk_embedder wk = Some emb \<longrightarrow> keeps_queue (emb t cs)) \<and>
     (\<forall>ups rs. wk_index wk = Some ups \<longrightarrow> keeps_queue (ups rs)) \<and>
     (\<forall>idem k d. wk_idem wk = Some idem \<longrightarrow>
        keeps_queue (idem_Exists idem k) \<and> keeps_queue (idem_Save idem k d)) \<and>
     (\<forall>app r. wk_retention wk = Some app \<longrightarrow> keeps_queue (app r))"


text \<open>Where a message is after a run: done, back in the queue with one more attempt, or dead.\<close>

definition accounted ::
  "'x queue_world worker \<Rightarrow> QueueMessage \<Rightarrow> InMemoryQueueAdapter \<Rightarrow>
   error option \<times> 'x queue_world \<Rightarrow> bool" where
  "accounted wk m q out \<longleftrightarrow>
     (case out of
        (None, w') \<Rightarrow> qw_queue w' = q
      | (Some e, w') \<Rightarrow>
          if inc64 (qm_Attempt m) \<le> wk_maxRetries wk
          then \<exists>w0. qw_queue w' =
                 q\<lparr>mq_messages := mq_messages q @
                     [m\<lparr>qm_Attempt := inc64 (qm_Attempt m),
                        qm_EnqueuedAt := fst (wk_clock wk w0)\<rparr>]\<rparr>
          else qw_queue w' = q\<lparr>mq_dlq := mq_dlq q @ [m]\<rparr>)"


lemma frame_keeps:
  assumes "queue_frame wk"
  shows "wk_clock wk w = (now, w') \<Longrightarrow> qw_queue w' = qw_queue w"
    and "wk_blobStore wk = Some get \<Longrightarrow> get t u w = (p, w') \<Longrightarrow> qw_queue w' = qw_queue w"
    and "wk_embedder wk = Some emb \<Longrightarrow> emb t cs w = (vs, w') \<Longrightarrow> qw_queue w' = qw_queue w"
    and "wk_index wk = Some ups \<Longrightarrow> ups rs w = (e, w') \<Longrightarrow> qw_queue w' = qw_queue w"
    and "wk_idem wk = Some idem \<Longrightarrow> idem_Exists idem k w = (b, w') \<Longrightarrow> qw_queue w' = qw_queue w"
    and "wk_idem wk = Some idem \<Longrightarrow> idem_Save idem k d w = (e, w') \<Longrightarrow> qw_queue w' = qw_queue w"
  using assms by (simp_all add: queue_frame_def keeps_queue_def) (metis snd_conv)+

lemma retryOrDLQ_accounted:
  assumes "memory_wired wk" and "queue_frame wk"
  shows "accounted wk m (qw_queue w) (retryOrDLQ wk m reason cause w)"
proof -
  have "qw_queue (snd (wk_clock wk w)) = qw_queue w"
    using assms(2) by (simp add: queue_frame_def keeps_queue_def)
  then show ?thesis
    using assms(1)
    by (auto simp: retryOrDLQ_def memory_wired_def accounted_def on_queue_def InMemory_Enqueue_def
        InMemory_Publish_def Let_def case_prod_beta)
qed

lemma retryOrDLQ_error: "\<exists>e. fst (retryOrDLQ wk m reason cause w) = Some e"
  by (auto simp: retryOrDLQ_def Let_def split: option.split prod.split)




text \<open>A message the worker can carry to the end: valid, with a checksum, and with more than white space
  for source and job.\<close>

definition indexable :: "QueueMessage \<Rightarrow> bool" where
  "indexable m \<longleftrightarrow>
     QueueMessage_Validate m = None \<and> job_Checksum (qm_Job m) \<noteq> [] \<and>
     TrimSpace (job_SourceURI (qm_Job m)) \<noteq> [] \<and> TrimSpace (job_JobID (qm_Job m)) \<noteq> []"





lemma indexable_with_key [simp]: "indexable (with_key m) = indexable m"
  by (simp add: indexable_def)


text \<open>What a run that indexes a message has done, from \<open>w\<close> to \<open>w'\<close>: the payload was fetched, its chunks embedded, valid records
  of the tenant and job accepted by the index, and the bookkeeping done.\<close>

definition payload_indexed :: "'w worker \<Rightarrow> QueueMessage \<Rightarrow> 'w \<Rightarrow> 'w \<Rightarrow> bool" where
  "payload_indexed wk m w w' \<longleftrightarrow>
     (\<exists>get emb ups payload w1 vs w2 now w3 rs w4.
        wk_blobStore wk = Some get \<and> get (job_TenantID (qm_Job m)) (job_SourceURI (qm_Job m)) w = (Inr payload, w1) \<and>
        wk_embedder wk = Some emb \<and>
        emb (job_TenantID (qm_Job m)) (map vr_ChunkText rs) w1 = (Inr vs, w2) \<and> map vr_Embedding rs = vs \<and>
        wk_clock wk w2 = (now, w3) \<and>
        wk_index wk = Some ups \<and> ups rs w3 = (None, w4) \<and> rs \<noteq> [] \<and>
        (\<forall>r \<in> set rs. VectorRecord_Validate r = None \<and> vr_TenantID r = job_TenantID (qm_Job m) \<and>
           vr_JobID r = job_JobID (qm_Job m)) \<and>
        concat (map (\<lambda>r. Fields (vr_ChunkText r)) rs) = Fields payload \<and>
        finish_message wk (with_key m) now w4 = (None, w'))"

lemma retryOrDLQ_not_None [simp]: "retryOrDLQ wk m reason cause w \<noteq> (None, w')"
  using retryOrDLQ_error [of wk m reason cause w] by auto

lemma load_and_index_None:
  assumes "load_and_index wk (with_key m) w = (None, w')"
  shows "payload_indexed wk m w w'"
proof -
  let ?m = "with_key m"
  obtain payload w1 where load: "loadPayload wk (qm_Job m) w = (Inr payload, w1)"
    and run: "embed_chunks wk ?m (chunkPayload payload (wk_chunkSize wk)) w1 = (None, w')"
    using assms by (auto simp: load_and_index_def split: prod.splits sum.splits)
  let ?cs = "chunkPayload payload (wk_chunkSize wk)"
  from run obtain emb vs w2 where emb: "wk_embedder wk = Some emb"
    "emb (job_TenantID (qm_Job m)) ?cs w1 = (Inr vs, w2)" "length vs = length ?cs" "?cs \<noteq> []"
    and "index_chunks wk ?m ?cs vs w2 = (None, w')"
    by (auto simp: embed_chunks_def split: prod.splits sum.splits option.splits if_splits)
  then obtain now w3 rs ups w4 where clock: "wk_clock wk w2 = (now, w3)"
    and rs: "build_records ?m now 0 (zip ?cs vs) = Inr rs"
    and ups: "wk_index wk = Some ups" "ups rs w3 = (None, w4)" and fin: "finish_message wk ?m now w4 = (None, w')"
    by (auto simp: index_chunks_def split: prod.splits sum.splits option.splits)
  have rs_eq: "rs = map (\<lambda>(k, c, v). chunk_record ?m now (0 + int k) c v) (enumerate 0 (zip ?cs vs))"
    and valid: "\<forall>r \<in> set rs. VectorRecord_Validate r = None"
    using rs build_records_Inr by blast+
  have texts: "map vr_ChunkText rs = ?cs"
    using emb(3) enumerate_fst_zip [of vs ?cs 0] by (simp add: rs_eq o_def case_prod_beta)
  have vecs: "map vr_Embedding rs = vs"
    using emb(3) enumerate_snd_zip [of vs ?cs 0] by (simp add: rs_eq o_def case_prod_beta)
  have "concat (map (\<lambda>r. Fields (vr_ChunkText r)) rs) = concat (map Fields ?cs)"
    unfolding texts [symmetric] by (simp add: o_def)
  also have "\<dots> = Fields payload" by (rule chunks_words)
  finally have words: "concat (map (\<lambda>r. Fields (vr_ChunkText r)) rs) = Fields payload" .
  have tenant: "\<forall>r \<in> set rs. vr_TenantID r = job_TenantID (qm_Job m) \<and> vr_JobID r = job_JobID (qm_Job m)"
    by (auto simp: rs_eq)
  have "rs \<noteq> []" using texts emb(4) by auto
  moreover obtain get where "wk_blobStore wk = Some get"
    "get (job_TenantID (qm_Job m)) (job_SourceURI (qm_Job m)) w = (Inr payload, w1)"
    using load by (auto simp: loadPayload_def split: option.splits)
  ultimately show ?thesis
    unfolding payload_indexed_def using emb(1,2) texts vecs clock ups valid tenant words fin by metis
qed

text \<open>A run that succeeds has indexed the payload, or has found the key of the message among the known ones.\<close>

lemma success_run:
  assumes "ProcessMessage wk m w = (None, w')"
  shows "(\<exists>idem. wk_idem wk = Some idem \<and> idem_Exists idem (qm_IdempotencyKey (with_key m)) w = (Inr True, w')) \<or>
    (\<exists>w0. payload_indexed wk m w0 w' \<and>
       (case wk_idem wk of None \<Rightarrow> w0 = w
        | Some idem \<Rightarrow> idem_Exists idem (qm_IdempotencyKey (with_key m)) w = (Inr False, w0)))"
proof -
  have "QueueMessage_Validate m = None" using assms by (auto simp: ProcessMessage_def split: option.splits)
  then show ?thesis
    using assms load_and_index_None
    by (cases "wk_idem wk")
      (auto simp: ProcessMessage_def Let_def simp del: QueueMessage_Validate_None
        split: prod.splits sum.splits bool.splits)
qed

section \<open>Properties\<close>


lemma unfetchable_step:
  assumes "memory_wired wk" and "queue_frame wk" and "QueueMessage_Validate m = None"
    and "\<forall>idem k w. wk_idem wk = Some idem \<longrightarrow> fst (idem_Exists idem k w) = Inr False"
    and "\<forall>get t u w. wk_blobStore wk = Some get \<longrightarrow> (\<exists>e. fst (get t u w) = Inl e)"
  shows "accounted wk (with_key m) (qw_queue w) (ProcessMessage wk m w) \<and>
    fst (ProcessMessage wk m w) \<noteq> None"
proof -
  let ?m = "with_key m"
  have load: "accounted wk ?m (qw_queue w) (load_and_index wk ?m w) \<and>
      fst (load_and_index wk ?m w) \<noteq> None" for w
  proof -
    obtain e w1 where call: "loadPayload wk (qm_Job ?m) w = (Inl e, w1)"
      using assms(5) unfolding loadPayload_def by (cases "wk_blobStore wk") (auto, metis prod.collapse)
    have "qw_queue w1 = qw_queue w"
      using frame_keeps(2) [OF assms(2)] call by (auto simp: loadPayload_def split: option.splits)
    with retryOrDLQ_accounted [OF assms(1,2), of ?m w1] retryOrDLQ_error [of wk ?m _ _ w1] call
    show ?thesis by (auto simp: load_and_index_def)
  qed
  show ?thesis
  proof (cases "wk_idem wk")
    case None
    with load assms(3) show ?thesis
      by (simp add: ProcessMessage_def Let_def del: QueueMessage_Validate_None)
  next
    case (Some idem)
    then obtain w1 where call: "idem_Exists idem (qm_IdempotencyKey ?m) w = (Inr False, w1)"
      using assms(4) by (metis prod.collapse)
    with load [of w1] assms(3) Some frame_keeps(5) [OF assms(2) Some call] show ?thesis
      by (simp add: ProcessMessage_def Let_def del: QueueMessage_Validate_None)
  qed
qed

lemma accounted_failed:
  "accounted wk m q (err, w') \<Longrightarrow> err \<noteq> None \<Longrightarrow>
   (inc64 (qm_Attempt m) \<le> wk_maxRetries wk \<longrightarrow>
      (\<exists>w0. qw_queue w' = q\<lparr>mq_messages := mq_messages q @
         [m\<lparr>qm_Attempt := inc64 (qm_Attempt m), qm_EnqueuedAt := fst (wk_clock wk w0)\<rparr>]\<rparr>)) \<and>
   (wk_maxRetries wk < inc64 (qm_Attempt m) \<longrightarrow> qw_queue w' = q\<lparr>mq_dlq := mq_dlq q @ [m]\<rparr>)"
  by (cases err) (auto simp: accounted_def)

text \<open>One call of \<^verbatim>\<open>ProcessNext\<close> on a queue that holds only an unfetchable message.\<close>

lemma unfetchable_next:
  assumes "memory_wired wk" and "queue_frame wk" and "QueueMessage_Validate m = None"
    and "\<forall>idem k w. wk_idem wk = Some idem \<longrightarrow> fst (idem_Exists idem k w) = Inr False"
    and "\<forall>get t u w. wk_blobStore wk = Some get \<longrightarrow> (\<exists>e. fst (get t u w) = Inl e)"
    and "mq_messages (qw_queue w) = [m]"
  shows "(inc64 (qm_Attempt m) \<le> wk_maxRetries wk \<longrightarrow>
      (\<exists>w0. mq_messages (qw_queue (snd (ProcessNext wk w))) =
         [(with_key m)\<lparr>qm_Attempt := inc64 (qm_Attempt m), qm_EnqueuedAt := fst (wk_clock wk w0)\<rparr>]) \<and>
      mq_dlq (qw_queue (snd (ProcessNext wk w))) = mq_dlq (qw_queue w)) \<and>
    (wk_maxRetries wk < inc64 (qm_Attempt m) \<longrightarrow>
      mq_messages (qw_queue (snd (ProcessNext wk w))) = [] \<and>
      mq_dlq (qw_queue (snd (ProcessNext wk w))) = mq_dlq (qw_queue w) @ [with_key m])"
proof -
  let ?w = "w\<lparr>qw_queue := (qw_queue w)\<lparr>mq_messages := []\<rparr>\<rparr>"
  obtain err w' where run: "ProcessMessage wk m ?w = (err, w')" by (cases "ProcessMessage wk m ?w")
  have "snd (ProcessNext wk w) = w'"
    using assms(1,6) run by (simp add: ProcessNext_def memory_wired_def on_queue_def InMemory_Dequeue_def)
  moreover have "accounted wk (with_key m) (qw_queue ?w) (err, w')" "err \<noteq> None"
    using unfetchable_step [OF assms(1-5), of ?w] run by simp_all
  note accounted_failed [OF this]
  ultimately show ?thesis by auto
qed

text \<open>C7: retries end. When the payload can never be fetched, a message with attempt \<open>a\<close> is fetched and
  retried until, after exactly \<^verbatim>\<open>MaxRetries - a + 1\<close> calls of \<^verbatim>\<open>ProcessNext\<close>, the queue is empty and the
  dead-letter queue holds the message, with its job and the last attempt number.\<close>

theorem retries_end_in_dlq:
  assumes "memory_wired wk" and "queue_frame wk"
    and "\<forall>idem k w. wk_idem wk = Some idem \<longrightarrow> fst (idem_Exists idem k w) = Inr False"
    and "\<forall>get t u w. wk_blobStore wk = Some get \<longrightarrow> (\<exists>e. fst (get t u w) = Inl e)"
    and "\<forall>w. 0 < fst (wk_clock wk w)" and "wk_maxRetries wk < 2 ^ 63 - 1"
    and "QueueMessage_Validate m = None" and "qm_Attempt m \<le> wk_maxRetries wk"
    and "mq_messages (qw_queue w) = [m]"
  shows "let w' = ((\<lambda>w. snd (ProcessNext wk w)) ^^ Suc (nat (wk_maxRetries wk - qm_Attempt m))) w
    in mq_messages (qw_queue w') = [] \<and>
       (\<exists>d. mq_dlq (qw_queue w') = mq_dlq (qw_queue w) @ [d] \<and> qm_Job d = qm_Job m \<and>
            qm_MessageID d = qm_MessageID m \<and> qm_Attempt d = wk_maxRetries wk)"
  using assms(7-9)
proof (induction "nat (wk_maxRetries wk - qm_Attempt m)" arbitrary: m w)
  case 0
  then have "qm_Attempt m = wk_maxRetries wk" by simp
  moreover from this 0 assms(6) have "inc64 (qm_Attempt m) = qm_Attempt m + 1"
    by (intro inc64_small [of _ "2 ^ 63 - 1"]) (simp_all add: is_int64_def)
  ultimately show ?case
    using unfetchable_next [OF assms(1,2) 0(2) assms(3,4) 0(4)] by simp
next
  case (Suc n)
  let ?w = "snd (ProcessNext wk w)"
  from Suc(2) have lt: "qm_Attempt m < wk_maxRetries wk" by simp
  with Suc(3) assms(6) have inc: "inc64 (qm_Attempt m) = qm_Attempt m + 1"
    by (intro inc64_small [of _ "2 ^ 63 - 1"]) (simp_all add: is_int64_def)
  obtain w0 where q: "mq_messages (qw_queue ?w) =
      [(with_key m)\<lparr>qm_Attempt := qm_Attempt m + 1, qm_EnqueuedAt := fst (wk_clock wk w0)\<rparr>]"
    and dlq: "mq_dlq (qw_queue ?w) = mq_dlq (qw_queue w)"
    using unfetchable_next [OF assms(1,2) Suc(3) assms(3,4) Suc(5)] lt inc by auto
  let ?m = "(with_key m)\<lparr>qm_Attempt := qm_Attempt m + 1, qm_EnqueuedAt := fst (wk_clock wk w0)\<rparr>"
  have n: "n = nat (wk_maxRetries wk - qm_Attempt ?m)" using Suc(2) by simp
  have "QueueMessage_Validate ?m = None"
    using Suc(3) assms(5) [THEN spec, of w0] by simp
  from Suc(1) [OF n this _ q] lt n dlq show ?case
    by (simp add: funpow_Suc_right Suc(2) [symmetric] del: funpow.simps)
qed

text \<open>The world one finished message leaves: its key is saved.\<close>

lemma apply_retention_frame:
  assumes "\<forall>r w. saved (snd (app r w)) = saved w"
  shows "saved (snd (apply_retention app rs w)) = saved w"
proof (induction rs arbitrary: w)
  case (Cons r rs)
  obtain e w1 where "app r w = (e, w1)" by (cases "app r w")
  with Cons assms show ?case by (auto split: option.split) (metis snd_conv)+
qed simp

text \<open>C20: at most once. If the idempotency store remembers what was saved, and the retention hook does not
  forget it, then after a message was processed successfully every later delivery of a message with
  its key returns at once and changes nothing: no fetch, no embedding, no index write.\<close>

theorem processed_at_most_once:
  assumes "wk_idem wk = Some idem"
    and "\<forall>k w. idem_Exists idem k w = (Inr (k \<in> saved w), w)"
    and "\<forall>k d w w'. idem_Save idem k d w = (None, w') \<longrightarrow> saved w' = insert k (saved w)"
    and "\<forall>app r w. wk_retention wk = Some app \<longrightarrow> saved (snd (app r w)) = saved w"
    and "ProcessMessage wk m w = (None, w')"
    and "QueueMessage_Validate m' = None"
    and "qm_IdempotencyKey (with_key m') = qm_IdempotencyKey (with_key m)"
  shows "ProcessMessage wk m' w' = (None, w')"
proof -
  let ?k = "qm_IdempotencyKey (with_key m)"
  have valid: "QueueMessage_Validate m = None"
    using assms(5) by (auto simp: ProcessMessage_def split: option.splits)
  have "?k \<in> saved w'"
  proof (cases "?k \<in> saved w")
    case True
    with assms(1,2,5) valid show ?thesis
      by (auto simp: ProcessMessage_def Let_def simp del: QueueMessage_Validate_None)
  next
    case False
    then have "load_and_index wk (with_key m) w = (None, w')"
      using assms(1,2,5) valid
      by (simp add: ProcessMessage_def Let_def del: QueueMessage_Validate_None)
    then obtain now w2 where "finish_message wk (with_key m) now w2 = (None, w')"
      by (auto simp: load_and_index_def embed_chunks_def index_chunks_def case_prod_beta Let_def
          split: sum.splits if_splits option.splits prod.splits)
    then obtain w3 where save: "idem_Save idem ?k (wk_idempotencyTTL wk) w2 = (None, w3)"
      and rest: "(case wk_retention wk of None \<Rightarrow> (None, w3)
         | Some app \<Rightarrow> apply_retention app (retention_set (qm_Job (with_key m)) now) w3) = (None, w')"
      by (auto simp: finish_message_def assms(1) split: prod.splits option.splits)
    have "saved w' = saved w3"
    proof (cases "wk_retention wk")
      case (Some app)
      with assms(4) have "\<forall>r w. saved (snd (app r w)) = saved w" by blast
      from apply_retention_frame [OF this, of "retention_set (qm_Job (with_key m)) now" w3] rest Some
      show ?thesis by simp
    qed (use rest in simp)
    with save assms(3) show ?thesis by blast
  qed
  then show ?thesis
    using assms(1,2,6,7)
    by (simp add: ProcessMessage_def Let_def del: QueueMessage_Validate_None)
qed

text \<open>C8: success means the payload is indexed. When \<^verbatim>\<open>ProcessMessage\<close> succeeds on a message whose key is not
  known yet, the blob store returned the payload of the job's tenant and source, and the index
  accepted valid records of that tenant and job, one per chunk in order, whose texts hold exactly the
  words of the payload and whose vectors are the embedder's answer for these chunks.\<close>

theorem success_indexes_payload:
  assumes "ProcessMessage wk m w = (None, w')"
    and "\<forall>idem. wk_idem wk = Some idem \<longrightarrow>
      fst (idem_Exists idem (qm_IdempotencyKey (with_key m)) w) = Inr False"
  shows "\<exists>get emb ups w0 payload w1 vs w2 w3 rs w4.
    wk_blobStore wk = Some get \<and> get (job_TenantID (qm_Job m)) (job_SourceURI (qm_Job m)) w0 = (Inr payload, w1) \<and>
    wk_embedder wk = Some emb \<and>
    emb (job_TenantID (qm_Job m)) (map vr_ChunkText rs) w1 = (Inr vs, w2) \<and> map vr_Embedding rs = vs \<and>
    wk_index wk = Some ups \<and> ups rs w3 = (None, w4) \<and> rs \<noteq> [] \<and>
    (\<forall>r \<in> set rs. VectorRecord_Validate r = None \<and> vr_TenantID r = job_TenantID (qm_Job m) \<and>
       vr_JobID r = job_JobID (qm_Job m)) \<and>
    concat (map (\<lambda>r. Fields (vr_ChunkText r)) rs) = Fields payload"
proof -
  obtain w0 where "payload_indexed wk m w0 w'"
    using success_run [OF assms(1)] assms(2) by fastforce
  then show ?thesis unfolding payload_indexed_def by (elim exE conjE) (intro exI conjI)
qed

text \<open>A valid message whose job has no checksum is dropped. \<^verbatim>\<open>IngestionJob.Validate\<close> does not ask for a
  checksum, \<^verbatim>\<open>VectorRecord.Validate\<close> does: once its payload is fetched and embedded, processing ends with
  an error and the state the clock reading left, so no producer, dead-letter queue or index was
  called.\<close>

theorem checksumless_message_dropped:
  assumes "QueueMessage_Validate m = None" and "job_Checksum (qm_Job m) = []"
    and "wk_idem wk = None" and "wk_blobStore wk = Some get"
    and "get (job_TenantID (qm_Job m)) (job_SourceURI (qm_Job m)) w = (Inr payload, w1)"
    and "Fields payload \<noteq> []" and "wk_embedder wk = Some emb"
    and "emb (job_TenantID (qm_Job m)) (chunkPayload payload (wk_chunkSize wk)) w1 = (Inr vs, w2)"
    and "length vs = length (chunkPayload payload (wk_chunkSize wk))"
  shows "\<exists>e. ProcessMessage wk m w = (Some e, snd (wk_clock wk w2))"
proof -
  let ?cs = "chunkPayload payload (wk_chunkSize wk)"
  have cs: "?cs \<noteq> []" using chunks_words [of payload "wk_chunkSize wk"] assms(6) by auto
  then obtain c cs v vs' where "?cs = c # cs" "vs = v # vs'"
    using assms(9) by (cases ?cs; cases vs) auto
  moreover have "VectorRecord_Validate (chunk_record (with_key m) now 0 c v) \<noteq> None" for now
    using assms(2) by (simp add: VectorRecord_Validate_None)
  then have "\<exists>e. VectorRecord_Validate (chunk_record (with_key m) now 0 c v) = Some e" for now by blast
  ultimately have "\<exists>e. build_records (with_key m) now 0 (zip ?cs vs) = Inl e" for now
    by (simp add: Let_def) (metis option.simps(5))
  then obtain e where "build_records (with_key m) (fst (wk_clock wk w2)) 0 (zip ?cs vs) = Inl e" by blast
  then have "index_chunks wk (with_key m) ?cs vs w2 = (Some e, snd (wk_clock wk w2))"
    by (simp add: index_chunks_def case_prod_beta)
  with assms cs show ?thesis
    by (simp add: ProcessMessage_def load_and_index_def loadPayload_def embed_chunks_def Let_def
        del: QueueMessage_Validate_None)
qed

text \<open>Only approved jobs are queued. \<^verbatim>\<open>EnqueueApprovedJob\<close> returns a message only for a job with decision
  \<^verbatim>\<open>approved\<close> and the requester's tenant, after the producer accepted exactly that message: valid, with
  attempt 0 and a non-empty idempotency key. For any other decision nothing at all is called.\<close>

theorem enqueue_only_approved:
  "(EnqueueApprovedJob wk metadata job w = (Inr msg, w') \<longrightarrow>
      job_PolicyDecision job = IngestionStatusApproved \<and> rm_TenantID metadata = job_TenantID job \<and>
      qm_Job msg = job \<and> qm_Attempt msg = 0 \<and> qm_IdempotencyKey msg = idempotencyKey job \<and>
      QueueMessage_Validate msg = None \<and>
      (\<exists>enq. wk_producer wk = Some enq \<and> enq msg (snd (wk_clock wk w)) = (None, w'))) \<and>
   (job_PolicyDecision job \<noteq> IngestionStatusApproved \<longrightarrow>
      (\<exists>e. EnqueueApprovedJob wk metadata job w = (Inl e, w)))"
proof (intro conjI impI)
  assume run: "EnqueueApprovedJob wk metadata job w = (Inr msg, w')"
  show "job_PolicyDecision job = IngestionStatusApproved" "rm_TenantID metadata = job_TenantID job"
    "qm_Job msg = job" "qm_Attempt msg = 0" "qm_IdempotencyKey msg = idempotencyKey job"
    "QueueMessage_Validate msg = None"
    "\<exists>enq. wk_producer wk = Some enq \<and> enq msg (snd (wk_clock wk w)) = (None, w')"
    using run
    by (auto simp: EnqueueApprovedJob_def Let_def split: option.splits if_splits prod.splits)
next
  assume "job_PolicyDecision job \<noteq> IngestionStatusApproved"
  then show "\<exists>e. EnqueueApprovedJob wk metadata job w = (Inl e, w)"
    by (auto simp: EnqueueApprovedJob_def split: option.splits)
qed

text \<open>A replayed dead letter is a fresh delivery of the same job: \<^verbatim>\<open>ReplayDLQMessage\<close> on the in-memory queue
  appends the message with attempt 0, the current time and a non-empty idempotency key, and leaves
  the dead letters as they are.\<close>

theorem replay_resets_attempts:
  assumes "memory_wired wk" and "queue_frame wk" and "QueueMessage_Validate m = None"
    and "fst (wk_clock wk w) \<noteq> 0"
  shows "\<exists>m' w'. ReplayDLQMessage wk m w = (None, w') \<and>
    mq_messages (qw_queue w') = mq_messages (qw_queue w) @ [m'] \<and>
    mq_dlq (qw_queue w') = mq_dlq (qw_queue w) \<and>
    qm_Job m' = qm_Job m \<and> qm_MessageID m' = qm_MessageID m \<and> qm_Attempt m' = 0 \<and>
    qm_EnqueuedAt m' = fst (wk_clock wk w) \<and> qm_IdempotencyKey m' \<noteq> [] \<and>
    (qm_IdempotencyKey m \<noteq> [] \<longrightarrow> qm_IdempotencyKey m' = qm_IdempotencyKey m)"
proof -
  obtain now w1 where clock: "wk_clock wk w = (now, w1)" by (cases "wk_clock wk w")
  let ?m = "with_key (m\<lparr>qm_Attempt := 0, qm_EnqueuedAt := now\<rparr>)"
  have "QueueMessage_Validate ?m = None" using assms(3,4) clock by simp
  moreover have "qw_queue w1 = qw_queue w" by (rule frame_keeps(1) [OF assms(2) clock])
  moreover have "qm_IdempotencyKey m \<noteq> [] \<longrightarrow> qm_IdempotencyKey ?m = qm_IdempotencyKey m"
    by (simp add: with_key_def)
  ultimately show ?thesis
    using assms(1) clock
    by (intro exI [of _ ?m])
      (simp add: ReplayDLQMessage_def memory_wired_def on_queue_def InMemory_Enqueue_def
        del: QueueMessage_Validate_None)
qed

text \<open>The profiler always answers. A profile is classified \<^verbatim>\<open>valid\<close> exactly when tenant, source and
  payload are there; then it is a valid profile carrying the payload's SHA-256, and the recorder hands
  its metadata to the repository. A profile of an empty payload has no checksum, so the recorder
  refuses it and the repository is not called.\<close>

theorem profile_classification:
  assumes "now \<noteq> 0"
  shows "\<exists>p. Profile now i = Inr p \<and>
    (ip_Classification p = PayloadClassValid \<longleftrightarrow>
       pi_TenantID i \<noteq> [] \<and> TrimSpace (pi_SourceURI i) \<noteq> [] \<and> pi_Payload i \<noteq> []) \<and>
    ip_WordCount p = int (length (Fields (pi_Payload i))) \<and>
    (ip_Classification p = PayloadClassValid \<longrightarrow>
       IngestionProfile_Validate p = None \<and>
       im_ChecksumSHA256 (ip_Metadata p) = EncodeToString (Sum256 (pi_Payload i)) \<and>
       Record (Some save) ctx p w = save ctx (ip_Metadata p) w) \<and>
    (pi_Payload i = [] \<longrightarrow> (\<exists>e. Record (Some save) ctx p w = (Some e, w)))"
proof -
  have hex: "EncodeToString (Sum256 s) \<noteq> []" for s
  proof -
    have "length (EncodeToString (Sum256 s)) \<noteq> length ([] :: string)" by simp
    then show ?thesis by metis
  qed
  have lc: "fallbackLifecycleClass v \<noteq> []" for v by (simp add: fallbackLifecycleClass_def Let_def)
  consider "pi_TenantID i = []" | "pi_TenantID i \<noteq> []" "TrimSpace (pi_SourceURI i) = []"
    | "pi_TenantID i \<noteq> []" "TrimSpace (pi_SourceURI i) \<noteq> []" "pi_Payload i = []"
    | "pi_TenantID i \<noteq> []" "TrimSpace (pi_SourceURI i) \<noteq> []" "pi_Payload i \<noteq> []" by blast
  then show ?thesis
  proof cases
    case 4
    then have "pi_SourceURI i \<noteq> []" by auto
    with 4 assms hex lc show ?thesis
      by (simp add: Profile_def Record_def Let_def TenantID_Validate_def IngestionProfile_Validate_def
          IngestionMetadata_Validate_def time_IsZero_def)
  qed (auto simp: Profile_def Record_def invalidProfile_def TenantID_Validate_def
      IngestionProfile_Validate_def IngestionMetadata_Validate_def)
qed

section \<open>Witnesses\<close>

text \<open>A worker on the in-memory queue: the rest of the world is the set of saved keys and the index.
  Every payload is \<open>payload\<close>, or unavailable.\<close>

definition demo_worker :: "string option \<Rightarrow> (string set \<times> VectorRecord list) queue_world worker" where
  "demo_worker payload =
     \<lparr>wk_producer = Some (\<lambda>m. on_queue (InMemory_Enqueue m)),
      wk_consumer = Some (on_queue InMemory_Dequeue),
      wk_dlq = Some (\<lambda>m reason. on_queue (InMemory_Publish m reason)),
      wk_blobStore = Some (\<lambda>t u w.
        (case payload of None \<Rightarrow> Inl (ErrorString ''gone'') | Some p \<Rightarrow> Inr p, w)),
      wk_embedder = Some (\<lambda>t cs w. (Inr (map (\<lambda>c. [1]) cs), w)),
      wk_index = Some (\<lambda>rs w. (None, w\<lparr>qw_rest := (fst (qw_rest w), snd (qw_rest w) @ rs)\<rparr>)),
      wk_idem = Some
        \<lparr>idem_Exists = (\<lambda>k w. (Inr (k \<in> fst (qw_rest w)), w)),
         idem_Save = (\<lambda>k d w. (None, w\<lparr>qw_rest := (insert k (fst (qw_rest w)), snd (qw_rest w))\<rparr>))\<rparr>,
      wk_retention = None,
      wk_clock = (\<lambda>w. (7, w)),
      wk_maxRetries = 2, wk_chunkSize = 200, wk_idempotencyTTL = 1\<rparr>"

definition demo_world :: "(string set \<times> VectorRecord list) queue_world" where
  "demo_world =
     \<lparr>qw_queue = \<lparr>mq_messages = [sample_message], mq_dlq = []\<rparr>, qw_rest = ({}, [])\<rparr>"

lemma demo_wired: "memory_wired (demo_worker p)"
  by (simp add: memory_wired_def demo_worker_def)

lemma demo_frame: "queue_frame (demo_worker p)"
  by (simp add: queue_frame_def keeps_queue_def demo_worker_def)


lemma demo_valid: "QueueMessage_Validate sample_message = None"
  by (simp add: sample_message_def)


lemma demo_queue: "mq_messages (qw_queue demo_world) = [sample_message]"
  by (simp add: demo_world_def)

lemma demo_no_idem:
  "memory_wired ((demo_worker p)\<lparr>wk_idem := None\<rparr>)" "queue_frame ((demo_worker p)\<lparr>wk_idem := None\<rparr>)"
  using demo_wired [of p] demo_frame [of p] by (simp_all add: memory_wired_def queue_frame_def)

theorem retries_end_in_dlq_witness:
  "let w' = ((\<lambda>w. snd (ProcessNext ((demo_worker None)\<lparr>wk_idem := None\<rparr>) w)) ^^ 3) demo_world
   in mq_messages (qw_queue w') = [] \<and> length (mq_dlq (qw_queue w')) = 1"
proof -
  have "Suc (nat (2 - qm_Attempt sample_message)) = 3" by (simp add: sample_message_def)
  with retries_end_in_dlq [of "(demo_worker None)\<lparr>wk_idem := None\<rparr>" sample_message demo_world]
    demo_no_idem [of None] demo_valid demo_queue
  show ?thesis by (auto simp: demo_worker_def demo_world_def sample_message_def Let_def simp del: funpow.simps)
qed

definition demo_done :: "(string set \<times> VectorRecord list) queue_world" where
  "demo_done = snd (ProcessMessage (demo_worker (Some ''hello world'')) sample_message demo_world)"

lemma demo_run_any:
  assumes "qw_rest w = ({}, [])"
  shows "fst (ProcessMessage (demo_worker (Some ''hello world'')) sample_message w) = None"
proof -
  have f: "Fields ''hello world'' = [''hello'', ''world'']" by (simp add: string_eval)
  have c: "chunkPayload ''hello world'' 200 = [''hello world'']" by (simp add: chunkPayload_groups f)
  have v: "VectorRecord_Validate (chunk_record sample_message 7 0 ''hello world'' [1]) = None"
    by (simp add: VectorRecord_Validate_None TrimSpace_Nil_iff f) (simp add: sample_message_def)
  have k: "with_key sample_message = sample_message" by (simp add: with_key_def sample_message_def)
  show ?thesis
    by (simp add: ProcessMessage_def demo_valid k demo_worker_def load_and_index_def loadPayload_def
        c embed_chunks_def index_chunks_def v finish_message_def assms
        del: QueueMessage_Validate_None)
qed

lemma demo_run:
  "ProcessMessage (demo_worker (Some ''hello world'')) sample_message demo_world = (None, demo_done)"
  using demo_run_any [of demo_world] unfolding demo_done_def
  by (cases "ProcessMessage (demo_worker (Some ''hello world'')) sample_message demo_world") (simp add: demo_world_def)


theorem processed_at_most_once_witness:
  "ProcessMessage (demo_worker (Some ''hello world'')) sample_message demo_done = (None, demo_done)"
  by (rule processed_at_most_once [OF _ _ _ _ demo_run demo_valid, where saved = "\<lambda>w. fst (qw_rest w)" and
        idem = "the (wk_idem (demo_worker (Some ''hello world'')))"])
    (auto simp: demo_worker_def)

theorem success_indexes_payload_witness:
  "\<exists>rs :: VectorRecord list.
     rs \<noteq> [] \<and> concat (map (\<lambda>r. Fields (vr_ChunkText r)) rs) = Fields ''hello world''"
proof -
  have "\<forall>idem. wk_idem (demo_worker (Some ''hello world'')) = Some idem \<longrightarrow>
      fst (idem_Exists idem (qm_IdempotencyKey (with_key sample_message)) demo_world) = Inr False"
    by (simp add: demo_worker_def demo_world_def)
  note run = success_indexes_payload [OF demo_run this]
  then obtain get w0 payload w1 and rs :: "VectorRecord list" where
    get: "wk_blobStore (demo_worker (Some ''hello world'')) = Some get"
      "get (job_TenantID (qm_Job sample_message)) (job_SourceURI (qm_Job sample_message)) w0
        = (Inr payload, w1)"
    and rs: "rs \<noteq> []" "concat (map (\<lambda>r. Fields (vr_ChunkText r)) rs) = Fields payload"
    by (elim exE conjE) assumption
  from get have "payload = ''hello world''" by (auto simp: demo_worker_def)
  with rs show ?thesis by metis
qed

theorem checksumless_message_dropped_witness:
  "\<exists>e. ProcessMessage ((demo_worker (Some ''hello world''))\<lparr>wk_idem := None\<rparr>)
     (sample_message\<lparr>qm_Job := (qm_Job sample_message)\<lparr>job_Checksum := []\<rparr>\<rparr>) demo_world
     = (Some e, demo_world)"
proof -
  have f: "Fields ''hello world'' \<noteq> []" by (simp add: string_eval)
  let ?m = "sample_message\<lparr>qm_Job := (qm_Job sample_message)\<lparr>job_Checksum := []\<rparr>\<rparr>"
  let ?wk = "(demo_worker (Some ''hello world''))\<lparr>wk_idem := None\<rparr>"
  have v: "QueueMessage_Validate ?m = None" by (simp add: sample_message_def)
  from checksumless_message_dropped [OF v _ _ _ _ f, of ?wk "the (wk_blobStore ?wk)" demo_world demo_world
      "the (wk_embedder ?wk)" "map (\<lambda>c. [1]) (chunkPayload ''hello world'' 200)" demo_world]
  show ?thesis by (simp add: demo_worker_def)
qed

theorem enqueue_only_approved_witness:
  "\<exists>e. EnqueueApprovedJob (demo_worker None) \<lparr>rm_TenantID = ''acme'', rm_RequestID = ''r'',
      rm_SourceIP = [], rm_UserAgent = []\<rparr>
     ((qm_Job sample_message)\<lparr>job_PolicyDecision := ''quarantine''\<rparr>) demo_world = (Inl e, demo_world)"
  using enqueue_only_approved [of "demo_worker None" "\<lparr>rm_TenantID = ''acme'', rm_RequestID = ''r'',
      rm_SourceIP = [], rm_UserAgent = []\<rparr>" "(qm_Job sample_message)\<lparr>job_PolicyDecision := ''quarantine''\<rparr>"
      demo_world]
  by simp

theorem replay_resets_attempts_witness:
  "\<exists>m' w'. ReplayDLQMessage (demo_worker None) sample_message demo_world = (None, w') \<and>
     mq_messages (qw_queue w') = [sample_message, m'] \<and> qm_Attempt m' = 0"
  using replay_resets_attempts [OF demo_wired demo_frame demo_valid, of None demo_world] demo_queue
  by (auto simp: demo_worker_def)

theorem profile_classification_witness:
  "\<exists>p. Profile 5 \<lparr>pi_TenantID = ''acme'', pi_SourceURI = ''s'', pi_LifecycleClass = [],
      pi_ContentType = [], pi_Payload = ''hi''\<rparr> = Inr p \<and> ip_Classification p = PayloadClassValid"
proof -
  have t: "TrimSpace ''s'' \<noteq> []" by (simp add: string_eval)
  show ?thesis
    using profile_classification [of 5 "\<lparr>pi_TenantID = ''acme'', pi_SourceURI = ''s'',
        pi_LifecycleClass = [], pi_ContentType = [], pi_Payload = ''hi''\<rparr>" "\<lambda>c i w. (None, w)" None "()"] t
    by auto
qed

end
