(* ===== verification/Server_Wiring.thy ===== *)
theory Server_Wiring
  imports Bootstrap Migrations Chat_Client Search_Manager Governance Ingestion_Worker
begin

text \<open>
  How the backend is put together: \<^verbatim>\<open>NewServer\<close> and \<^verbatim>\<open>BuildRuntimeDependencies\<close> of \<^verbatim>\<open>backend/util/serverUtil.go\<close>, the
  start sequence of \<^verbatim>\<open>cmd/finerag-backend/main.go\<close>, the document parsers behind the ingestion manager
  (\<^verbatim>\<open>internal/adapters/parser\<close>), \<^verbatim>\<open>internal/runtime/wiring.go\<close> and what \<^verbatim>\<open>internal/telemetry\<close> decides by itself. The AWS
  configuration loader, the extraction library and the HTTP transport are arguments.
\<close>

section \<open>Document parsers\<close>

record docling_config =
  dl_Endpoint :: string
  dl_Timeout :: duration

definition docling_NewAdapter :: "docling_config \<Rightarrow> docling_config" where
  "docling_NewAdapter cfg = (if dl_Timeout cfg = 0 then cfg\<lparr>dl_Timeout := 120 * nanos_per_second\<rparr> else cfg)"

record docling_request =
  dq_url :: string
  dq_body :: string
  dq_contentType :: string
  dq_tenant :: string

text \<open>The multipart form of a payload with its content type (writing to a buffer does not fail), the construction of the
  request, the transport and the decoder of the two text fields of the response.\<close>

record 'w docling_env =
  de_form :: "string \<Rightarrow> string \<times> string"
  de_newRequest :: "string \<Rightarrow> error option"
  de_do :: "docling_request \<Rightarrow> 'w \<Rightarrow> http_result \<times> 'w"
  de_unmarshal :: "string \<Rightarrow> (string \<times> string) result"

definition docling_Parse ::
  "'w docling_env \<Rightarrow> docling_config \<Rightarrow> TenantID \<Rightarrow> string \<Rightarrow> string \<Rightarrow> 'w \<Rightarrow> string result \<times> 'w" where
  "docling_Parse env cfg tenantID contentType payload w =
     (if dl_Endpoint cfg = [] then (Inl (ErrorString ''docling endpoint is required''), w)
      else let (form_type, body) = de_form env payload; url = dl_Endpoint cfg @ ''/convert''
           in case de_newRequest env url of
                Some e \<Rightarrow> (Inl (annotated ''failed to create request'' e), w)
              | None \<Rightarrow>
                  (case de_do env \<lparr>dq_url = url, dq_body = body, dq_contentType = form_type, dq_tenant = tenantID\<rparr> w of
                     (TransportError e, w1) \<Rightarrow> (Inl (annotated ''docling service call failed'' e), w1)
                   | (Response status _ (bodyBytes, readErr), w1) \<Rightarrow>
                       if status \<noteq> 200
                       then (Inl (ErrorString (''docling service error (status '' @ Itoa status @ ''): '' @ bodyBytes)), w1)
                       else (case readErr of
                           Some e \<Rightarrow> (Inl (annotated ''failed to read docling response'' e), w1)
                         | None \<Rightarrow>
                             (case de_unmarshal env bodyBytes of
                                Inl _ \<Rightarrow> (Inr bodyBytes, w1)
                              | Inr (markdown, content) \<Rightarrow> (Inr (if markdown \<noteq> [] then markdown else content), w1)))))"

text \<open>The extraction library: \<open>None\<close> if it could not be initialised; its metadata are dropped.\<close>

definition extractous_Parse ::
  "(string \<Rightarrow> 'w \<Rightarrow> string result \<times> 'w) option \<Rightarrow> TenantID \<Rightarrow> string \<Rightarrow> string \<Rightarrow> 'w \<Rightarrow> string result \<times> 'w" where
  "extractous_Parse extractor tenantID contentType payload w =
     (case extractor of
        None \<Rightarrow> (Inl (ErrorString ''extractor not initialized''), w)
      | Some extract \<Rightarrow>
          (case extract payload w of
             (Inl e, w1) \<Rightarrow> (Inl (annotated ''extraction failed'' e), w1)
           | (Inr content, w1) \<Rightarrow> (Inr content, w1)))"

datatype document_parser = DoclingParser docling_config | ExtractousParser

text \<open>A parser as the ingestion manager uses it: the text it returns, which is empty beside an error.\<close>

definition parser_text ::
  "'w docling_env \<Rightarrow> (string \<Rightarrow> 'w \<Rightarrow> string result \<times> 'w) option \<Rightarrow> document_parser \<Rightarrow>
   TenantID \<Rightarrow> string \<Rightarrow> string \<Rightarrow> 'w \<Rightarrow> string \<times> 'w" where
  "parser_text env extractor p tenantID contentType payload w =
     (case (case p of
              DoclingParser cfg \<Rightarrow> docling_Parse env cfg tenantID contentType payload w
            | ExtractousParser \<Rightarrow> extractous_Parse extractor tenantID contentType payload w) of
        (Inl e, w1) \<Rightarrow> ([], w1)
      | (Inr content, w1) \<Rightarrow> (content, w1))"

section \<open>The server\<close>

record s3_options =
  so_Region :: string
  so_Credentials :: "(string \<times> string) option"
  so_BaseEndpoint :: "string option"
  so_UsePathStyle :: bool

record server_wiring =
  sw_cfg :: Config
  sw_origins :: "string list"
  sw_limiter :: WindowLimiter
  sw_Auth :: AuthManager
  sw_presignClient :: s3_options
  sw_objectStoreClient :: s3_options
  sw_Uploads :: UploadManager
  sw_Embedder :: "EmbeddingClient option"
  sw_LLM :: "ChatConfig option"
  sw_Bucket :: string
  sw_MaxObjectBytes :: int
  sw_ChunkSizeChars :: int
  sw_ChunkOverlapWords :: int
  sw_Parser :: document_parser
  sw_EmbeddingModel :: string
  sw_OpenRouterModel :: string

text \<open>A client is used only with the portkey provider and a key; an error of its constructor is dropped.\<close>

definition gateway_enabled :: "Config \<Rightarrow> bool" where
  "gateway_enabled cfg \<longleftrightarrow> cf_GatewayProvider cfg = ''portkey'' \<and> TrimSpace (cf_PortkeyAPIKey cfg) \<noteq> []"

definition success :: "'a result \<Rightarrow> 'a option" where
  "success r = (case r of Inl _ \<Rightarrow> None | Inr x \<Rightarrow> Some x)"

definition config_chat :: "Config \<Rightarrow> string \<Rightarrow> ChatConfig" where
  "config_chat cfg model =
     \<lparr>ct_BaseURL = cf_PortkeyBaseURL cfg, ct_PortkeyAPIKey = cf_PortkeyAPIKey cfg, ct_OpenRouterKey = cf_OpenRouterKey cfg,
      ct_Model = model, ct_Timeout = cf_LLMTimeout cfg, ct_ProviderHeader = []\<rparr>"

definition config_embedding :: "Config \<Rightarrow> EmbeddingConfig" where
  "config_embedding cfg =
     \<lparr>ec_BaseURL = cf_PortkeyBaseURL cfg, ec_PortkeyAPIKey = cf_PortkeyAPIKey cfg, ec_OpenRouterKey = cf_OpenRouterKey cfg,
      ec_Model = cf_EmbeddingModel cfg, ec_FallbackModel = cf_EmbeddingFallbackModel cfg, ec_Timeout = cf_LLMTimeout cfg,
      ec_ProviderHeader = [], ec_MinInterval = cf_OpenRouterMinInterval cfg, ec_RetryMax = cf_OpenRouterRetryMax cfg\<rparr>"

definition static_credentials :: "Config \<Rightarrow> (string \<times> string) option result" where
  "static_credentials cfg =
     (if TrimSpace (cf_S3AccessKey cfg) \<noteq> [] \<or> TrimSpace (cf_S3SecretKey cfg) \<noteq> [] then
        if TrimSpace (cf_S3AccessKey cfg) = [] \<or> TrimSpace (cf_S3SecretKey cfg) = []
        then Inl (ErrorString
               ''FINE_RAG_S3_ACCESS_KEY and FINE_RAG_S3_SECRET_KEY must both be set when using static credentials'')
        else Inr (Some (cf_S3AccessKey cfg, cf_S3SecretKey cfg))
      else Inr None)"

definition s3_client :: "Config \<Rightarrow> (string \<times> string) option \<Rightarrow> string \<Rightarrow> s3_options" where
  "s3_client cfg creds endpoint =
     \<lparr>so_Region = cf_S3Region cfg, so_Credentials = creds,
      so_BaseEndpoint = (if endpoint \<noteq> [] then Some endpoint else None), so_UsePathStyle = cf_S3UsePathStyle cfg\<rparr>"

definition NewServer ::
  "(string \<Rightarrow> (string \<times> string) option \<Rightarrow> error option) \<Rightarrow> Config \<Rightarrow> server_wiring result" where
  "NewServer load_aws cfg =
     (if TrimSpace (cf_JWTSecret cfg) = [] then Inl (ErrorString ''FINE_RAG_JWT_SECRET is required'')
      else if TrimSpace (cf_UploadBucket cfg) = [] then Inl (ErrorString ''FINE_RAG_S3_BUCKET is required'')
      else case static_credentials cfg of
          Inl e \<Rightarrow> Inl e
        | Inr creds \<Rightarrow>
            (case load_aws (cf_S3Region cfg) creds of
               Some e \<Rightarrow> Inl (annotated ''load aws config'' e)
             | None \<Rightarrow>
                 Inr \<lparr>sw_cfg = cfg,
                      sw_origins = remdups (filter (\<lambda>t. t \<noteq> []) (map TrimSpace (cf_AllowedOrigins cfg))),
                      sw_limiter = NewWindowLimiter (cf_RateLimitPerMin cfg),
                      sw_Auth = \<lparr>am_Secret = cf_JWTSecret cfg, am_TokenTTL = cf_TokenTTL cfg\<rparr>,
                      sw_presignClient = s3_client cfg creds (trim_right_slash (cf_UploadBaseURL cfg)),
                      sw_objectStoreClient = s3_client cfg creds (trim_right_slash (cf_S3Endpoint cfg)),
                      sw_Uploads = \<lparr>um_UploadBucket = cf_UploadBucket cfg, um_UploadBaseURL = cf_UploadBaseURL cfg,
                        um_PresignTTL = cf_PresignTTL cfg, um_MaxObjectBytes = cf_MaxObjectBytes cfg\<rparr>,
                      sw_Embedder = (if gateway_enabled cfg then success (NewEmbeddingClient (config_embedding cfg)) else None),
                      sw_LLM = (if gateway_enabled cfg
                                then success (NewChatClient (config_chat cfg (cf_OpenRouterModel cfg))) else None),
                      sw_Bucket = cf_UploadBucket cfg, sw_MaxObjectBytes = cf_MaxObjectBytes cfg,
                      sw_ChunkSizeChars = cf_ChunkSizeChars cfg, sw_ChunkOverlapWords = cf_ChunkOverlapWords cfg,
                      sw_Parser = (if cf_ParserType cfg = ''docling''
                        then DoclingParser (docling_NewAdapter
                               \<lparr>dl_Endpoint = cf_DoclingEndpoint cfg, dl_Timeout = 120 * nanos_per_second\<rparr>)
                        else ExtractousParser),
                      sw_EmbeddingModel = cf_EmbeddingModel cfg, sw_OpenRouterModel = cf_OpenRouterModel cfg\<rparr>))"

section \<open>Runtime dependencies\<close>

text \<open>\<open>connect\<close> gives the retrieval service its collaborators: the methods of the adapters, as the service calls them.\<close>

record 'w runtime_dependencies =
  rd_db :: db_pool
  rd_index :: vector_adapter
  rd_rerankerProvider :: string
  rd_embedder :: "EmbeddingClient option"
  rd_queryRewriter :: "ChatConfig option"
  rd_retrieval :: "'w retrieval_service"

record 'w drivers =
  dv_parseURL :: "string \<Rightarrow> parsed_url result"
  dv_open :: "string \<Rightarrow> error option"
  dv_ping :: "string \<Rightarrow> duration \<Rightarrow> error option"
  dv_milvus :: "'w milvus_client"
  dv_parseHost :: "string \<Rightarrow> string result"
  dv_connect :: "vector_adapter \<Rightarrow> Runtime_Config.reranker \<Rightarrow> EmbeddingClient option \<Rightarrow> ChatConfig option \<Rightarrow> 'w retrieval_service"

definition BuildRuntimeDependencies ::
  "unicode_tables \<Rightarrow> 'w drivers \<Rightarrow> environment \<Rightarrow> 'w \<Rightarrow> 'w runtime_dependencies result \<times> 'w" where
  "BuildRuntimeDependencies U dv en w =
     (case OpenPostgresDB U (dv_parseURL dv) (dv_open dv) (dv_ping dv) (LoadDatabaseConfigFromEnv U en) of
        Inl e \<Rightarrow> (Inl e, w)
      | Inr db \<Rightarrow>
          (case BuildVectorAdapters U (dv_milvus dv) (dv_parseHost dv) (LoadVectorConfigFromEnv U en) w of
             (Inl e, w1) \<Rightarrow> (Inl e, w1)
           | (Inr (index, _), w1) \<Rightarrow>
               let gatewayCfg = LoadGatewayConfigFromEnv U en
               in case BuildGatewayReranker U gatewayCfg of
                    Inl e \<Rightarrow> (Inl e, w1)
                  | Inr (rr, rerankerProvider) \<Rightarrow>
                      let serverCfg = ConfigFromEnv U en;
                          embedder = (if gateway_enabled serverCfg
                                      then success (NewEmbeddingClient (config_embedding serverCfg)) else None);
                          queryRewriter = (if gateway_enabled serverCfg \<and> cf_EnableQueryRewrite serverCfg
                                           then success (NewChatClient (config_chat serverCfg (cf_QueryRewriteModel serverCfg)))
                                           else None)
                      in (Inr \<lparr>rd_db = db, rd_index = index, rd_rerankerProvider = rerankerProvider,
                               rd_embedder = embedder, rd_queryRewriter = queryRewriter,
                               rd_retrieval = NewDeterministicRetrievalService
                                 (dv_connect dv index rr embedder queryRewriter) 0 (gc_Timeout gatewayCfg) 0\<rparr>, w1)))"

section \<open>Telemetry\<close>

definition telemetry_enabled :: "environment \<Rightarrow> bool" where
  "telemetry_enabled en \<longleftrightarrow> TrimSpace (Getenv en ''OTEL_EXPORTER_OTLP_ENDPOINT'') \<noteq> []"

definition serviceName :: "environment \<Rightarrow> string" where
  "serviceName en = (let v = TrimSpace (Getenv en ''OTEL_SERVICE_NAME'') in if v \<noteq> [] then v else ''finerag-backend'')"

text \<open>\<^verbatim>\<open>Init\<close>: what the OpenTelemetry SDK answers to the creation of the resource and of the two exporters is outside.
  The result says whether providers have been installed. The function it returns shuts them down, the meter first, and joins
  their errors.\<close>

record telemetry_sdk =
  ts_resource :: "string \<Rightarrow> error option"
  ts_traceExporter :: "error option"
  ts_metricExporter :: "error option"

definition telemetry_Init :: "telemetry_sdk \<Rightarrow> environment \<Rightarrow> bool result" where
  "telemetry_Init sdk en =
     (if \<not> telemetry_enabled en then Inr False
      else case ts_resource sdk (serviceName en) of
          Some e \<Rightarrow> Inl e
        | None \<Rightarrow>
            (case ts_traceExporter sdk of
               Some e \<Rightarrow> Inl e
             | None \<Rightarrow> (case ts_metricExporter sdk of Some e \<Rightarrow> Inl e | None \<Rightarrow> Inr True)))"

section \<open>The start sequence\<close>

datatype 'a start = Fatal string error | Listening 'a

record 'v start_env =
  st_telemetry :: telemetry_sdk
  st_drivers :: "'v boot_world drivers"
  st_glob :: "string \<Rightarrow> string list result"
  st_read :: "string \<Rightarrow> string result"
  st_exec :: "string \<Rightarrow> 'v boot_world \<Rightarrow> error option \<times> 'v boot_world"
  st_load_aws :: "string \<Rightarrow> (string \<times> string) option \<Rightarrow> error option"
  st_tables :: "'v tenant_db"
  st_now :: "string \<Rightarrow> time"

text \<open>\<^verbatim>\<open>main\<close> up to \<^verbatim>\<open>ListenAndServe\<close>: the address, the server and the retrieval service it listens with.\<close>

definition main_start ::
  "unicode_tables \<Rightarrow> 'v start_env \<Rightarrow> environment \<Rightarrow> 'v boot_world \<Rightarrow>
   (string \<times> server_wiring \<times> 'v boot_world runtime_dependencies) start \<times> 'v boot_world" where
  "main_start U env en w =
     (case telemetry_Init (st_telemetry env) en of
        Inl e \<Rightarrow> (Fatal ''failed to initialize telemetry'' e, w)
      | Inr installed \<Rightarrow>
          let cfg = ConfigFromEnv U en
          in case BuildRuntimeDependencies U (st_drivers env) en w of
               (Inl e, w1) \<Rightarrow> (Fatal ''failed to initialize runtime dependencies'' e, w1)
             | (Inr deps, w1) \<Rightarrow>
                 (case applyMigrations U (st_glob env) (st_read env) (st_exec env) w1 of
                    (Some e, w2) \<Rightarrow> (Fatal ''failed to apply migrations'' e, w2)
                  | (None, w2) \<Rightarrow>
                      (case NewServer (st_load_aws env) cfg of
                         Inl e \<Rightarrow> (Fatal ''failed to create server'' e, w2)
                       | Inr srv \<Rightarrow>
                           (case EnsureBootstrapData en (st_tables env) Background (st_now env) w2 of
                              (Some e, w3) \<Rightarrow> (Fatal ''failed to ensure bootstrap data'' e, w3)
                            | (None, w3) \<Rightarrow> (Listening (cf_Addr cfg, srv, deps), w3)))))"

section \<open>Runtime wiring and the instrumented handler\<close>

definition NewGovernanceService :: "'w audit_sink option \<Rightarrow> 'w DeterministicPolicyService" where
  "NewGovernanceService auditRepo =
     (case auditRepo of
        None \<Rightarrow> NewDeterministicPolicyServiceWithClock None
      | Some save \<Rightarrow> NewDeterministicPolicyServiceWithRepository (Some save))"

text \<open>\<open>instrument\<close> is \<^verbatim>\<open>otelhttp.NewHandler\<close>; a nil handler stays nil.\<close>

definition WrapHandler :: "environment \<Rightarrow> ('h \<Rightarrow> string \<Rightarrow> 'h) \<Rightarrow> string \<Rightarrow> 'h option \<Rightarrow> 'h option" where
  "WrapHandler en instrument name next_handler =
     (case next_handler of
        None \<Rightarrow> None
      | Some h \<Rightarrow>
          if \<not> telemetry_enabled en then Some h
          else let operationName = (if TrimSpace name = [] then ''finerag-backend'' else TrimSpace name)
               in Some (instrument h operationName))"

section \<open>Lemmas\<close>

lemma NewServer_Inr:
  "NewServer load_aws cfg = Inr s \<Longrightarrow>
   TrimSpace (cf_JWTSecret cfg) \<noteq> [] \<and> TrimSpace (cf_UploadBucket cfg) \<noteq> [] \<and> sw_cfg s = cfg \<and>
   sw_limiter s = NewWindowLimiter (cf_RateLimitPerMin cfg) \<and>
   sw_Auth s = \<lparr>am_Secret = cf_JWTSecret cfg, am_TokenTTL = cf_TokenTTL cfg\<rparr> \<and>
   sw_Embedder s = (if gateway_enabled cfg then success (NewEmbeddingClient (config_embedding cfg)) else None) \<and>
   sw_LLM s = (if gateway_enabled cfg then success (NewChatClient (config_chat cfg (cf_OpenRouterModel cfg))) else None)"
  by (auto simp: NewServer_def split: if_splits sum.splits option.splits)

lemma BuildRuntimeDependencies_Inr:
  assumes "BuildRuntimeDependencies U dv en w = (Inr deps, w')"
  shows "GatewayConfig_Validate U (LoadGatewayConfigFromEnv U en) = None \<and>
    VectorConfig_Validate U (LoadVectorConfigFromEnv U en) = None \<and>
    rd_embedder deps = (if gateway_enabled (ConfigFromEnv U en)
      then success (NewEmbeddingClient (config_embedding (ConfigFromEnv U en))) else None) \<and>
    0 < rs_rerankTimeout (rd_retrieval deps) \<and> rs_rerankTopK (rd_retrieval deps) = 5 \<and>
    rs_failureThreshold (rd_retrieval deps) = 3 \<and> rs_consecutiveRerankFailures (rd_retrieval deps) = 0"
proof -
  let ?o = "OpenPostgresDB U (dv_parseURL dv) (dv_open dv) (dv_ping dv) (LoadDatabaseConfigFromEnv U en)"
  let ?v = "BuildVectorAdapters U (dv_milvus dv) (dv_parseHost dv) (LoadVectorConfigFromEnv U en) w"
  let ?g = "BuildGatewayReranker U (LoadGatewayConfigFromEnv U en)"
  obtain db where o: "?o = Inr db" using assms by (cases ?o) (simp_all add: BuildRuntimeDependencies_def)
  obtain vr w1 where v1: "?v = (vr, w1)" by (cases ?v)
  obtain index p where v2: "vr = Inr (index, p)" using assms o v1 by (cases vr) (auto simp: BuildRuntimeDependencies_def)
  obtain rr q where g: "?g = Inr (rr, q)"
    using assms o v1 v2 by (cases ?g) (auto simp: BuildRuntimeDependencies_def Let_def)
  note v = v1 [unfolded v2]
  have deps: "rd_embedder deps = (if gateway_enabled (ConfigFromEnv U en)
      then success (NewEmbeddingClient (config_embedding (ConfigFromEnv U en))) else None)"
    "\<exists>rs. rd_retrieval deps = NewDeterministicRetrievalService rs 0 (gc_Timeout (LoadGatewayConfigFromEnv U en)) 0"
    using assms unfolding BuildRuntimeDependencies_def o v g Let_def by auto
  have "GatewayConfig_Validate U (LoadGatewayConfigFromEnv U en) = None"
    using g by (auto simp: BuildGatewayReranker_def split: option.splits)
  moreover have "VectorConfig_Validate U (LoadVectorConfigFromEnv U en) = None"
    using v by (auto simp: BuildVectorAdapters_def split: option.splits)
  ultimately show ?thesis using deps by (auto simp: NewDeterministicRetrievalService_def nanos_per_second_def)
qed

lemma EnsureBootstrapData_None:
  "EnsureBootstrapData en db ctx now w = (None, w') \<Longrightarrow> admin_name en \<noteq> [] \<and> admin_pass en \<noteq> [] \<and> admin_key en \<noteq> []"
  by (auto simp: EnsureBootstrapData_def Let_def split: if_splits)

lemma main_start_Listening:
  assumes "main_start U env en w = (Listening (addr, srv, deps), w')"
  obtains w1 w2 where "BuildRuntimeDependencies U (st_drivers env) en w = (Inr deps, w1)"
    "applyMigrations U (st_glob env) (st_read env) (st_exec env) w1 = (None, w2)"
    "NewServer (st_load_aws env) (ConfigFromEnv U en) = Inr srv" "addr = cf_Addr (ConfigFromEnv U en)"
    "EnsureBootstrapData en (st_tables env) Background (st_now env) w2 = (None, w')"
  using assms by (auto simp: main_start_def Let_def split: sum.splits prod.splits option.splits)

lemma config_positive:
  "0 < cf_RateLimitPerMin (ConfigFromEnv U en)" "0 < cf_LLMTimeout (ConfigFromEnv U en)"
  "0 < cf_OpenRouterMinInterval (ConfigFromEnv U en)" "0 \<le> cf_OpenRouterRetryMax (ConfigFromEnv U en)"
  by (simp_all add: ConfigFromEnv_def Let_def nanos_per_second_def
      setting_ok [of "\<lambda>n. n > 0", simplified] setting_ok [of "\<lambda>n. n \<ge> 0", simplified] del: EnvOrSecretAny.simps EnvBoolAny.simps)

lemma NewEmbeddingClient_cfg: "NewEmbeddingClient cfg = Inr c \<Longrightarrow> em_cfg c = embedding_defaults cfg"
  by (auto simp: NewEmbeddingClient_def Let_def split: if_splits)

lemma embedding_defaults_keep:
  assumes "0 < ec_Timeout cfg" and "0 < ec_MinInterval cfg" and "0 \<le> ec_RetryMax cfg" and "TrimSpace (ec_Model cfg) \<noteq> []"
  shows "embedding_defaults cfg = cfg \<or> embedding_defaults cfg = cfg\<lparr>ec_ProviderHeader := ''openrouter''\<rparr>"
  using assms by (simp add: embedding_defaults_def Let_def)

lemma EnvOr_nonblank: "TrimSpace d \<noteq> [] \<Longrightarrow> TrimSpace (EnvOr en k d) \<noteq> []"
  by (simp add: EnvOr_trimmed)

lemma embedding_model_nonblank: "TrimSpace (cf_EmbeddingModel (ConfigFromEnv U en)) \<noteq> []"
proof -
  have "TrimSpace ''@openrouter-key/nvidia/llama-nemotron-embed-vl-1b-v2:free'' \<noteq> []" by code_simp
  then show ?thesis by (simp add: ConfigFromEnv_def Let_def EnvOr_nonblank del: EnvOrSecretAny.simps EnvBoolAny.simps)
qed

section \<open>Properties\<close>

text \<open>C37: what listens is what is configured. The backend listens only after the gateway and vector settings were found valid,
  the migrations ran without an error and the bootstrap of the data succeeded, and never without a token secret. The
  user of the administrator is then stored and active; unless the secondary user is configured under the same name, it
  has the hashes of the configured password and API key, and over tables with distinct users and a database that works,
  it belongs to exactly the two default tenants. The limiter has the configured limit, tokens are issued and checked with
  the configured secret, and documents and queries are embedded by clients of one configuration: the configured model,
  key, timeout, spacing and number of retries.\<close>

theorem start_listens_configured:
  assumes "main_start U env en w = (Listening (addr, srv, deps), w')"
  shows "let cfg = ConfigFromEnv U en in
    GatewayConfig_Validate U (LoadGatewayConfigFromEnv U en) = None \<and> VectorConfig_Validate U (LoadVectorConfigFromEnv U en) = None \<and>
    TrimSpace (cf_JWTSecret cfg) \<noteq> [] \<and> admin_name en \<noteq> [] \<and> admin_pass en \<noteq> [] \<and> admin_key en \<noteq> [] \<and>
    (\<exists>w1 w2 a. BuildRuntimeDependencies U (st_drivers env) en w = (Inr deps, w1) \<and>
       applyMigrations U (st_glob env) (st_read env) (st_exec env) w1 = (None, w2) \<and>
       EnsureBootstrapData en (st_tables env) Background (st_now env) w2 = (None, w') \<and>
       find_user (admin_name en) (bw_users w') = Some a \<and> au_active a \<and>
       (secondary_name en \<noteq> admin_name en \<longrightarrow>
          au_password_hash a = HashSecret (admin_pass en) \<and> au_api_key_hash a = Some (HashSecret (admin_key en)) \<and>
          (working (st_tables env) \<and> users_ok w2 \<and> (\<forall>t. st_now env t \<noteq> 0) \<longrightarrow>
             {t. (au_id a, t) \<in> members w'} = {''tenant-a'', ''tenant-secondary''}))) \<and>
    addr = cf_Addr cfg \<and> am_Secret (sw_Auth srv) = cf_JWTSecret cfg \<and>
    wl_limit (sw_limiter srv) = cf_RateLimitPerMin cfg \<and> 0 < rs_rerankTimeout (rd_retrieval deps) \<and>
    sw_Embedder srv = rd_embedder deps \<and>
    (\<forall>c. sw_Embedder srv = Some c \<longrightarrow>
       ec_Model (em_cfg c) = cf_EmbeddingModel cfg \<and> ec_PortkeyAPIKey (em_cfg c) = cf_PortkeyAPIKey cfg \<and>
       ec_Timeout (em_cfg c) = cf_LLMTimeout cfg \<and> ec_MinInterval (em_cfg c) = cf_OpenRouterMinInterval cfg \<and>
       ec_RetryMax (em_cfg c) = cf_OpenRouterRetryMax cfg)"
proof -
  let ?cfg = "ConfigFromEnv U en"
  obtain w1 w2 where b: "BuildRuntimeDependencies U (st_drivers env) en w = (Inr deps, w1)"
    and n: "NewServer (st_load_aws env) ?cfg = Inr srv" and a: "addr = cf_Addr ?cfg"
    and d: "EnsureBootstrapData en (st_tables env) Background (st_now env) w2 = (None, w')"
    and m: "applyMigrations U (st_glob env) (st_read env) (st_exec env) w1 = (None, w2)"
    using main_start_Listening [OF assms] .
  note secrets = EnsureBootstrapData_None [OF d]
  obtain admin where admin: "find_user (admin_name en) (bw_users w') = Some admin" "au_active admin"
    "secondary_name en \<noteq> admin_name en \<longrightarrow> au_password_hash admin = HashSecret (admin_pass en) \<and>
       au_api_key_hash admin = Some (HashSecret (admin_key en))"
    using bootstrap_success_admin [OF d] secrets by blast
  have tenants: "{t. (au_id admin, t) \<in> members w'} = {''tenant-a'', ''tenant-secondary''}"
    if "secondary_name en \<noteq> admin_name en" "working (st_tables env)" "users_ok w2" "\<forall>t. st_now env t \<noteq> 0"
    using bootstrap_admin_tenants [OF that(2,3,4) _ _ _ that(1) d admin(1)] secrets by blast
  have boot: "\<exists>w1 w2 a. BuildRuntimeDependencies U (st_drivers env) en w = (Inr deps, w1) \<and>
       applyMigrations U (st_glob env) (st_read env) (st_exec env) w1 = (None, w2) \<and>
       EnsureBootstrapData en (st_tables env) Background (st_now env) w2 = (None, w') \<and>
       find_user (admin_name en) (bw_users w') = Some a \<and> au_active a \<and>
       (secondary_name en \<noteq> admin_name en \<longrightarrow>
          au_password_hash a = HashSecret (admin_pass en) \<and> au_api_key_hash a = Some (HashSecret (admin_key en)) \<and>
          (working (st_tables env) \<and> users_ok w2 \<and> (\<forall>t. st_now env t \<noteq> 0) \<longrightarrow>
             {t. (au_id a, t) \<in> members w'} = {''tenant-a'', ''tenant-secondary''}))"
    using b m d admin tenants by (intro exI [of _ w1] exI [of _ w2] exI [of _ admin]) blast
  note srv = NewServer_Inr [OF n] and dep = BuildRuntimeDependencies_Inr [OF b]
  have "ec_Model (em_cfg c) = cf_EmbeddingModel ?cfg \<and> ec_PortkeyAPIKey (em_cfg c) = cf_PortkeyAPIKey ?cfg \<and>
       ec_Timeout (em_cfg c) = cf_LLMTimeout ?cfg \<and> ec_MinInterval (em_cfg c) = cf_OpenRouterMinInterval ?cfg \<and>
       ec_RetryMax (em_cfg c) = cf_OpenRouterRetryMax ?cfg" if "sw_Embedder srv = Some c" for c
  proof -
    have "NewEmbeddingClient (config_embedding ?cfg) = Inr c"
      using that srv by (simp add: success_def split: if_splits sum.splits)
    from NewEmbeddingClient_cfg [OF this] embedding_defaults_keep [of "config_embedding ?cfg"] config_positive [of U en]
      embedding_model_nonblank [of U en] show ?thesis by (auto simp: config_embedding_def)
  qed
  then show ?thesis
    using srv dep a secrets boot config_positive(1) [of U en]
    by (simp add: NewWindowLimiter_def Let_def)
qed

text \<open>The search manager of a server, with the chat client as its answer generator.\<close>

definition search_manager ::
  "'w chat_env \<Rightarrow> Context option \<Rightarrow> (int \<Rightarrow> 'w \<Rightarrow> string \<times> 'w) \<Rightarrow> server_wiring \<Rightarrow> 'w SearchManager" where
  "search_manager env ctx random srv =
     \<lparr>sm_LLM = map_option (\<lambda>cfg. GenerateAnswer env cfg ctx) (sw_LLM srv), sm_random = random\<rparr>"

text \<open>Without the portkey gateway there are no answers. The default provider of the gateway is the stub, for which the server
  is created without a language model; it starts and accepts searches, and every search ends in an error, whatever
  the store holds.\<close>

theorem stub_gateway_never_answers:
  assumes "NewServer load_aws cfg = Inr srv" and "cf_GatewayProvider cfg \<noteq> ''portkey''"
  shows "sw_LLM srv = None \<and> sw_Embedder srv = None \<and>
    (\<nexists>resp. fst (HandleSearch U (search_manager env ctx random srv) body r st) = Some (HttpOK resp))"
proof -
  have none: "sw_LLM srv = None" "sw_Embedder srv = None"
    using NewServer_Inr [OF assms(1)] assms(2) by (auto simp: gateway_enabled_def)
  then have "generateFinalAnswerStrict U (search_manager env ctx random srv) q docs w = Some (Inl (ErrorString ''llm client is not configured''), w)"
    for q docs w by (simp add: generateFinalAnswerStrict_def search_manager_def)
  then show ?thesis using none
    by (cases st) (auto simp: HandleSearch_def Let_def split: sum.splits prod.splits if_splits option.splits)
qed

text \<open>A parser that fails is not the end of a document. Whatever goes wrong with the docling service or the extraction
  library, the ingestion manager sees an empty text and falls back on its own extraction; a docling response that is not
  JSON is taken as the text itself.\<close>

theorem parser_failures_are_empty:
  "(\<forall>e w'. docling_Parse env cfg t ct payload w = (Inl e, w') \<longrightarrow> parser_text env x (DoclingParser cfg) t ct payload w = ([], w')) \<and>
   parser_text env None ExtractousParser t ct payload w = ([], w) \<and>
   (dl_Endpoint cfg \<noteq> [] \<and> de_newRequest env (dl_Endpoint cfg @ ''/convert'') = None \<and>
    de_do env \<lparr>dq_url = dl_Endpoint cfg @ ''/convert'', dq_body = snd (de_form env payload),
      dq_contentType = fst (de_form env payload), dq_tenant = t\<rparr> w = (Response 200 h (raw, None), w1) \<and>
    de_unmarshal env raw = Inl e1 \<longrightarrow> parser_text env x (DoclingParser cfg) t ct payload w = (raw, w1))"
  by (cases "de_form env payload") (auto simp: parser_text_def docling_Parse_def extractous_Parse_def)

section \<open>Witnesses\<close>

definition idle_milvus :: "'w milvus_client" where
  "idle_milvus =
     \<lparr>mc_now = \<lambda>w. (0, w), mc_connect = \<lambda>c w. (None, w), mc_HasCollection = \<lambda>c w. (Inr True, w),
      mc_DescribeCollection = \<lambda>c w. (Inr [], w), mc_CreateCollection = \<lambda>c fs w. (None, w), mc_NewIndexAUTOINDEX = None,
      mc_NewSearchParam = None, mc_CreateIndex = \<lambda>c f w. (None, w), mc_LoadCollection = \<lambda>c w. (None, w),
      mc_Upsert = \<lambda>c cs w. (None, w), mc_Flush = \<lambda>c w. (None, w), mc_Query = \<lambda>c e fs k w. (Inr [], w),
      mc_Search = \<lambda>c e fs v f k w. (Inr [], w), mc_Delete = \<lambda>c e w. (None, w), mc_marshal = \<lambda>m. Inr ''{}'',
      mc_unmarshal = \<lambda>t. Inr []\<rparr>"

definition demo_start_env :: environment where
  "demo_start_env =
     \<lparr>en_lookup = [''FINE_RAG_VECTOR_PROVIDER'' \<mapsto> ''stub'', ''FINE_RAG_JWT_SECRET'' \<mapsto> ''s'',
        ''FINE_RAG_BOOTSTRAP_ADMIN_USERNAME'' \<mapsto> ''root'', ''FINE_RAG_BOOTSTRAP_ADMIN_PASSWORD'' \<mapsto> ''pw'',
        ''FINE_RAG_BOOTSTRAP_ADMIN_API_KEY'' \<mapsto> ''key''],
      en_file = Map.empty\<rparr>"

definition demo_start :: "unit start_env" where
  "demo_start =
     \<lparr>st_telemetry = \<lparr>ts_resource = \<lambda>n. None, ts_traceExporter = None, ts_metricExporter = None\<rparr>,
      st_drivers = \<lparr>dv_parseURL = \<lambda>s. Inl (ErrorString s), dv_open = \<lambda>s. None, dv_ping = \<lambda>s d. None,
        dv_milvus = idle_milvus, dv_parseHost = Inr,
        dv_connect = \<lambda>i r e q. \<lparr>rs_searcher = None, rs_reranker = None, rs_embedder = None, rs_queryRewriter = None,
          rs_clock = \<lambda>w. (0, w), rs_rerankTopK = 0, rs_rerankTimeout = 0, rs_failureThreshold = 0,
          rs_consecutiveRerankFailures = 0\<rparr>\<rparr>,
      st_glob = \<lambda>p. Inr [p], st_read = Inr, st_exec = \<lambda>sql w. (None, w), st_load_aws = \<lambda>r c. None,
      st_tables = demo_boot_db, st_now = \<lambda>t. 1\<rparr>"

lemma config_fields:
  "cf_JWTSecret (ConfigFromEnv U en) = EnvOrSecret en ''FINE_RAG_JWT_SECRET'' []"
  "cf_UploadBucket (ConfigFromEnv U en) = EnvOrAny en [''FINE_RAG_S3_BUCKET''] ''finerag-ingestion''"
  "cf_S3AccessKey (ConfigFromEnv U en) = EnvOrSecretAny en [''FINE_RAG_S3_ACCESS_KEY''] []"
  "cf_S3SecretKey (ConfigFromEnv U en) = EnvOrSecretAny en [''FINE_RAG_S3_SECRET_KEY''] []"
  "cf_GatewayProvider (ConfigFromEnv U en) = ToLower U (EnvOr en ''FINE_RAG_GATEWAY_PROVIDER'' ''stub'')"
  "cf_Addr (ConfigFromEnv U en) = EnvOr en ''FINE_RAG_HTTP_ADDR'' '':8080''"
  by (simp_all add: ConfigFromEnv_def Let_def del: EnvOrAny.simps EnvOrSecretAny.simps EnvBoolAny.simps)

lemma demo_start_config:
  "TrimSpace (cf_JWTSecret (ConfigFromEnv ascii_tables demo_start_env)) \<noteq> []"
  "TrimSpace (cf_UploadBucket (ConfigFromEnv ascii_tables demo_start_env)) \<noteq> []"
  "static_credentials (ConfigFromEnv ascii_tables demo_start_env) = Inr None"
  "cf_GatewayProvider (ConfigFromEnv ascii_tables demo_start_env) \<noteq> ''portkey''"
  "cf_Addr (ConfigFromEnv ascii_tables demo_start_env) = '':8080''"
  unfolding static_credentials_def config_fields
  by (code_simp, code_simp, code_simp, code_simp, simp add: EnvOr_trimmed Getenv_def demo_start_env_def)

lemma demo_start_gateway:
  "BuildGatewayReranker ascii_tables (LoadGatewayConfigFromEnv ascii_tables demo_start_env) = Inr (StubReranker, ''stub'')"
proof -
  let ?c = "LoadGatewayConfigFromEnv ascii_tables demo_start_env"
  have parts: "provider_setting ascii_tables demo_start_env ''FINE_RAG_GATEWAY_PROVIDER'' ''stub'' = ''stub''"
    "runtime_getEnv demo_start_env ''FINE_RAG_GATEWAY_FALLBACK_MODE'' = []"
    "runtime_getEnv demo_start_env ''FINE_RAG_RERANKER_PROVIDER'' = []"
    "ToLower ascii_tables (TrimSpace []) = []" "ToLower ascii_tables (TrimSpace ''stub'') = ''stub''" by code_simp+
  then have "gc_Provider ?c = ''stub''" "gc_FallbackMode ?c = ''retrieval_only''" "gc_RerankerProvider ?c = []"
    by (simp_all add: LoadGatewayConfigFromEnv_def Let_def)
  then show ?thesis using parts
    by (simp add: BuildGatewayReranker_def GatewayConfig_Validate_def runtime_validateFallbackMode_def)
qed

lemma demo_start_run:
  "\<exists>srv deps w'. main_start ascii_tables demo_start demo_start_env demo_boot_world = (Listening ('':8080'', srv, deps), w')"
proof -
  obtain srv where srv: "NewServer (st_load_aws demo_start) (ConfigFromEnv ascii_tables demo_start_env) = Inr srv"
    using demo_start_config by (simp add: NewServer_def demo_start_def)
  have memory: "dc_Provider (DatabaseConfig_withDefaults (LoadDatabaseConfigFromEnv ascii_tables demo_start_env)) = ''memory''"
    "ToLower ascii_tables (TrimSpace ''memory'') = ''memory''" "ToLower ascii_tables ''memory'' = ''memory''"
    by (simp add: DatabaseConfig_withDefaults_def LoadDatabaseConfigFromEnv_def provider_setting_def demo_start_env_def) code_simp+
  obtain db where db: "OpenPostgresDB ascii_tables (dv_parseURL (st_drivers demo_start)) (dv_open (st_drivers demo_start))
      (dv_ping (st_drivers demo_start)) (LoadDatabaseConfigFromEnv ascii_tables demo_start_env) = Inr db"
    by (simp add: OpenPostgresDB_def DatabaseConfig_Validate_def memory Let_def) (simp add: demo_start_def)
  have vec: "VectorConfig_Validate ascii_tables (LoadVectorConfigFromEnv ascii_tables demo_start_env) = None"
    "vc_Provider (LoadVectorConfigFromEnv ascii_tables demo_start_env) = ''stub''" by code_simp+
  have gw: "BuildGatewayReranker ascii_tables (LoadGatewayConfigFromEnv ascii_tables demo_start_env) = Inr (StubReranker, ''stub'')"
    by (rule demo_start_gateway)
  obtain deps where deps: "BuildRuntimeDependencies ascii_tables (st_drivers demo_start) demo_start_env demo_boot_world =
      (Inr deps, demo_boot_world)"
    using db vec gw by (simp add: BuildRuntimeDependencies_def BuildVectorAdapters_def Let_def)
  have mig: "applyMigrations ascii_tables (st_glob demo_start) (st_read demo_start) (st_exec demo_start) demo_boot_world = (None, demo_boot_world)"
    by code_simp
  have secrets: "admin_name demo_start_env \<noteq> []" "admin_pass demo_start_env \<noteq> []" "admin_key demo_start_env \<noteq> []" by code_simp+
  obtain w' where "EnsureBootstrapData demo_start_env (st_tables demo_start) Background (st_now demo_start) demo_boot_world = (None, w')"
    using bootstrap_run [of demo_boot_db "\<lambda>t. 1" demo_start_env Background demo_boot_world, OF demo_boot(1) _ secrets]
    by (auto simp: demo_start_def)
  moreover have "\<not> telemetry_enabled demo_start_env" by code_simp
  ultimately show ?thesis using deps mig srv demo_start_config(5) by (simp add: main_start_def telemetry_Init_def)
qed

theorem start_listens_configured_witness:
  "\<exists>srv deps w'. main_start ascii_tables demo_start demo_start_env demo_boot_world = (Listening ('':8080'', srv, deps), w') \<and>
     wl_limit (sw_limiter srv) = cf_RateLimitPerMin (ConfigFromEnv ascii_tables demo_start_env) \<and> sw_Embedder srv = rd_embedder deps \<and>
     (\<exists>a. find_user (admin_name demo_start_env) (bw_users w') = Some a \<and> au_active a)"
proof -
  obtain srv deps w' where run: "main_start ascii_tables demo_start demo_start_env demo_boot_world = (Listening ('':8080'', srv, deps), w')"
    using demo_start_run by blast
  have "\<exists>a. find_user (admin_name demo_start_env) (bw_users w') = Some a \<and> au_active a"
    using start_listens_configured [OF run] unfolding Let_def by (elim conjE exE) (intro exI conjI)
  with start_listens_configured [OF run] run show ?thesis by (simp add: Let_def)
qed

theorem stub_gateway_never_answers_witness:
  "\<exists>srv. NewServer (\<lambda>r c. None) (ConfigFromEnv ascii_tables demo_start_env) = Inr srv \<and> sw_LLM srv = None"
proof -
  obtain srv where "NewServer (\<lambda>r c. None) (ConfigFromEnv ascii_tables demo_start_env) = Inr srv"
    using demo_start_config by (simp add: NewServer_def)
  with stub_gateway_never_answers [OF this demo_start_config(4)] show ?thesis by blast
qed

theorem parser_failures_are_empty_witness:
  "parser_text \<lparr>de_form = Pair ''m'', de_newRequest = (\<lambda>u. None), de_do = (\<lambda>q w. (Response 200 [] (''raw'', None), w)),
     de_unmarshal = (\<lambda>s. Inl (ErrorString s))\<rparr> None (DoclingParser \<lparr>dl_Endpoint = ''http://d'', dl_Timeout = 1\<rparr>)
     ''t'' ''application/pdf'' ''payload'' () = (''raw'', ())"
  using parser_failures_are_empty [where env = "\<lparr>de_form = Pair ''m'', de_newRequest = (\<lambda>u. None),
      de_do = (\<lambda>q w. (Response 200 [] (''raw'', None), w)), de_unmarshal = (\<lambda>s. Inl (ErrorString s))\<rparr>"
      and x = None and cfg = "\<lparr>dl_Endpoint = ''http://d'', dl_Timeout = 1\<rparr>" and t = "''t''" and ct = "''application/pdf''"
      and payload = "''payload''" and w = "()" and h = "[]" and raw = "''raw''" and ?w1.0 = "()" and ?e1.0 = "ErrorString ''raw''"]
  by simp

end
