(* ===== verification/Api_Routes.thy ===== *)
theory Api_Routes
  imports Server_Wiring Http_Pipeline
begin

text \<open>
  The HTTP interface: the routes of \<^verbatim>\<open>MainAPIHandler\<close> in \<^verbatim>\<open>backend/mainAPIHandler.go\<close> with the middlewares in front of
  each, the matching of \<^verbatim>\<open>http.ServeMux\<close> as far as these patterns use it, and the access log of
  \<^verbatim>\<open>backend/util/serverUtil.go\<close>. The handlers behind the routes are arguments: each manager has its own theory.
\<close>

section \<open>Routes\<close>

datatype endpoint =
    Healthz | Login | ListTenants | CreateTenant | KnowledgeBases | VectorStats | Presign | SubmitJob | ListJobs | JobStream
  | RetryJob | SearchQuery | SearchStream | PurgeTenantData

datatype segment = Lit string | Wild string

datatype guard = Open | Authenticated | TenantScoped

definition api :: "string list \<Rightarrow> segment list" where
  "api parts = map Lit ([''api'', ''v1''] @ parts)"

definition routes :: "(string \<times> segment list \<times> guard \<times> endpoint) list" where
  "routes =
     [(''GET'', [Lit ''healthz''], Open, Healthz),
      (''POST'', api [''auth'', ''login''], Open, Login),
      (''GET'', api [''tenants''], Authenticated, ListTenants),
      (''POST'', api [''tenants''], Authenticated, CreateTenant),
      (''GET'', api [''knowledge-bases''], TenantScoped, KnowledgeBases),
      (''GET'', api [''tenants''] @ [Wild ''tenantId'', Lit ''vector-stats''], TenantScoped, VectorStats),
      (''POST'', api [''uploads'', ''presign''], TenantScoped, Presign),
      (''POST'', api [''ingestion'', ''jobs''], TenantScoped, SubmitJob),
      (''GET'', api [''ingestion'', ''jobs''], TenantScoped, ListJobs),
      (''GET'', api [''ingestion'', ''jobs'', ''stream''], TenantScoped, JobStream),
      (''POST'', api [''ingestion'', ''jobs''] @ [Wild ''jobId'', Lit ''retry''], TenantScoped, RetryJob),
      (''POST'', api [''search''], TenantScoped, SearchQuery),
      (''POST'', api [''search'', ''stream''], TenantScoped, SearchStream),
      (''POST'', api [''tenants''] @ [Wild ''tenantId'', Lit ''purge''], TenantScoped, PurgeTenantData)]"

text \<open>A wildcard stands for one segment that is neither empty nor a slash; \<^verbatim>\<open>GET\<close> patterns also take \<^verbatim>\<open>HEAD\<close> requests.\<close>

fun match_path :: "segment list \<Rightarrow> string list \<Rightarrow> strmap option" where
  "match_path [] [] = Some []"
| "match_path (Lit l # ps) (s # ss) = (if s = l then match_path ps ss else None)"
| "match_path (Wild x # ps) (s # ss) = (if s = [] \<or> s = ''/'' then None else map_option (Cons (x, s)) (match_path ps ss))"
| "match_path _ _ = None"

definition method_matches :: "string \<Rightarrow> string \<Rightarrow> bool" where
  "method_matches pattern_method m \<longleftrightarrow> m = pattern_method \<or> pattern_method = ''GET'' \<and> m = ''HEAD''"

datatype dispatched = Route guard endpoint strmap | NotFound | MethodNotAllowed

fun dispatch_in :: "(string \<times> segment list \<times> guard \<times> endpoint) list \<Rightarrow> string \<Rightarrow> string list \<Rightarrow> bool \<Rightarrow> dispatched" where
  "dispatch_in [] m ss known = (if known then MethodNotAllowed else NotFound)"
| "dispatch_in ((pm, pat, g, e) # rs) m ss known =
     (case match_path pat ss of
        Some b \<Rightarrow> if method_matches pm m then Route g e b else dispatch_in rs m ss True
      | None \<Rightarrow> dispatch_in rs m ss known)"

definition dispatch :: "string \<Rightarrow> string list \<Rightarrow> dispatched" where
  "dispatch m ss = dispatch_in routes m ss False"

text \<open>\<^verbatim>\<open>cleanPath\<close> of the multiplexer: a path that is not clean is answered by a redirection to the clean one; \<open>moved\<close> is its
  status, which depends on the Go release.\<close>

definition cleanPath :: "string \<Rightarrow> string" where
  "cleanPath p =
     (if p = [] then ''/''
      else let q = (if hd p \<noteq> CHR ''/'' then CHR ''/'' # p else p); np = Clean q
           in if last q = CHR ''/'' \<and> np \<noteq> ''/'' then np @ ''/'' else np)"

text \<open>The path is split before it is unescaped: \<^verbatim>\<open>url.PathUnescape\<close> is applied to every segment, and a segment that is not
  validly escaped is taken as it is. An escaped slash does not separate segments.\<close>

fun unescape :: "string \<Rightarrow> string option" where
  "unescape [] = Some []"
| "unescape (c # cs) =
     (if c = CHR ''%'' then
        (case cs of
           a # b # rest \<Rightarrow>
             (case (hex_value a, hex_value b) of
                (Some h, Some l) \<Rightarrow> map_option (Cons (char_of (16 * h + l))) (unescape rest)
              | _ \<Rightarrow> None)
         | _ \<Rightarrow> None)
      else map_option (Cons c) (unescape cs))"

definition pathUnescape :: "string \<Rightarrow> string" where
  "pathUnescape segment = (case unescape segment of Some u \<Rightarrow> u | None \<Rightarrow> segment)"

definition path_segments :: "string \<Rightarrow> string list" where
  "path_segments p = map pathUnescape (Split (drop 1 p) (CHR ''/''))"

definition guarded :: "unicode_tables \<Rightarrow> 'w Server \<Rightarrow> guard \<Rightarrow> ('w, 'a) handler \<Rightarrow> ('w, 'a) handler" where
  "guarded U s g h =
     (case g of
        Open \<Rightarrow> h
      | Authenticated \<Rightarrow> WithAuth U s h
      | TenantScoped \<Rightarrow> WithAuth U s (WithTenant s h))"

text \<open>\<open>escaped\<close> is \<^verbatim>\<open>r.URL.EscapedPath()\<close>, the path as it was sent; \<open>req_path\<close> is \<^verbatim>\<open>r.URL.Path\<close>, which the limiter and the
  access log use.\<close>

definition serve_mux ::
  "unicode_tables \<Rightarrow> 'w Server \<Rightarrow> int \<Rightarrow> string \<Rightarrow> (endpoint \<Rightarrow> strmap \<Rightarrow> ('w, 'a) handler) \<Rightarrow> ('w, 'a) handler" where
  "serve_mux U s moved escaped handlers r st =
     (if req_method r \<noteq> ''CONNECT'' \<and> cleanPath escaped \<noteq> escaped then (HttpError moved ''moved'' (cleanPath escaped), st)
      else case dispatch (req_method r) (path_segments escaped) of
          NotFound \<Rightarrow> (HttpError 404 ''not_found'' ''404 page not found'', st)
        | MethodNotAllowed \<Rightarrow> (HttpError 405 ''method_not_allowed'' ''Method Not Allowed'', st)
        | Route g e b \<Rightarrow> guarded U s g (handlers e b) r st)"

text \<open>The whole handler, less the log line: the CORS headers with the reply, if there is one.\<close>

definition MainAPIHandler ::
  "unicode_tables \<Rightarrow> 'w Server \<Rightarrow> int \<Rightarrow> string \<Rightarrow> (endpoint \<Rightarrow> strmap \<Rightarrow> ('w, 'a) handler) \<Rightarrow> server_request \<Rightarrow> 'w server_state \<Rightarrow>
   (strmap \<times> 'a http_reply option) \<times> 'w server_state" where
  "MainAPIHandler U s moved escaped handlers = WithCORS s (WithRequestID s (serve_mux U s moved escaped handlers))"

section \<open>The access log\<close>

text \<open>What a handler does to its writer: \<^verbatim>\<open>WriteHeader\<close>, and \<^verbatim>\<open>Write\<close> with the number of bytes the connection took.\<close>

datatype write_op = WriteHeader int | WriteBytes int

record accessLogWriter =
  aw_status :: int
  aw_bytes :: int

fun log_write :: "accessLogWriter \<Rightarrow> write_op \<Rightarrow> accessLogWriter" where
  "log_write w (WriteHeader code) = w\<lparr>aw_status := code\<rparr>"
| "log_write w (WriteBytes n) =
     (let w1 = (if aw_status w = 0 then w\<lparr>aw_status := 200\<rparr> else w) in w1\<lparr>aw_bytes := aw_bytes w1 + n\<rparr>)"

definition access_line ::
  "string \<Rightarrow> string \<Rightarrow> string \<Rightarrow> accessLogWriter \<Rightarrow> int \<Rightarrow> string \<Rightarrow> string \<Rightarrow> string" where
  "access_line requestID meth path w ms tenantID remote =
     ''request_id='' @ requestID @ '' method='' @ meth @ '' path='' @ path @ '' status='' @ Itoa (aw_status w) @
     '' bytes='' @ Itoa (aw_bytes w) @ '' duration_ms='' @ Itoa ms @ '' tenant='' @ tenantID @ '' remote='' @ remote"

text \<open>\<open>ops\<close> are the operations of the handler, \<open>given\<close> the response header \<^verbatim>\<open>X-Request-ID\<close> after it, \<open>ms\<close> its duration.\<close>

definition WithAccessLog :: "write_op list \<Rightarrow> string \<Rightarrow> int \<Rightarrow> server_request \<Rightarrow> string \<Rightarrow> string" where
  "WithAccessLog ops given ms r remote =
     (let wrapped = foldl log_write \<lparr>aw_status = 200, aw_bytes = 0\<rparr> ops;
          requestID = (if TrimSpace given = [] then RequestIDFromContext (req_context r) else TrimSpace given)
      in access_line requestID (req_method r) (req_path r) wrapped ms (TrimSpace (req_header r ''X-Tenant-ID'')) remote)"

section \<open>Lemmas\<close>

text \<open>Two patterns that some path matches both.\<close>

fun overlap :: "segment list \<Rightarrow> segment list \<Rightarrow> bool" where
  "overlap [] [] \<longleftrightarrow> True"
| "overlap (Lit a # ps) (Lit b # qs) \<longleftrightarrow> a = b \<and> overlap ps qs"
| "overlap (Lit a # ps) (Wild y # qs) \<longleftrightarrow> a \<noteq> [] \<and> overlap ps qs"
| "overlap (Wild x # ps) (Lit b # qs) \<longleftrightarrow> b \<noteq> [] \<and> overlap ps qs"
| "overlap (Wild x # ps) (Wild y # qs) \<longleftrightarrow> overlap ps qs"
| "overlap _ _ \<longleftrightarrow> False"

lemma overlap_sound: "match_path ps ss \<noteq> None \<Longrightarrow> match_path qs ss \<noteq> None \<Longrightarrow> overlap ps qs"
proof (induction ps qs arbitrary: ss rule: overlap.induct)
  case (2 a ps b qs)
  then show ?case by (cases ss) (auto split: if_splits)
next
  case (3 a ps y qs)
  then show ?case by (cases ss) (auto split: if_splits)
next
  case (4 x ps b qs)
  then show ?case by (cases ss) (auto split: if_splits)
next
  case (5 x ps y qs)
  then show ?case by (cases ss) (auto split: if_splits)
qed (auto elim: match_path.elims)

definition same_method :: "string \<Rightarrow> string \<Rightarrow> bool" where
  "same_method p q \<longleftrightarrow> p = q \<or> {p, q} = {''GET'', ''HEAD''}"

lemma same_method_sound: "method_matches p m \<Longrightarrow> method_matches q m \<Longrightarrow> same_method p q"
  by (auto simp: method_matches_def same_method_def)

definition clash :: "string \<times> segment list \<times> guard \<times> endpoint \<Rightarrow> string \<times> segment list \<times> guard \<times> endpoint \<Rightarrow> bool" where
  "clash = (\<lambda>(p, ps, _) (q, qs, _). same_method p q \<and> overlap ps qs)"

lemma routes_disjoint: "sorted_wrt (\<lambda>a b. \<not> clash a b) routes"
  by code_simp

lemma dispatch_in_complete:
  assumes "sorted_wrt (\<lambda>a b. \<not> clash a b) rs" and "(p, pat, g, e) \<in> set rs"
    and "match_path pat ss = Some b" and "method_matches p m"
  shows "dispatch_in rs m ss known = Route g e b"
  using assms(1,2)
proof (induction rs arbitrary: known)
  case (Cons x rs)
  obtain p' pat' g' e' where x: "x = (p', pat', g', e')" by (cases x)
  show ?case
  proof (cases "x = (p, pat, g, e)")
    case True
    then show ?thesis using assms(3,4) by simp
  next
    case False
    then have mem: "(p, pat, g, e) \<in> set rs" using Cons.prems(2) by simp
    then have "\<not> (same_method p' p \<and> overlap pat' pat)" using Cons.prems(1) x by (auto simp: clash_def)
    then have "match_path pat' ss = None \<or> \<not> method_matches p' m"
      using assms(3,4) same_method_sound overlap_sound by blast
    then show ?thesis using Cons.IH Cons.prems(1) mem x by (auto split: option.split)
  qed
qed simp

lemma dispatch_in_route:
  "dispatch_in rs m ss known = Route g e b \<Longrightarrow> \<exists>p pat. (p, pat, g, e) \<in> set rs \<and> match_path pat ss = Some b \<and> method_matches p m"
  by (induction rs m ss known rule: dispatch_in.induct) (auto split: option.splits if_splits)

lemma guard_of:
  "(p, pat, g, e) \<in> set routes \<Longrightarrow> (e \<in> {Healthz, Login} \<longleftrightarrow> g = Open) \<and> (e \<in> {ListTenants, CreateTenant} \<longleftrightarrow> g = Authenticated)"
  by (auto simp: routes_def)

text \<open>What a guard has found out about the request it passes on.\<close>

definition entitled :: "'w Server \<Rightarrow> guard \<Rightarrow> server_request \<Rightarrow> server_request \<Rightarrow> bool" where
  "entitled s g r r' \<longleftrightarrow>
     (g \<noteq> Open \<longrightarrow> (\<exists>now claims.
        VerifyJWT (sv_unmarshal s) now (TrimSpace (drop 7 (TrimSpace (req_header r ''Authorization'')))) (sv_JWTSecret s) = Inr claims \<and>
        UserIDFromContext (req_context r') = Some (sc_UID claims) \<and>
        (g = TenantScoped \<longrightarrow>
          (\<forall>t. in_scope (Some (req_context r')) t \<longleftrightarrow> t = TrimSpace (req_header r ''X-Tenant-ID'')) \<and>
          (\<exists>ctx n w w'. sv_countUserTenants s ctx (sc_UID claims) (TrimSpace (req_header r ''X-Tenant-ID'')) w = (Inr n, w') \<and> 0 < n))))"

lemma guarded_simps:
  "guarded U s Open = (\<lambda>h. h)" "guarded U s Authenticated = WithAuth U s"
  "guarded U s TenantScoped = (\<lambda>h. WithAuth U s (WithTenant s h))"
  by (simp_all add: guarded_def fun_eq_iff)

lemma guarded_gate:
  fixes s :: "'w Server"
  shows "refuses (guarded U s g :: ('w, 'a) handler \<Rightarrow> ('w, 'a) handler) r st \<or>
    (\<exists>r' st'. passes (guarded U s g :: ('w, 'a) handler \<Rightarrow> ('w, 'a) handler) r st r' st' \<and> entitled s g r r')"
proof (cases "g = Open")
  case True
  then show ?thesis by (auto simp: guarded_simps passes_def entitled_def)
next
  case closed: False
  show ?thesis
  proof (cases "refuses (WithAuth U s :: ('w, 'a) handler \<Rightarrow> ('w, 'a) handler) r st")
    case True
    then show ?thesis using closed refuses_outer [OF True, of "WithTenant s"] by (cases g) (auto simp: guarded_simps)
  next
    case False
    with WithAuth_gate [where 'a = 'a, of U s r st] obtain now w1 claims where
      jwt: "VerifyJWT (sv_unmarshal s) now (TrimSpace (drop 7 (TrimSpace (req_header r ''Authorization'')))) (sv_JWTSecret s) = Inr claims"
      and auth: "passes (WithAuth U s :: ('w, 'a) handler \<Rightarrow> ('w, 'a) handler) r st
        (r\<lparr>req_context := WithActorID (Some (WithValue (req_context r) UserIDKey (CtxInt (sc_UID claims)))) (sc_Sub claims)\<rparr>)
        (st\<lparr>srv_world := w1\<rparr>)" (is "passes _ _ _ ?r1 ?st1") by blast
    have uid: "UserIDFromContext (req_context ?r1) = Some (sc_UID claims)" by simp
    show ?thesis
    proof (cases "g = TenantScoped")
      case False
      with closed have "g = Authenticated" by (cases g) auto
      with auth jwt uid show ?thesis
        by (intro disjI2 exI [of _ ?r1] exI [of _ ?st1]) (auto simp: guarded_simps entitled_def)
    next
      case scoped: True
      show ?thesis
      proof (cases "refuses (WithTenant s :: ('w, 'a) handler \<Rightarrow> ('w, 'a) handler) ?r1 ?st1")
        case True
        with passes_refuses [OF auth] scoped show ?thesis by (simp add: guarded_simps)
      next
        case False
        with WithTenant_gate [where 'a = 'a, of s ?r1 ?st1] uid obtain n w2 st2 ctx where
          count: "sv_countUserTenants s (req_context ?r1) (sc_UID claims) (TrimSpace (req_header r ''X-Tenant-ID'')) w1 = (Inr n, w2)" "0 < n"
          and ctx: "WithTenantContext (Some (req_context ?r1)) \<lparr>tc_TenantID = TrimSpace (req_header r ''X-Tenant-ID''),
            tc_RequestID = RequestIDFromContext (req_context ?r1)\<rparr> = Inr ctx"
          and pass: "passes (WithTenant s :: ('w, 'a) handler \<Rightarrow> ('w, 'a) handler) ?r1 ?st1 (?r1\<lparr>req_context := ctx\<rparr>) st2"
          by auto
        have "UserIDFromContext ctx = Some (sc_UID claims)"
          using ctx uid by (auto simp: WithTenantContext_Inr or_background_def UserIDFromContext_def WithActorID_def WithValue_def Let_def)
        moreover have "\<forall>t. in_scope (Some ctx) t \<longleftrightarrow> t = TrimSpace (req_header r ''X-Tenant-ID'')"
          using in_scope_WithTenantContext [OF ctx] by simp
        ultimately have "entitled s g r (?r1\<lparr>req_context := ctx\<rparr>)" 
          unfolding entitled_def using jwt count
          by (intro impI exI [of _ now] exI [of _ claims] conjI) (simp_all, blast)
        moreover have "passes (guarded U s g :: ('w, 'a) handler \<Rightarrow> ('w, 'a) handler) r st (?r1\<lparr>req_context := ctx\<rparr>) st2"
          using passes_passes [OF auth pass] scoped by (simp add: guarded_simps)
        ultimately show ?thesis by blast
      qed
    qed
  qed
qed

section \<open>Properties\<close>

text \<open>No route shadows another. A request whose path matches a registered pattern and whose method fits is dispatched to
  exactly that route, with the values of its wildcards, whatever the order of registration; and what is dispatched is a
  registered route.\<close>

theorem routes_unambiguous:
  "(\<exists>p pat. (p, pat, g, e) \<in> set routes \<and> match_path pat ss = Some b \<and> method_matches p m) \<longleftrightarrow> dispatch m ss = Route g e b"
  using dispatch_in_complete [OF routes_disjoint] dispatch_in_route [of routes m ss False g e b] by (auto simp: dispatch_def)

lemma mux_gate:
  fixes s :: "'w Server" and st :: "'w server_state"
  assumes "300 \<le> moved"
  shows "(\<exists>status code msg st'. 300 \<le> status \<and>
      (\<forall>handlers :: endpoint \<Rightarrow> strmap \<Rightarrow> ('w, 'a) handler. WithRequestID s (serve_mux U s moved escaped handlers) r st =
         (HttpError status code msg, st'))) \<or>
    (\<exists>g e b r' st'. dispatch (req_method r) (path_segments escaped) = Route g e b \<and>
      (\<forall>handlers :: endpoint \<Rightarrow> strmap \<Rightarrow> ('w, 'a) handler. WithRequestID s (serve_mux U s moved escaped handlers) r st =
         handlers e b r' st') \<and>
      (g = Open \<longleftrightarrow> e \<in> {Healthz, Login}) \<and> (g = Authenticated \<longleftrightarrow> e \<in> {ListTenants, CreateTenant}) \<and> entitled s g r r')"
proof -
  let ?d = "dispatch (req_method r) (path_segments escaped)"
  obtain c w1 where "passes (WithRequestID s :: ('w, 'a) handler \<Rightarrow> ('w, 'a) handler) r st (r\<lparr>req_context := c\<rparr>) (st\<lparr>srv_world := w1\<rparr>)"
    using WithRequestID_passes [where 'a = 'a, of s r st] by (elim exE) (rule that)
  then have serve: "WithRequestID s (serve_mux U s moved escaped handlers) r st =
      serve_mux U s moved escaped handlers (r\<lparr>req_context := c\<rparr>) (st\<lparr>srv_world := w1\<rparr>)"
    for handlers :: "endpoint \<Rightarrow> strmap \<Rightarrow> ('w, 'a) handler" by (simp add: passes_def)
  show ?thesis
  proof (cases "(req_method r \<noteq> ''CONNECT'' \<and> cleanPath escaped \<noteq> escaped) \<or> (\<nexists>g e b. ?d = Route g e b)")
    case True
    have "\<exists>status code msg st'. 300 \<le> status \<and> (\<forall>handlers :: endpoint \<Rightarrow> strmap \<Rightarrow> ('w, 'a) handler.
        serve_mux U s moved escaped handlers (r\<lparr>req_context := c\<rparr>) (st\<lparr>srv_world := w1\<rparr>) = (HttpError status code msg, st'))"
    proof (cases "req_method r \<noteq> ''CONNECT'' \<and> cleanPath escaped \<noteq> escaped")
      case True
      then show ?thesis using assms by (auto simp: serve_mux_def)
    next
      case False
      then show ?thesis using True by (cases ?d) (auto simp: serve_mux_def)
    qed
    then show ?thesis unfolding serve by (rule disjI1)
  next
    case False
    then obtain g e b where d: "?d = Route g e b" by blast
    with False have mux: "serve_mux U s moved escaped handlers (r\<lparr>req_context := c\<rparr>) (st\<lparr>srv_world := w1\<rparr>) =
        guarded U s g (handlers e b) (r\<lparr>req_context := c\<rparr>) (st\<lparr>srv_world := w1\<rparr>)"
      for handlers :: "endpoint \<Rightarrow> strmap \<Rightarrow> ('w, 'a) handler" by (auto simp: serve_mux_def)
    from dispatch_in_route [OF d [unfolded dispatch_def]] guard_of
    have ge: "e \<in> {Healthz, Login} \<longleftrightarrow> g = Open" "e \<in> {ListTenants, CreateTenant} \<longleftrightarrow> g = Authenticated" by blast+
    from guarded_gate [where 'a = 'a, of U s g "r\<lparr>req_context := c\<rparr>" "st\<lparr>srv_world := w1\<rparr>"] show ?thesis
    proof
      assume "refuses (guarded U s g :: ('w, 'a) handler \<Rightarrow> ('w, 'a) handler) (r\<lparr>req_context := c\<rparr>) (st\<lparr>srv_world := w1\<rparr>)"
      then obtain status code msg st' where "400 \<le> status" "\<forall>h :: ('w, 'a) handler.
          guarded U s g h (r\<lparr>req_context := c\<rparr>) (st\<lparr>srv_world := w1\<rparr>) = (HttpError status code msg, st')"
        unfolding refuses_def by blast
      then show ?thesis unfolding serve mux by (intro disjI1 exI [of _ status] exI [of _ code] exI [of _ msg] exI [of _ st']) simp
    next
      assume "\<exists>r' st'. passes (guarded U s g :: ('w, 'a) handler \<Rightarrow> ('w, 'a) handler) (r\<lparr>req_context := c\<rparr>) (st\<lparr>srv_world := w1\<rparr>) r' st' \<and>
        entitled s g (r\<lparr>req_context := c\<rparr>) r'"
      then obtain r' st' where "\<forall>h :: ('w, 'a) handler. guarded U s g h (r\<lparr>req_context := c\<rparr>) (st\<lparr>srv_world := w1\<rparr>) = h r' st'"
        and ent: "entitled s g (r\<lparr>req_context := c\<rparr>) r'" unfolding passes_def by blast
      moreover have "entitled s g r r'" using ent by (simp add: entitled_def)
      ultimately show ?thesis unfolding serve mux using d ge
        by (intro disjI2 exI [of _ g] exI [of _ e] exI [of _ b] exI [of _ r'] exI [of _ st']) simp
    qed
  qed
qed

text \<open>C1: what stands before the handlers of the API. A preflight is answered at once. For every other request either no handler
  runs and the answer is an error or a redirection, or exactly one handler runs, that of the route of the request. Only the health check and the login run without a
  valid token; listing and creating tenants run as the user of the token; every other handler runs as that user, who is
  assigned to the tenant of the header \<^verbatim>\<open>X-Tenant-ID\<close>, in a context scoped to this tenant. The route is that of the path as
  it was sent, whatever its relation to the decoded one.\<close>

theorem api_gate:
  fixes s :: "'w Server" and st :: "'w server_state"
  assumes "300 \<le> moved"
  shows "(req_method r = ''OPTIONS'' \<and> (\<forall>handlers :: endpoint \<Rightarrow> strmap \<Rightarrow> ('w, 'a) handler.
      MainAPIHandler U s moved escaped handlers r st = ((cors_headers s r, None), st))) \<or>
    (\<exists>status code msg st'. 300 \<le> status \<and> (\<forall>handlers :: endpoint \<Rightarrow> strmap \<Rightarrow> ('w, 'a) handler.
      MainAPIHandler U s moved escaped handlers r st = ((cors_headers s r, Some (HttpError status code msg)), st'))) \<or>
    (\<exists>g e b r' st'. dispatch (req_method r) (path_segments escaped) = Route g e b \<and>
      (\<forall>handlers :: endpoint \<Rightarrow> strmap \<Rightarrow> ('w, 'a) handler.
         MainAPIHandler U s moved escaped handlers r st =
           ((cors_headers s r, Some (fst (handlers e b r' st'))), snd (handlers e b r' st'))) \<and>
      (g = Open \<longleftrightarrow> e \<in> {Healthz, Login}) \<and> (g = Authenticated \<longleftrightarrow> e \<in> {ListTenants, CreateTenant}) \<and> entitled s g r r')"
proof (cases "req_method r = ''OPTIONS''")
  case True
  then show ?thesis by (simp add: MainAPIHandler_def WithCORS_def)
next
  case False
  then have run: "MainAPIHandler U s moved escaped handlers r st =
      ((cors_headers s r, Some (fst (WithRequestID s (serve_mux U s moved escaped handlers) r st))),
       snd (WithRequestID s (serve_mux U s moved escaped handlers) r st))"
    for handlers :: "endpoint \<Rightarrow> strmap \<Rightarrow> ('w, 'a) handler"
    by (simp add: MainAPIHandler_def WithCORS_def split: prod.split)
  from mux_gate [OF assms, where 'a = 'a, of s U escaped r st] show ?thesis
  proof (elim disjE exE conjE)
    fix status code msg st'
    assume "300 \<le> status" "\<forall>handlers :: endpoint \<Rightarrow> strmap \<Rightarrow> ('w, 'a) handler.
      WithRequestID s (serve_mux U s moved escaped handlers) r st = (HttpError status code msg, st')"
    then show ?thesis by (intro disjI2 disjI1 exI [of _ status] exI [of _ code] exI [of _ msg] exI [of _ st']) (simp add: run)
  next
    fix g e b r' st'
    assume "dispatch (req_method r) (path_segments escaped) = Route g e b"
      "\<forall>handlers :: endpoint \<Rightarrow> strmap \<Rightarrow> ('w, 'a) handler.
         WithRequestID s (serve_mux U s moved escaped handlers) r st = handlers e b r' st'"
      "(g = Open) = (e \<in> {Healthz, Login})" "(g = Authenticated) = (e \<in> {ListTenants, CreateTenant})" "entitled s g r r'"
    then show ?thesis
      by (intro disjI2 exI [of _ g] exI [of _ e] exI [of _ b] exI [of _ r'] exI [of _ st']) (simp add: run)
  qed
qed

text \<open>The status that reaches the client is that of the first \<^verbatim>\<open>WriteHeader\<close>, or 200 if bytes are written before; the log has
  the last one. They agree for a handler that sets the status at most once, before it writes.\<close>

fun sent_status :: "write_op list \<Rightarrow> int" where
  "sent_status (WriteHeader code # ops) = code"
| "sent_status _ = 200"

lemma log_bytes: "aw_bytes (foldl log_write w ops) = aw_bytes w + sum_list (map (\<lambda>op. case op of WriteBytes n \<Rightarrow> n | _ \<Rightarrow> 0) ops)"
  by (induction ops arbitrary: w) (auto simp: Let_def split: write_op.split)

lemma log_status:
  "aw_status w \<noteq> 0 \<Longrightarrow> (\<forall>op \<in> set ops. \<exists>n. op = WriteBytes n) \<Longrightarrow> aw_status (foldl log_write w ops) = aw_status w"
  by (induction ops arbitrary: w) auto

lemma access_log_status:
  assumes "\<forall>op \<in> set ops. \<exists>n. op = WriteBytes n" and "code \<noteq> 0"
  shows "aw_status (foldl log_write \<lparr>aw_status = 200, aw_bytes = 0\<rparr> ops) = sent_status ops"
    "aw_status (foldl log_write \<lparr>aw_status = 200, aw_bytes = 0\<rparr> (WriteHeader code # ops)) = sent_status (WriteHeader code # ops)"
  using assms log_status [of "\<lparr>aw_status = 200, aw_bytes = 0\<rparr>" ops] log_status [of "\<lparr>aw_status = code, aw_bytes = 0\<rparr>" ops]
  by (cases ops; auto)+

section \<open>Witnesses\<close>

definition anonymous_search :: server_request where
  "anonymous_search =
     \<lparr>req_header = (\<lambda>k. []), req_context = Background, req_method = ''POST'', req_path = ''/api/v1/search''\<rparr>"

theorem api_gate_witness:
  "\<exists>status code msg. snd (fst (MainAPIHandler ascii_tables demo_server 307 ''/api/v1/search'' (\<lambda>e b r st. (HttpOK e, st)) anonymous_search demo_state)) =
     Some (HttpError status code msg)"
proof -
  have d: "dispatch (req_method anonymous_search) (path_segments ''/api/v1/search'') = Route TenantScoped SearchQuery []"
    by code_simp
  have "VerifyJWT (sv_unmarshal demo_server) now (TrimSpace (drop 7 (TrimSpace (req_header anonymous_search ''Authorization''))))
      (sv_JWTSecret demo_server) \<noteq> Inr claims" for now claims
    by (simp add: anonymous_search_def VerifyJWT_def Split_def Let_def)
  then have no: "\<not> entitled demo_server TenantScoped anonymous_search r'" for r' by (simp add: entitled_def)
  have m: "req_method anonymous_search \<noteq> ''OPTIONS''" by (simp add: anonymous_search_def)
  have moved: "300 \<le> (307 :: int)" by simp
  from api_gate [OF moved, where 'a = endpoint and s = demo_server and r = anonymous_search and st = demo_state and U = ascii_tables
      and escaped = "''/api/v1/search''"] d no m
  show ?thesis by - (elim disjE exE conjE; auto)
qed

end
