(* ===== verification/Api_Key_Auth.thy ===== *)
theory Api_Key_Auth
  imports Contracts Go_Format
begin

text \<open>
  \<^verbatim>\<open>internal/auth/apikey.go\<close>: records of API keys under the SHA-256 of the key, and the authenticator
  that turns a raw key into claims and writes an audit event for every decision. The key store is an
  interface: a lookup on a state \<open>'w\<close>; so are the audit sink and the clock, which is read twice per
  audit event.
\<close>

definition ErrAPIKeyMissing :: error where
  "ErrAPIKeyMissing = ErrorString ''api key is required''"

definition ErrAPIKeyInvalid :: error where
  "ErrAPIKeyInvalid = ErrorString ''api key is invalid''"

definition ErrAPIKeyRevoked :: error where
  "ErrAPIKeyRevoked = ErrorString ''api key is revoked''"

record APIKeyRecord =
  ak_APIKeyID :: string
  ak_TenantID :: TenantID
  ak_Subject :: string
  ak_RawKeySHA256 :: string
  ak_Revoked :: bool
  ak_RevokedAt :: time
  ak_IssuedAt :: time
  ak_AllowedScopes :: "string list"

section \<open>Key stores\<close>

text \<open>The contract of a store whose lookups see what was put: the last record under a hash.\<close>

locale key_store =
  fixes empty_store :: 's
    and put :: "APIKeyRecord \<Rightarrow> 's \<Rightarrow> 's"
    and get :: "'s \<Rightarrow> string \<Rightarrow> APIKeyRecord option"
  assumes get_empty: "get empty_store h = None"
    and get_put: "get (put r s) h = (if h = ak_RawKeySHA256 r then Some r else get s h)"
begin

lemma get_fold:
  "get (fold put rs s) h =
     (case find (\<lambda>r. ak_RawKeySHA256 r = h) (rev rs) of Some r \<Rightarrow> Some r | None \<Rightarrow> get s h)"
proof (induction rs rule: rev_induct)
  case (snoc r rs)
  then show ?case by (simp add: get_put)
qed simp

lemma get_history: "get (fold put rs empty_store) h = find (\<lambda>r. ak_RawKeySHA256 r = h) (rev rs)"
  by (simp add: get_fold get_empty split: option.split)

end

type_synonym InMemoryAPIKeyStore = "string \<Rightarrow> APIKeyRecord option"

definition NewInMemoryAPIKeyStore :: InMemoryAPIKeyStore where
  "NewInMemoryAPIKeyStore = (\<lambda>_. None)"

definition HashAPIKey :: "string \<Rightarrow> string" where
  "HashAPIKey raw = EncodeToString (Sum256 raw)"

definition Put :: "APIKeyRecord \<Rightarrow> InMemoryAPIKeyStore \<Rightarrow> InMemoryAPIKeyStore" where
  "Put r s = s(ak_RawKeySHA256 r \<mapsto> r)"

definition GetByHash :: "InMemoryAPIKeyStore \<Rightarrow> string \<Rightarrow> APIKeyRecord option" where
  "GetByHash s keySHA256 = s keySHA256"

interpretation memory_keys: key_store NewInMemoryAPIKeyStore Put GetByHash
  by unfold_locales (simp_all add: NewInMemoryAPIKeyStore_def Put_def GetByHash_def)

section \<open>The authenticator\<close>

record 'w APIKeyAuthenticator =
  au_Store :: "(Context option \<Rightarrow> string \<Rightarrow> 'w \<Rightarrow> APIKeyRecord option result \<times> 'w) option"
  au_AuditSink :: "'w audit_sink option"

definition writeAudit ::
  "'w APIKeyAuthenticator \<Rightarrow> ('w \<Rightarrow> time \<times> 'w) \<Rightarrow> Context option \<Rightarrow> RequestMetadata \<Rightarrow> string \<Rightarrow>
   AuditOutcome \<Rightarrow> strmap \<Rightarrow> 'w \<Rightarrow> 'w" where
  "writeAudit a now ctx metadata eventType outcome attrs w =
     (case au_AuditSink a of
        None \<Rightarrow> w
      | Some write \<Rightarrow>
          let (t1, w1) = now w;
              (t2, w2) = now w1
          in snd (write ctx
                \<lparr>ae_EventID = ''evt-'' @ Itoa (time_UnixNano t1), ae_TenantID = rm_TenantID metadata,
                 ae_EventType = eventType, ae_Resource = ''api_key'', ae_Actor = rm_RequestID metadata,
                 ae_Outcome = outcome, ae_OccurredAt = t2, ae_Attributes = attrs\<rparr> w2))"

definition record_claims :: "APIKeyRecord \<Rightarrow> AuthClaims" where
  "record_claims r =
     \<lparr>ac_TenantID = ak_TenantID r, ac_Subject = ak_Subject r, ac_APIKeyID = ak_APIKeyID r,
      ac_Scopes = ak_AllowedScopes r, ac_IssuedAt = ak_IssuedAt r\<rparr>"

definition Authenticate ::
  "'w APIKeyAuthenticator \<Rightarrow> ('w \<Rightarrow> time \<times> 'w) \<Rightarrow> Context option \<Rightarrow> string \<Rightarrow> RequestMetadata \<Rightarrow> 'w \<Rightarrow>
   AuthClaims result \<times> 'w" where
  "Authenticate a now ctx rawAPIKey metadata w =
     (let audit = writeAudit a now ctx metadata ''api_key.auth''
      in case au_Store a of
           None \<Rightarrow> (Inl (ErrorString ''api key store is required''), w)
         | Some getByHash \<Rightarrow>
        (case RequestMetadata_Validate metadata of
           Some e \<Rightarrow> (Inl (validation_error ''request_metadata'' e), w)
         | None \<Rightarrow>
             if rawAPIKey = []
             then (Inl ErrAPIKeyMissing, audit AuditOutcomeDenied [(''reason'', ''missing_key'')] w)
             else (case getByHash ctx (HashAPIKey rawAPIKey) w of
                 (Inl e, w1) \<Rightarrow> (Inl e, audit AuditOutcomeError [(''reason'', ''store_error'')] w1)
               | (Inr None, w1) \<Rightarrow>
                   (Inl ErrAPIKeyInvalid, audit AuditOutcomeDenied [(''reason'', ''invalid_key'')] w1)
               | (Inr (Some r), w1) \<Rightarrow>
                   if ak_Revoked r
                   then (Inl ErrAPIKeyRevoked,
                         audit AuditOutcomeDenied
                           [(''reason'', ''revoked_key''), (''api_key_id'', ak_APIKeyID r)] w1)
                   else (case AuthClaims_Validate (record_claims r) of
                       Some e \<Rightarrow>
                         (Inl (WrapError (''auth claims validation failed: '' @ error_text e) e),
                          audit AuditOutcomeError
                            [(''reason'', ''invalid_claims''), (''api_key_id'', ak_APIKeyID r)] w1)
                     | None \<Rightarrow>
                         (Inr (record_claims r),
                          audit AuditOutcomeAllowed [(''api_key_id'', ak_APIKeyID r)] w1)))))"

section \<open>Lemmas\<close>

text \<open>An authenticator over an in-memory store, with a sink that appends to a log and may report an error
  of its own, and a clock.\<close>

definition logged ::
  "InMemoryAPIKeyStore \<Rightarrow> (AuditEvent \<Rightarrow> error option) \<Rightarrow> AuditEvent list APIKeyAuthenticator" where
  "logged store fails =
     \<lparr>au_Store = Some (\<lambda>ctx h w. (Inr (GetByHash store h), w)),
      au_AuditSink = Some (\<lambda>ctx ev w. (fails ev, w @ [ev]))\<rparr>"

lemma writeAudit_logged:
  "\<exists>ev. writeAudit (logged store fails) (\<lambda>w. (t w, w)) ctx m ty out attrs evs = evs @ [ev] \<and>
     ae_TenantID ev = rm_TenantID m \<and> ae_Outcome ev = out"
  by (simp add: writeAudit_def logged_def)

section \<open>Properties\<close>

text \<open>C14: API key authentication is exact and audited. After any registrations, a request with valid metadata
  is authenticated exactly when its key is not empty and the last record registered under the key's
  hash is not revoked and carries valid claims; the claims are that record's, and so is their tenant,
  whatever tenant the metadata names. Every such request writes one audit event for the metadata's
  tenant, with the outcome \<^verbatim>\<open>allowed\<close> exactly on success, also when the sink reports an error.\<close>

theorem authenticate_exact:
  assumes "RequestMetadata_Validate metadata = None"
  shows "\<exists>res ev.
    Authenticate (logged (fold Put records NewInMemoryAPIKeyStore) fails) (\<lambda>w. (t w, w)) ctx raw metadata evs =
      (res, evs @ [ev]) \<and>
    ae_TenantID ev = rm_TenantID metadata \<and>
    (ae_Outcome ev = AuditOutcomeAllowed \<longleftrightarrow> (\<exists>claims. res = Inr claims)) \<and>
    (\<forall>claims. res = Inr claims \<longleftrightarrow>
       raw \<noteq> [] \<and> (\<exists>r. find (\<lambda>r. ak_RawKeySHA256 r = HashAPIKey raw) (rev records) = Some r \<and>
         \<not> ak_Revoked r \<and> claims = record_claims r \<and> AuthClaims_Validate claims = None))"
proof -
  let ?a = "logged (fold Put records NewInMemoryAPIKeyStore) fails"
  let ?r = "find (\<lambda>r. ak_RawKeySHA256 r = HashAPIKey raw) (rev records)"
  have store: "au_Store ?a = Some (\<lambda>ctx h w. (Inr (find (\<lambda>r. ak_RawKeySHA256 r = h) (rev records)), w))"
    by (simp add: logged_def memory_keys.get_history)
  note [simp del] = AuthClaims_Validate_None RequestMetadata_Validate_None
  consider "raw = []" | "raw \<noteq> []" "?r = None" | r where "raw \<noteq> []" "?r = Some r" "ak_Revoked r"
    | r e where "raw \<noteq> []" "?r = Some r" "\<not> ak_Revoked r" "AuthClaims_Validate (record_claims r) = Some e"
    | r where "raw \<noteq> []" "?r = Some r" "\<not> ak_Revoked r" "AuthClaims_Validate (record_claims r) = None"
    by (metis option.exhaust)
  then obtain res out attrs where
    run: "Authenticate ?a (\<lambda>w. (t w, w)) ctx raw metadata evs =
      (res, writeAudit ?a (\<lambda>w. (t w, w)) ctx metadata ''api_key.auth'' out attrs evs)"
    and out: "out = AuditOutcomeAllowed \<longleftrightarrow> (\<exists>claims. res = Inr claims)"
    and res: "\<forall>claims. res = Inr claims \<longleftrightarrow> raw \<noteq> [] \<and> (\<exists>r. ?r = Some r \<and>
         \<not> ak_Revoked r \<and> claims = record_claims r \<and> AuthClaims_Validate claims = None)"
    by cases (auto intro!: that simp: Authenticate_def store assms)
  from writeAudit_logged [of "fold Put records NewInMemoryAPIKeyStore" fails t ctx metadata
      "''api_key.auth''" out attrs evs] run out res show ?thesis by auto
qed

section \<open>Witnesses\<close>

definition demo_key :: APIKeyRecord where
  "demo_key =
     \<lparr>ak_APIKeyID = ''k1'', ak_TenantID = ''acme'', ak_Subject = ''svc'', ak_RawKeySHA256 = HashAPIKey ''secret'',
      ak_Revoked = False, ak_RevokedAt = 0, ak_IssuedAt = 1, ak_AllowedScopes = []\<rparr>"

theorem authenticate_exact_witness:
  "\<exists>ev. Authenticate (logged (fold Put [demo_key] NewInMemoryAPIKeyStore) (\<lambda>_. None)) (\<lambda>w. (7, w)) None
     ''secret'' \<lparr>rm_TenantID = ''other'', rm_RequestID = ''r'', rm_SourceIP = [], rm_UserAgent = []\<rparr> [] =
     (Inr (record_claims demo_key), [ev])"
proof -
  let ?m = "\<lparr>rm_TenantID = ''other'', rm_RequestID = ''r'', rm_SourceIP = [], rm_UserAgent = []\<rparr>"
  have m: "RequestMetadata_Validate ?m = None" by simp
  have claims: "AuthClaims_Validate (record_claims demo_key) = None"
    by (simp add: record_claims_def demo_key_def)
  have "find (\<lambda>r. ak_RawKeySHA256 r = HashAPIKey ''secret'') (rev [demo_key]) = Some demo_key"
    "\<not> ak_Revoked demo_key" by (simp_all add: demo_key_def)
  with claims authenticate_exact [OF m, of "[demo_key]" "\<lambda>_. None" "\<lambda>_. 7" None "''secret''" "[]"]
  show ?thesis by fastforce
qed

end
