(* ===== verification/Spec2Isabelle.thy ===== *)
theory Spec2Isabelle
  imports Api_Routes Api_Key_Auth
begin

text \<open>
  \<^bold>\<open>FineRAG backend: a verification development.\<close>

  The program (Go, under \<^verbatim>\<open>src/\<close>) is the backend of a multi-tenant retrieval service: users upload documents for a
  tenant, a background job or a queue worker extracts, chunks, embeds and indexes them in a vector store, and searches
  retrieve chunks of the tenant, rerank them and have a language model answer from them.

  \<^bold>\<open>How the parts interact.\<close> \<^verbatim>\<open>cmd/finerag-backend/main.go\<close> reads the configuration, builds the adapters, runs the
  migrations, creates the server with its managers, bootstraps the first users, and serves the routes of
  \<^verbatim>\<open>backend/mainAPIHandler.go\<close>. A request passes the access log, CORS and request identifier, then the token check and,
  on tenant routes, the tenant check and the window limiter, and reaches a manager in \<^verbatim>\<open>backend/managers\<close>. The managers
  use the retrieval service, the vector store, the gateway clients, the object store and the tables of the database. Beside
  them stand the services of \<^verbatim>\<open>internal/\<close>: governance policy, queue and worker, repositories with tenant guards, the
  authenticator for API keys and the limiter per second.

  \<^bold>\<open>Theories and sources.\<close>
  \<^item> The Go run-time and standard library the sources use: \<open>Go_Prelude\<close> (errors, 64-bit integers, times, contexts, the
    collections of facts, frames of state changes), \<open>Go_Strings\<close>, \<open>Go_Unicode\<close>, \<open>Go_Sort\<close>, \<open>Go_Float\<close>, \<open>Go_Format\<close>, \<open>Go_Regexp\<close>, \<open>Go_Crypto\<close>,
    \<open>Go_Json\<close>, \<open>Go_Parse\<close>. Strings are byte strings, doubles are rationals with explicit rounding.
  \<^item> \<open>Contracts\<close>: \<^verbatim>\<open>internal/contracts/contracts.go\<close>, the data and its validation.
  \<^item> \<open>Tenant_Scope\<close>: \<^verbatim>\<open>internal/middleware/tenant_context.go\<close>, \<^verbatim>\<open>internal/repository/tenant_guard.go\<close>. \<open>Repository\<close>:
    \<^verbatim>\<open>internal/repository/postgres_adapter.go\<close>. \<open>Migrations\<close>: \<^verbatim>\<open>internal/repository/migration_bootstrap.go\<close> and the
    migrations of \<^verbatim>\<open>main.go\<close>.
  \<^item> \<open>Rate_Limit\<close>: \<^verbatim>\<open>internal/ratelimit/limiter.go\<close> and the window limiter of \<^verbatim>\<open>backend/util/serverUtil.go\<close>.
    \<open>Api_Key_Auth\<close>: \<^verbatim>\<open>internal/auth/apikey.go\<close>. \<open>Session_Auth\<close>: secrets and tokens of \<^verbatim>\<open>backend/util/apiutil/util.go\<close> and the
    login of \<^verbatim>\<open>backend/managers/auth.go\<close>. \<open>Http_Pipeline\<close>: the middlewares of \<^verbatim>\<open>serverUtil.go\<close>. \<open>Api_Routes\<close>:
    \<^verbatim>\<open>backend/mainAPIHandler.go\<close> and the access log.
  \<^item> \<open>Governance\<close>, \<open>Ingestion_Queue\<close>, \<open>Ingestion_Worker\<close>, \<open>Retrieval\<close>: the services under \<^verbatim>\<open>internal/services\<close>.
  \<^item> \<open>Vector_Store\<close> (the in-memory store and the provider errors), \<open>Milvus_Adapter\<close>, \<open>Rerank_Gateway\<close>,
    \<open>Embedding_Client\<close>, \<open>Chat_Client\<close>: the adapters under \<^verbatim>\<open>internal/adapters\<close>.
  \<^item> \<open>Chunking\<close>, \<open>Text_Quality\<close>, \<open>Pdf_Text\<close>: \<^verbatim>\<open>backend/util/apiutil/text.go\<close> and \<^verbatim>\<open>pdf.go\<close>.
  \<^item> \<open>Upload_Manager\<close>, \<open>Ingestion_Manager\<close>, \<open>Tenant_Manager\<close> (with the knowledge bases), \<open>Search_Manager\<close>: the managers
    of \<^verbatim>\<open>backend/managers\<close>.
  \<^item> \<open>Runtime_Config\<close>: the environment helpers, \<^verbatim>\<open>backend/util/ConfigUtil.go\<close> and \<^verbatim>\<open>internal/runtime\<close>. \<open>Bootstrap\<close>:
    \<^verbatim>\<open>EnsureBootstrapData\<close> and \<^verbatim>\<open>cmd/bootstrap-reset\<close>. \<open>Server_Wiring\<close>: \<^verbatim>\<open>NewServer\<close>, \<^verbatim>\<open>BuildRuntimeDependencies\<close>, the document
    parsers, telemetry and \<^verbatim>\<open>main\<close>.
  \<^item> This theory: properties of several components at once.

  \<^bold>\<open>State and operations.\<close> A struct is a record whose fields keep their Go names behind a prefix; a method that changes its
  receiver returns it updated; an error is a value (\<open>error option\<close>, or \<open>Inl\<close> of a result). What lies outside (HTTP transport,
  the Milvus SDK, S3, SQS, the database driver, clocks, random sources, PDF and extraction libraries, the JSON codec of
  structs) is an argument: an operation on a state \<open>'w\<close> or \<open>'v\<close>, which may fail in any way its type allows. What a
  property needs of it is a named hypothesis (such as \<open>reads_ok\<close>, \<open>writes_ok\<close> and \<open>queries_ok\<close> for the Milvus server,
  \<open>object_store_ok\<close> for the listing of S3, \<open>working\<close> for the database) and is satisfied by a concrete instance in the witness. The
  tables \<^verbatim>\<open>ingestion_jobs\<close>, \<^verbatim>\<open>tenant_registry\<close>, \<^verbatim>\<open>user_tenants\<close>, \<^verbatim>\<open>app_users\<close> and \<^verbatim>\<open>schema_migrations\<close> are modelled as lists of rows
  with the statements the code sends.

  \<^bold>\<open>Interfaces.\<close> Where several implementations share a contract it is a locale, interpreted on the model: message queues
  (\<open>message_queue\<close>), key stores (\<open>key_store\<close>), tenant stores (\<open>tenant_store\<close>), circuit breakers (\<open>circuit_breaker\<close>, on the
  Portkey and Cohere rerankers and the retrieval service), limiters against a specification by history
  (\<open>history_limiter\<close>), rounding (\<open>float_rounding\<close>), the table of versions (\<open>version_table\<close>).

  \<^bold>\<open>What is shown.\<close>
  \<^item> Access: which requests reach a handler and in which scope, from routes through tokens to the guards of the
    repositories; tokens verify exactly as signed; API keys authenticate exactly as registered; the bootstrapped
    administrator can log in and work.
  \<^item> Isolation: searches of the service and of both stores return only documents of the tenant; the in-memory store is
    free of interference; presigned keys lie under the tenant; a purge removes the data of the tenant and the tenant finds
    nothing afterwards. For the Milvus store this holds for identifiers of printable ASCII without quote and backslash; for the
    others the doubled escaping is shown to reach another tenant.
  \<^item> Ingestion: no message the worker can index is lost, retries end, processed messages are not processed again; chunkers keep all words;
    a background run indexes exactly the chunks of the objects it read; jobs have an invariant over all interleavings of
    requests and background runs, and their counts agree with the collection.
  \<^item> Robustness: retrieval succeeds whatever fails behind it; retry budgets, timeouts and limits hold; loops end.
  \<^item> Configuration and start: ranges of all settings, agreement of the readers, migrations completely, once and in order,
    idempotent bootstrap, and what holds when the process listens.
  \<^item> Text: intent ranking is a stable sort by a key, PDF segments are clean, spans of a text cover it.
  \<^item> Errors of the code that the model exhibits are proved as theorems and named as such in the text before them.

  \<^bold>\<open>Bounds, fuel and termination.\<close> Recursions are structural or have a measure. The loop over the pages of a bucket may
  run forever on a misbehaving store: it is a partial function into \<open>option\<close>, and \<open>purge_erases_tenant\<close> shows that it returns
  when the listing is finite. Greedy repetition in \<open>Go_Regexp\<close> has as fuel the length of the text, which is enough since
  every round consumes a byte. Integers are unbounded except where the code can overflow: delays and durations of the
  clients wrap at 64 bits.

  \<^bold>\<open>Not modelled.\<close> \<^verbatim>\<open>internal/logging/zap.go\<close> and all log output except the access log, since it is output only; the
  interface declaration \<^verbatim>\<open>internal/contracts/parser.go\<close>; the placeholders \<^verbatim>\<open>parseInt64Field\<close> and \<^verbatim>\<open>hashHex\<close> of the knowledge base
  manager and the copy of documents for the debug log; the listener and the shutdown of the HTTP server; data races inside one
  operation (a mutex makes it atomic, concurrent requests interleave as whole steps); infinities and NaN, which the scores of
  the program do not reach; a connection of the database that breaks between the rows of one result; the pattern matching of \<^verbatim>\<open>http.ServeMux\<close> beyond the patterns of this program.
\<close>

section \<open>Components together\<close>

text \<open>The query of \<^verbatim>\<open>userHasTenant\<close> on the modelled tables: \<^verbatim>\<open>SELECT COUNT(*) FROM user_tenants\<close>.\<close>

definition countUserTenants ::
  "'v tenant_db \<Rightarrow> Context \<Rightarrow> int \<Rightarrow> string \<Rightarrow> 'v boot_world \<Rightarrow> int result \<times> 'v boot_world" where
  "countUserTenants db ctx userID tenantID w =
     (case boot_fails db w of
        (Some e, w1) \<Rightarrow> (Inl e, w1)
      | (None, w1) \<Rightarrow> (Inr (int (length (filter (\<lambda>m. m = (userID, tenantID)) (tw_members (bw_tenants w1))))), w1))"

lemma countUserTenants_member:
  assumes "working db" and "(uid, t) \<in> members w"
  shows "\<exists>n w'. countUserTenants db ctx uid t w = (Inr n, w') \<and> 0 < n"
proof -
  obtain w1 where w1: "boot_fails db w = (None, w1)" "same_tables w w1" by (rule boot_fails_working [OF assms(1)])
  then have "filter (\<lambda>m. m = (uid, t)) (tw_members (bw_tenants w1)) \<noteq> []"
    using assms(2) by (auto simp: same_tables_def filter_empty_conv)
  with w1 show ?thesis by (simp add: countUserTenants_def)
qed

lemma new_limiter_admits: "fst (limiter_admits s key \<lparr>srv_limiter = NewWindowLimiter l, srv_world = w\<rparr>)"
  by (simp add: limiter_admits_def WindowLimiter_Allow_def NewWindowLimiter_def window_state_def time_IsZero_def
      split: prod.splits)

lemma VerifySecret_HashSecret: "VerifySecret x (HashSecret x)"
proof -
  have "TrimSpace (HashSecret x) \<noteq> []"
  proof
    assume "TrimSpace (HashSecret x) = []"
    moreover have "CHR ''s'' \<in> set (HashSecret x)" by (simp add: HashSecret_def)
    ultimately have "ascii_space (CHR ''s'') \<or> 128 \<le> byte (CHR ''s'')" using TrimSpace_Nil_bytes by blast
    then show False by (simp add: ascii_space_def byte_def)
  qed
  then show ?thesis by (simp add: VerifySecret_def HasPrefix_def HashSecret_def)
qed

text \<open>The administrator's login: the row the bootstrap has left opens it.\<close>

lemma admin_login:
  assumes "find_user (admin_name en) us = Some a" and "admin_name en \<noteq> []" and "admin_pass en \<noteq> []"
    and "au_active a \<and> au_password_hash a = HashSecret (admin_pass en) \<and> au_api_key_hash a = Some h"
    and "lr_Username req = admin_name en" and "lr_Password req = admin_pass en" and "lr_APIKey req = []"
  shows "\<exists>user token. fetchUserByUsername us (TrimSpace (lr_Username req)) = Inr user \<and> du_ID user = au_id a \<and>
    HandleLogin marshal m (fetchUserByUsername us) t0 (Inr req) = HttpOK token"
  using assms
  by (simp add: fetchUserByUsername_def HandleLogin_def EnvOrSecret_trimmed Let_def credentials_ok_def VerifySecret_HashSecret)

text \<open>C4: the configured administrator can work after a start. With a working database, the configured secrets and
  a token lifetime that has not run out, the bootstrap succeeds, the administrator logs in with the configured password,
  and the token opens every tenant route of the two default tenants on a fresh server, in a context scoped to the tenant.\<close>

theorem bootstrap_admin_can_work:
  fixes s :: "'v boot_world Server"
  assumes "working db" and "users_ok w" and "\<forall>t. now t \<noteq> 0"
    and "admin_name en \<noteq> []" and "admin_pass en \<noteq> []" and "admin_key en \<noteq> []" and "secondary_name en \<noteq> admin_name en"
    and "\<forall>c. sv_unmarshal s (marshal c) = Inr c" and "sv_JWTSecret s = am_Secret m"
    and "sv_countUserTenants s = countUserTenants db" and "\<forall>w. same_tables w (snd (sv_now s w))"
    and "\<forall>w. time_Unix (fst (sv_now s w)) < time_Unix (t0 + am_TokenTTL m)"
    and "lr_Username req = admin_name en" and "lr_Password req = admin_pass en" and "lr_APIKey req = []"
  shows "\<exists>w' token. EnsureBootstrapData en db ctx now w = (None, w') \<and>
    HandleLogin marshal m (fetchUserByUsername (bw_users w')) t0 (Inr req) = HttpOK token \<and>
    (\<forall>r t. req_header r ''Authorization'' = ''Bearer '' @ token \<and>
       TrimSpace (req_header r ''X-Tenant-ID'') = t \<and> t \<in> {''tenant-a'', ''tenant-secondary''} \<and>
       TrimSpace (TrimSpace (req_header r ''X-Request-Id'')) \<noteq> [] \<longrightarrow>
       (\<exists>r' st'. passes (tenant_route U s :: ('v boot_world, 'a) handler \<Rightarrow> ('v boot_world, 'a) handler) r
          \<lparr>srv_limiter = NewWindowLimiter l, srv_world = w'\<rparr> r' st' \<and> in_scope (Some (req_context r')) t))"
proof -
  obtain w' a b where run: "EnsureBootstrapData en db ctx now w = (None, w')" and tables: "boot_tables en now w w' a b"
    by (rule bootstrap_run [OF assms(1,3-6)])
  note mem = tables_members(1) [OF tables assms(2,7)]
  obtain user token where user: "fetchUserByUsername (bw_users w') (TrimSpace (lr_Username req)) = Inr user"
    "du_ID user = au_id a" and token: "HandleLogin marshal m (fetchUserByUsername (bw_users w')) t0 (Inr req) = HttpOK token"
    using admin_login [OF tables_users(2) [OF tables assms(2,7)] assms(4,5) tables_admin [OF tables assms(6)] assms(13-15)]
    by blast
  obtain reading w1 where now: "sv_now s w' = (reading, w1)" by fastforce
  have same: "same_tables w' w1" and time: "time_Unix reading < time_Unix (t0 + am_TokenTTL m)"
    using assms(11,12) now by (metis snd_conv, metis fst_conv)
  have "\<exists>r' st'. passes (tenant_route U s :: ('v boot_world, 'a) handler \<Rightarrow> ('v boot_world, 'a) handler) r
      \<lparr>srv_limiter = NewWindowLimiter l, srv_world = w'\<rparr> r' st' \<and> in_scope (Some (req_context r')) t"
    if r: "req_header r ''Authorization'' = ''Bearer '' @ token" "TrimSpace (req_header r ''X-Tenant-ID'') = t"
      "t \<in> {''tenant-a'', ''tenant-secondary''}" "TrimSpace (TrimSpace (req_header r ''X-Request-Id'')) \<noteq> []" for r t
  proof -
    have "(du_ID user, t) \<in> members w1" using mem r(3) same user(2) by (auto simp: same_tables_def)
    note member = countUserTenants_member [OF assms(1) this]
    have count: "\<forall>c. \<exists>n w2. sv_countUserTenants s c (du_ID user) t w1 = (Inr n, w2) \<and> 0 < n \<and>
        fst (limiter_admits s (t @ '':'' @ req_path r) \<lparr>srv_limiter = NewWindowLimiter l, srv_world = w2\<rparr>)"
    proof
      fix c
      obtain n w2 where "countUserTenants db c (du_ID user) t w1 = (Inr n, w2)" "0 < n" using member by blast
      then show "\<exists>n w2. sv_countUserTenants s c (du_ID user) t w1 = (Inr n, w2) \<and> 0 < n \<and>
          fst (limiter_admits s (t @ '':'' @ req_path r) \<lparr>srv_limiter = NewWindowLimiter l, srv_world = w2\<rparr>)"
        by (simp add: assms(10) new_limiter_admits)
    qed
    have "t \<noteq> []" using r(3) by auto
    from login_route_passes [where 'a = 'a and U = U and s = s and st = "\<lparr>srv_limiter = NewWindowLimiter l, srv_world = w'\<rparr>",
        OF token assms(8,9) r(1,2) this r(4) _ time user(1)] now count
    have "\<exists>r' st'. passes (tenant_route U s :: ('v boot_world, 'a) handler \<Rightarrow> ('v boot_world, 'a) handler) r
      \<lparr>srv_limiter = NewWindowLimiter l, srv_world = w'\<rparr> r' st' \<and>
      UserIDFromContext (req_context r') = Some (du_ID user) \<and> in_scope (Some (req_context r')) t"
      by simp
    then show ?thesis by (elim exE conjE) (intro exI conjI)
  qed
  with run token show ?thesis by blast
qed

text \<open>The jobs and the collection of the Milvus store.\<close>

lemma background_indexed:
  assumes "processIngestionBackground U m db task a = (None, a')" and "row \<in> set (app_jobs a')"
    and "jb_job_id row = it_jobID task" and "jb_status row = ''indexed''"
    and "untouched f m" and "\<And>v. f (snd (jd_fails db v)) = f v"
  shows "\<exists>b v1. indexPayloadArtifacts U m (it_tenantID task) (it_jobID task) (it_checksum task) (it_sourceURI task)
      (it_payload task) (app_outer a) = (Inr (jb_chunk_count row, b), v1) \<and> f (app_outer a') = f v1"
proof -
  obtain res v1 where run: "indexPayloadArtifacts U m (it_tenantID task) (it_jobID task) (it_checksum task) (it_sourceURI task)
      (it_payload task) (app_outer a) = (res, v1)" by fastforce
  obtain now v2 where now: "im_now m v1 = (now, v2)" by fastforce
  obtain e v3 where fails: "jd_fails db v2 = (e, v3)" by fastforce
  have same: "f v3 = f v1" using assms(6) [of v2] fails untouchedD(1) [OF assms(5) now] by simp
  show ?thesis
  proof (cases res)
    case (Inl err)
    with assms(1-4) run now fails show ?thesis
      by (auto simp: processIngestionBackground_def Let_def exec_jobs_def finish_job_def finish_row_def split: option.splits if_splits)
  next
    case (Inr cb)
    with assms(1-3) run now fails same show ?thesis
      by (cases cb) (auto simp: processIngestionBackground_def Let_def exec_jobs_def finish_job_def finish_row_def
          split: option.splits if_splits)
  qed
qed

text \<open>C6: the table of jobs agrees with the collection. When a background run ends with the job marked as indexed, its
  chunk count is the number of rows of the job in the Milvus collection, all of them of the job's tenant; the rows of
  other jobs stay.\<close>

theorem job_counts_stored_rows:
  assumes "reads_ok env rows" and "writes_ok U env rows" and "im_Index m = Some (Milvus_Upsert U env)"
    and "untouched (rows \<circ> snd) m" and "keeps (rows \<circ> snd) (jd_fails db)"
    and "processIngestionBackground U m db task a = (None, a')" and "row \<in> set (app_jobs a')"
    and "jb_job_id row = it_jobID task" and "jb_status row = ''indexed''"
    and "\<forall>r \<in> set (rows (snd (app_outer a))). mr_JobID r \<noteq> it_jobID task"
  shows "let mine = filter (\<lambda>r. mr_JobID r = it_jobID task) (rows (snd (app_outer a'))) in
    int (length mine) = jb_chunk_count row \<and> (\<forall>r \<in> set mine. mr_TenantID r = it_tenantID task) \<and>
    (\<forall>r \<in> set (rows (snd (app_outer a))). \<not> HasPrefix (mr_RecordID r) (''vec-'' @ it_jobID task @ ''-'') \<longrightarrow>
       r \<in> set (rows (snd (app_outer a'))))"
proof -
  let ?j = "it_jobID task" and ?f = "rows \<circ> snd"
  have db: "?f (snd (jd_fails db v)) = ?f v" for v using assms(5) unfolding keeps_def ..
  from background_indexed [OF assms(6-9,4) db] obtain b v1 where
    run: "indexPayloadArtifacts U m (it_tenantID task) ?j (it_checksum task) (it_sourceURI task) (it_payload task)
      (app_outer a) = (Inr (jb_chunk_count row, b), v1)" and after: "?f (app_outer a') = ?f v1" by blast
  show ?thesis
  proof (cases "jb_chunk_count row = 0")
    case True
    with indexed_nothing [OF run [unfolded True] assms(4)] after assms(10) show ?thesis by simp
  next
    case False
    from indexed_run [OF run False, where f = ?f] assms(3,4) obtain rs v0 where
      up: "Milvus_Upsert U env rs v0 = (None, v1)" "int (length rs) = jb_chunk_count row" "distinct (map vr_RecordID rs)"
      and rs: "list_all (chunk_of (it_tenantID task) ?j (it_checksum task)
        (set (readStringArray (json_field (it_payload task) ''objectKeys'')))) rs"
      and v0: "rows (snd v0) = rows (snd (app_outer a))" by auto
    obtain ad w where v1: "v1 = (ad, w)" by (cases v1)
    have stored: "rows w = filter (\<lambda>r. mr_RecordID r \<notin> vr_RecordID ` set rs) (rows (snd (app_outer a))) @ map (row_of env) rs"
      using Upsert_success [OF assms(1,2) up(3) up(1) [unfolded v1]] v0 by simp
    have new: "\<forall>r \<in> set rs. mr_JobID (row_of env r) = ?j \<and> mr_TenantID (row_of env r) = it_tenantID task \<and>
        HasPrefix (vr_RecordID r) (''vec-'' @ ?j @ ''-'')"
      using rs by (auto simp: list_all_iff chunk_of_def row_of_def)
    have "filter (\<lambda>r. mr_JobID r = ?j) (rows w) = map (row_of env) rs"
      unfolding stored using new assms(10) by (auto simp: filter_empty_conv intro!: filter_True)
    moreover have "r \<in> set (rows w)" if "r \<in> set (rows (snd (app_outer a)))" "\<not> HasPrefix (mr_RecordID r) (''vec-'' @ ?j @ ''-'')" for r
      unfolding stored using that new by auto
    ultimately show ?thesis using after v1 up(2) new by auto
  qed
qed

text \<open>C5: a purged tenant finds nothing. When the purge of a tenant whose identifier is printable ASCII reports success, a text
  or vector search of the tenant on the Milvus collection it leaves returns no document. The rows that have left the
  collection are those of the escaped identifier: exactly the tenant's rows and no others when the identifier has no
  quote and no backslash. With one of them, the purge deletes the rows of another tenant and none of its own, which the
  searches, escaped in the same way, do not see either (\<open>milvus_escapes_twice\<close>).\<close>

theorem purged_tenant_finds_nothing:
  assumes "reads_ok env rows" and "writes_ok U env rows" and "queries_ok U env rows"
    and "TrimSpace (req_header r ''X-Tenant-ID'') = t" and "printable t"
    and "pe_purger store = Some (Milvus_PurgeTenant U env)"
    and "\<forall>pre tok. keeps (rows \<circ> snd) (pe_list store pre tok)" and "\<forall>key. keeps (rows \<circ> snd) (pe_delete store key)"
    and "keeps (rows \<circ> snd) (jd_fails db)"
    and "HandlePurgeTenantData U store db path body r a = Some (HttpOK n, a')"
    and "rows (snd s) = rows (snd (app_outer a'))"
    and "Milvus_Search U env t q k s = (Inr docs, ad, w) \<or> Milvus_SearchByEmbedding U env t v k s = (Inr docs, ad, w)"
  shows "docs = [] \<and>
    rows (snd (app_outer a')) = filter (\<lambda>row. mr_TenantID row \<noteq> escapeExprString t) (rows (snd (app_outer a))) \<and>
    (plain t \<longrightarrow> rows (snd (app_outer a')) = filter (\<lambda>row. mr_TenantID row \<noteq> t) (rows (snd (app_outer a))))"
proof -
  let ?f = "rows \<circ> snd"
  from purge_success [OF assms(10), unfolded assms(4)] obtain v1 v2 where
    pages: "purge_pages (pe_list store (t @ ''/'')) (pe_delete store) None 0 (app_outer a) = Some (Inr n, v1)"
    and idx: "purge_index store t v1 = (None, v2)"
    and jobs: "exec_jobs db (delete_jobs t) (a\<lparr>app_outer := v2\<rparr>) = (None, a')" by blast
  have "?f (snd (Inr n :: (string \<times> error) + int, v1)) = ?f (app_outer a)"
    by (rule purge_pages_keeps [OF pages])
      (use assms(7,8) in \<open>unfold keeps_def, blast+\<close>)
  then have "?f v1 = ?f (app_outer a)" by simp
  moreover have "rows (snd v2) = filter (\<lambda>row. mr_TenantID row \<noteq> escapeExprString t) (rows (snd v1))"
    using idx Purge_success [OF assms(1,2,5), of v1 "fst v2" "snd v2"] by (simp add: purge_index_def assms(6))
  moreover have "?f (app_outer a') = ?f v2"
  proof -
    obtain err v3 where fails: "jd_fails db v2 = (err, v3)" by (cases "jd_fails db v2") (rule that)
    with jobs have "app_outer a' = v3" by (auto simp: exec_jobs_def split: option.splits sum.splits)
    with keepsD [OF assms(9) fails] show ?thesis by simp
  qed
  ultimately have gone: "rows (snd (app_outer a')) = filter (\<lambda>row. mr_TenantID row \<noteq> escapeExprString t) (rows (snd (app_outer a)))" by simp
  then have none: "tenant_is (escapeExprString t) (rows (snd s)) = []" by (simp add: assms(11) filter_empty_conv)
  have "docs = []"
    using assms(12)
  proof
    assume "Milvus_Search U env t q k s = (Inr docs, ad, w)"
    from Search_success [OF assms(1,3,5) this] show ?thesis by (auto simp: none)
  next
    assume "Milvus_SearchByEmbedding U env t v k s = (Inr docs, ad, w)"
    from SearchByEmbedding_success [OF assms(1,3,5) this] show ?thesis by (auto simp: none)
  qed
  with gone show ?thesis by (simp add: escape_plain_iff [symmetric])
qed

section \<open>Witnesses\<close>

definition boot_server :: "unit boot_world Server" where
  "boot_server =
     \<lparr>sv_JWTSecret = am_Secret demo_manager, sv_origins = [], sv_unmarshal = demo_unmarshal, sv_now = (\<lambda>w. (0, w)),
      sv_randomID = (\<lambda>w. (''id'', w)), sv_countUserTenants = countUserTenants demo_boot_db\<rparr>"

definition boot_request :: "string \<Rightarrow> server_request" where
  "boot_request token =
     \<lparr>req_header = (\<lambda>k. if k = ''Authorization'' then ''Bearer '' @ token
        else if k = ''X-Tenant-ID'' then ''tenant-a'' else if k = ''X-Request-Id'' then ''r1'' else []),
      req_context = Background, req_method = ''POST'', req_path = ''/api/v1/search''\<rparr>"

theorem bootstrap_admin_can_work_witness:
  "\<exists>w' token r' st'. EnsureBootstrapData demo_boot_env demo_boot_db Background (\<lambda>t. 1) demo_boot_world = (None, w') \<and>
     HandleLogin demo_marshal demo_manager (fetchUserByUsername (bw_users w')) 0
       (Inr \<lparr>lr_Username = admin_name demo_boot_env, lr_Password = admin_pass demo_boot_env, lr_APIKey = []\<rparr>) = HttpOK token \<and>
     passes (tenant_route ascii_tables boot_server :: (unit boot_world, unit) handler \<Rightarrow> (unit boot_world, unit) handler)
       (boot_request token) \<lparr>srv_limiter = NewWindowLimiter 5, srv_world = w'\<rparr> r' st' \<and>
     in_scope (Some (req_context r')) ''tenant-a''"
proof -
  let ?req = "\<lparr>lr_Username = admin_name demo_boot_env, lr_Password = admin_pass demo_boot_env, lr_APIKey = []\<rparr>"
  have clock: "\<forall>t :: string. (\<lambda>t. 1 :: time) t \<noteq> 0" by simp
  have server: "\<forall>c. sv_unmarshal boot_server (demo_marshal c) = Inr c" "sv_JWTSecret boot_server = am_Secret demo_manager"
    "sv_countUserTenants boot_server = countUserTenants demo_boot_db" "\<forall>w. same_tables w (snd (sv_now boot_server w))"
    "\<forall>w. time_Unix (fst (sv_now boot_server w)) < time_Unix (0 + am_TokenTTL demo_manager)"
    by (simp_all add: boot_server_def demo_json same_tables_def demo_manager_def time_Unix_def nanos_per_second_def)
  have req: "lr_Username ?req = admin_name demo_boot_env" "lr_Password ?req = admin_pass demo_boot_env" "lr_APIKey ?req = []"
    by simp_all
  have trim: "TrimSpace ''tenant-a'' = ''tenant-a''" "TrimSpace (TrimSpace ''r1'') \<noteq> []" by code_simp+
  have head: "req_header (boot_request token) ''Authorization'' = ''Bearer '' @ token \<and>
      TrimSpace (req_header (boot_request token) ''X-Tenant-ID'') = ''tenant-a'' \<and>
      ''tenant-a'' \<in> {''tenant-a'', ''tenant-secondary''} \<and>
      TrimSpace (TrimSpace (req_header (boot_request token) ''X-Request-Id'')) \<noteq> []" for token
    using trim by (simp add: boot_request_def)
  note ok = bootstrap_admin_can_work [where 'a = unit and U = ascii_tables and l = 5 and ctx = Background,
      OF demo_boot(1,2) clock demo_boot(3-6) server req]
  from ok show ?thesis
  proof (elim exE conjE)
    fix w' token
    assume run: "EnsureBootstrapData demo_boot_env demo_boot_db Background (\<lambda>t. 1) demo_boot_world = (None, w')"
      "HandleLogin demo_marshal demo_manager (fetchUserByUsername (bw_users w')) 0 (Inr ?req) = HttpOK token"
      and routes: "\<forall>r t. req_header r ''Authorization'' = ''Bearer '' @ token \<and>
       TrimSpace (req_header r ''X-Tenant-ID'') = t \<and> t \<in> {''tenant-a'', ''tenant-secondary''} \<and>
       TrimSpace (TrimSpace (req_header r ''X-Request-Id'')) \<noteq> [] \<longrightarrow>
       (\<exists>r' st'. passes (tenant_route ascii_tables boot_server :: (unit boot_world, unit) handler \<Rightarrow> (unit boot_world, unit) handler) r
          \<lparr>srv_limiter = NewWindowLimiter 5, srv_world = w'\<rparr> r' st' \<and> in_scope (Some (req_context r')) t)"
    from routes [rule_format, OF head [of token]] run show ?thesis by (elim exE conjE) (intro exI conjI)
  qed
qed

definition milvus_manager :: "milvus_row list milvus_state IngestionManager" where
  "milvus_manager =
     \<lparr>im_Index = Some (Milvus_Upsert ascii_tables demo_milvus),
      im_GetObject = Some (\<lambda>b k v. (Inr (''shared meeting notes'', None), v)),
      im_Embedder = Some (\<lambda>t xs v. (Inr (map (\<lambda>_. [1]) xs), v)),
      im_Parser = None, im_plainText = (\<lambda>_. None), im_pages = (\<lambda>_. None), im_inflate = (\<lambda>_. None),
      im_UploadBucket = ''up'', im_MaxObjectBytes = 1000, im_ChunkSizeChars = 900, im_ChunkOverlapWords = 0,
      im_order = (\<lambda>xs. xs), im_now = (\<lambda>v. (1, v)), im_random = (\<lambda>n v. (''x'', v))\<rparr>"

definition quiet_db :: "'v jobs_db" where
  "quiet_db = \<lparr>jd_fails = (\<lambda>v. (None, v)), jd_NOW = (\<lambda>v. 2), jd_newest_first = (\<lambda>rows. rows)\<rparr>"

definition milvus_app :: "milvus_row list milvus_state app" where
  "milvus_app = \<lparr>app_jobs = [demo_job_row], app_tasks = [], app_outer = (demo_store, demo_rows)\<rparr>"

definition milvus_task :: ingestion_task where
  "milvus_task =
     \<lparr>it_jobID = ''job-x'', it_tenantID = ''acme'', it_checksum = ''c1'', it_sourceURI = ''s3://up'',
      it_payload = [(''objectKeys'', JArray [JString ''k''])]\<rparr>"

lemma milvus_run:
  "case processIngestionBackground ascii_tables milvus_manager quiet_db milvus_task milvus_app of
     (e, a') \<Rightarrow> e = None \<and> map (\<lambda>row. (jb_job_id row, jb_status row, jb_chunk_count row)) (app_jobs a') = [(''job-x'', ''indexed'', 1)]"
  by code_simp

theorem job_counts_stored_rows_witness:
  "\<exists>a'. processIngestionBackground ascii_tables milvus_manager quiet_db milvus_task milvus_app = (None, a') \<and>
     length (filter (\<lambda>r. mr_JobID r = ''job-x'') (snd (app_outer a'))) = 1"
proof -
  obtain e a' where "processIngestionBackground ascii_tables milvus_manager quiet_db milvus_task milvus_app = (e, a')"
    by (cases "processIngestionBackground ascii_tables milvus_manager quiet_db milvus_task milvus_app") (rule that)
  with milvus_run have run: "processIngestionBackground ascii_tables milvus_manager quiet_db milvus_task milvus_app = (None, a')"
    and jobs: "map (\<lambda>row. (jb_job_id row, jb_status row, jb_chunk_count row)) (app_jobs a') = [(''job-x'', ''indexed'', 1)]"
    by simp_all
  from jobs obtain row where row: "row \<in> set (app_jobs a')" "jb_job_id row = it_jobID milvus_task"
    "jb_status row = ''indexed''" "jb_chunk_count row = 1" by (auto simp: milvus_task_def)
  have env: "im_Index milvus_manager = Some (Milvus_Upsert ascii_tables demo_milvus)" "untouched (id \<circ> snd) milvus_manager"
    "keeps (id \<circ> snd) (jd_fails quiet_db :: milvus_row list milvus_state \<Rightarrow> _)"
    by (auto simp: milvus_manager_def untouched_def keeps_def quiet_db_def)
  have fresh: "\<forall>r \<in> set (id (snd (app_outer milvus_app))). mr_JobID r \<noteq> it_jobID milvus_task"
    by (simp add: milvus_app_def milvus_task_def demo_rows_def demo_row_def row_of_def demo_record_def)
  from job_counts_stored_rows [OF demo_reads demo_writes env run row(1-3) fresh] row(4) run
  show ?thesis by (simp add: Let_def milvus_task_def)
qed

definition milvus_objects :: "milvus_row list milvus_state purge_env" where
  "milvus_objects =
     \<lparr>pe_list = (\<lambda>pre tok v. (Inr ([], None), v)), pe_delete = (\<lambda>k v. (None, v)),
      pe_purger = Some (Milvus_PurgeTenant ascii_tables demo_milvus)\<rparr>"

definition purge_request :: server_request where
  "purge_request =
     \<lparr>req_header = (\<lambda>k. if k = ''X-Tenant-ID'' then ''a'' else []), req_context = Background, req_method = ''POST'',
      req_path = ''/api/v1/tenants/a/purge''\<rparr>"

lemma milvus_purge:
  "\<exists>a'. HandlePurgeTenantData ascii_tables milvus_objects quiet_db ''a'' (Inr ''PURGE'') purge_request milvus_app =
     Some (HttpOK 0, a')"
proof -
  have up: "ToUpper ascii_tables (TrimSpace ''PURGE'') = ''PURGE''" "TrimSpace ''a'' = ''a''" by code_simp+
  have "\<exists>v. Milvus_PurgeTenant ascii_tables demo_milvus ''a'' (demo_store, demo_rows) = (None, v)"
    by (simp add: Milvus_PurgeTenant_def Let_def TenantID_Validate_def demo_collection milvus_markTrace_def)
       (simp add: demo_milvus_def milvus_markTrace_def)
  then show ?thesis
    by (auto simp: HandlePurgeTenantData_def Let_def up purge_request_def milvus_objects_def purge_pages.simps [of _ _ None]
        purge_index_def milvus_app_def exec_jobs_def delete_jobs_def quiet_db_def)
qed

theorem purged_tenant_finds_nothing_witness:
  "\<exists>a' docs ad w. HandlePurgeTenantData ascii_tables milvus_objects quiet_db ''a'' (Inr ''PURGE'') purge_request milvus_app =
       Some (HttpOK 0, a') \<and> snd (app_outer a') = [demo_row ''2'' ''b'' ''a dog''] \<and>
     Milvus_Search ascii_tables demo_milvus ''a'' ''cat dog'' 5 (demo_store, snd (app_outer a')) = (Inr docs, ad, w) \<and> docs = []"
proof -
  obtain a' where purge: "HandlePurgeTenantData ascii_tables milvus_objects quiet_db ''a'' (Inr ''PURGE'') purge_request milvus_app =
      Some (HttpOK 0, a')" using milvus_purge by blast
  have "\<exists>docs ad w. Milvus_Search ascii_tables demo_milvus ''a'' ''cat dog'' 5 (demo_store, snd (app_outer a')) = (Inr docs, ad, w)"
    using demo_text(1)
    by (simp add: Milvus_Search_def Let_def TenantID_Validate_def demo_collection milvus_markTrace_def)
       (simp add: demo_milvus_def milvus_markTrace_def)
  then obtain docs ad w where search:
    "Milvus_Search ascii_tables demo_milvus ''a'' ''cat dog'' 5 (demo_store, snd (app_outer a')) = (Inr docs, ad, w)" by blast
  have env: "TrimSpace (req_header purge_request ''X-Tenant-ID'') = ''a''"
    "pe_purger milvus_objects = Some (Milvus_PurgeTenant ascii_tables demo_milvus)"
    "\<forall>pre tok. keeps (id \<circ> snd) (pe_list milvus_objects pre tok)" "\<forall>key. keeps (id \<circ> snd) (pe_delete milvus_objects key)"
    "keeps (id \<circ> snd) (jd_fails quiet_db :: milvus_row list milvus_state \<Rightarrow> _)"
    by (code_simp, simp_all add: milvus_objects_def keeps_def quiet_db_def)
  have left: "filter (\<lambda>r. mr_TenantID r \<noteq> ''a'') demo_rows = [demo_row ''2'' ''b'' ''a dog'']"
    by (simp add: demo_rows_def demo_row_def row_of_def demo_record_def)
  from purged_tenant_finds_nothing [OF demo_reads demo_writes demo_queries env(1) demo_tenants(1) env(2-5) purge _ disjI1 [OF search]]
  have "docs = [] \<and> snd (app_outer a') = filter (\<lambda>r. mr_TenantID r \<noteq> ''a'') demo_rows"
    using demo_tenants(2) by (simp add: milvus_app_def escape_plain_iff [THEN iffD2, OF demo_tenants(2)])
  with purge search left show ?thesis by auto
qed


end
